(* ===== verification/Prelude.thy ===== *)
theory Prelude
  imports Main "HOL-Library.Word" "HOL-Library.Char_ord" "HOL-Library.List_Lexorder"
    "HOL-Library.Sublist"
begin

text \<open>
  What every component of the development shares: the outcome type for code that can
  throw, the operations of \<open>std::string\<close> and \<open>std::map\<close> the sources use, the
  numeric conversions of the C library they call, and the lemma collections the
  component proofs run on.
\<close>

section \<open>Outcomes\<close>

text \<open>
  What a C++ call can do besides returning: throw an exception, read through a null pointer, or run
  into behaviour the language leaves undefined. Not returning at all is \<open>Diverged\<close>, the value of a loop whose
  fuel has run out.
\<close>

datatype failure =
    Out_Of_Range
  | Invalid_Argument
  | Null_Deref
  | Undefined_Behaviour
  | Rfa_Invalid_Usage
  | Rfa_Invalid_Configuration
  | Std_Exception

datatype 'a outcome = Done 'a | Raise failure | Diverged

fun bind_outcome :: "'a outcome \<Rightarrow> ('a \<Rightarrow> 'b outcome) \<Rightarrow> 'b outcome" where
  "bind_outcome (Done x) f = f x"
| "bind_outcome (Raise e) f = Raise e"
| "bind_outcome Diverged f = Diverged"

named_theorems outcome_simps \<open>case rules for outcomes\<close>
named_theorems string_simps \<open>facts about the string operations\<close>
named_theorems map_simps \<open>facts about the ordered maps\<close>

lemma bind_outcome_Done [outcome_simps]:
  "bind_outcome m f = Done y \<longleftrightarrow> (\<exists>x. m = Done x \<and> f x = Done y)"
  by (cases m) auto

lemma bind_outcome_Raise [outcome_simps]:
  "bind_outcome m f = Raise e \<longleftrightarrow> m = Raise e \<or> (\<exists>x. m = Done x \<and> f x = Raise e)"
  by (cases m) auto

lemma bind_outcome_Diverged [outcome_simps]:
  "bind_outcome m f = Diverged \<longleftrightarrow> m = Diverged \<or> (\<exists>x. m = Done x \<and> f x = Diverged)"
  by (cases m) auto

lemma bind_outcome_cong [fundef_cong]:
  "m = m' \<Longrightarrow> (\<And>x. m' = Done x \<Longrightarrow> f x = g x) \<Longrightarrow> bind_outcome m f = bind_outcome m' g"
  by (cases m') auto

definition the_default :: "'a \<Rightarrow> 'a option \<Rightarrow> 'a" where
  "the_default x v = (case v of None \<Rightarrow> x | Some y \<Rightarrow> y)"

lemma the_default_simps [simp]: "the_default x None = x" "the_default x (Some y) = y"
  by (simp_all add: the_default_def)

section \<open>Strings\<close>

text \<open>
  A \<open>std::string\<close> is a list of bytes. A search returns \<open>None\<close> for \<open>npos\<close>. \<open>substr\<close> throws
  \<open>out_of_range\<close> when the start lies behind the end, and clips the length.
\<close>

definition substr :: "string \<Rightarrow> nat \<Rightarrow> nat \<Rightarrow> string outcome" where
  "substr s pos n = (if pos > length s then Raise Out_Of_Range else Done (take n (drop pos s)))"

fun search :: "string \<Rightarrow> string \<Rightarrow> nat option" where
  "search pat [] = (if pat = [] then Some 0 else None)"
| "search pat (c # s) = (if prefix pat (c # s) then Some 0 else map_option Suc (search pat s))"

definition str_find :: "string \<Rightarrow> string \<Rightarrow> nat \<Rightarrow> nat option" where
  "str_find s pat pos =
     (if pos \<le> length s then map_option ((+) pos) (search pat (drop pos s)) else None)"

fun find_index :: "('a \<Rightarrow> bool) \<Rightarrow> 'a list \<Rightarrow> nat option" where
  "find_index p [] = None"
| "find_index p (x # xs) = (if p x then Some 0 else map_option Suc (find_index p xs))"

fun find_last_index :: "('a \<Rightarrow> bool) \<Rightarrow> 'a list \<Rightarrow> nat option" where
  "find_last_index p [] = None"
| "find_last_index p (x # xs) =
     (case find_last_index p xs of
        Some i \<Rightarrow> Some (Suc i)
      | None \<Rightarrow> if p x then Some 0 else None)"

lemma find_index_Some:
  "find_index p xs = Some i \<longleftrightarrow> i < length xs \<and> p (xs ! i) \<and> (\<forall>j < i. \<not> p (xs ! j))"
proof (induction xs arbitrary: i)
  case Nil
  then show ?case by simp
next
  case (Cons x xs)
  show ?case
  proof (cases i)
    case 0
    then show ?thesis by auto
  next
    case (Suc k)
    then show ?thesis using Cons[of k] by (auto simp: less_Suc_eq_0_disj)
  qed
qed

lemma find_index_None [string_simps]: "find_index p xs = None \<longleftrightarrow> (\<forall>x \<in> set xs. \<not> p x)"
  by (induction xs) auto

lemma find_last_index_None [string_simps]:
  "find_last_index p xs = None \<longleftrightarrow> (\<forall>x \<in> set xs. \<not> p x)"
  by (induction xs) (auto split: option.splits)

lemma find_index_length [string_simps]: "find_index p xs = Some i \<Longrightarrow> i < length xs"
  by (simp add: find_index_Some)

lemma take_find_index:
  "find_index p xs = Some i \<Longrightarrow> take i xs = takeWhile (\<lambda>x. \<not> p x) xs"
  by (induction xs arbitrary: i) (auto split: if_splits)

lemma drop_find_index:
  "find_index p xs = Some i \<Longrightarrow> drop i xs = dropWhile (\<lambda>x. \<not> p x) xs"
  by (induction xs arbitrary: i) (auto split: if_splits)

lemma find_last_index_rev:
  "find_last_index p xs = map_option (\<lambda>i. length xs - 1 - i) (find_index p (rev xs))"
proof (induction xs)
  case Nil
  then show ?case by simp
next
  case (Cons x xs)
  have app: "find_index p (ys @ [x]) =
      (case find_index p ys of Some i \<Rightarrow> Some i | None \<Rightarrow> if p x then Some (length ys) else None)"
    for ys by (induction ys) (auto split: option.splits)
  show ?case
    using Cons by (auto simp: app split: option.splits dest: find_index_length)
qed

lemma search_Some:
  "search pat s = Some i \<Longrightarrow> prefix pat (drop i s) \<and> i + length pat \<le> length s"
proof (induction s arbitrary: i)
  case Nil
  then show ?case by (auto split: if_splits)
next
  case (Cons c s)
  show ?case
  proof (cases "prefix pat (c # s)")
    case True
    with Cons.prems show ?thesis by (auto dest: prefix_length_le)
  next
    case False
    with Cons.prems obtain j where "search pat s = Some j" "i = Suc j" by auto
    with Cons.IH show ?thesis by auto
  qed
qed

lemma search_None: "search pat s = None \<Longrightarrow> \<not> prefix pat (drop i s) \<or> i > length s"
proof (induction s arbitrary: i)
  case Nil
  then show ?case by (auto split: if_splits)
next
  case (Cons c s)
  then show ?case by (cases i) (auto split: if_splits)
qed

lemma search_first: "search pat s = Some i \<Longrightarrow> j < i \<Longrightarrow> \<not> prefix pat (drop j s)"
proof (induction s arbitrary: i j)
  case Nil
  then show ?case by (auto split: if_splits)
next
  case (Cons c s)
  then show ?case by (cases j) (auto split: if_splits)
qed

lemma str_find_bounds:
  "str_find s pat pos = Some i \<Longrightarrow> pos \<le> i \<and> i + length pat \<le> length s"
  unfolding str_find_def
  by (auto split: if_splits dest!: search_Some)

lemma str_find_prefix: "str_find s pat pos = Some i \<Longrightarrow> prefix pat (drop i s)"
  unfolding str_find_def
  by (auto split: if_splits dest!: search_Some simp: add.commute)

lemma substr_Done [simp]: "pos \<le> length s \<Longrightarrow> substr s pos n = Done (take n (drop pos s))"
  by (simp add: substr_def)

section \<open>Ordered maps\<close>

text \<open>
  A \<open>std::map\<close> is an association list kept in key order, which is its iteration order.
  \<open>emplace\<close> (and \<open>insert\<close>) leaves an existing entry alone; \<open>assign\<close> is \<open>m[k] = v\<close>.
\<close>

type_synonym ('k, 'v) omap = "('k \<times> 'v) list"

fun emplace :: "'k::linorder \<Rightarrow> 'v \<Rightarrow> ('k, 'v) omap \<Rightarrow> ('k, 'v) omap" where
  "emplace k v [] = [(k, v)]"
| "emplace k v ((k', v') # m) =
     (if k < k' then (k, v) # (k', v') # m
      else if k = k' then (k', v') # m
      else (k', v') # emplace k v m)"

fun assign :: "'k::linorder \<Rightarrow> 'v \<Rightarrow> ('k, 'v) omap \<Rightarrow> ('k, 'v) omap" where
  "assign k v [] = [(k, v)]"
| "assign k v ((k', v') # m) =
     (if k < k' then (k, v) # (k', v') # m
      else if k = k' then (k, v) # m
      else (k', v') # assign k v m)"

definition erase :: "'k::linorder \<Rightarrow> ('k, 'v) omap \<Rightarrow> ('k, 'v) omap" where
  "erase k m = filter (\<lambda>(k', _). k' \<noteq> k) m"

definition omap_ok :: "('k::linorder, 'v) omap \<Rightarrow> bool" where
  "omap_ok m \<longleftrightarrow> sorted_wrt (<) (map fst m)"

lemma omap_ok_Nil [simp]: "omap_ok []"
  by (simp add: omap_ok_def)

lemma omap_ok_Cons [simp]: "omap_ok ((k, v) # m) \<longleftrightarrow> (\<forall>k' \<in> fst ` set m. k < k') \<and> omap_ok m"
  by (simp add: omap_ok_def)

lemma keys_emplace [map_simps]: "fst ` set (emplace k v m) = insert k (fst ` set m)"
  by (induction k v m rule: emplace.induct) auto

lemma keys_assign [map_simps]: "fst ` set (assign k v m) = insert k (fst ` set m)"
  by (induction k v m rule: assign.induct) auto

lemma omap_ok_emplace [simp]: "omap_ok m \<Longrightarrow> omap_ok (emplace k v m)"
  by (induction k v m rule: emplace.induct) (auto simp: map_simps simp del: set_map)

lemma omap_ok_assign [simp]: "omap_ok m \<Longrightarrow> omap_ok (assign k v m)"
  by (induction k v m rule: assign.induct) (auto simp: map_simps simp del: set_map)

lemma omap_ok_erase [simp]: "omap_ok m \<Longrightarrow> omap_ok (erase k m)"
  by (induction m) (auto simp: erase_def)

lemma map_of_ge_None: "\<forall>k' \<in> fst ` set m. k < k' \<Longrightarrow> map_of m (k::'k::linorder) = None"
  by (force simp: map_of_eq_None_iff)

lemma map_of_emplace:
  "omap_ok m \<Longrightarrow>
   map_of (emplace k v m) = (if map_of m k = None then (map_of m)(k \<mapsto> v) else map_of m)"
proof (induction k v m rule: emplace.induct)
  case (1 k v)
  then show ?case by (auto simp: fun_eq_iff)
next
  case (2 k v k' v' m)
  then show ?case
    using map_of_ge_None[of m k'] map_of_ge_None[of m k]
    by (fastforce simp: fun_eq_iff)
qed

lemma map_of_assign: "map_of (assign k v m) = (map_of m)(k \<mapsto> v)"
proof (induction k v m rule: assign.induct)
  case (1 k v)
  then show ?case by (auto simp: fun_eq_iff)
next
  case (2 k v k' v' m)
  then show ?case by (auto simp: fun_eq_iff)
qed

lemma map_of_erase: "map_of (erase k m) = (map_of m)(k := None)"
  by (induction m) (auto simp: erase_def fun_eq_iff)

lemma set_emplace_subset: "set (emplace k v m) \<subseteq> insert (k, v) (set m)"
  by (induction k v m rule: emplace.induct) auto

lemma set_assign_subset: "set (assign k v m) \<subseteq> insert (k, v) (set m)"
  by (induction k v m rule: assign.induct) auto

text \<open>The contract of \<open>std::map\<close> its clients rely on, and the model that keeps it.\<close>

locale std_map =
  fixes lookup :: "'m \<Rightarrow> 'k \<Rightarrow> 'v option"
    and add :: "'k \<Rightarrow> 'v \<Rightarrow> 'm \<Rightarrow> 'm"
    and put :: "'k \<Rightarrow> 'v \<Rightarrow> 'm \<Rightarrow> 'm"
    and del :: "'k \<Rightarrow> 'm \<Rightarrow> 'm"
    and ok :: "'m \<Rightarrow> bool"
  assumes lookup_add: "ok m \<Longrightarrow>
      lookup (add k v m) = (if lookup m k = None then (lookup m)(k \<mapsto> v) else lookup m)"
    and lookup_put: "ok m \<Longrightarrow> lookup (put k v m) = (lookup m)(k \<mapsto> v)"
    and lookup_del: "ok m \<Longrightarrow> lookup (del k m) = (lookup m)(k := None)"
    and ok_add: "ok m \<Longrightarrow> ok (add k v m)"
    and ok_put: "ok m \<Longrightarrow> ok (put k v m)"
    and ok_del: "ok m \<Longrightarrow> ok (del k m)"
begin

lemma put_same: "ok m \<Longrightarrow> lookup (put k v m) k = Some v"
  by (simp add: lookup_put)

lemma put_other: "ok m \<Longrightarrow> k' \<noteq> k \<Longrightarrow> lookup (put k v m) k' = lookup m k'"
  by (simp add: lookup_put)

lemma ok_fold_add: "ok m \<Longrightarrow> ok (fold (\<lambda>(k, v). add k v) kvs m)"
  by (induction kvs arbitrary: m) (auto simp: ok_add)

lemma fold_add_keeps:
  "ok m \<Longrightarrow> lookup m k = Some v \<Longrightarrow> lookup (fold (\<lambda>(k, v). add k v) kvs m) k = Some v"
proof (induction kvs arbitrary: m)
  case Nil
  then show ?case by simp
next
  case (Cons kv kvs)
  obtain a b where kv: "kv = (a, b)" by (cases kv)
  have "lookup (add a b m) k = Some v"
    using Cons.prems by (auto simp: lookup_add)
  then show ?case using Cons by (simp add: kv ok_add)
qed

text \<open>Adding a list of entries one by one keeps the first entry of each key.\<close>

lemma lookup_fold_add:
  "ok m \<Longrightarrow> lookup (fold (\<lambda>(k, v). add k v) kvs m) = map_of kvs ++ lookup m"
proof (induction kvs arbitrary: m)
  case Nil
  then show ?case by simp
next
  case (Cons kv kvs)
  obtain k v where kv: "kv = (k, v)" by (cases kv)
  have "lookup (fold (\<lambda>(k, v). add k v) kvs (add k v m)) = map_of kvs ++ lookup (add k v m)"
    using Cons by (simp add: ok_add)
  then show ?case
    using Cons.prems by (auto simp: kv lookup_add map_add_def fun_eq_iff split: option.splits)
qed

end

interpretation omap: std_map map_of emplace assign erase omap_ok
  by unfold_locales (simp_all add: map_of_emplace map_of_assign map_of_erase)

end
