(* ===== verification/Strings.thy ===== *)
theory Strings
  imports Prelude
begin

text \<open>
  The string utilities of \<open>src/src/chromium/string_util.cc\<close> (trimming) and
  \<open>src/src/chromium/string_split.cc\<close> (splitting). The index loops are kept as loops over
  the position and proved equal to the structural specifications \<open>trimmed\<close>, \<open>split_when\<close>
  and \<open>words_of\<close>.
\<close>

section \<open>Trimming\<close>

definition kWhitespaceASCII :: string where
  "kWhitespaceASCII = map char_of [0x09, 0x0A, 0x0B, 0x0C, 0x0D, 0x20 :: nat]"

text \<open>\<open>TrimPositions\<close> is a set of the two flags \<open>TRIM_LEADING\<close> and \<open>TRIM_TRAILING\<close>.\<close>

type_synonym trim_positions = "bool \<times> bool"

abbreviation TRIM_NONE :: trim_positions where "TRIM_NONE \<equiv> (False, False)"
abbreviation TRIM_ALL :: trim_positions where "TRIM_ALL \<equiv> (True, True)"

definition TrimStringT :: "string \<Rightarrow> string \<Rightarrow> trim_positions \<Rightarrow> string \<times> trim_positions" where
  "TrimStringT input trim_chars positions =
     (let last_char = length input - 1;
          first_good_char =
            (if fst positions then find_index (\<lambda>c. c \<notin> set trim_chars) input else Some 0);
          last_good_char =
            (if snd positions then find_last_index (\<lambda>c. c \<notin> set trim_chars) input
             else Some last_char)
      in case (first_good_char, last_good_char) of
           (Some i, Some j) \<Rightarrow>
             if input = [] then ([], TRIM_NONE)
             else (take (j - i + 1) (drop i input), (i \<noteq> 0, j \<noteq> last_char))
         | _ \<Rightarrow> ([], if input = [] then TRIM_NONE else positions))"

definition TrimString :: "string \<Rightarrow> string \<Rightarrow> string \<times> bool" where
  "TrimString input trim_chars =
     (let (output, positions) = TrimStringT input trim_chars TRIM_ALL
      in (output, positions \<noteq> TRIM_NONE))"

definition TrimWhitespaceASCII :: "string \<Rightarrow> trim_positions \<Rightarrow> string \<times> trim_positions" where
  "TrimWhitespaceASCII input positions = TrimStringT input kWhitespaceASCII positions"

definition TrimWhitespace :: "string \<Rightarrow> trim_positions \<Rightarrow> string \<times> trim_positions" where
  "TrimWhitespace input positions = TrimWhitespaceASCII input positions"

definition trimmed :: "(char \<Rightarrow> bool) \<Rightarrow> string \<Rightarrow> string" where
  "trimmed ws s = rev (dropWhile ws (rev (dropWhile ws s)))"

abbreviation is_ws :: "char \<Rightarrow> bool" where
  "is_ws c \<equiv> c \<in> set kWhitespaceASCII"

lemma find_last_index_takes:
  "find_last_index p xs = Some j \<Longrightarrow> take (Suc j) xs = rev (dropWhile (\<lambda>x. \<not> p x) (rev xs))"
proof -
  assume "find_last_index p xs = Some j"
  then obtain i where i: "find_index p (rev xs) = Some i" and j: "j = length xs - 1 - i"
    by (auto simp: find_last_index_rev)
  have "i < length xs" using find_index_length[OF i] by simp
  then have "length xs - i = Suc j" using j by simp
  then show ?thesis
    using drop_find_index[OF i] by (simp add: rev_drop flip: drop_find_index[OF i])
qed

lemma find_last_index_ge:
  "find_index p xs = Some i \<Longrightarrow> find_last_index p xs = Some j \<Longrightarrow> i \<le> j"
proof (induction xs arbitrary: i j)
  case Nil
  then show ?case by simp
next
  case (Cons x xs)
  then show ?case by (auto split: if_splits option.splits)
qed

lemma dropWhile_rev_take:
  "find_index p xs = Some i \<Longrightarrow> find_last_index p xs = Some j \<Longrightarrow>
   take (Suc j - i) (drop i xs) = rev (dropWhile (\<lambda>x. \<not> p x) (rev (drop i xs)))"
proof -
  assume i: "find_index p xs = Some i" and j: "find_last_index p xs = Some j"
  have len: "i < length xs" and pi: "p (xs ! i)" using i by (auto simp: find_index_Some)
  then have "\<not> (\<forall>x \<in> set (drop i xs). \<not> p x)"
    by (auto simp flip: Cons_nth_drop_Suc)
  then have "\<exists>x \<in> set (rev (drop i xs)). \<not> \<not> p x" by auto
  then have "dropWhile (\<lambda>x. \<not> p x) (rev (drop i xs) @ rev (take i xs))
      = dropWhile (\<lambda>x. \<not> p x) (rev (drop i xs)) @ rev (take i xs)"
    by (metis dropWhile_append1)
  then have "dropWhile (\<lambda>x. \<not> p x) (rev xs)
      = dropWhile (\<lambda>x. \<not> p x) (rev (drop i xs)) @ rev (take i xs)"
    by (metis append_take_drop_id rev_append)
  then have "take (Suc j) xs = take i xs @ rev (dropWhile (\<lambda>x. \<not> p x) (rev (drop i xs)))"
    using find_last_index_takes[OF j] by simp
  moreover have "take (Suc j) xs = take i xs @ take (Suc j - i) (drop i xs)"
    using find_last_index_ge[OF i j] by (metis le_SucI le_add_diff_inverse take_add)
  ultimately show ?thesis by simp
qed

text \<open>Trimming on both sides removes exactly the leading and the trailing trim characters.\<close>

lemma TrimStringT_all: "fst (TrimStringT s cs TRIM_ALL) = trimmed (\<lambda>c. c \<in> set cs) s"
proof (cases "find_index (\<lambda>c. c \<notin> set cs) s")
  case None
  then have d: "dropWhile (\<lambda>c. c \<in> set cs) s = []"
    by (auto simp: find_index_None)
  show ?thesis by (simp only: trimmed_def d) (simp add: None TrimStringT_def Let_def)
next
  case (Some i)
  then have "\<exists>x \<in> set s. x \<notin> set cs"
    by (auto simp: find_index_Some dest: nth_mem)
  then obtain j where j: "find_last_index (\<lambda>c. c \<notin> set cs) s = Some j"
    using find_last_index_None[of "\<lambda>c. c \<notin> set cs" s] by (cases "find_last_index (\<lambda>c. c \<notin> set cs) s") auto
  have "s \<noteq> []" using Some by auto
  moreover have "i \<le> j" by (rule find_last_index_ge[OF Some j])
  moreover have "drop i s = dropWhile (\<lambda>c. c \<in> set cs) s"
    using drop_find_index[OF Some] by simp
  ultimately show ?thesis
    using Some j dropWhile_rev_take[OF Some j]
    by (simp add: TrimStringT_def trimmed_def Let_def Suc_diff_le)
qed

lemma TrimWhitespace_all [string_simps]: "fst (TrimWhitespace s TRIM_ALL) = trimmed is_ws s"
  by (simp add: TrimWhitespace_def TrimWhitespaceASCII_def TrimStringT_all)

lemma dropWhile_twice: "dropWhile p (dropWhile p s) = dropWhile p s"
  by (induction s) auto

lemma trimmed_idem: "trimmed p (trimmed p s) = trimmed p s"
proof -
  let ?t = "dropWhile p (rev (dropWhile p s))"
  have "dropWhile p (rev ?t) = rev ?t"
  proof (cases "dropWhile p s")
    case Nil
    show ?thesis by (simp only: Nil) simp
  next
    case (Cons x xs)
    then have x: "\<not> p x" by (metis dropWhile_eq_Cons_conv)
    then have "dropWhile p (rev xs @ [x]) = dropWhile p (rev xs) @ [x]"
      by (metis dropWhile_append3 dropWhile.simps x append_Nil dropWhile_append)
    then show ?thesis using Cons x by simp
  qed
  then show ?thesis
    by (simp only: trimmed_def rev_rev_ident dropWhile_twice)
qed

section \<open>Specification of splitting\<close>

fun split_when :: "('a \<Rightarrow> bool) \<Rightarrow> 'a list \<Rightarrow> 'a list list" where
  "split_when p [] = [[]]"
| "split_when p (x # xs) =
     (if p x then [] # split_when p xs
      else case split_when p xs of [] \<Rightarrow> [[x]] | q # qs \<Rightarrow> (x # q) # qs)"

definition prepend :: "'a list \<Rightarrow> 'a list list \<Rightarrow> 'a list list" where
  "prepend p qs = (case qs of [] \<Rightarrow> [p] | q # qs' \<Rightarrow> (p @ q) # qs')"

fun join_with :: "'a list \<Rightarrow> 'a list list \<Rightarrow> 'a list" where
  "join_with d [] = []"
| "join_with d [p] = p"
| "join_with d (p # q # qs) = p @ d @ join_with d (q # qs)"

definition words_of :: "('a \<Rightarrow> bool) \<Rightarrow> 'a list \<Rightarrow> 'a list list" where
  "words_of p s = filter (\<lambda>w. w \<noteq> []) (split_when p s)"

lemma split_when_not_Nil [simp]: "split_when p s \<noteq> []"
  by (induction s) (auto split: list.splits)

lemma split_when_Cons_in: "p x \<Longrightarrow> split_when p (x # xs) = [] # split_when p xs"
  by simp

lemma split_when_Cons_out: "\<not> p x \<Longrightarrow> split_when p (x # xs) = prepend [x] (split_when p xs)"
  by (auto simp: prepend_def split: list.splits)

lemma prepend_Nil [simp]: "qs \<noteq> [] \<Longrightarrow> prepend [] qs = qs"
  by (auto simp: prepend_def split: list.splits)

lemma prepend_prepend [simp]: "prepend p (prepend q qs) = prepend (p @ q) qs"
  by (auto simp: prepend_def split: list.splits)

lemma prepend_Cons [simp]: "prepend p (q # qs) = (p @ q) # qs"
  by (simp add: prepend_def)

lemma split_when_append:
  "\<forall>x \<in> set u. \<not> p x \<Longrightarrow> split_when p (u @ s) = prepend u (split_when p s)"
proof (induction u)
  case Nil
  then show ?case by simp
next
  case (Cons x u)
  then show ?case by (simp add: split_when_Cons_out del: split_when.simps)
qed

lemma split_when_pieces: "q \<in> set (split_when p s) \<Longrightarrow> x \<in> set q \<Longrightarrow> x \<in> set s \<and> \<not> p x"
  by (induction s arbitrary: q) (fastforce split: list.splits if_splits)+

lemma length_split_when: "length (split_when p s) = Suc (length (filter p s))"
  by (induction s) (auto split: list.splits)

lemma join_split_when: "join_with [c] (split_when (\<lambda>x. x = c) s) = s"
proof (induction s)
  case Nil
  then show ?case by simp
next
  case (Cons x xs)
  obtain q qs where q: "split_when (\<lambda>x. x = c) xs = q # qs"
    by (cases "split_when (\<lambda>x. x = c) xs") auto
  show ?case
    using Cons q by (cases qs) auto
qed

section \<open>SplitStringT and its instances\<close>

text \<open>
  The loop \<open>for (i = 0; i <= c; ++i)\<close> with \<open>last\<close> (here \<open>lst\<close>), the start of the current piece, and the
  output vector \<open>r\<close>, which the function appends to.
\<close>

function split_loop ::
    "string \<Rightarrow> char \<Rightarrow> bool \<Rightarrow> nat \<Rightarrow> nat \<Rightarrow> string list \<Rightarrow> string list" where
  "split_loop str s trim_whitespace i lst r =
     (if i \<le> length str then
        if i = length str \<or> str ! i = s then
          (let tmp = take (i - lst) (drop lst str);
               piece = (if trim_whitespace then fst (TrimWhitespace tmp TRIM_ALL) else tmp)
           in split_loop str s trim_whitespace (i + 1) (i + 1) (r @ [piece]))
        else split_loop str s trim_whitespace (i + 1) lst r
      else r)"
  by pat_completeness auto
termination
  by (relation "measure (\<lambda>(str, s, t, i, lst, r). Suc (length str) - i)") auto

declare split_loop.simps [simp del]

definition SplitStringT :: "string \<Rightarrow> char \<Rightarrow> bool \<Rightarrow> string list \<Rightarrow> string list" where
  "SplitStringT str s trim_whitespace r = split_loop str s trim_whitespace 0 0 r"

definition SplitString :: "string \<Rightarrow> char \<Rightarrow> string list \<Rightarrow> string list" where
  "SplitString str c r = SplitStringT str c True r"

definition SplitStringDontTrim :: "string \<Rightarrow> char \<Rightarrow> string list \<Rightarrow> string list" where
  "SplitStringDontTrim str c r = SplitStringT str c False r"

lemma split_loop_spec:
  assumes "i \<le> length str" "lst \<le> i"
    and "\<forall>x \<in> set (take (i - lst) (drop lst str)). x \<noteq> s"
  shows "split_loop str s t i lst r =
    r @ map (\<lambda>q. if t then trimmed is_ws q else q)
         (prepend (take (i - lst) (drop lst str)) (split_when (\<lambda>x. x = s) (drop i str)))"
  using assms
proof (induction "length str - i" arbitrary: i lst r)
  case 0
  then have i: "i = length str" by simp
  show ?case
    by (subst split_loop.simps) (simp add: i Let_def string_simps split_loop.simps[of _ _ _ "Suc (length str)"])
next
  case (Suc n)
  then have lt: "i < length str" by simp
  have d: "drop i str = str ! i # drop (Suc i) str" using lt by (rule Cons_nth_drop_Suc[symmetric])
  show ?case
  proof (cases "str ! i = s")
    case True
    have "split_loop str s t (Suc i) (Suc i) r' =
        r' @ map (\<lambda>q. if t then trimmed is_ws q else q) (split_when (\<lambda>x. x = s) (drop (Suc i) str))" for r'
      using Suc(1)[of "Suc i" "Suc i" r'] Suc(2) lt by simp
    then show ?thesis using True lt
      by (subst split_loop.simps) (simp add: Let_def d string_simps)
  next
    case False
    have t: "take (Suc i - lst) (drop lst str) = take (i - lst) (drop lst str) @ [str ! i]"
      using lt Suc.prems by (simp add: Suc_diff_le take_Suc_conv_app_nth)
    have "split_loop str s t (Suc i) lst r = r @ map (\<lambda>q. if t then trimmed is_ws q else q)
       (prepend (take (Suc i - lst) (drop lst str)) (split_when (\<lambda>x. x = s) (drop (Suc i) str)))"
      using Suc(1)[of "Suc i" lst r] Suc.prems Suc(2) lt False by (auto simp: t)
    then show ?thesis using False lt
      by (subst split_loop.simps)
        (simp add: d t split_when_Cons_out del: split_when.simps)
  qed
qed

lemma SplitString_spec [string_simps]:
  "SplitString str c r = r @ map (trimmed is_ws) (split_when (\<lambda>x. x = c) str)"
  using split_loop_spec[of 0 str 0 c True r] by (simp add: SplitString_def SplitStringT_def)

lemma SplitStringDontTrim_spec [string_simps]:
  "SplitStringDontTrim str c r = r @ split_when (\<lambda>x. x = c) str"
  using split_loop_spec[of 0 str 0 c False r] by (simp add: SplitStringDontTrim_def SplitStringT_def)

text \<open>
  \<open>SplitString\<close> appends one piece per separator and one more, in order: the pieces are the
  maximal separator-free segments of the text, each trimmed of white space at both ends.
\<close>

theorem SplitString_pieces:
  "\<exists>ps. SplitString str c r = r @ map (trimmed is_ws) ps \<and>
     length ps = Suc (length (filter (\<lambda>x. x = c) str)) \<and> join_with [c] ps = str \<and>
     c \<notin> set (concat ps)"
proof (intro exI conjI)
  show "SplitString str c r = r @ map (trimmed is_ws) (split_when (\<lambda>x. x = c) str)"
    by (rule SplitString_spec)
qed (auto simp: length_split_when join_split_when dest: split_when_pieces)

section \<open>Key and value pairs\<close>

text \<open>\<open>SplitStringIntoKeyValues\<close> returns its boolean result with the two output arguments.\<close>

definition SplitStringIntoKeyValues :: "string \<Rightarrow> char \<Rightarrow> bool \<times> string \<times> string list" where
  "SplitStringIntoKeyValues line key_value_delimiter =
     (case find_index (\<lambda>c. c = key_value_delimiter) line of
        None \<Rightarrow> (False, [], [])
      | Some end_key_pos \<Rightarrow>
          let key = take end_key_pos line;
              remains = drop end_key_pos line
          in case find_index (\<lambda>c. c \<noteq> key_value_delimiter) remains of
               None \<Rightarrow> (False, key, [])
             | Some begin_values_pos \<Rightarrow> (True, key, [drop begin_values_pos remains]))"

fun pairs_loop :: "string list \<Rightarrow> char \<Rightarrow> bool \<Rightarrow> (string \<times> string) list
    \<Rightarrow> bool \<times> (string \<times> string) list" where
  "pairs_loop [] d success kv_pairs = (success, kv_pairs)"
| "pairs_loop (p # ps) d success kv_pairs =
     (if p = [] then pairs_loop ps d success kv_pairs
      else let (ok, key, value) = SplitStringIntoKeyValues p d
           in pairs_loop ps d (success \<and> ok)
                (kv_pairs @ [(key, case value of [] \<Rightarrow> [] | v # _ \<Rightarrow> v)]))"

definition SplitStringIntoKeyValuePairs ::
    "string \<Rightarrow> char \<Rightarrow> char \<Rightarrow> bool \<times> (string \<times> string) list" where
  "SplitStringIntoKeyValuePairs line key_value_delimiter key_value_pair_delimiter =
     pairs_loop (SplitString line key_value_pair_delimiter []) key_value_delimiter True []"

lemma SplitStringIntoKeyValues_parts:
  assumes "d \<notin> set key" "value \<noteq> []" "hd value \<noteq> d" "n > 0"
  shows "SplitStringIntoKeyValues (key @ replicate n d @ value) d = (True, key, [value])"
proof -
  have k: "find_index (\<lambda>c. c = d) (key @ replicate n d @ value) = Some (length key)"
    using assms by (auto simp: find_index_Some nth_append dest: nth_mem)
  have v: "find_index (\<lambda>c. c \<noteq> d) (replicate n d @ value) = Some n"
    using assms by (auto simp: find_index_Some nth_append hd_conv_nth)
  show ?thesis
    unfolding SplitStringIntoKeyValues_def by (simp add: k v)
qed

lemma SplitStringIntoKeyValues_complete:
  assumes "SplitStringIntoKeyValues line d = (True, key, values)"
  shows "\<exists>n v. n > 0 \<and> values = [v] \<and> line = key @ replicate n d @ v \<and> d \<notin> set key \<and>
           v \<noteq> [] \<and> hd v \<noteq> d"
proof -
  obtain e where e: "find_index (\<lambda>c. c = d) line = Some e"
    using assms by (auto simp: SplitStringIntoKeyValues_def split: option.splits)
  obtain b where b: "find_index (\<lambda>c. c \<noteq> d) (drop e line) = Some b"
    using assms e by (auto simp: SplitStringIntoKeyValues_def Let_def split: option.splits)
  have key: "key = take e line" and vals: "values = [drop b (drop e line)]"
    using assms e b by (auto simp: SplitStringIntoKeyValues_def)
  have "line ! e = d" "e < length line" using e by (auto simp: find_index_Some)
  then have "b \<noteq> 0" using b by (cases b) (auto simp: find_index_Some)
  moreover have "take b (drop e line) = replicate b d"
    using b by (intro replicate_eqI) (auto simp: find_index_Some in_set_conv_nth)
  then have "drop e line = replicate b d @ drop b (drop e line)"
    by (metis append_take_drop_id)
  then have "line = key @ replicate b d @ drop b (drop e line)"
    using key by (metis append_take_drop_id)
  moreover have "d \<notin> set key"
    using e key by (auto simp: find_index_Some in_set_conv_nth)
  moreover have "drop b (drop e line) \<noteq> []" "hd (drop b (drop e line)) \<noteq> d"
    using b by (auto simp: find_index_Some hd_drop_conv_nth simp del: drop_drop)
  ultimately show ?thesis using vals by blast
qed

section \<open>Splitting at a substring\<close>

text \<open>
  \<open>SplitStringUsingSubstrT\<close> is a \<open>while (true)\<close> loop. With an empty separator \<open>find\<close> returns the
  position it starts at, so the loop never moves: not returning is the value \<open>None\<close>.
\<close>

partial_function (option) split_substr_loop ::
    "string \<Rightarrow> string \<Rightarrow> nat \<Rightarrow> string list \<Rightarrow> string list option" where
  "split_substr_loop str s begin_index r =
     (case str_find str s begin_index of
        None \<Rightarrow> Some (r @ [fst (TrimWhitespace (drop begin_index str) TRIM_ALL)])
      | Some end_index \<Rightarrow>
          split_substr_loop str s (end_index + length s)
            (r @ [fst (TrimWhitespace (take (end_index - begin_index) (drop begin_index str)) TRIM_ALL)]))"

definition SplitStringUsingSubstr :: "string \<Rightarrow> string \<Rightarrow> string list \<Rightarrow> string list option" where
  "SplitStringUsingSubstr str s r = split_substr_loop str s 0 r"

lemma split_substr_loop_returns:
  assumes "s \<noteq> []" "b \<le> length str"
  shows "\<exists>ps. ps \<noteq> [] \<and> split_substr_loop str s b r = Some (r @ map (trimmed is_ws) ps) \<and>
           join_with s ps = drop b str"
  using assms(2)
proof (induction "length str - b" arbitrary: b r rule: less_induct)
  case less
  show ?case
  proof (cases "str_find str s b")
    case None
    then show ?thesis
      by (intro exI[of _ "[drop b str]"]) (simp add: split_substr_loop.simps[of str s b] string_simps)
  next
    case (Some e)
    have e: "b \<le> e" "e + length s \<le> length str" using str_find_bounds[OF Some] by auto
    let ?p = "take (e - b) (drop b str)"
    have "length str - (e + length s) < length str - b"
      using e assms(1) by (cases s) auto
    then have "\<exists>ps. ps \<noteq> [] \<and> split_substr_loop str s (e + length s) (r @ [trimmed is_ws ?p])
         = Some ((r @ [trimmed is_ws ?p]) @ map (trimmed is_ws) ps) \<and>
         join_with s ps = drop (e + length s) str"
      using less(1) e(2) by blast
    then obtain ps where ps: "ps \<noteq> []" "join_with s ps = drop (e + length s) str"
      "split_substr_loop str s (e + length s) (r @ [trimmed is_ws ?p])
         = Some ((r @ [trimmed is_ws ?p]) @ map (trimmed is_ws) ps)"
      by blast
    have "take (length s) (drop e str) = s"
      using str_find_prefix[OF Some] by (metis append_eq_conv_conj prefixE)
    then have E: "drop e str = s @ drop (length s) (drop e str)"
      by (metis append_take_drop_id)
    have "drop b str = ?p @ drop (e - b) (drop b str)"
      by (rule append_take_drop_id[symmetric])
    also have "drop (e - b) (drop b str) = drop e str"
      using e by simp
    also have "drop e str = s @ drop (e + length s) str"
      using E by (simp add: add.commute)
    finally have D: "drop b str = ?p @ s @ drop (e + length s) str" .
    have J: "join_with s (?p # ps) = ?p @ s @ join_with s ps"
      using ps(1) by (cases ps) auto
    have "split_substr_loop str s b r = Some (r @ map (trimmed is_ws) (?p # ps))"
      using ps(3) Some by (simp add: split_substr_loop.simps[of str s b] string_simps)
    then show ?thesis
      using J ps(2) D[symmetric] by (intro exI[of _ "?p # ps"]) (simp only: simp_thms list.distinct)
  qed
qed

lemma search_Nil [simp]: "search [] s = Some 0"
  by (cases s) auto

lemma split_substr_loop_empty: "b \<le> length str \<Longrightarrow> split_substr_loop str [] b r = None"
proof (rule ccontr)
  assume b: "b \<le> length str" and "split_substr_loop str [] b r \<noteq> None"
  then obtain y where y: "split_substr_loop str [] b r = Some y" by auto
  have "([] :: string) = [] \<longrightarrow> b \<le> length str \<longrightarrow> False"
  proof (rule split_substr_loop.raw_induct [where P = "\<lambda>str s b r y. s = [] \<longrightarrow> b \<le> length str \<longrightarrow> False", OF _ y])
    fix f str s b r y
    assume "\<And>str s b r y. f str s b r = Some y \<Longrightarrow> s = [] \<longrightarrow> b \<le> length str \<longrightarrow> False"
      and "(case str_find str s b of
              None \<Rightarrow> Some (r @ [fst (TrimWhitespace (drop b str) TRIM_ALL)])
            | Some e \<Rightarrow> f str s (e + length s)
                (r @ [fst (TrimWhitespace (take (e - b) (drop b str)) TRIM_ALL)])) = Some y"
    then show "s = [] \<longrightarrow> b \<le> length str \<longrightarrow> False"
      by (auto simp: str_find_def split: option.splits)
  qed
  with b show False by simp
qed

section \<open>Splitting along whitespace\<close>

definition is_html_ws :: "char \<Rightarrow> bool" where
  "is_html_ws c \<longleftrightarrow> c \<in> set (map char_of [0x20, 0x09, 0x0A, 0x0B, 0x0C, 0x0D :: nat])"

function along_ws_loop :: "string \<Rightarrow> nat \<Rightarrow> bool \<Rightarrow> nat \<Rightarrow> string list \<Rightarrow> string list" where
  "along_ws_loop str i last_was_ws last_non_ws_start result =
     (if i < length str then
        if is_html_ws (str ! i) then
          if \<not> last_was_ws then
            along_ws_loop str (i + 1) True last_non_ws_start
              (if i > 0 then result @ [take (i - last_non_ws_start) (drop last_non_ws_start str)]
               else result)
          else along_ws_loop str (i + 1) last_was_ws last_non_ws_start result
        else if last_was_ws then along_ws_loop str (i + 1) False i result
        else along_ws_loop str (i + 1) last_was_ws last_non_ws_start result
      else if \<not> last_was_ws then
        result @ [take (length str - last_non_ws_start) (drop last_non_ws_start str)]
      else result)"
  by pat_completeness auto
termination
  by (relation "measure (\<lambda>(str, i, w, l, r). length str - i)") auto

declare along_ws_loop.simps [simp del]

definition SplitStringAlongWhitespace :: "string \<Rightarrow> string list \<Rightarrow> string list" where
  "SplitStringAlongWhitespace str result =
     (if length str = 0 then result else along_ws_loop str 0 False 0 result)"

definition words_after :: "(char \<Rightarrow> bool) \<Rightarrow> string \<Rightarrow> string \<Rightarrow> string list" where
  "words_after p cur s = filter (\<lambda>w. w \<noteq> []) (prepend cur (split_when p s))"

lemma words_after_step [simp]:
  "words_after p cur [] = filter (\<lambda>w. w \<noteq> []) [cur]"
  "p x \<Longrightarrow> words_after p cur (x # xs) = filter (\<lambda>w. w \<noteq> []) [cur] @ words_of p xs"
  "\<not> p x \<Longrightarrow> words_after p cur (x # xs) = words_after p (cur @ [x]) xs"
  by (auto simp: words_after_def words_of_def prepend_def split: list.splits)

lemma words_after_Nil: "words_after p [] s = words_of p s"
  by (simp add: words_after_def words_of_def)

lemma along_ws_loop_spec:
  assumes "i \<le> length str" "str \<noteq> []"
    and "\<not> w \<Longrightarrow> l \<le> i \<and> (l = i \<longrightarrow> i = 0)" and "w \<Longrightarrow> i > 0"
  shows "along_ws_loop str i w l r = r @
     (if w then words_of is_html_ws (drop i str)
      else words_after is_html_ws (take (i - l) (drop l str)) (drop i str))"
  using assms
proof (induction "length str - i" arbitrary: i w l r)
  case 0
  then have "i = length str" by simp
  with 0 show ?case
    by (cases w) (auto simp: along_ws_loop.simps[of str "length str"] words_of_def)
next
  case (Suc n)
  then have lt: "i < length str" by simp
  have d: "drop i str = str ! i # drop (Suc i) str" using lt by (rule Cons_nth_drop_Suc[symmetric])
  note IH = Suc(1)[of "Suc i"]
  show ?case
  proof (cases w)
    case True
    show ?thesis
    proof (cases "is_html_ws (str ! i)")
      case True
      then show ?thesis using IH[of True l r] Suc.prems Suc(2) lt \<open>w\<close>
        by (simp add: along_ws_loop.simps[of str i] d words_of_def)
    next
      case False
      have "take (Suc i - i) (drop i str) = [str ! i]" by (simp add: d)
      then have "along_ws_loop str (Suc i) False i r
          = r @ words_after is_html_ws [str ! i] (drop (Suc i) str)"
        using IH[of False i r] Suc.prems Suc(2) lt by simp
      then show ?thesis using lt \<open>w\<close> False
        by (simp add: along_ws_loop.simps[of str i] d flip: words_after_Nil)
    qed
  next
    case False
    then have l: "l \<le> i" "l = i \<longrightarrow> i = 0" using Suc.prems by auto
    have t: "take (Suc i - l) (drop l str) = take (i - l) (drop l str) @ [str ! i]"
      using lt l by (simp add: Suc_diff_le take_Suc_conv_app_nth)
    show ?thesis
    proof (cases "is_html_ws (str ! i)")
      case True
      then show ?thesis using IH[of True l] Suc.prems Suc(2) lt l \<open>\<not> w\<close>
        by (auto simp: along_ws_loop.simps[of str i] d)
    next
      case False
      then show ?thesis using IH[of False l r] Suc.prems Suc(2) lt l \<open>\<not> w\<close>
        by (simp add: along_ws_loop.simps[of str i] d t)
    qed
  qed
qed

lemma SplitStringAlongWhitespace_spec:
  "SplitStringAlongWhitespace str r = r @ words_of is_html_ws str"
  using along_ws_loop_spec[of 0 str False 0 r]
  by (cases "str = []") (auto simp: SplitStringAlongWhitespace_def words_of_def words_after_Nil)

end
