(* ===== verification/String_Pieces.thy ===== *)
theory String_Pieces
  imports Strings
begin

text \<open>
  \<open>StringPiece\<close> of \<open>src/src/chromium/string_piece.hh\<close> and \<open>src/src/chromium/string_piece.cc\<close>: a view of characters it does
  not own, here the list of the characters in view. A position is a \<open>size_t\<close>; a search that fails
  returns \<open>npos\<close>, here \<open>None\<close>. Reading outside the view is undefined.
\<close>

section \<open>Views\<close>

type_synonym string_piece = string

text \<open>\<open>npos\<close> as an argument: the size of the view acts like any position behind it.\<close>

definition npos :: "string_piece \<Rightarrow> nat" where "npos s = length s"

definition piece_equal :: "string_piece \<Rightarrow> string_piece \<Rightarrow> bool" where
  "piece_equal x y = (if length x \<noteq> length y then False else x = y)"

text \<open>\<open>char_traits::compare\<close> of the first \<open>n\<close> characters of both: the sign of the result.\<close>

fun wordmemcmp :: "string \<Rightarrow> string \<Rightarrow> nat \<Rightarrow> int" where
  "wordmemcmp (a # p) (b # q) (Suc n) = (if a < b then - 1 else if b < a then 1 else wordmemcmp p q n)"
| "wordmemcmp p q n = 0"

definition piece_compare :: "string_piece \<Rightarrow> string_piece \<Rightarrow> int" where
  "piece_compare x y =
     (let r = wordmemcmp x y (if length x < length y then length x else length y)
      in if r = 0 then (if length x < length y then - 1 else if length x > length y then 1 else r) else r)"

definition piece_less :: "string_piece \<Rightarrow> string_piece \<Rightarrow> bool" where
  "piece_less x y =
     (let r = wordmemcmp x y (if length x < length y then length x else length y)
      in r < 0 \<or> (r = 0 \<and> length x < length y))"

definition remove_prefix :: "nat \<Rightarrow> string_piece \<Rightarrow> string_piece" where
  "remove_prefix n s = drop n s"

definition remove_suffix :: "nat \<Rightarrow> string_piece \<Rightarrow> string_piece" where
  "remove_suffix n s = take (length s - n) s"

definition starts_with :: "string_piece \<Rightarrow> string_piece \<Rightarrow> bool" where
  "starts_with s x \<longleftrightarrow> length s \<ge> length x \<and> wordmemcmp s x (length x) = 0"

definition ends_with :: "string_piece \<Rightarrow> string_piece \<Rightarrow> bool" where
  "ends_with s x \<longleftrightarrow> length s \<ge> length x \<and> wordmemcmp (drop (length s - length x) s) x (length x) = 0"

definition CopyToString :: "string_piece \<Rightarrow> string" where
  "CopyToString self = self"

definition AppendToString :: "string_piece \<Rightarrow> string \<Rightarrow> string" where
  "AppendToString self target = (if self \<noteq> [] then target @ self else target)"

text \<open>
  \<open>copy\<close> returns the characters it copies. \<open>self.size() - pos\<close> wraps around behind the end, and then the
  memory behind the view is read.
\<close>

definition piece_copy :: "string_piece \<Rightarrow> nat \<Rightarrow> nat \<Rightarrow> string outcome" where
  "piece_copy self n pos =
     (let ret = min (unat (word_of_nat (length self) - word_of_nat pos :: 64 word)) n
      in if pos + ret > length self then Raise Undefined_Behaviour else Done (take ret (drop pos self)))"

definition piece_substr :: "string_piece \<Rightarrow> nat \<Rightarrow> nat \<Rightarrow> string_piece" where
  "piece_substr self pos n =
     (let pos = (if pos > length self then length self else pos);
          n = (if n > length self - pos then length self - pos else n)
      in take n (drop pos self))"

definition hash_value :: "string_piece \<Rightarrow> 64 word" where
  "hash_value s = fold (\<lambda>c result. result * 131 + word_of_int (let n = int (of_char c) in if n < 128 then n else n - 256)) s 0"

section \<open>Searching\<close>

text \<open>The loops that search upwards and downwards from a position.\<close>

function scan_up :: "(char \<Rightarrow> bool) \<Rightarrow> string \<Rightarrow> nat \<Rightarrow> nat option" where
  "scan_up p s i = (if i < length s then if p (s ! i) then Some i else scan_up p s (Suc i) else None)"
  by pat_completeness auto
termination by (relation "measure (\<lambda>(p, s, i). length s - i)") auto

declare scan_up.simps [simp del]

fun scan_down :: "(nat \<Rightarrow> bool) \<Rightarrow> nat \<Rightarrow> nat option" where
  "scan_down p 0 = (if p 0 then Some 0 else None)"
| "scan_down p (Suc i) = (if p (Suc i) then Some (Suc i) else scan_down p i)"

definition BuildLookupTable :: "string_piece \<Rightarrow> char \<Rightarrow> bool" where
  "BuildLookupTable characters_wanted =
     fold (\<lambda>c table. table(c := True)) characters_wanted (\<lambda>_. False)"

text \<open>\<open>std::search\<close> returns the end when there is no match.\<close>

definition piece_find :: "string_piece \<Rightarrow> string_piece \<Rightarrow> nat \<Rightarrow> nat option" where
  "piece_find self s pos =
     (if pos > length self then None
      else
        let xpos = (case search s (drop pos self) of Some i \<Rightarrow> pos + i | None \<Rightarrow> length self)
        in if xpos + length s \<le> length self then Some xpos else None)"

definition piece_find_char :: "string_piece \<Rightarrow> char \<Rightarrow> nat \<Rightarrow> nat option" where
  "piece_find_char self c pos =
     (if pos \<ge> length self then None else map_option ((+) pos) (find_index (\<lambda>x. x = c) (drop pos self)))"

text \<open>\<open>std::find_end\<close> returns the last match in front of \<open>last\<close>, or \<open>last\<close>.\<close>

definition find_end :: "string \<Rightarrow> nat \<Rightarrow> string \<Rightarrow> nat" where
  "find_end self lst s =
     (case scan_down (\<lambda>i. prefix s (drop i (take lst self))) (lst - length s) of Some i \<Rightarrow> i | None \<Rightarrow> lst)"

definition piece_rfind :: "string_piece \<Rightarrow> string_piece \<Rightarrow> nat \<Rightarrow> nat option" where
  "piece_rfind self s pos =
     (if length self < length s then None
      else if s = [] then Some (min (length self) pos)
      else
        let lst = min (length self - length s) pos + length s;
            result = find_end self lst s
        in if result \<noteq> lst then Some result else None)"

definition piece_rfind_char :: "string_piece \<Rightarrow> char \<Rightarrow> nat \<Rightarrow> nat option" where
  "piece_rfind_char self c pos =
     (if length self = 0 then None else scan_down (\<lambda>i. self ! i = c) (min pos (length self - 1)))"

definition find_first_of :: "string_piece \<Rightarrow> string_piece \<Rightarrow> nat \<Rightarrow> nat option" where
  "find_first_of self s pos =
     (if length self = 0 \<or> length s = 0 then None
      else if length s = 1 then piece_find_char self (s ! 0) pos
      else scan_up (BuildLookupTable s) self pos)"

definition find_first_not_of_char :: "string_piece \<Rightarrow> char \<Rightarrow> nat \<Rightarrow> nat option" where
  "find_first_not_of_char self c pos =
     (if length self = 0 then None else scan_up (\<lambda>x. x \<noteq> c) self pos)"

definition find_first_not_of :: "string_piece \<Rightarrow> string_piece \<Rightarrow> nat \<Rightarrow> nat option" where
  "find_first_not_of self s pos =
     (if length self = 0 then None
      else if length s = 0 then Some 0
      else if length s = 1 then find_first_not_of_char self (s ! 0) pos
      else scan_up (\<lambda>x. \<not> BuildLookupTable s x) self pos)"

definition find_last_of :: "string_piece \<Rightarrow> string_piece \<Rightarrow> nat \<Rightarrow> nat option" where
  "find_last_of self s pos =
     (if length self = 0 \<or> length s = 0 then None
      else if length s = 1 then piece_rfind_char self (s ! 0) pos
      else scan_down (\<lambda>i. BuildLookupTable s (self ! i)) (min pos (length self - 1)))"

definition find_last_not_of_char :: "string_piece \<Rightarrow> char \<Rightarrow> nat \<Rightarrow> nat option" where
  "find_last_not_of_char self c pos =
     (if length self = 0 then None else scan_down (\<lambda>i. self ! i \<noteq> c) (min pos (length self - 1)))"

definition find_last_not_of :: "string_piece \<Rightarrow> string_piece \<Rightarrow> nat \<Rightarrow> nat option" where
  "find_last_not_of self s pos =
     (if length self = 0 then None
      else if length s = 0 then Some (min pos (length self - 1))
      else if length s = 1 then find_last_not_of_char self (s ! 0) pos
      else scan_down (\<lambda>i. \<not> BuildLookupTable s (self ! i)) (min pos (length self - 1)))"

section \<open>What the searches find\<close>

text \<open>The first position from \<open>pos\<close> on, and the last one up to \<open>pos\<close>, of those below \<open>n\<close> with \<open>p\<close>.\<close>

definition first_from :: "(nat \<Rightarrow> bool) \<Rightarrow> nat \<Rightarrow> nat \<Rightarrow> nat option \<Rightarrow> bool" where
  "first_from p n pos r \<longleftrightarrow>
     (case r of
        Some i \<Rightarrow> pos \<le> i \<and> i < n \<and> p i \<and> (\<forall>j. pos \<le> j \<and> j < i \<longrightarrow> \<not> p j)
      | None \<Rightarrow> (\<forall>i. pos \<le> i \<and> i < n \<longrightarrow> \<not> p i))"

definition last_upto :: "(nat \<Rightarrow> bool) \<Rightarrow> nat \<Rightarrow> nat \<Rightarrow> nat option \<Rightarrow> bool" where
  "last_upto p n pos r \<longleftrightarrow>
     (case r of
        Some i \<Rightarrow> i \<le> pos \<and> i < n \<and> p i \<and> (\<forall>j. i < j \<and> j \<le> pos \<and> j < n \<longrightarrow> \<not> p j)
      | None \<Rightarrow> (\<forall>i. i \<le> pos \<and> i < n \<longrightarrow> \<not> p i))"

lemma BuildLookupTable_in [simp]: "BuildLookupTable s = (\<lambda>c. c \<in> set s)"
proof -
  have "fold (\<lambda>c table. table(c := True)) s t x \<longleftrightarrow> x \<in> set s \<or> t x" for t :: "char \<Rightarrow> bool" and x
    by (induction s arbitrary: t) auto
  then show ?thesis by (simp add: BuildLookupTable_def fun_eq_iff)
qed

lemma first_from_cong:
  "first_from p n pos r \<Longrightarrow> (\<And>i. i < n \<Longrightarrow> p i \<longleftrightarrow> q i) \<Longrightarrow> first_from q n pos r"
  by (auto simp: first_from_def split: option.splits)

lemma last_upto_cong:
  "last_upto p n pos r \<Longrightarrow> (\<And>i. i < n \<Longrightarrow> p i \<longleftrightarrow> q i) \<Longrightarrow> last_upto q n pos r"
  by (auto simp: last_upto_def split: option.splits)

lemma first_from_step:
  assumes "\<not> p i" "first_from p n (Suc i) r"
  shows "first_from p n i r"
proof -
  have "i \<le> j \<longleftrightarrow> j = i \<or> Suc i \<le> j" for j by auto
  with assms show ?thesis by (cases r) (auto simp: first_from_def)
qed

lemma scan_up_first: "first_from (\<lambda>i. p (s ! i)) (length s) i (scan_up p s i)"
proof (induction p s i rule: scan_up.induct)
  case (1 p s i)
  show ?case
  proof (cases "i < length s \<and> \<not> p (s ! i)")
    case True
    then have "first_from (\<lambda>i. p (s ! i)) (length s) (Suc i) (scan_up p s (Suc i))"
      using 1 by simp
    moreover have "scan_up p s i = scan_up p s (Suc i)" using True by (subst scan_up.simps) simp
    ultimately show ?thesis using True by (simp add: first_from_step)
  next
    case False
    then show ?thesis by (subst scan_up.simps) (auto simp: first_from_def)
  qed
qed

lemma scan_down_last:
  "i < n \<Longrightarrow> last_upto p n i (scan_down p i)"
proof (induction i)
  case 0
  then show ?case by (auto simp: last_upto_def)
next
  case (Suc i)
  then show ?case
    by (cases "p (Suc i)") (auto simp: last_upto_def le_Suc_eq split: option.splits)
qed

lemma scan_down_min:
  assumes "n \<noteq> 0"
  shows "last_upto p n pos (scan_down p (min pos (n - 1)))"
proof -
  have "last_upto p n (min pos (n - 1)) (scan_down p (min pos (n - 1)))"
    using assms by (intro scan_down_last) auto
  then show ?thesis using assms by (auto simp: last_upto_def split: option.splits)
qed

lemma find_char_first: "first_from (\<lambda>i. self ! i = c) (length self) pos (piece_find_char self c pos)"
proof (cases "pos < length self")
  case True
  show ?thesis
  proof (cases "find_index (\<lambda>x. x = c) (drop pos self)")
    case None
    then have "\<forall>x \<in> set (drop pos self). x \<noteq> c" by (simp add: find_index_None)
    then have "self ! i \<noteq> c" if i: "pos \<le> i" "i < length self" for i
    proof -
      obtain k where "i = pos + k" using i(1) by (auto simp: le_iff_add)
      then have "self ! i \<in> set (drop pos self)" using i(2) nth_mem[of k "drop pos self"] by simp
      with \<open>\<forall>x \<in> set (drop pos self). x \<noteq> c\<close> show ?thesis by blast
    qed
    then show ?thesis using True None by (simp add: piece_find_char_def first_from_def)
  next
    case (Some k)
    then have "k < length (drop pos self)" "drop pos self ! k = c" "\<forall>j < k. drop pos self ! j \<noteq> c"
      by (simp_all add: find_index_Some)
    moreover from this have "self ! j \<noteq> c" if "pos \<le> j" "j < pos + k" for j
      using that True by (auto dest!: spec[of _ "j - pos"])
    ultimately show ?thesis using True Some by (auto simp: piece_find_char_def first_from_def)
  qed
qed (auto simp: piece_find_char_def first_from_def)

lemma prefix_drop_bound: "prefix s (drop i t) \<Longrightarrow> s \<noteq> [] \<Longrightarrow> i + length s \<le> length t"
  by (cases s) (auto simp: prefix_def dest: arg_cong[of _ _ length])

lemma search_end: "search s t = None \<Longrightarrow> s \<noteq> []"
  by (cases t) auto

lemma piece_find_string: "piece_find self s pos = str_find self s pos"
  by (auto simp: piece_find_def str_find_def Let_def dest: search_Some search_end split: option.splits)

lemma piece_find_first:
  "first_from (\<lambda>i. prefix s (drop i self)) (Suc (length self)) pos (piece_find self s pos)"
proof (cases "search s (drop pos self)")
  case None
  have "\<not> prefix s (drop i self)" if i: "pos \<le> i" "i < Suc (length self)" for i
    using search_None[OF None, of "i - pos"] i by auto
  then show ?thesis
    using None by (auto simp: piece_find_string str_find_def first_from_def)
next
  case (Some k)
  show ?thesis
  proof (cases "pos \<le> length self")
    case True
    have "\<not> prefix s (drop j self)" if j: "pos \<le> j" "j < pos + k" for j
      using search_first[OF Some, of "j - pos"] j by auto
    then show ?thesis
      using True Some search_Some[OF Some]
      by (auto simp: piece_find_string str_find_def first_from_def add.commute)
  qed (auto simp: piece_find_string str_find_def first_from_def)
qed

lemma prefix_take: 
  assumes "i + length s \<le> n"
  shows "prefix s (drop i (take n t)) \<longleftrightarrow> prefix s (drop i t)"
proof
  assume "prefix s (drop i t)"
  then have "length s \<le> length (take (n - i) (drop i t))" using assms by (auto dest: prefix_length_le)
  then show "prefix s (drop i (take n t))"
    using \<open>prefix s (drop i t)\<close> by (auto simp: drop_take take_is_prefix intro: prefix_length_prefix)
qed (auto simp: drop_take take_is_prefix intro: prefix_order.trans)

lemma last_upto_min:
  assumes "last_upto p (Suc (min b pos)) (min b pos) r" "\<And>i. p i \<Longrightarrow> i \<le> b" "b < n"
  shows "last_upto p n pos r"
  using assms(1,3) assms(2) by (cases r) (auto simp: last_upto_def less_Suc_eq_le)

lemma piece_rfind_last:
  "last_upto (\<lambda>i. prefix s (drop i self)) (Suc (length self)) pos (piece_rfind self s pos)"
proof (cases "length self < length s \<or> s = []")
  case True
  then show ?thesis
    by (auto simp: piece_rfind_def last_upto_def dest: prefix_drop_bound prefix_length_le)
next
  case False
  let ?m = "min (length self - length s) pos"
  let ?lst = "?m + length s"
  have "last_upto (\<lambda>i. prefix s (drop i (take ?lst self))) (Suc ?m) ?m
      (scan_down (\<lambda>i. prefix s (drop i (take ?lst self))) ?m)"
    by (rule scan_down_last) simp
  then have "last_upto (\<lambda>i. prefix s (drop i self)) (Suc ?m) ?m
      (scan_down (\<lambda>i. prefix s (drop i (take ?lst self))) ?m)"
    by (rule last_upto_cong) (rule prefix_take, simp add: less_Suc_eq_le)
  moreover have "piece_rfind self s pos = scan_down (\<lambda>i. prefix s (drop i (take ?lst self))) ?m"
    using False calculation
    by (auto simp: piece_rfind_def find_end_def Let_def last_upto_def split: option.splits)
  moreover have "i \<le> length self - length s" if "prefix s (drop i self)" for i
    using prefix_drop_bound[OF that] False by auto
  ultimately show ?thesis using last_upto_min[of _ "length self - length s" pos] by simp
qed

lemma singleton_set: "length s = 1 \<Longrightarrow> set s = {s ! 0}"
  by (cases s) auto

text \<open>
  C38. The searches of a view: each returns the first position from \<open>pos\<close> on, or the last one up to
  \<open>pos\<close>, where the text or a character of the set starts. \<open>find_first_not_of\<close> needs a set that is not
  empty.
\<close>
theorem searches_find:
  "first_from (\<lambda>i. prefix s (drop i self)) (Suc (length self)) pos (piece_find self s pos) \<and>
   last_upto (\<lambda>i. prefix s (drop i self)) (Suc (length self)) pos (piece_rfind self s pos) \<and>
   first_from (\<lambda>i. self ! i \<in> set s) (length self) pos (find_first_of self s pos) \<and>
   last_upto (\<lambda>i. self ! i \<in> set s) (length self) pos (find_last_of self s pos) \<and>
   (s = [] \<or> first_from (\<lambda>i. self ! i \<notin> set s) (length self) pos (find_first_not_of self s pos)) \<and>
   last_upto (\<lambda>i. self ! i \<notin> set s) (length self) pos (find_last_not_of self s pos)"
proof (intro conjI)
  show "first_from (\<lambda>i. self ! i \<in> set s) (length self) pos (find_first_of self s pos)"
    using find_char_first[of self "s ! 0" pos] scan_up_first[of "\<lambda>c. c \<in> set s" self pos]
    by (auto simp: find_first_of_def singleton_set) (simp_all add: first_from_def)
  show "last_upto (\<lambda>i. self ! i \<in> set s) (length self) pos (find_last_of self s pos)"
    using scan_down_min[of "length self" "\<lambda>i. self ! i \<in> set s" pos]
    by (auto simp: find_last_of_def piece_rfind_char_def singleton_set) (simp_all add: last_upto_def)
  show "s = [] \<or> first_from (\<lambda>i. self ! i \<notin> set s) (length self) pos (find_first_not_of self s pos)"
    using scan_up_first[of "\<lambda>c. c \<notin> set s" self pos]
    by (auto simp: find_first_not_of_def find_first_not_of_char_def singleton_set) (simp_all add: first_from_def)
  show "last_upto (\<lambda>i. self ! i \<notin> set s) (length self) pos (find_last_not_of self s pos)"
  proof (cases "s = []")
    case True
    then show ?thesis by (cases self) (auto simp: find_last_not_of_def last_upto_def min_def)
  next
    case False
    then show ?thesis
      using scan_down_min[of "length self" "\<lambda>i. self ! i \<notin> set s" pos]
      by (auto simp: find_last_not_of_def find_last_not_of_char_def singleton_set) (simp_all add: last_upto_def)
  qed
qed (rule piece_find_first piece_rfind_last)+

lemma find_first_not_of_empty_set: "self \<noteq> [] \<Longrightarrow> find_first_not_of self [] pos = Some 0"
  by (simp add: find_first_not_of_def)

end
