(* ===== verification/Numbers.thy ===== *)
theory Numbers
  imports Strings
begin

text \<open>
  The conversions between numbers and text of
  \<open>src/src/chromium/string_number_conversions.cc\<close>. Values of the C++ integer types are
  \<open>int\<close>s in the range of the type, with the reduction to that range (\<open>wrap\<close>) written out
  after every operation that can leave it. A \<open>double\<close> is its IEEE 754 bit pattern.
\<close>

unbundle bit_operations_syntax

section \<open>Integer to text\<close>

definition wrap_signed :: "nat \<Rightarrow> int \<Rightarrow> int" where
  "wrap_signed w x = (x + 2 ^ (w - 1)) mod 2 ^ w - 2 ^ (w - 1)"

definition wrap_unsigned :: "nat \<Rightarrow> int \<Rightarrow> int" where
  "wrap_unsigned w x = x mod 2 ^ w"

definition digit_char :: "int \<Rightarrow> char" where
  "digit_char d = char_of (d + 48)"

text \<open>
  The loop that fills the output buffer from its end. \<open>is_neg\<close> and the conversion to the
  unsigned type (\<open>ToUnsigned\<close>) depend on the signedness, the template argument \<open>NEG\<close>. Negating the
  most negative value overflows in C++; it wraps around here, as on the compilers the program is for.
\<close>

function int_to_string_loop :: "int \<Rightarrow> string \<Rightarrow> string" where
  "int_to_string_loop res out =
     (let out' = digit_char (res mod 10) # out
      in if res div 10 \<le> 0 then out' else int_to_string_loop (res div 10) out')"
  by pat_completeness auto
termination
  by (relation "measure (\<lambda>(res, out). nat res)") auto

declare int_to_string_loop.simps [simp del]

definition ToUnsigned :: "nat \<Rightarrow> bool \<Rightarrow> int \<Rightarrow> int" where
  "ToUnsigned w neg v =
     (if neg then wrap_unsigned w (if v < 0 then wrap_signed w (- v) else v) else wrap_unsigned w v)"

definition IntToStringT :: "nat \<Rightarrow> bool \<Rightarrow> int \<Rightarrow> string" where
  "IntToStringT w neg v =
     (let is_neg = (neg \<and> v < 0); digits = int_to_string_loop (ToUnsigned w neg v) []
      in if is_neg then CHR ''-'' # digits else digits)"

definition IntToString :: "int \<Rightarrow> string" where "IntToString v = IntToStringT 32 True v"
definition UintToString :: "int \<Rightarrow> string" where "UintToString v = IntToStringT 32 False v"
definition Int64ToString :: "int \<Rightarrow> string" where "Int64ToString v = IntToStringT 64 True v"
definition Uint64ToString :: "int \<Rightarrow> string" where "Uint64ToString v = IntToStringT 64 False v"

section \<open>Text to integer\<close>

definition char_code :: "char \<Rightarrow> int" where
  "char_code c = of_char c"

definition CharToDigit :: "int \<Rightarrow> char \<Rightarrow> int option" where
  "CharToDigit base c =
     (let n = char_code c
      in if base \<le> 10 then (if 48 \<le> n \<and> n < 48 + base then Some (n - 48) else None)
         else if 48 \<le> n \<and> n \<le> 57 then Some (n - 48)
         else if 97 \<le> n \<and> n < 97 + base - 10 then Some (n - 97 + 10)
         else if 65 \<le> n \<and> n < 65 + base - 10 then Some (n - 65 + 10)
         else None)"

text \<open>\<open>isspace\<close> in the C locale.\<close>

definition LocalIsWhitespace :: "char \<Rightarrow> bool" where
  "LocalIsWhitespace c \<longleftrightarrow> c \<in> set (map char_of [0x09, 0x0A, 0x0B, 0x0C, 0x0D, 0x20 :: nat])"

text \<open>The traits of a conversion; \<open>wrap\<close> reduces an \<open>int\<close> to \<open>value_type\<close>.\<close>

record num_traits =
  tr_min :: int
  tr_max :: int
  tr_base :: int
  tr_wrap :: "int \<Rightarrow> int"

definition signed_traits :: "nat \<Rightarrow> num_traits" where
  "signed_traits w = \<lparr>tr_min = - (2 ^ (w - 1)), tr_max = 2 ^ (w - 1) - 1, tr_base = 10,
     tr_wrap = wrap_signed w\<rparr>"

definition unsigned_traits :: "nat \<Rightarrow> num_traits" where
  "unsigned_traits w = \<lparr>tr_min = 0, tr_max = 2 ^ w - 1, tr_base = 10, tr_wrap = wrap_unsigned w\<rparr>"

definition hex_traits :: num_traits where
  "hex_traits = \<lparr>tr_min = - (2 ^ 31), tr_max = 2 ^ 32 - 1, tr_base = 16, tr_wrap = wrap_signed 32\<rparr>"

text \<open>\<open>CheckBounds\<close> returns its verdict with the output, which it saturates on failure.\<close>

definition Positive_CheckBounds :: "num_traits \<Rightarrow> int \<Rightarrow> int \<Rightarrow> bool \<times> int" where
  "Positive_CheckBounds tr output new_digit =
     (if output > tr_wrap tr (tr_max tr div tr_base tr) \<or>
         (output = tr_wrap tr (tr_max tr div tr_base tr) \<and> new_digit > tr_max tr mod tr_base tr)
      then (False, tr_wrap tr (tr_max tr)) else (True, output))"

text \<open>C++ division truncates towards zero: \<open>min / base\<close> is \<open>- ((- min) div base)\<close>.\<close>

definition Negative_CheckBounds :: "num_traits \<Rightarrow> int \<Rightarrow> int \<Rightarrow> bool \<times> int" where
  "Negative_CheckBounds tr output new_digit =
     (if output < - ((- tr_min tr) div tr_base tr) \<or>
         (output = - ((- tr_min tr) div tr_base tr) \<and> new_digit > (- tr_min tr) mod tr_base tr)
      then (False, tr_min tr) else (True, output))"

fun number_loop :: "num_traits \<Rightarrow> bool \<Rightarrow> bool \<Rightarrow> string \<Rightarrow> int \<Rightarrow> bool \<times> int" where
  "number_loop tr negative at_begin [] output = (True, output)"
| "number_loop tr negative at_begin (c # cs) output =
     (case CharToDigit (tr_base tr) c of
        None \<Rightarrow> (False, output)
      | Some new_digit \<Rightarrow>
          let (ok, output) =
            (if at_begin then (True, output)
             else if negative then Negative_CheckBounds tr output new_digit
             else Positive_CheckBounds tr output new_digit)
          in if \<not> ok then (False, output)
             else let output = (if at_begin then output else tr_wrap tr (output * tr_base tr))
                  in number_loop tr negative False cs
                       (tr_wrap tr (if negative then output - new_digit else output + new_digit)))"

definition Base_Invoke :: "num_traits \<Rightarrow> bool \<Rightarrow> string \<Rightarrow> bool \<times> int" where
  "Base_Invoke tr negative s =
     (if s = [] then (False, 0)
      else let s' = (if tr_base tr = 16 \<and> length s > 2 \<and> s ! 0 = CHR ''0'' \<and>
                        (s ! 1 = CHR ''x'' \<or> s ! 1 = CHR ''X'')
                     then drop 2 s else s)
           in number_loop tr negative True s' 0)"

definition IteratorRangeToNumber :: "num_traits \<Rightarrow> string \<Rightarrow> bool \<times> int" where
  "IteratorRangeToNumber tr s =
     (let valid = (s = [] \<or> \<not> LocalIsWhitespace (hd s));
          s' = dropWhile LocalIsWhitespace s;
          (ok, output) =
            (if s' \<noteq> [] \<and> hd s' = CHR ''-'' then Base_Invoke tr True (tl s')
             else Base_Invoke tr False (if s' \<noteq> [] \<and> hd s' = CHR ''+'' then tl s' else s'))
      in (valid \<and> ok, output))"

definition StringToInt :: "string \<Rightarrow> bool \<times> int" where
  "StringToInt = IteratorRangeToNumber (signed_traits 32)"
definition StringToUint :: "string \<Rightarrow> bool \<times> int" where
  "StringToUint = IteratorRangeToNumber (unsigned_traits 32)"
definition StringToInt64 :: "string \<Rightarrow> bool \<times> int" where
  "StringToInt64 = IteratorRangeToNumber (signed_traits 64)"
definition StringToUint64 :: "string \<Rightarrow> bool \<times> int" where
  "StringToUint64 = IteratorRangeToNumber (unsigned_traits 64)"

text \<open>\<open>size_t\<close> has 64 bits.\<close>

definition StringToSizeT :: "string \<Rightarrow> bool \<times> int" where
  "StringToSizeT = IteratorRangeToNumber (unsigned_traits 64)"

definition HexStringToInt :: "string \<Rightarrow> bool \<times> int" where
  "HexStringToInt = IteratorRangeToNumber hex_traits"

section \<open>Bytes and hexadecimal text\<close>

definition kHexChars :: string where
  "kHexChars = ''0123456789ABCDEF''"

definition HexEncode :: "8 word list \<Rightarrow> string" where
  "HexEncode bytes =
     concat (map (\<lambda>b. [kHexChars ! unat (drop_bit 4 b AND 15), kHexChars ! unat (b AND 15)]) bytes)"

fun hex_bytes_loop :: "string \<Rightarrow> 8 word list \<Rightarrow> bool \<times> 8 word list" where
  "hex_bytes_loop (a # b # s) out =
     (case (CharToDigit 16 a, CharToDigit 16 b) of
        (Some msb, Some lsb) \<Rightarrow>
          hex_bytes_loop s (out @ [push_bit 4 (word_of_int msb) OR word_of_int lsb])
      | _ \<Rightarrow> (False, out))"
| "hex_bytes_loop _ out = (True, out)"

definition HexStringToBytes :: "string \<Rightarrow> bool \<times> 8 word list" where
  "HexStringToBytes input =
     (if length input = 0 \<or> length input mod 2 \<noteq> 0 then (False, []) else hex_bytes_loop input [])"

section \<open>Text to floating point\<close>

type_synonym double = "64 word"

text \<open>\<open>IsFinite\<close>: the exponent field is not all ones.\<close>

definition IsFinite :: "double \<Rightarrow> bool" where
  "IsFinite d \<longleftrightarrow> drop_bit 52 d AND 0x7FF \<noteq> 0x7FF"

definition isnan :: "double \<Rightarrow> bool" where
  "isnan d \<longleftrightarrow> \<not> IsFinite d \<and> d AND 0xFFFFFFFFFFFFF \<noteq> 0"

text \<open>The \<open>==\<close> of two doubles: not a NaN, and the same value (the two zeros are equal).\<close>

definition double_eq :: "double \<Rightarrow> double \<Rightarrow> bool" where
  "double_eq a b \<longleftrightarrow> \<not> isnan a \<and> \<not> isnan b \<and>
     (a = b \<or> (a AND 0x7FFFFFFFFFFFFFFF = 0 \<and> b AND 0x7FFFFFFFFFFFFFFF = 0))"

text \<open>
  \<open>std::stod\<close> is a parameter: it throws \<open>invalid_argument\<close> or \<open>out_of_range\<close>, or returns
  the value, the number of characters it consumed and what it left in \<open>errno\<close>.
\<close>

datatype stod_result = Stod_Throws failure | Stod_Value double nat bool

definition StringToDouble :: "(string \<Rightarrow> stod_result) \<Rightarrow> string \<Rightarrow> (bool \<times> double) outcome" where
  "StringToDouble stod input =
     (case stod input of
        Stod_Throws e \<Rightarrow> Raise e
      | Stod_Value output pos errno_set \<Rightarrow>
          Done (\<not> errno_set \<and> input \<noteq> [] \<and> length input = pos \<and> \<not> LocalIsWhitespace (hd input),
                output))"

section \<open>Decimal texts\<close>

lemma char_code_of [simp]: "char_code (char_of (n :: nat)) = int (n mod 256)"
  by (metis char_code_def of_char_of of_nat_of_char)

lemma char_code_signs [simp]: "char_code CHR ''-'' = 45" "char_code CHR ''+'' = 43"
  by (simp_all add: char_code_def)

definition is_digit :: "char \<Rightarrow> bool" where
  "is_digit c \<longleftrightarrow> 48 \<le> char_code c \<and> char_code c < 58"

fun dec_from :: "int \<Rightarrow> string \<Rightarrow> int" where
  "dec_from a [] = a"
| "dec_from a (c # cs) = dec_from (a * 10 + (char_code c - 48)) cs"

lemma CharToDigit_10: "CharToDigit 10 c = (if is_digit c then Some (char_code c - 48) else None)"
  by (simp add: CharToDigit_def is_digit_def Let_def)

lemma dec_from_ge: "list_all is_digit cs \<Longrightarrow> 0 \<le> a \<Longrightarrow> a \<le> dec_from a cs"
proof (induction cs arbitrary: a)
  case Nil
  then show ?case by simp
next
  case (Cons c cs)
  then have "a * 10 + (char_code c - 48) \<le> dec_from (a * 10 + (char_code c - 48)) cs"
    by (auto simp: is_digit_def)
  then show ?case using Cons.prems by (auto simp: is_digit_def)
qed

lemma dec_from_append: "dec_from a (s @ t) = dec_from (dec_from a s) t"
  by (induction s arbitrary: a) auto

lemma bounds_test:
  fixes a d b :: int
  assumes "0 \<le> d" "d \<le> 9"
  shows "(a > b div 10 \<or> (a = b div 10 \<and> d > b mod 10)) \<longleftrightarrow> a * 10 + d > b"
  using assms by presburger

text \<open>
  The accumulator of the sign-specific loops is \<open>sg * a\<close> with \<open>a\<close> the value so far; the loop
  accepts exactly the digit strings whose value stays within the type.
\<close>

lemma number_loop_dec:
  fixes tr :: num_traits and neg :: bool and M :: int
  defines "sg \<equiv> if neg then - 1 else 1" and "B \<equiv> if neg then M + 1 else M"
  assumes tr: "tr_base tr = 10" "tr_max tr = M" "tr_min tr = - (M + 1)" "9 \<le> M"
    and wrap: "\<And>x. - (M + 1) \<le> x \<Longrightarrow> x \<le> M \<Longrightarrow> tr_wrap tr x = x"
  shows "0 \<le> a \<Longrightarrow> a \<le> B \<Longrightarrow> (at_begin \<Longrightarrow> a = 0) \<Longrightarrow>
    (if list_all is_digit cs \<and> dec_from a cs \<le> B
     then number_loop tr neg at_begin cs (sg * a) = (True, sg * dec_from a cs)
     else \<not> fst (number_loop tr neg at_begin cs (sg * a)))"
proof (induction cs arbitrary: a at_begin)
  case Nil
  then show ?case by simp
next
  case (Cons c cs)
  have B: "9 \<le> B" using tr(4) by (simp add: B_def)
  show ?case
  proof (cases "is_digit c")
    case False
    then show ?thesis by (simp add: tr CharToDigit_10)
  next
    case True
    define d where "d = char_code c - 48"
    have d: "0 \<le> d" "d \<le> 9" using True by (auto simp: is_digit_def d_def)
    have dig: "CharToDigit (tr_base tr) c = Some d" using True by (simp add: tr CharToDigit_10 d_def)
    have wM: "tr_wrap tr (M div 10) = M div 10" using tr(4) by (intro wrap) auto
    have chk: "fst (if neg then Negative_CheckBounds tr (sg * a) d else Positive_CheckBounds tr (sg * a) d)
        \<longleftrightarrow> a * 10 + d \<le> B"
      using bounds_test[OF d, where a = a and b = M] bounds_test[OF d, where a = a and b = "1 + M"]
      by (cases neg)
        (simp_all add: Negative_CheckBounds_def Positive_CheckBounds_def tr sg_def B_def wM not_less)
    have chk2: "fst (if neg then Negative_CheckBounds tr (sg * a) d else Positive_CheckBounds tr (sg * a) d)
        \<Longrightarrow> snd (if neg then Negative_CheckBounds tr (sg * a) d else Positive_CheckBounds tr (sg * a) d) = sg * a"
      by (auto simp: Negative_CheckBounds_def Positive_CheckBounds_def split: if_splits)
    show ?thesis
    proof (cases "a * 10 + d \<le> B")
      case False
      then have nb: "\<not> at_begin" using Cons.prems B d by (cases at_begin) auto
      have "\<not> fst (number_loop tr neg at_begin (c # cs) (sg * a))"
        using chk False nb by (auto simp: dig split: prod.splits)
      moreover have "list_all is_digit cs \<Longrightarrow> dec_from (a * 10 + d) cs > B"
        using dec_from_ge[of cs "a * 10 + d"] False Cons.prems(1) d(1) by auto
      ultimately show ?thesis by (auto simp flip: d_def)
    next
      case le: True
      have w1: "tr_wrap tr (sg * a * 10) = sg * a * 10"
        using Cons.prems le d tr(4) by (intro wrap) (auto simp: sg_def B_def split: if_splits)
      have w2: "tr_wrap tr (if neg then sg * a * 10 - d else sg * a * 10 + d) = sg * (a * 10 + d)"
        using Cons.prems le d tr(4)
        by (subst wrap) (auto simp: sg_def B_def algebra_simps split: if_splits)
      have "number_loop tr neg at_begin (c # cs) (sg * a)
          = number_loop tr neg False cs (sg * (a * 10 + d))"
      proof (cases at_begin)
        case True
        then have "a = 0" by (rule Cons.prems(3))
        then show ?thesis using w2 True by (simp add: dig split: if_splits)
      next
        case False
        have pr: "(if neg then Negative_CheckBounds tr (sg * a) d
            else Positive_CheckBounds tr (sg * a) d) = (True, sg * a)"
          using chk chk2 le by (simp add: prod_eq_iff)
        show ?thesis using False
          by (simp add: dig[unfolded tr(1)] tr(1) pr w1 w2 cong: if_cong)
      qed
      then show ?thesis
        using Cons.IH[of "a * 10 + d" False] le Cons.prems(1) d True by (simp flip: d_def)
    qed
  qed
qed

lemma wrap_signed_id: "w > 0 \<Longrightarrow> - (2 ^ (w - 1)) \<le> x \<Longrightarrow> x < 2 ^ (w - 1) \<Longrightarrow> wrap_signed w x = x"
proof -
  assume "w > 0" "- (2 ^ (w - 1)) \<le> x" "x < 2 ^ (w - 1)"
  then obtain k where k: "w = Suc k" by (cases w) auto
  then show ?thesis using \<open>- (2 ^ (w - 1)) \<le> x\<close> \<open>x < 2 ^ (w - 1)\<close>
    by (simp add: wrap_signed_def mod_pos_pos_trivial)
qed

text \<open>A signed decimal text: an optional sign and at least one digit.\<close>

definition dec_text :: "string \<Rightarrow> int option" where
  "dec_text s =
     (let (neg, ds) = (case s of [] \<Rightarrow> (False, [])
                       | c # cs \<Rightarrow> if c = CHR ''-'' then (True, cs)
                                   else if c = CHR ''+'' then (False, cs) else (False, s))
      in if ds \<noteq> [] \<and> list_all is_digit ds then Some (if neg then - dec_from 0 ds else dec_from 0 ds)
         else None)"

lemma Base_Invoke_dec:
  fixes neg :: bool
  assumes "5 \<le> w" "ds \<noteq> []"
  defines "B \<equiv> if neg then 2 ^ (w - 1) else 2 ^ (w - 1) - 1"
  shows "if list_all is_digit ds \<and> dec_from 0 ds \<le> B
     then Base_Invoke (signed_traits w) neg ds = (True, if neg then - dec_from 0 ds else dec_from 0 ds)
     else \<not> fst (Base_Invoke (signed_traits w) neg ds)"
proof -
  have "(2::int) ^ 4 \<le> 2 ^ (w - 1)" using assms(1) by (intro power_increasing) auto
  then have p: "(9::int) \<le> 2 ^ (w - 1) - 1" by simp
  show ?thesis
    using number_loop_dec[of "signed_traits w" "2 ^ (w - 1) - 1" 0 neg True ds] p assms(1,2) wrap_signed_id[of w]
    by (auto simp: signed_traits_def Base_Invoke_def B_def split: if_splits)
qed

text \<open>
  \<open>StringToIntImpl\<close> on a signed type accepts exactly the signed decimal texts in range.
\<close>

lemma IteratorRangeToNumber_signed:
  assumes "5 \<le> w"
  shows "IteratorRangeToNumber (signed_traits w) s = (True, v) \<longleftrightarrow>
    dec_text s = Some v \<and> - (2 ^ (w - 1)) \<le> v \<and> v < 2 ^ (w - 1)"
proof -
  have p2: "0 \<le> x \<Longrightarrow> - x < 2 ^ (w - 1)" for x :: int
    by (rule le_less_trans[of _ 0]) auto
  have empty: "Base_Invoke tr neg [] = (False, 0)" for tr neg by (simp add: Base_Invoke_def)
  have B: "Base_Invoke (signed_traits w) neg ds = (True, v) \<longleftrightarrow>
      ds \<noteq> [] \<and> list_all is_digit ds \<and> v = (if neg then - dec_from 0 ds else dec_from 0 ds) \<and>
      - (2 ^ (w - 1)) \<le> v \<and> v < 2 ^ (w - 1)" for neg ds
    using Base_Invoke_dec[OF assms, of ds neg] dec_from_ge[of ds 0] empty
      p2[of "dec_from 0 ds"]
    by (cases "ds = []") (auto split: if_splits)
  show ?thesis
  proof (cases s)
    case Nil
    then show ?thesis by (simp add: IteratorRangeToNumber_def empty dec_text_def)
  next
    case (Cons c cs)
    show ?thesis
    proof (cases "LocalIsWhitespace c")
      case True
      then have "char_code c \<le> 32" by (auto simp: LocalIsWhitespace_def)
      then have "c \<noteq> CHR ''-''" "c \<noteq> CHR ''+''" "\<not> is_digit c"
        by (auto simp: is_digit_def)
      then show ?thesis using True Cons
        by (auto simp: IteratorRangeToNumber_def dec_text_def Let_def split: prod.splits)
    next
      case False
      then show ?thesis using Cons B[of True cs] B[of False cs] B[of False s]
        by (auto simp: IteratorRangeToNumber_def dec_text_def split: prod.splits)
    qed
  qed
qed

section \<open>Round trips\<close>

lemma digit_char_code: "0 \<le> d \<Longrightarrow> d < 10 \<Longrightarrow> char_code (digit_char d) = d + 48"
  by (simp add: char_code_def digit_char_def of_char_of)

lemma digit_char_is_digit [simp]: "0 \<le> d \<Longrightarrow> d < 10 \<Longrightarrow> is_digit (digit_char d)"
  by (simp add: is_digit_def digit_char_code)

text \<open>The loop writes the decimal digits of its argument in front of the output.\<close>

lemma int_to_string_loop_spec:
  "0 \<le> res \<Longrightarrow> \<exists>ds. ds \<noteq> [] \<and> int_to_string_loop res out = ds @ out \<and>
     list_all is_digit ds \<and> dec_from 0 ds = res \<and> (\<forall>k > 0. res < 10 ^ k \<longrightarrow> length ds \<le> k)"
proof (induction res out rule: int_to_string_loop.induct)
  case (1 res out)
  define out' where "out' = digit_char (res mod 10) # out"
  have m: "0 \<le> res mod 10" "res mod 10 < 10" by auto
  show ?case
  proof (cases "res div 10 \<le> 0")
    case True
    then have "res mod 10 = res" using "1.prems" by presburger
    then show ?thesis
      using True m by (intro exI[of _ "[digit_char (res mod 10)]"])
        (simp add: int_to_string_loop.simps[of res] digit_char_code)
  next
    case False
    then obtain ds where ds: "ds \<noteq> []" "int_to_string_loop (res div 10) out' = ds @ out'"
      "list_all is_digit ds" "dec_from 0 ds = res div 10"
      "\<And>k. k > 0 \<Longrightarrow> res div 10 < 10 ^ k \<Longrightarrow> length ds \<le> k"
      using "1.IH"[OF out'_def] by auto
    have len: "length ds + 1 \<le> k" if k: "k > 0" "res < 10 ^ k" for k
    proof -
      obtain j where j: "k = Suc j" using k(1) by (cases k) auto
      have "res div 10 < 10 ^ j" using k(2) j by simp
      then show ?thesis using ds(5)[of j] False j by (cases j) auto
    qed
    show ?thesis
      using False ds m len by (intro exI[of _ "ds @ [digit_char (res mod 10)]"])
        (auto simp: int_to_string_loop.simps[of res] out'_def dec_from_append digit_char_code)
  qed
qed

lemma IntToStringT_signed:
  assumes "0 < w" "- (2 ^ (w - 1)) \<le> v" "v < 2 ^ (w - 1)"
  shows "IntToStringT w True v =
    (if v < 0 then CHR ''-'' # int_to_string_loop (- v) [] else int_to_string_loop v [])"
proof -
  obtain k where k: "w = Suc k" using assms(1) by (cases w) auto
  have "ToUnsigned w True v = \<bar>v\<bar>"
  proof (cases "v = - (2 ^ k)")
    case True
    then have "wrap_signed w (- v) = - (2 ^ k)" by (simp add: k wrap_signed_def)
    moreover have "(- (2 ^ k)) mod (2 ^ Suc k) = (2 ^ k :: int)"
      by (subst zmod_zminus1_eq_if) (simp add: mod_pos_pos_trivial)
    ultimately show ?thesis using True k by (simp add: ToUnsigned_def wrap_unsigned_def)
  next
    case False
    then have "wrap_signed w (if v < 0 then - v else v) = \<bar>v\<bar>"
      using assms k by (subst wrap_signed_id) auto
    moreover have "\<bar>v\<bar> mod 2 ^ w = \<bar>v\<bar>"
      using assms k by (intro mod_pos_pos_trivial) auto
    ultimately show ?thesis by (auto simp: ToUnsigned_def wrap_unsigned_def split: if_splits)
  qed
  then show ?thesis by (simp add: IntToStringT_def)
qed

lemma IntToStringT_reads:
  assumes "5 \<le> w" "- (2 ^ (w - 1)) \<le> v" "v < 2 ^ (w - 1)"
  shows "IteratorRangeToNumber (signed_traits w) (IntToStringT w True v) = (True, v)"
proof -
  obtain ds where ds: "ds \<noteq> []" "int_to_string_loop \<bar>v\<bar> [] = ds" "list_all is_digit ds"
    "dec_from 0 ds = \<bar>v\<bar>" using int_to_string_loop_spec[of "\<bar>v\<bar>" "[]"] by auto
  obtain d ds' where "ds = d # ds'" using ds(1) by (cases ds) auto
  then have "d \<noteq> CHR ''-''" "d \<noteq> CHR ''+''" using ds(3) by (auto simp: is_digit_def char_code_def)
  then have "dec_text (IntToStringT w True v) = Some v"
    using ds \<open>ds = d # ds'\<close> assms by (auto simp: IntToStringT_signed dec_text_def)
  then show ?thesis using assms by (simp add: IteratorRangeToNumber_signed)
qed

text \<open>
  C39. \<open>IntToStringT\<close> and the string-to-number conversion of the same width are inverse on every
  value of the type, the most negative one included: what is printed is accepted and read back.
\<close>

theorem int_string_roundtrip:
  assumes "5 \<le> w" "- (2 ^ (w - 1)) \<le> v" "v < 2 ^ (w - 1)"
  shows "IteratorRangeToNumber (signed_traits w) (IntToStringT w True v) = (True, v)"
  using assms by (rule IntToStringT_reads)

theorem int_string_roundtrip_witness:
  "IteratorRangeToNumber (signed_traits 32) (IntToStringT 32 True (- 2147483648)) = (True, - 2147483648)"
  by (rule int_string_roundtrip) simp_all

lemma hex_digit_roundtrip: "n < 16 \<Longrightarrow> CharToDigit 16 (kHexChars ! n) = Some (int n)"
proof -
  have "\<forall>n \<in> {..<16::nat}. CharToDigit 16 (kHexChars ! n) = Some (int n)"
    by code_simp
  then show "n < 16 \<Longrightarrow> ?thesis" by simp
qed

lemma nibbles_join: "push_bit 4 (drop_bit 4 b AND 15) OR (b AND 15) = (b :: 8 word)"
proof -
  have m: "(15 :: 8 word) = mask 4" by (simp add: mask_eq_exp_minus_1)
  show ?thesis unfolding m by (rule bit_eqI) (auto simp: bit_simps)
qed

lemma unat_nibble: "unat ((b :: 8 word) AND 15) < 16"
proof -
  have "b AND 15 = take_bit 4 b" by (simp add: take_bit_eq_mask mask_eq_exp_minus_1)
  then have "unat (b AND 15) = take_bit 4 (unat b)" by (simp add: unsigned_take_bit_eq)
  then show ?thesis using take_bit_nat_less_exp[of 4 "unat b"] by simp
qed

lemma hex_bytes_loop_encode: "hex_bytes_loop (HexEncode bs) out = (True, out @ bs)"
proof (induction bs arbitrary: out)
  case Nil
  then show ?case by (simp add: HexEncode_def)
next
  case (Cons b bs)
  have "word_of_int (int (unat x)) = x" for x :: "8 word" by simp
  then show ?case using Cons nibbles_join[of b]
    by (simp add: HexEncode_def hex_digit_roundtrip unat_nibble)
qed

lemma length_HexEncode [simp]: "length (HexEncode bs) = 2 * length bs"
  by (induction bs) (auto simp: HexEncode_def)

lemma HexStringToBytes_HexEncode: "bs \<noteq> [] \<Longrightarrow> HexStringToBytes (HexEncode bs) = (True, bs)"
  by (simp add: HexStringToBytes_def hex_bytes_loop_encode)

section \<open>Unsigned and hexadecimal corner cases\<close>

text \<open>
  The unsigned conversions accept a minus sign, and the bounds test is skipped for the first
  digit, so a negative text is accepted and wraps around.
\<close>

lemma StringToUint_negative: "StringToUint ''-5'' = (True, 4294967291)"
  by code_simp

text \<open>
  Eight hexadecimal digits reach the sign bit; a ninth is then accepted as well, because the
  bounds test compares the negative output with a positive limit.
\<close>

lemma HexStringToInt_overlong: "HexStringToInt ''FFFFFFFFF'' = (True, - 1)"
  by code_simp

lemma HexStringToInt_two:
  assumes "CharToDigit 16 a = Some x" "CharToDigit 16 b = Some y"
  shows "HexStringToInt [a, b] = (True, 16 * x + y)"
proof -
  have r: "0 \<le> x" "x < 16" "0 \<le> y" "y < 16"
    using assms by (auto simp: CharToDigit_def Let_def split: if_splits)
  have n: "\<not> LocalIsWhitespace a" "a \<noteq> CHR ''-''" "a \<noteq> CHR ''+''"
    using assms(1) by (auto simp: CharToDigit_def LocalIsWhitespace_def Let_def split: if_splits)
  have w: "wrap_signed 32 z = z" if "0 \<le> z" "z < 256" for z
    using wrap_signed_id[of 32 z] that by simp
  show ?thesis
    using assms r n w[of x] w[of "16 * x"] w[of "16 * x + y"] w[of 0]
    by (simp add: HexStringToInt_def IteratorRangeToNumber_def Base_Invoke_def hex_traits_def
        Positive_CheckBounds_def wrap_signed_def Let_def mult.commute)
qed

section \<open>Conversions of the C library\<close>

text \<open>
  \<open>atol\<close>, \<open>strtoul\<close> and \<open>std::stoi\<close> skip white space, read an optional sign and the longest run of
  digits. On the target \<open>long\<close> has 32 bits: \<open>atol\<close> saturates and \<open>stoi\<close> throws.
\<close>

definition c_number :: "string \<Rightarrow> (bool \<times> string)" where
  "c_number s =
     (case dropWhile LocalIsWhitespace s of
        [] \<Rightarrow> (False, [])
      | c # cs \<Rightarrow>
          if c = CHR ''-'' then (True, takeWhile is_digit cs)
          else (False, takeWhile is_digit (if c = CHR ''+'' then cs else c # cs)))"

definition c_integer :: "string \<Rightarrow> int" where
  "c_integer s = (case c_number s of (neg, ds) \<Rightarrow> if neg then - dec_from 0 ds else dec_from 0 ds)"

definition atol :: "string \<Rightarrow> int" where
  "atol s = max (- (2 ^ 31)) (min (2 ^ 31 - 1) (c_integer s))"

definition stoi :: "string \<Rightarrow> int outcome" where
  "stoi s =
     (if snd (c_number s) = [] then Raise Invalid_Argument
      else if c_integer s < - (2 ^ 31) \<or> 2 ^ 31 \<le> c_integer s then Raise Out_Of_Range
      else Done (c_integer s))"

lemma atol_range: "- (2 ^ 31) \<le> atol s" "atol s < 2 ^ 31"
  by (simp_all add: atol_def)

lemma LocalIsWhitespace_code: "LocalIsWhitespace c \<Longrightarrow> char_code c < 33"
  by (auto simp: LocalIsWhitespace_def)

lemma c_integer_IntToString:
  assumes "- (2 ^ 31) \<le> v" "v < 2 ^ 31"
  shows "c_integer (IntToString v) = v"
proof -
  obtain ds where ds: "ds \<noteq> []" "int_to_string_loop \<bar>v\<bar> [] = ds" "list_all is_digit ds"
    "dec_from 0 ds = \<bar>v\<bar>" using int_to_string_loop_spec[of "\<bar>v\<bar>" "[]"] by auto
  obtain d ds' where d: "ds = d # ds'" using ds(1) by (cases ds) auto
  have s: "IntToString v = (if v < 0 then CHR ''-'' # ds else ds)"
    using IntToStringT_signed[of 32 v] assms ds(2) by (auto simp: IntToString_def)
  have n: "\<not> LocalIsWhitespace d" "d \<noteq> CHR ''-''" "d \<noteq> CHR ''+''"
    using ds(3) d by (auto simp: is_digit_def dest: LocalIsWhitespace_code)
  have t: "takeWhile is_digit ds = ds" using ds(3) by (simp add: takeWhile_eq_all_conv list_all_iff)
  have m: "\<not> LocalIsWhitespace CHR ''-''" using LocalIsWhitespace_code[of "CHR ''-''"] by auto
  show ?thesis
    using ds(4) n t m by (auto simp: s d c_integer_def c_number_def)
qed

text \<open>The decimal text of an integer: digits without a leading zero, after a sign if it is negative.\<close>

lemma dec_from_less: "list_all is_digit ds \<Longrightarrow> 0 \<le> a \<Longrightarrow> dec_from a ds < (a + 1) * 10 ^ length ds"
proof (induction ds arbitrary: a)
  case (Cons d ds)
  have "dec_from (a * 10 + (char_code d - 48)) ds < (a * 10 + (char_code d - 48) + 1) * 10 ^ length ds"
    by (rule Cons.IH) (use Cons.prems in \<open>simp_all add: is_digit_def\<close>)
  also have "\<dots> \<le> (a * 10 + 10) * 10 ^ length ds"
    using Cons.prems by (intro mult_right_mono) (auto simp: is_digit_def)
  finally show ?case by (simp add: algebra_simps)
qed simp

lemma IntToString_digits:
  assumes "- (2 ^ 31) \<le> v" "v < 2 ^ 31"
  obtains d ds where "IntToString v = (if v < 0 then CHR ''-'' # d # ds else d # ds)"
    "list_all is_digit (d # ds)" "d = CHR ''0'' \<Longrightarrow> ds = []"
proof -
  obtain ds where ds: "ds \<noteq> []" "int_to_string_loop \<bar>v\<bar> [] = ds" "list_all is_digit ds"
    "dec_from 0 ds = \<bar>v\<bar>" "\<And>k. k > 0 \<Longrightarrow> \<bar>v\<bar> < 10 ^ k \<Longrightarrow> length ds \<le> k"
    using int_to_string_loop_spec[of "\<bar>v\<bar>" "[]"] by auto
  obtain d ds' where d: "ds = d # ds'" using ds(1) by (cases ds) auto
  have "IntToString v = (if v < 0 then CHR ''-'' # d # ds' else d # ds')"
    using IntToStringT_signed[of 32 v] assms ds(2) d by (auto simp: IntToString_def)
  moreover have "ds' = []" if zero: "d = CHR ''0''"
  proof (rule ccontr)
    assume "ds' \<noteq> []"
    moreover have "\<bar>v\<bar> = dec_from 0 ds'" using ds(4) d zero by (simp add: char_code_def)
    then have "\<bar>v\<bar> < 10 ^ length ds'" using dec_from_less[of ds' 0] ds(3) d by simp
    ultimately show False using ds(5)[of "length ds'"] d by simp
  qed
  ultimately show thesis using that ds(3) d by blast
qed

end
