(* ===== verification/Vlog.thy ===== *)
theory Vlog
  imports String_Pieces Numbers
begin

text \<open>
  The verbose logging levels of \<open>src/src/chromium/vlog.cc\<close>: the settings of the two switches, the module of a
  file, and the matching of patterns, which is proved equal to a reference definition.
\<close>

section \<open>Matching\<close>

definition slash :: "char \<Rightarrow> bool" where
  "slash c \<longleftrightarrow> c = CHR ''/'' \<or> c = CHR 0x5C"

text \<open>
  The loop that consumes characters until the next star: what is left of the pattern and of the text,
  or \<open>None\<close> when a character does not match.
\<close>

fun consume :: "string \<Rightarrow> string \<Rightarrow> (string \<times> string) option" where
  "consume (c # p) (d # s) =
     (if c = CHR ''*'' then Some (c # p, d # s)
      else if slash c then (if \<not> slash d then None else consume p s)
      else if c = CHR ''?'' then consume p s
      else if c \<noteq> d then None
      else consume p s)"
| "consume p s = Some (p, s)"

lemma consume_shrinks:
  "consume p s = Some (p', s') \<Longrightarrow>
     length p' \<le> length p \<and> (p' \<noteq> [] \<and> s' \<noteq> [] \<longrightarrow> hd p' = CHR ''*'')"
  by (induction p s rule: consume.induct) (auto split: if_splits)

lemma dropWhile_shrinks: "xs \<noteq> [] \<Longrightarrow> P (hd xs) \<Longrightarrow> length (dropWhile P xs) < length xs"
  by (cases xs) (auto simp: less_Suc_eq_le length_dropWhile_le)

text \<open>The matcher, and its loop over the suffixes of the text after a star.\<close>

function MatchVlogPattern :: "string \<Rightarrow> string \<Rightarrow> bool"
  and match_suffixes :: "string \<Rightarrow> string \<Rightarrow> bool" where
  "MatchVlogPattern s p =
     (case consume p s of
        None \<Rightarrow> False
      | Some (p', s') \<Rightarrow>
          if p' = [] then s' = []
          else let q = dropWhile (\<lambda>c. c = CHR ''*'') p'
               in if q = [] then True else if s' = [] then False else match_suffixes s' q)"
| "match_suffixes s p = (if s = [] then False else if MatchVlogPattern s p then True else match_suffixes (tl s) p)"
  by pat_completeness auto

termination
proof (relation "inv_image (less_than <*lex*> less_than <*lex*> less_than)
    (\<lambda>x. case x of Inl (s, p) \<Rightarrow> (length p, 0, 0) | Inr (s, p) \<Rightarrow> (length p, 1 :: nat, length s))", goal_cases)
  case 1
  then show ?case by (intro wf_inv_image wf_lex_prod wf_less_than)
next
  case (2 s p x2 p' s' q)
  then have "hd p' = CHR ''*''" "length p' \<le> length p" using consume_shrinks[of p s p' s'] by auto
  then show ?case using 2 dropWhile_shrinks[of p' "\<lambda>c. c = CHR ''*''"] by auto
qed (auto simp: neq_Nil_conv)

declare MatchVlogPattern.simps [simp del] match_suffixes.simps [simp del]

text \<open>
  The reference: a star matches any text, a question mark one character, a slash of either kind one of
  either kind, and any other character itself.
\<close>

fun tails :: "'a list \<Rightarrow> 'a list list" where
  "tails [] = [[]]"
| "tails (x # xs) = (x # xs) # tails xs"

definition glob_char :: "char \<Rightarrow> char \<Rightarrow> bool" where
  "glob_char c d \<longleftrightarrow> c = CHR ''?'' \<or> (slash c \<and> slash d) \<or> c = d"

fun glob :: "string \<Rightarrow> string \<Rightarrow> bool" where
  "glob [] s \<longleftrightarrow> s = []"
| "glob (c # p) s \<longleftrightarrow>
     (if c = CHR ''*'' then list_ex (glob p) (tails s)
      else case s of [] \<Rightarrow> False | d # s' \<Rightarrow> glob_char c d \<and> glob p s')"

lemma self_in_tails [simp]: "s \<in> set (tails s)"
  by (cases s) auto

lemma tails_trans: "t \<in> set (tails s) \<Longrightarrow> set (tails t) \<subseteq> set (tails s)"
  by (induction s) auto

lemma Nil_in_tails [simp]: "[] \<in> set (tails s)"
  by (induction s) auto

lemma consume_glob:
  "case consume p s of None \<Rightarrow> \<not> glob p s | Some (p', s') \<Rightarrow> glob p s \<longleftrightarrow> glob p' s'"
  by (induction p s rule: consume.induct) (auto simp: glob_char_def slash_def split: option.splits)

lemma glob_stars:
  assumes "hd p = CHR ''*''" "p \<noteq> []"
  shows "glob p s \<longleftrightarrow> list_ex (glob (dropWhile (\<lambda>c. c = CHR ''*'') p)) (tails s)"
  using assms
proof (induction p arbitrary: s)
  case Nil
  then show ?case by simp
next
  case (Cons c p)
  show ?case
  proof (cases "p \<noteq> [] \<and> hd p = CHR ''*''")
    case True
    let ?g = "glob (dropWhile (\<lambda>c. c = CHR ''*'') p)"
    have "list_ex (glob p) (tails s) \<longleftrightarrow> (\<exists>t \<in> set (tails s). \<exists>u \<in> set (tails t). ?g u)"
      using Cons.IH True by (auto simp: list_ex_iff)
    also have "\<dots> \<longleftrightarrow> list_ex ?g (tails s)"
      unfolding list_ex_iff using tails_trans self_in_tails by blast
    finally show ?thesis using Cons.prems by simp
  next
    case False
    then have "dropWhile (\<lambda>c. c = CHR ''*'') p = p" by (cases p) auto
    then show ?thesis using Cons.prems by simp
  qed
qed

lemma Match_glob:
  "(\<forall>s. MatchVlogPattern s p \<longleftrightarrow> glob p s) \<and>
   (p \<noteq> [] \<and> hd p \<noteq> CHR ''*'' \<longrightarrow> (\<forall>s. match_suffixes s p \<longleftrightarrow> list_ex (glob p) (tails s)))"
proof (induction "length p" arbitrary: p rule: less_induct)
  case less
  have M: "MatchVlogPattern s p \<longleftrightarrow> glob p s" for s
  proof (cases "consume p s")
    case None
    then show ?thesis using consume_glob[of p s] by (simp add: MatchVlogPattern.simps)
  next
    case (Some ps)
    then obtain p' s' where c: "consume p s = Some (p', s')" by (cases ps) auto
    note g = consume_glob[of p s, unfolded c, simplified] and h = consume_shrinks[OF c]
    let ?q = "dropWhile (\<lambda>c. c = CHR ''*'') p'"
    show ?thesis
    proof (cases "p' \<noteq> [] \<and> hd p' = CHR ''*''")
      case True
      have q: "length ?q < length p" using True h dropWhile_shrinks[of p' "\<lambda>c. c = CHR ''*''"] by auto
      have q': "?q \<noteq> [] \<Longrightarrow> hd ?q \<noteq> CHR ''*''" by (rule hd_dropWhile)
      have gl: "glob p' s' \<longleftrightarrow> list_ex (glob ?q) (tails s')" using True by (intro glob_stars) auto
      have p': "p' \<noteq> []" using True by simp
      show ?thesis
      proof (cases "?q = []")
        case True
        then have "MatchVlogPattern s p"
          using c p' by (simp add: MatchVlogPattern.simps[of s p] Let_def)
        moreover have "glob p' s'"
          unfolding gl True list_ex_iff using Nil_in_tails glob.simps(1) by blast
        ultimately show ?thesis using g by blast
      next
        case False
        then have "match_suffixes s' ?q \<longleftrightarrow> list_ex (glob ?q) (tails s')" using less[OF q] q' by blast
        moreover have "\<not> glob ?q []" using False q' by (cases ?q) auto
        then have "list_ex (glob ?q) (tails s') \<longleftrightarrow> s' \<noteq> [] \<and> list_ex (glob ?q) (tails s')"
          by (cases s') (simp_all del: dropWhile.simps)
        moreover have "MatchVlogPattern s p \<longleftrightarrow> s' \<noteq> [] \<and> match_suffixes s' ?q"
          using c False p' by (simp add: MatchVlogPattern.simps[of s p] Let_def del: dropWhile_eq_Nil_conv)
        ultimately show ?thesis using g gl by blast
      qed
    next
      case False
      then have "p' = [] \<or> s' = []" using h by blast
      moreover have "?q = p'" using False by (cases p') auto
      moreover have "\<not> glob p' []" if "p' \<noteq> []" using False that by (cases p') auto
      ultimately show ?thesis using g c by (auto simp: MatchVlogPattern.simps[of s p] Let_def)
    qed
  qed
  have "match_suffixes s p \<longleftrightarrow> list_ex (glob p) (tails s)" if "p \<noteq> []" "hd p \<noteq> CHR ''*''" for s
  proof (induction s)
    case Nil
    then show ?case using that by (cases p) (auto simp: match_suffixes.simps)
  next
    case (Cons d s)
    then show ?case by (subst match_suffixes.simps) (simp add: M)
  qed
  with M show ?case by blast
qed

lemma MatchVlogPattern_eq: "MatchVlogPattern s p \<longleftrightarrow> glob p s"
  using Match_glob by blast

text \<open>
  C37. The matcher of patterns is the reference definition, with stars that match any text.
\<close>
theorem MatchVlogPattern_glob: "MatchVlogPattern s p \<longleftrightarrow> glob p s"
  by (rule MatchVlogPattern_eq)

section \<open>Settings\<close>

datatype match_target = MATCH_MODULE | MATCH_FILE

record vmodule_pattern =
  vm_pattern :: string
  vlog_level :: int
  vm_target :: match_target

definition VmodulePattern :: "string \<Rightarrow> vmodule_pattern" where
  "VmodulePattern pattern =
     \<lparr>vm_pattern = pattern, vlog_level = 0,
      vm_target = (if find_index slash pattern \<noteq> None then MATCH_FILE else MATCH_MODULE)\<rparr>"

text \<open>The object, with the log level its pointer leads to.\<close>

record vlog_info =
  vmodule_levels :: "vmodule_pattern list"
  min_log_level :: int

definition SetMaxVlogLevel :: "int \<Rightarrow> vlog_info \<Rightarrow> vlog_info" where
  "SetMaxVlogLevel level v = v\<lparr>min_log_level := wrap_signed 32 (- level)\<rparr>"

definition GetMaxVlogLevel :: "vlog_info \<Rightarrow> int" where
  "GetMaxVlogLevel v = wrap_signed 32 (- min_log_level v)"

text \<open>\<open>atoi\<close> is \<open>atol\<close> where \<open>long\<close> has 32 bits. A switch that is not fully parsed keeps the pairs that are.\<close>

definition VlogInfo :: "string \<Rightarrow> string \<Rightarrow> int \<Rightarrow> vlog_info" where
  "VlogInfo v_switch vmodule_switch level =
     (let v = \<lparr>vmodule_levels = [], min_log_level = level\<rparr>;
          v = (if v_switch \<noteq> [] then SetMaxVlogLevel (atol v_switch) v else v);
          kv_pairs = snd (SplitStringIntoKeyValuePairs vmodule_switch CHR ''='' CHR '','')
      in v\<lparr>vmodule_levels :=
             map (\<lambda>(key, level). (VmodulePattern key)\<lparr>vlog_level := atol level\<rparr>) kv_pairs\<rparr>)"

definition GetModule :: "string_piece \<Rightarrow> string_piece" where
  "GetModule file =
     (let module =
            (case find_last_of file [CHR 0x5C, CHR ''/''] (npos file) of
               Some last_slash_pos \<Rightarrow> remove_prefix (last_slash_pos + 1) file
             | None \<Rightarrow> file);
          extension_start = the_default (npos module) (piece_rfind_char module CHR ''.'' (npos module));
          module = piece_substr module 0 extension_start
      in if ends_with module ''-inl'' then remove_suffix 4 module else module)"

fun level_of :: "vmodule_pattern list \<Rightarrow> string_piece \<Rightarrow> string_piece \<Rightarrow> int \<Rightarrow> int" where
  "level_of [] file module level = level"
| "level_of (it # its) file module level =
     (if MatchVlogPattern (case vm_target it of MATCH_FILE \<Rightarrow> file | MATCH_MODULE \<Rightarrow> module) (vm_pattern it)
      then vlog_level it else level_of its file module level)"

definition GetVlogLevel :: "vlog_info \<Rightarrow> string_piece \<Rightarrow> int" where
  "GetVlogLevel v file =
     (if vmodule_levels v \<noteq> [] then level_of (vmodule_levels v) file (GetModule file) (GetMaxVlogLevel v)
      else GetMaxVlogLevel v)"

lemma level_of_first:
  "level_of its file module level =
     (case find (\<lambda>it. glob (vm_pattern it) (case vm_target it of MATCH_FILE \<Rightarrow> file | MATCH_MODULE \<Rightarrow> module)) its of
        Some it \<Rightarrow> vlog_level it | None \<Rightarrow> level)"
  by (induction its) (simp_all add: MatchVlogPattern_eq)

lemma GetVlogLevel_first:
  "GetVlogLevel v file =
     (case find (\<lambda>it. glob (vm_pattern it)
          (case vm_target it of MATCH_FILE \<Rightarrow> file | MATCH_MODULE \<Rightarrow> GetModule file)) (vmodule_levels v) of
        Some it \<Rightarrow> vlog_level it | None \<Rightarrow> GetMaxVlogLevel v)"
  by (simp add: GetVlogLevel_def level_of_first)

end
