(* ===== verification/Command_Line.thy ===== *)
theory Command_Line
  imports Vlog
begin

text \<open>
  The command line of \<open>src/src/chromium/command_line.cc\<close> and the log settings the process takes from it in
  \<open>src/src/main.cc\<close> and \<open>src/src/chromium/logging.cc\<close>. An insertion behind the end of \<open>argv_\<close> does not happen:
  \<open>well_placed\<close> is kept by every operation.
\<close>

section \<open>Switches\<close>

definition kSwitchTerminator :: string where "kSwitchTerminator = ''--''"
definition kSwitchValueSeparator :: string where "kSwitchValueSeparator = ''=''"
definition kSwitchPrefixes :: "string list" where "kSwitchPrefixes = [''--'', ''-'']"

definition GetSwitchPrefixLength :: "string \<Rightarrow> nat" where
  "GetSwitchPrefixLength s =
     (case find (\<lambda>p. take (length p) s = p) kSwitchPrefixes of Some p \<Rightarrow> length p | None \<Rightarrow> 0)"

text \<open>The result with the switch, its prefix included, and its value.\<close>

definition IsSwitch :: "string \<Rightarrow> bool \<times> string \<times> string" where
  "IsSwitch s =
     (if GetSwitchPrefixLength s = 0 then (False, [], [])
      else
        case str_find s kSwitchValueSeparator 0 of
          None \<Rightarrow> (True, s, [])
        | Some equals_position \<Rightarrow> (True, take equals_position s, drop (equals_position + 1) s))"

record command_line =
  cl_argv :: "string list"
  switches :: "(string, string) omap"
  begin_args :: nat

definition NO_PROGRAM :: command_line where
  "NO_PROGRAM = \<lparr>cl_argv = [[]], switches = [], begin_args = 1\<rparr>"

definition LowerASCIIOnWindows :: "string \<Rightarrow> string" where
  "LowerASCIIOnWindows s = s"

definition combined_switch :: "string \<Rightarrow> string \<Rightarrow> string" where
  "combined_switch switch_string val =
     (if GetSwitchPrefixLength switch_string = 0 then hd kSwitchPrefixes @ switch_string else switch_string) @
     (if val \<noteq> [] then kSwitchValueSeparator @ val else [])"

definition switch_key :: "string \<Rightarrow> string" where
  "switch_key switch_string = drop (GetSwitchPrefixLength switch_string) (LowerASCIIOnWindows switch_string)"

definition AppendSwitchNative :: "string \<Rightarrow> string \<Rightarrow> command_line \<Rightarrow> command_line" where
  "AppendSwitchNative switch_string val cl =
     cl\<lparr>switches := assign (switch_key switch_string) val (switches cl),
        cl_argv := take (begin_args cl) (cl_argv cl) @
          combined_switch switch_string val # drop (begin_args cl) (cl_argv cl),
        begin_args := Suc (begin_args cl)\<rparr>"

definition AppendSwitch :: "string \<Rightarrow> command_line \<Rightarrow> command_line" where
  "AppendSwitch switch_string = AppendSwitchNative switch_string []"

definition AppendSwitchASCII :: "string \<Rightarrow> string \<Rightarrow> command_line \<Rightarrow> command_line" where
  "AppendSwitchASCII switch_string value_string = AppendSwitchNative switch_string value_string"

definition AppendArgNative :: "string \<Rightarrow> command_line \<Rightarrow> command_line" where
  "AppendArgNative val cl = cl\<lparr>cl_argv := cl_argv cl @ [val]\<rparr>"

definition AppendArg :: "string \<Rightarrow> command_line \<Rightarrow> command_line" where
  "AppendArg val = AppendArgNative val"

text \<open>The divider lies within \<open>argv_\<close>.\<close>

definition well_placed :: "command_line \<Rightarrow> bool" where
  "well_placed cl \<longleftrightarrow> begin_args cl \<le> length (cl_argv cl)"

lemma well_placed_NO_PROGRAM [simp]: "well_placed NO_PROGRAM"
  by (simp add: well_placed_def NO_PROGRAM_def)

lemma well_placed_append [simp]:
  "well_placed cl \<Longrightarrow> well_placed (AppendSwitchNative s v cl)"
  "well_placed cl \<Longrightarrow> well_placed (AppendArgNative a cl)"
  by (simp_all add: well_placed_def AppendSwitchNative_def AppendArgNative_def)

section \<open>Parsing\<close>

text \<open>The loop from the second element on.\<close>

fun append_loop :: "bool \<Rightarrow> string list \<Rightarrow> command_line \<Rightarrow> command_line" where
  "append_loop parse_switches [] cl = cl"
| "append_loop parse_switches (a # as) cl =
     (let arg = fst (TrimWhitespace a TRIM_ALL);
          parse_switches = (parse_switches \<and> arg \<noteq> kSwitchTerminator)
      in case IsSwitch arg of (is_switch, switch_string, switch_value) \<Rightarrow>
           append_loop parse_switches as
             (if parse_switches \<and> is_switch then AppendSwitchNative switch_string switch_value cl
              else AppendArgNative arg cl))"

definition AppendSwitchesAndArguments :: "command_line \<Rightarrow> string list \<Rightarrow> command_line" where
  "AppendSwitchesAndArguments cl argv = append_loop True (tl argv) cl"

text \<open>The switches that are there already are kept.\<close>

definition InitFromArgv :: "string list \<Rightarrow> command_line \<Rightarrow> command_line" where
  "InitFromArgv argv cl =
     AppendSwitchesAndArguments (cl\<lparr>cl_argv := [[]], begin_args := 1\<rparr>) argv"

definition CommandLine :: "string list \<Rightarrow> command_line" where
  "CommandLine argv = InitFromArgv argv NO_PROGRAM"

definition ParseFromString :: "string \<Rightarrow> command_line \<Rightarrow> command_line" where
  "ParseFromString s cl =
     (if fst (TrimWhitespace s TRIM_ALL) = [] then cl
      else InitFromArgv (SplitString s CHR '' '' []) cl)"

definition FromString :: "string \<Rightarrow> command_line" where
  "FromString s = ParseFromString s NO_PROGRAM"

text \<open>The singleton: a second \<open>Init\<close> does nothing.\<close>

definition CommandLine_Init :: "string list \<Rightarrow> command_line option \<Rightarrow> command_line option" where
  "CommandLine_Init argv current =
     (case current of Some cl \<Rightarrow> Some cl | None \<Rightarrow> Some (InitFromArgv argv NO_PROGRAM))"

definition CommandLine_Reset :: "command_line option \<Rightarrow> command_line option" where
  "CommandLine_Reset current = None"

definition AppendArguments :: "command_line \<Rightarrow> bool \<Rightarrow> command_line \<Rightarrow> command_line" where
  "AppendArguments other include_program cl = AppendSwitchesAndArguments cl (cl_argv other)"

definition PrependWrapper :: "string \<Rightarrow> command_line \<Rightarrow> command_line" where
  "PrependWrapper wrapper cl =
     (if wrapper = [] then cl
      else
        let wrapper_argv = SplitString wrapper CHR '' '' []
        in cl\<lparr>cl_argv := wrapper_argv @ cl_argv cl, begin_args := begin_args cl + length wrapper_argv\<rparr>)"

lemma well_placed_append_loop: "well_placed cl \<Longrightarrow> well_placed (append_loop b as cl)"
  by (induction b as cl rule: append_loop.induct) (auto simp: Let_def split: prod.splits)

lemma well_placed_parse:
  "well_placed (InitFromArgv argv cl)"
  "well_placed cl \<Longrightarrow> well_placed (ParseFromString s cl)"
  "well_placed cl \<Longrightarrow> well_placed (AppendArguments other p cl)"
  "well_placed cl \<Longrightarrow> well_placed (PrependWrapper w cl)"
proof -
  show I: "well_placed (InitFromArgv argv cl)" for argv cl
    unfolding InitFromArgv_def AppendSwitchesAndArguments_def
    by (rule well_placed_append_loop) (simp add: well_placed_def)
  show "well_placed cl \<Longrightarrow> well_placed (ParseFromString s cl)"
    by (simp add: ParseFromString_def I)
  show "well_placed cl \<Longrightarrow> well_placed (AppendArguments other p cl)"
    unfolding AppendArguments_def AppendSwitchesAndArguments_def by (rule well_placed_append_loop)
qed (simp add: PrependWrapper_def well_placed_def Let_def)

section \<open>Reading\<close>

definition HasSwitch :: "command_line \<Rightarrow> string \<Rightarrow> bool" where
  "HasSwitch cl switch_string \<longleftrightarrow> map_of (switches cl) (LowerASCIIOnWindows switch_string) \<noteq> None"

definition GetSwitchValueNative :: "command_line \<Rightarrow> string \<Rightarrow> string" where
  "GetSwitchValueNative cl switch_string =
     the_default [] (map_of (switches cl) (LowerASCIIOnWindows switch_string))"

definition GetSwitchValueASCII :: "command_line \<Rightarrow> string \<Rightarrow> string" where
  "GetSwitchValueASCII cl switch_string = GetSwitchValueNative cl switch_string"

fun CopySwitchesFrom :: "command_line \<Rightarrow> string list \<Rightarrow> command_line \<Rightarrow> command_line" where
  "CopySwitchesFrom source [] cl = cl"
| "CopySwitchesFrom source (s # ss) cl =
     CopySwitchesFrom source ss
       (if HasSwitch source s then AppendSwitchNative s (GetSwitchValueNative source s) cl else cl)"

definition GetArgs :: "command_line \<Rightarrow> string list" where
  "GetArgs cl = remove1 kSwitchTerminator (drop (begin_args cl) (cl_argv cl))"

fun command_line_loop :: "bool \<Rightarrow> string list \<Rightarrow> string \<Rightarrow> string" where
  "command_line_loop parse_switches [] s = s"
| "command_line_loop parse_switches (arg # args) s =
     (let parse_switches = (parse_switches \<and> arg \<noteq> kSwitchTerminator)
      in case IsSwitch arg of (is_switch, switch_string, switch_value) \<Rightarrow>
           command_line_loop parse_switches args
             (if parse_switches \<and> is_switch then
                s @ '' '' @ switch_string @
                  (if switch_value \<noteq> [] then kSwitchValueSeparator @ switch_value else [])
              else s @ '' '' @ arg))"

definition GetCommandLineString :: "command_line \<Rightarrow> string" where
  "GetCommandLineString cl = command_line_loop True (tl (cl_argv cl)) (cl_argv cl ! 0)"

section \<open>The log settings of the process\<close>

definition kEnableLogging :: string where "kEnableLogging = ''enable-logging''"
definition kV :: string where "kV = ''v''"
definition kVModule :: string where "kVModule = ''vmodule''"

datatype logging_destination =
  LOG_NONE | LOG_ONLY_TO_FILE | LOG_ONLY_TO_SYSTEM_DEBUG_LOG | LOG_TO_BOTH_FILE_AND_SYSTEM_DEBUG_LOG

text \<open>The release build.\<close>

definition DetermineLogMode :: "command_line \<Rightarrow> logging_destination" where
  "DetermineLogMode cl =
     (if GetSwitchValueASCII cl kEnableLogging = ''file'' then LOG_ONLY_TO_FILE else LOG_NONE)"

text \<open>\<open>g_vlog_info\<close> stays null unless one of the two switches is there.\<close>

definition init_vlog :: "command_line \<Rightarrow> int \<Rightarrow> vlog_info option" where
  "init_vlog cl level =
     (if HasSwitch cl kV \<or> HasSwitch cl kVModule
      then Some (VlogInfo (GetSwitchValueASCII cl kV) (GetSwitchValueASCII cl kVModule) level)
      else None)"

section \<open>What parsing finds\<close>

text \<open>
  The specification: the arguments without white space at their ends, cut at the first terminator; in
  front of it what starts with a hyphen is a switch, split at its first equals sign.
\<close>

definition is_switch :: "string \<Rightarrow> bool" where
  "is_switch s \<longleftrightarrow> s \<noteq> [] \<and> hd s = CHR ''-''"

definition front_of :: "string list \<Rightarrow> string list" where
  "front_of as = takeWhile (\<lambda>a. a \<noteq> kSwitchTerminator) (map (trimmed is_ws) as)"

definition back_of :: "string list \<Rightarrow> string list" where
  "back_of as = dropWhile (\<lambda>a. a \<noteq> kSwitchTerminator) (map (trimmed is_ws) as)"

definition switches_of :: "string list \<Rightarrow> (string \<times> string) list" where
  "switches_of as = map (snd \<circ> IsSwitch) (filter is_switch (front_of as))"

definition args_of :: "string list \<Rightarrow> string list" where
  "args_of as = filter (Not \<circ> is_switch) (front_of as) @ back_of as"

lemma IsSwitch_hyphen: "fst (IsSwitch s) \<longleftrightarrow> is_switch s"
  by (cases s; cases "tl s")
     (auto simp: IsSwitch_def is_switch_def GetSwitchPrefixLength_def kSwitchPrefixes_def split: option.splits)

lemma append_loop_False:
  "append_loop False as cl = cl\<lparr>cl_argv := cl_argv cl @ map (trimmed is_ws) as\<rparr>"
  by (induction as arbitrary: cl) (auto simp: Let_def AppendArgNative_def TrimWhitespace_all split: prod.split)

lemma append_loop_True:
  "begin_args cl \<le> length (cl_argv cl) \<Longrightarrow>
   append_loop True as cl =
     cl\<lparr>switches := fold (\<lambda>(s, v). assign (switch_key s) v) (switches_of as) (switches cl),
        cl_argv := take (begin_args cl) (cl_argv cl) @ map (\<lambda>(s, v). combined_switch s v) (switches_of as) @
          drop (begin_args cl) (cl_argv cl) @ args_of as,
        begin_args := begin_args cl + length (switches_of as)\<rparr>"
proof (induction as arbitrary: cl)
  case Nil
  then show ?case by (simp add: switches_of_def args_of_def front_of_def back_of_def)
next
  case (Cons a as)
  let ?a = "trimmed is_ws a"
  obtain b s v where s: "IsSwitch ?a = (b, s, v)" by (cases "IsSwitch ?a")
  have b: "b \<longleftrightarrow> is_switch ?a" using IsSwitch_hyphen[of ?a] s by simp
  show ?case
  proof (cases "?a = kSwitchTerminator")
    case True
    then show ?thesis
      by (simp add: Let_def TrimWhitespace_all append_loop_False AppendArgNative_def
          switches_of_def args_of_def front_of_def back_of_def split: prod.split)
  next
    case terminator: False
    show ?thesis
    proof (cases b)
      case True
      let ?cl = "AppendSwitchNative s v cl"
      have "append_loop True as ?cl = ?cl\<lparr>
          switches := fold (\<lambda>(s, v). assign (switch_key s) v) (switches_of as) (switches ?cl),
          cl_argv := take (begin_args ?cl) (cl_argv ?cl) @ map (\<lambda>(s, v). combined_switch s v) (switches_of as) @
            drop (begin_args ?cl) (cl_argv ?cl) @ args_of as,
          begin_args := begin_args ?cl + length (switches_of as)\<rparr>"
        using Cons.prems by (intro Cons.IH) (simp add: AppendSwitchNative_def)
      then show ?thesis
        using True b s terminator Cons.prems
        by (simp add: Let_def TrimWhitespace_all switches_of_def args_of_def front_of_def back_of_def
            AppendSwitchNative_def min_absorb2)
    next
      case False
      let ?cl = "AppendArgNative ?a cl"
      have "append_loop True as ?cl = ?cl\<lparr>
          switches := fold (\<lambda>(s, v). assign (switch_key s) v) (switches_of as) (switches ?cl),
          cl_argv := take (begin_args ?cl) (cl_argv ?cl) @ map (\<lambda>(s, v). combined_switch s v) (switches_of as) @
            drop (begin_args ?cl) (cl_argv ?cl) @ args_of as,
          begin_args := begin_args ?cl + length (switches_of as)\<rparr>"
        using Cons.prems by (intro Cons.IH) (simp add: AppendArgNative_def)
      then show ?thesis
        using False b s terminator Cons.prems
        by (simp add: Let_def TrimWhitespace_all switches_of_def args_of_def front_of_def back_of_def
            AppendArgNative_def)
    qed
  qed
qed

lemma map_of_fold_assign:
  "map_of (fold (\<lambda>(s, v). assign (f s) v) kvs m) k =
     (case map_of (rev (map (\<lambda>(s, v). (f s, v)) kvs)) k of Some v \<Rightarrow> Some v | None \<Rightarrow> map_of m k)"
  by (induction kvs arbitrary: m) (auto simp: map_of_assign map_add_def split: option.splits)

lemma remove1_dropWhile: "remove1 x (dropWhile (\<lambda>a. a \<noteq> x) ys) = tl (dropWhile (\<lambda>a. a \<noteq> x) ys)"
  by (induction ys) auto

lemma InitFromArgv_switches:
  "map_of (switches (InitFromArgv argv cl\<^sub>0)) k =
     (case map_of (rev (map (\<lambda>(s, v). (switch_key s, v)) (switches_of (tl argv)))) k of
        Some v \<Rightarrow> Some v | None \<Rightarrow> map_of (switches cl\<^sub>0) k)"
  by (simp add: InitFromArgv_def AppendSwitchesAndArguments_def append_loop_True map_of_fold_assign)

text \<open>
  C36. Parsing an argument vector: the program name is dropped, the switches come first in their order,
  then the other arguments in theirs; the last value of a switch counts, and a switch that was there
  before stays when it does not occur again. A switch starts with a hyphen; the header promises the
  slash too, on Windows, but it starts no switch (\<open>slash_is_no_switch\<close>).
\<close>
theorem InitFromArgv_parses:
  "let cl = InitFromArgv argv cl\<^sub>0 in
     cl_argv cl = [] # map (\<lambda>(s, v). combined_switch s v) (switches_of (tl argv)) @ args_of (tl argv) \<and>
     begin_args cl = Suc (length (switches_of (tl argv))) \<and>
     GetArgs cl = filter (Not \<circ> is_switch) (front_of (tl argv)) @ tl (back_of (tl argv)) \<and>
     map_of (switches cl) k =
       (case map_of (rev (map (\<lambda>(s, v). (switch_key s, v)) (switches_of (tl argv)))) k of
          Some v \<Rightarrow> Some v | None \<Rightarrow> map_of (switches cl\<^sub>0) k)"
proof -
  have front: "kSwitchTerminator \<notin> set (front_of (tl argv))"
    by (auto simp: front_of_def dest: set_takeWhileD)
  have terminated: "remove1 kSwitchTerminator (back_of (tl argv)) = tl (back_of (tl argv))"
    unfolding back_of_def by (rule remove1_dropWhile)
  show ?thesis
    using front terminated
    by (simp add: Let_def InitFromArgv_def AppendSwitchesAndArguments_def append_loop_True GetArgs_def
        map_of_fold_assign args_of_def remove1_append)
qed

text \<open>An argument with the Windows prefix is an ordinary one.\<close>

theorem slash_is_no_switch:
  "\<not> fst (IsSwitch (CHR ''/'' # s)) \<and> \<not> HasSwitch (CommandLine [''psych'', ''/v=2'']) kV \<and>
   GetArgs (CommandLine [''psych'', ''/v=2'']) = [''/v=2'']"
proof -
  have "\<not> HasSwitch (CommandLine [''psych'', ''/v=2'']) kV" "GetArgs (CommandLine [''psych'', ''/v=2'']) = [''/v=2'']"
    by code_simp+
  moreover have "\<not> fst (IsSwitch (CHR ''/'' # s))"
    by (simp add: IsSwitch_def GetSwitchPrefixLength_def kSwitchPrefixes_def)
  ultimately show ?thesis by simp
qed

end
