(* ===== verification/Effects.thy ===== *)
theory Effects
  imports Prelude
begin

text \<open>
  Methods that change an object and may throw. A method is a function from the state to its
  outcome and the state it leaves: what was changed before an exception stays changed. The
  combinators below are the statement sequence, the range-based loop and the \<open>try\<close> block; the
  rules about \<open>keeps\<close> prove that a method preserves an invariant statement by statement.
\<close>

type_synonym ('s, 'a) "method" = "'s \<Rightarrow> 'a outcome \<times> 's"

definition ret :: "'a \<Rightarrow> ('s, 'a) method" where
  "ret x = (\<lambda>s. (Done x, s))"

definition throw :: "failure \<Rightarrow> ('s, 'a) method" where
  "throw e = (\<lambda>s. (Raise e, s))"

definition gets :: "('s \<Rightarrow> 'a) \<Rightarrow> ('s, 'a) method" where
  "gets f = (\<lambda>s. (Done (f s), s))"

definition modify :: "('s \<Rightarrow> 's) \<Rightarrow> ('s, unit) method" where
  "modify f = (\<lambda>s. (Done (), f s))"

definition bindm :: "('s, 'a) method \<Rightarrow> ('a \<Rightarrow> ('s, 'b) method) \<Rightarrow> ('s, 'b) method" where
  "bindm m f = (\<lambda>s. case m s of
      (Done x, s') \<Rightarrow> f x s'
    | (Raise e, s') \<Rightarrow> (Raise e, s')
    | (Diverged, s') \<Rightarrow> (Diverged, s'))"

definition seq :: "('s, unit) method \<Rightarrow> ('s, 'b) method \<Rightarrow> ('s, 'b) method" where
  "seq m k = bindm m (\<lambda>_. k)"

text \<open>\<open>try { m } catch (e) { h }\<close> for the exceptions \<open>e\<close> that satisfy \<open>p\<close>.\<close>

definition try_catch ::
    "('s, 'a) method \<Rightarrow> (failure \<Rightarrow> bool) \<Rightarrow> (failure \<Rightarrow> ('s, 'a) method) \<Rightarrow> ('s, 'a) method" where
  "try_catch m p h = (\<lambda>s. case m s of
      (Raise e, s') \<Rightarrow> if p e then h e s' else (Raise e, s')
    | r \<Rightarrow> r)"

fun for_each :: "'x list \<Rightarrow> ('x \<Rightarrow> ('s, unit) method) \<Rightarrow> ('s, unit) method" where
  "for_each [] f = ret ()"
| "for_each (x # xs) f = seq (f x) (for_each xs f)"

lemma bindm_cong [fundef_cong]:
  "m s = m' s' \<Longrightarrow> (\<And>x t. m' s' = (Done x, t) \<Longrightarrow> f x t = g x t) \<Longrightarrow> bindm m f s = bindm m' g s'"
  by (auto simp: bindm_def split: prod.splits outcome.splits)

named_theorems method_simps \<open>running a method\<close>
named_theorems keeps_intro \<open>methods that preserve an invariant\<close>

lemma run_simps [method_simps]:
  "ret x s = (Done x, s)"
  "throw e s = (Raise e, s)"
  "gets f s = (Done (f s), s)"
  "modify g s = (Done (), g s)"
  by (simp_all add: ret_def throw_def gets_def modify_def)

lemma bindm_run [method_simps]:
  "bindm (ret x) f s = f x s"
  "bindm (gets g) f s = f (g s) s"
  "bindm (throw e) f s = (Raise e, s)"
  "seq (modify h) k s = k (h s)"
  "seq (ret u) k s = k s"
  "seq (throw e) k s = (Raise e, s)"
  "bindm (Pair (Done x)) f s = f x s"
  "bindm (Pair (Raise e)) f s = (Raise e, s)"
  "seq (Pair (Done u)) k s = k s"
  "seq (Pair (Raise e)) k s = (Raise e, s)"
  by (simp_all add: bindm_def seq_def run_simps)

lemma bindm_Done:
  "bindm m f s = (Done y, t) \<longleftrightarrow> (\<exists>x s'. m s = (Done x, s') \<and> f x s' = (Done y, t))"
  by (auto simp: bindm_def split: prod.splits outcome.splits)

lemma seq_Done:
  "seq m k s = (Done y, t) \<longleftrightarrow> (\<exists>s'. m s = (Done (), s') \<and> k s' = (Done y, t))"
  by (simp add: seq_def bindm_Done)

lemma bindm_Raise:
  "bindm m f s = (Raise e, t) \<longleftrightarrow>
     m s = (Raise e, t) \<or> (\<exists>x s'. m s = (Done x, s') \<and> f x s' = (Raise e, t))"
  by (auto simp: bindm_def split: prod.splits outcome.splits)

text \<open>\<open>keeps I m\<close>: whatever the outcome of \<open>m\<close>, the state it leaves satisfies \<open>I\<close>.\<close>

definition keeps :: "('s \<Rightarrow> bool) \<Rightarrow> ('s, 'a) method \<Rightarrow> bool" where
  "keeps I m \<longleftrightarrow> (\<forall>s. I s \<longrightarrow> I (snd (m s)))"

lemma keepsD: "keeps I m \<Longrightarrow> I s \<Longrightarrow> I (snd (m s))"
  by (simp add: keeps_def)

lemma keeps_ret [keeps_intro]: "keeps I (ret x)"
  and keeps_throw [keeps_intro]: "keeps I (throw e)"
  and keeps_gets [keeps_intro]: "keeps I (gets f)"
  by (simp_all add: keeps_def method_simps)

lemma keeps_modify: "(\<And>s. I s \<Longrightarrow> I (f s)) \<Longrightarrow> keeps I (modify f)"
  by (simp add: keeps_def method_simps)

lemma keeps_bindm [keeps_intro]: "keeps I m \<Longrightarrow> (\<And>x. keeps I (f x)) \<Longrightarrow> keeps I (bindm m f)"
  by (fastforce simp: keeps_def bindm_def split: prod.splits outcome.splits)

lemma keeps_seq [keeps_intro]: "keeps I m \<Longrightarrow> keeps I k \<Longrightarrow> keeps I (seq m k)"
  by (simp add: seq_def keeps_bindm)

lemma keeps_try [keeps_intro]:
  "keeps I m \<Longrightarrow> (\<And>e. p e \<Longrightarrow> keeps I (h e)) \<Longrightarrow> keeps I (try_catch m p h)"
  by (fastforce simp: keeps_def try_catch_def split: prod.splits outcome.splits)

lemma keeps_for_each [keeps_intro]:
  "(\<And>x. x \<in> set xs \<Longrightarrow> keeps I (f x)) \<Longrightarrow> keeps I (for_each xs f)"
  by (induction xs) (simp_all add: keeps_ret keeps_seq)

lemma keeps_if [keeps_intro]:
  "(b \<Longrightarrow> keeps I m) \<Longrightarrow> (\<not> b \<Longrightarrow> keeps I k) \<Longrightarrow> keeps I (if b then m else k)"
  by simp

lemma keeps_case_option [keeps_intro]:
  "keeps I m \<Longrightarrow> (\<And>x. keeps I (f x)) \<Longrightarrow> keeps I (case v of None \<Rightarrow> m | Some x \<Rightarrow> f x)"
  by (cases v) auto

lemma keeps_Pair [keeps_intro]: "keeps I (Pair x)"
  by (simp add: keeps_def)

text \<open>An invariant that depends on the state being the pre-state of the method.\<close>

lemma keeps_conj: "keeps I m \<Longrightarrow> keeps J m \<Longrightarrow> keeps (\<lambda>s. I s \<and> J s) m"
  by (simp add: keeps_def)

text \<open>\<open>returns m\<close>: the method comes back, with a value or an exception.\<close>

definition returns :: "('s, 'a) method \<Rightarrow> bool" where
  "returns m \<longleftrightarrow> (\<forall>s. fst (m s) \<noteq> Diverged)"

named_theorems returns_intro \<open>methods that come back\<close>

lemma returns_basic [returns_intro]:
  "returns (ret x)" "returns (throw e)" "returns (gets f)" "returns (modify g)"
  by (simp_all add: returns_def method_simps)

lemma returns_bindm [returns_intro]: "returns m \<Longrightarrow> (\<And>x. returns (f x)) \<Longrightarrow> returns (bindm m f)"
  unfolding returns_def bindm_def
  by (auto split: prod.splits outcome.splits) (metis fst_conv)+

lemma returns_seq [returns_intro]: "returns m \<Longrightarrow> returns k \<Longrightarrow> returns (seq m k)"
  by (simp add: seq_def returns_bindm)

lemma returns_try [returns_intro]: "returns m \<Longrightarrow> (\<And>e. returns (h e)) \<Longrightarrow> returns (try_catch m p h)"
  unfolding returns_def try_catch_def
  by (auto split: prod.splits outcome.splits) (metis fst_conv)+

lemma returns_for_each [returns_intro]: "(\<And>x. returns (f x)) \<Longrightarrow> returns (for_each xs f)"
  by (induction xs) (simp_all add: returns_basic returns_seq)

lemma returns_if [returns_intro]: "(b \<Longrightarrow> returns m) \<Longrightarrow> (\<not> b \<Longrightarrow> returns k) \<Longrightarrow> returns (if b then m else k)"
  by simp

lemma returns_case_option [returns_intro]:
  "returns m \<Longrightarrow> (\<And>x. returns (f x)) \<Longrightarrow> returns (case v of None \<Rightarrow> m | Some x \<Rightarrow> f x)"
  by (cases v) auto

lemma returns_case_prod [returns_intro]:
  "(\<And>x y. returns (f x y)) \<Longrightarrow> returns (case v of (x, y) \<Rightarrow> f x y)"
  by (cases v) auto

text \<open>A loop that returns has run its body on every element.\<close>

lemma for_each_append: "for_each (xs @ ys) f s = seq (for_each xs f) (for_each ys f) s"
proof (induction xs arbitrary: s)
  case Nil
  then show ?case by (simp add: method_simps)
next
  case (Cons x xs)
  then show ?case
    by (auto simp: seq_def bindm_def split: prod.splits outcome.splits)
qed

lemma for_each_collect:
  assumes "\<And>x js p q. x \<in> set xs \<Longrightarrow> Q js p \<Longrightarrow> f x p = (Done (), q) \<Longrightarrow> Q (insert x js) q"
    and "Q js p" "for_each xs f p = (Done (), q)"
  shows "Q (js \<union> set xs) q"
  using assms
proof (induction xs arbitrary: js p)
  case Nil
  then show ?case by (simp add: method_simps)
next
  case (Cons x xs)
  obtain r where r: "f x p = (Done (), r)" "for_each xs f r = (Done (), q)"
    using Cons.prems(3) by (auto simp: seq_Done)
  have step: "Q (insert y js') q'" if "y \<in> set xs" "Q js' p'" "f y p' = (Done (), q')" for y js' p' q'
    using Cons.prems(1)[of y js' p' q'] that by simp
  have Q: "Q (insert x js) r" using Cons.prems(1)[OF _ Cons.prems(2) r(1)] by simp
  have "Q (insert x js \<union> set xs) q"
    by (rule Cons.IH[OF step Q r(2)])
  then show ?case by simp
qed

text \<open>
  Running a method symbolically: the statements are peeled off from the left, and the rule
  \<open>bindm_weak\<close>, used as a congruence, keeps the simplifier out of what is still to be run.
\<close>

lemma bindm_assoc: "bindm (bindm m f) g s = bindm m (\<lambda>x. bindm (f x) g) s"
  by (simp add: bindm_def split: prod.splits outcome.splits)

lemma bindm_weak: "m = m' \<Longrightarrow> bindm m f = bindm m' f"
  by simp

lemma seq_bindm: "seq m k = bindm m (\<lambda>_. k)"
  by (simp add: seq_def)

lemma bindm_modify: "bindm (modify f) k s = k () (f s)"
  by (simp add: bindm_def method_simps)

lemma seq_Done_run: "m s = (Done (), t) \<Longrightarrow> seq m k s = k t"
  by (simp add: seq_def bindm_def)

lemma seq_Raise_run: "m s = (Raise e, t) \<Longrightarrow> seq m k s = (Raise e, t)"
  by (simp add: seq_def bindm_def)

lemma snd_ignore: "snd (bindm m (\<lambda>_. ret ()) p) = snd (m p)"
  by (simp add: bindm_def method_simps split: prod.splits outcome.splits)

lemma try_catch_run:
  "try_catch m p h s = (case m s of
      (Done x, s') \<Rightarrow> (Done x, s')
    | (Raise e, s') \<Rightarrow> if p e then h e s' else (Raise e, s')
    | (Diverged, s') \<Rightarrow> (Diverged, s'))"
  "bindm (try_catch m p h) k s = (case m s of
      (Done x, s') \<Rightarrow> k x s'
    | (Raise e, s') \<Rightarrow> if p e then bindm (h e) k s' else (Raise e, s')
    | (Diverged, s') \<Rightarrow> (Diverged, s'))"
  by (auto simp: try_catch_def bindm_def split: prod.splits outcome.splits)

lemmas run_simps_all = seq_bindm bindm_assoc bindm_modify method_simps try_catch_run

section \<open>Weakest preconditions\<close>

text \<open>\<open>wp m Q s\<close>: from \<open>s\<close> the method \<open>m\<close> comes back, and if it returns a value then \<open>Q\<close> holds of it and of
  the state it leaves.\<close>

definition wp :: "('s, 'a) method \<Rightarrow> ('a \<Rightarrow> 's \<Rightarrow> bool) \<Rightarrow> 's \<Rightarrow> bool" where
  "wp m Q s = (case m s of (Done x, t) \<Rightarrow> Q x t | (Raise _, _) \<Rightarrow> True | (Diverged, _) \<Rightarrow> False)"

named_theorems wp_simps \<open>weakest preconditions of statements\<close>

lemma wp_basic [wp_simps]:
  "wp (ret x) Q s = Q x s" "wp (gets f) Q s = Q (f s) s" "wp (modify g) U s = U () (g s)"
  "wp (throw e) Q s = True" "wp (Pair (Done x)) Q s = Q x s" "wp (Pair (Raise e)) Q s = True"
  "wp (Pair Diverged) Q s = False"
  by (simp_all add: wp_def method_simps)

lemma wp_bindm [wp_simps]: "wp (bindm m f) Q s = wp m (\<lambda>x. wp (f x) Q) s"
  by (simp add: wp_def bindm_def split: prod.splits outcome.splits)

lemma wp_seq [wp_simps]: "wp (seq m k) Q s = wp m (\<lambda>_. wp k Q) s"
  by (simp add: seq_def wp_bindm)

lemma wp_if [wp_simps]: "wp (if b then m else k) Q s = (if b then wp m Q s else wp k Q s)"
  by simp

lemma wp_mono: "wp m Q s \<Longrightarrow> (\<And>x t. Q x t \<Longrightarrow> R x t) \<Longrightarrow> wp m R s"
  by (auto simp: wp_def split: prod.splits outcome.splits)

lemma wpD: "wp m Q s \<Longrightarrow> m s = (Done x, t) \<Longrightarrow> Q x t" "wp m Q s \<Longrightarrow> fst (m s) \<noteq> Diverged"
  by (auto simp: wp_def split: prod.splits outcome.splits)

end
