(* ===== verification/Logging.thy ===== *)
theory Logging
  imports Command_Line Effects
begin

text \<open>
  The log of \<open>src/src/chromium/logging.cc\<close> and \<open>src/src/chromium/logging.hh\<close>: the process-wide settings, the lock, the log file, one message from its
  header to its destinations, and the macros. The static variables are one record; the disk, the error
  output and the debugger are part of it. Windows answers from an environment. What a message streams
  is given as text.
\<close>

section \<open>State\<close>

type_synonym LogSeverity = int

definition LOG_INFO :: LogSeverity where "LOG_INFO = 0"
definition LOG_WARNING :: LogSeverity where "LOG_WARNING = 1"
definition LOG_ERROR :: LogSeverity where "LOG_ERROR = 2"
definition LOG_FATAL :: LogSeverity where "LOG_FATAL = 3"

definition log_severity_names :: "string list" where
  "log_severity_names = [''INFO'', ''WARNING'', ''ERROR'', ''FATAL'']"

datatype LogLockingState = LOCK_LOG_FILE | DONT_LOCK_LOG_FILE
datatype OldFileDeletionState = DELETE_OLD_LOG_FILE | APPEND_TO_OLD_LOG_FILE
datatype DcheckState =
  DISABLE_DCHECK_FOR_NON_OFFICIAL_RELEASE_BUILDS | ENABLE_DCHECK_FOR_NON_OFFICIAL_RELEASE_BUILDS

text \<open>The local time has month, day, hour, minute and second.\<close>

record log_env =
  create_file :: "string \<Rightarrow> bool"
  create_mutex :: "string \<Rightarrow> bool"
  delete_file :: "string \<Rightarrow> bool"
  CurrentProcessId :: int
  CurrentThreadId :: int
  local_time :: "int \<times> int \<times> int \<times> int \<times> int"
  TickCount :: int

text \<open>A handler decides from severity, file, line, start of the message and text.\<close>

type_synonym log_handler_fn = "LogSeverity \<Rightarrow> string \<Rightarrow> int \<Rightarrow> nat \<Rightarrow> string \<Rightarrow> bool"

text \<open>
  The mutex and the file are named by what they were created with; \<open>lock_depth\<close> counts how often this
  thread holds the lock. \<open>handled\<close> lists what the handler was called with.
\<close>

record log_state =
  g_dcheck_state :: DcheckState
  g_vlog_info :: "vlog_info option"
  log_min_level :: int
  log_dest :: logging_destination
  log_file_name :: "string option"
  log_file :: "string option"
  log_process_id :: bool
  log_thread_id :: bool
  log_timestamp :: bool
  log_tickcount :: bool
  log_message_handler :: "log_handler_fn option"
  is_initialized :: bool
  lock_log_file :: LogLockingState
  log_lock :: bool
  log_mutex :: "string option"
  lock_depth :: nat
  disk :: "string \<rightharpoonup> string"
  std_err :: string
  debug_output :: string
  handled :: "(LogSeverity \<times> string) list"

type_synonym 'a logging = "(log_state, 'a) method"

definition log_start :: "(string \<rightharpoonup> string) \<Rightarrow> log_state" where
  "log_start files =
     \<lparr>g_dcheck_state = DISABLE_DCHECK_FOR_NON_OFFICIAL_RELEASE_BUILDS, g_vlog_info = None, log_min_level = 0,
      log_dest = LOG_ONLY_TO_SYSTEM_DEBUG_LOG, log_file_name = None, log_file = None,
      log_process_id = False, log_thread_id = False, log_timestamp = False, log_tickcount = False,
      log_message_handler = None, is_initialized = False, lock_log_file = LOCK_LOG_FILE, log_lock = False,
      log_mutex = None, lock_depth = 0, disk = files, std_err = [], debug_output = [], handled = []\<rparr>"

definition GetDefaultLogFile :: string where
  "GetDefaultLogFile = ''debug.log''"

section \<open>The lock\<close>

definition LoggingLock_Init :: "log_env \<Rightarrow> LogLockingState \<Rightarrow> string option \<Rightarrow> log_state \<Rightarrow> log_state" where
  "LoggingLock_Init env lock_log new_log_file s =
     (if is_initialized s then s
      else
        let s = s\<lparr>lock_log_file := lock_log\<rparr>
        in if lock_log_file s = LOCK_LOG_FILE then
             if log_mutex s = None then
               let safe_name = map (\<lambda>c. if c = CHR 0x5C then CHR ''/'' else c)
                     (the_default GetDefaultLogFile new_log_file);
                   t = ''Global'' @ [CHR 0x5C] @ safe_name
               in if create_mutex env t then s\<lparr>log_mutex := Some t, is_initialized := True\<rparr> else s
             else s\<lparr>is_initialized := True\<rparr>
           else s\<lparr>log_lock := True, is_initialized := True\<rparr>)"

text \<open>Waiting for a mutex that could not be created fails at once.\<close>

definition LockLogging :: "unit logging" where
  "LockLogging = (\<lambda>s.
     if lock_log_file s = LOCK_LOG_FILE then
       (Done (), if log_mutex s = None then s else s\<lparr>lock_depth := lock_depth s + 1\<rparr>)
     else if \<not> log_lock s then (Raise Null_Deref, s)
     else (Done (), s\<lparr>lock_depth := lock_depth s + 1\<rparr>))"

definition UnlockLogging :: "unit logging" where
  "UnlockLogging = (\<lambda>s.
     if lock_log_file s = LOCK_LOG_FILE then
       (Done (), if log_mutex s = None then s else s\<lparr>lock_depth := lock_depth s - 1\<rparr>)
     else if \<not> log_lock s then (Raise Null_Deref, s)
     else (Done (), s\<lparr>lock_depth := lock_depth s - 1\<rparr>))"

text \<open>The lifetime of a \<open>LoggingLock\<close>.\<close>

definition locked :: "'a logging \<Rightarrow> 'a logging" where
  "locked m = seq LockLogging (bindm m (\<lambda>x. seq UnlockLogging (ret x)))"

section \<open>The log file\<close>

definition open_log :: "string \<Rightarrow> log_state \<Rightarrow> log_state" where
  "open_log name s = s\<lparr>log_file := Some name, disk := (disk s)(name \<mapsto> the_default [] (disk s name))\<rparr>"

definition to_file :: "logging_destination \<Rightarrow> bool" where
  "to_file dest \<longleftrightarrow> dest = LOG_ONLY_TO_FILE \<or> dest = LOG_TO_BOTH_FILE_AND_SYSTEM_DEBUG_LOG"

definition fallback_log :: string where
  "fallback_log = ''.'' @ [CHR 0x5C] @ ''debug.log''"

definition InitializeLogFileHandle :: "log_env \<Rightarrow> bool logging" where
  "InitializeLogFileHandle env = (\<lambda>s.
     if log_file s \<noteq> None then (Done True, s)
     else
       let name = the_default GetDefaultLogFile (log_file_name s);
           s = s\<lparr>log_file_name := Some name\<rparr>
       in if to_file (log_dest s) then
            if create_file env name then (Done True, open_log name s)
            else if create_file env fallback_log then (Done True, open_log fallback_log s)
            else (Done False, s)
          else (Done True, s))"

definition write_log :: "string \<Rightarrow> log_state \<Rightarrow> log_state" where
  "write_log text s =
     (case log_file s of
        None \<Rightarrow> s
      | Some f \<Rightarrow> s\<lparr>disk := (disk s)(f \<mapsto> the_default [] (disk s f) @ text)\<rparr>)"

section \<open>Set-up\<close>

definition set_vlog :: "command_line \<Rightarrow> log_state \<Rightarrow> log_state" where
  "set_vlog cl s =
     (case init_vlog cl (log_min_level s) of
        None \<Rightarrow> s
      | Some v \<Rightarrow> s\<lparr>g_vlog_info := Some v, log_min_level := min_log_level v\<rparr>)"

text \<open>The name may be null where it is not used.\<close>

definition ChromiumInitLoggingImpl ::
    "log_env \<Rightarrow> command_line \<Rightarrow> string option \<Rightarrow> logging_destination \<Rightarrow> LogLockingState \<Rightarrow>
     OldFileDeletionState \<Rightarrow> DcheckState \<Rightarrow> bool logging" where
  "ChromiumInitLoggingImpl env cl new_log_file dest lock_log delete_old dcheck_state =
     seq (modify (\<lambda>s. s\<lparr>g_dcheck_state := dcheck_state\<rparr>))
    (seq (modify (set_vlog cl))
    (seq (modify (LoggingLock_Init env lock_log new_log_file))
    (locked
      (seq (modify (\<lambda>s. s\<lparr>log_file := None, log_dest := dest\<rparr>))
        (if dest = LOG_NONE \<or> dest = LOG_ONLY_TO_SYSTEM_DEBUG_LOG then ret True
         else case new_log_file of
                None \<Rightarrow> throw Undefined_Behaviour
              | Some name \<Rightarrow>
                  seq (modify (\<lambda>s. s\<lparr>log_file_name := Some name\<rparr>))
                 (seq (modify (\<lambda>s. if delete_old = DELETE_OLD_LOG_FILE \<and> delete_file env name
                         then s\<lparr>disk := (disk s)(name := None)\<rparr> else s))
                      (InitializeLogFileHandle env)))))))"

definition SetMinLogLevel :: "int \<Rightarrow> log_state \<Rightarrow> log_state" where
  "SetMinLogLevel level s = s\<lparr>log_min_level := min LOG_ERROR level\<rparr>"

definition GetMinLogLevel :: "log_state \<Rightarrow> int" where
  "GetMinLogLevel s = log_min_level s"

definition GetVlogVerbosity :: "log_state \<Rightarrow> int" where
  "GetVlogVerbosity s = max (- 1) (LOG_INFO - log_min_level s)"

text \<open>The object points to the level of the process.\<close>

definition GetVlogLevelHelper :: "log_state \<Rightarrow> string \<Rightarrow> int" where
  "GetVlogLevelHelper s file =
     (case g_vlog_info s of
        Some v \<Rightarrow> GetVlogLevel (v\<lparr>min_log_level := log_min_level s\<rparr>) file
      | None \<Rightarrow> GetVlogVerbosity s)"

definition SetLogItems :: "bool \<Rightarrow> bool \<Rightarrow> bool \<Rightarrow> bool \<Rightarrow> log_state \<Rightarrow> log_state" where
  "SetLogItems enable_process_id enable_thread_id enable_timestamp enable_tickcount s =
     s\<lparr>log_process_id := enable_process_id, log_thread_id := enable_thread_id,
       log_timestamp := enable_timestamp, log_tickcount := enable_tickcount\<rparr>"

definition SetLogMessageHandler :: "log_handler_fn option \<Rightarrow> log_state \<Rightarrow> log_state" where
  "SetLogMessageHandler handler s = s\<lparr>log_message_handler := handler\<rparr>"

definition GetLogMessageHandler :: "log_state \<Rightarrow> log_handler_fn option" where
  "GetLogMessageHandler s = log_message_handler s"

section \<open>A message\<close>

record log_message =
  lm_severity :: LogSeverity
  lm_stream :: string
  message_start :: nat
  lm_file :: string
  lm_line :: int

definition setw2 :: "int \<Rightarrow> string" where
  "setw2 n = (let d = IntToString n in replicate (2 - length d) CHR ''0'' @ d)"

definition time_header :: "int \<times> int \<times> int \<times> int \<times> int \<Rightarrow> string" where
  "time_header = (\<lambda>(tm_mon, tm_mday, tm_hour, tm_min, tm_sec).
     setw2 (1 + tm_mon) @ setw2 tm_mday @ ''/'' @ setw2 tm_hour @ setw2 tm_min @ setw2 tm_sec @ '':'')"

text \<open>The name of a severity behind the last one is read outside the table.\<close>

definition severity_text :: "LogSeverity \<Rightarrow> string outcome" where
  "severity_text severity =
     (if severity \<ge> 0 then
        if nat severity < length log_severity_names then Done (log_severity_names ! nat severity)
        else Raise Undefined_Behaviour
      else Done (''VERBOSE'' @ IntToString (- severity)))"

definition base_name :: "string \<Rightarrow> string" where
  "base_name filename =
     (case find_last_of filename [CHR 0x5C, CHR ''/''] (npos filename) of
        Some last_slash_pos \<Rightarrow> drop (last_slash_pos + 1) filename
      | None \<Rightarrow> filename)"

definition log_header :: "log_env \<Rightarrow> log_state \<Rightarrow> string \<Rightarrow> string \<Rightarrow> int \<Rightarrow> string" where
  "log_header env s name file line =
     ''['' @
     (if log_process_id s then IntToString (CurrentProcessId env) @ '':'' else []) @
     (if log_thread_id s then IntToString (CurrentThreadId env) @ '':'' else []) @
     (if log_timestamp s then time_header (local_time env) else []) @
     (if log_tickcount s then Uint64ToString (TickCount env) @ '':'' else []) @
     name @ '':'' @ base_name file @ ''('' @ IntToString line @ '')] ''"

definition LogMessage_Init :: "log_env \<Rightarrow> log_state \<Rightarrow> LogSeverity \<Rightarrow> string \<Rightarrow> int \<Rightarrow> log_message outcome" where
  "LogMessage_Init env s severity file line =
     bind_outcome (severity_text severity) (\<lambda>name.
       let header = log_header env s name file line
       in Done \<lparr>lm_severity = severity, lm_stream = header, message_start = length header,
                lm_file = file, lm_line = line\<rparr>)"

definition offer_message :: "log_message \<Rightarrow> string \<Rightarrow> bool logging" where
  "offer_message msg text = (\<lambda>s.
     case log_message_handler s of
       None \<Rightarrow> (Done False, s)
     | Some handler \<Rightarrow>
         (Done (handler (lm_severity msg) (lm_file msg) (lm_line msg) (message_start msg) text),
          s\<lparr>handled := handled s @ [(lm_severity msg, text)]\<rparr>))"

text \<open>A text that is printed through a pointer ends at a NUL.\<close>

definition c_text :: "string \<Rightarrow> string" where
  "c_text s = takeWhile (\<lambda>c. c \<noteq> CHR 0x00) s"

definition print_message :: "LogSeverity \<Rightarrow> string \<Rightarrow> log_state \<Rightarrow> log_state" where
  "print_message severity text s =
     (if log_dest s = LOG_ONLY_TO_SYSTEM_DEBUG_LOG \<or> log_dest s = LOG_TO_BOTH_FILE_AND_SYSTEM_DEBUG_LOG
      then s\<lparr>debug_output := debug_output s @ c_text text, std_err := std_err s @ c_text text\<rparr>
      else if severity \<ge> LOG_ERROR then s\<lparr>std_err := std_err s @ c_text text\<rparr>
      else s)"

text \<open>The destructor, which does not end the process whatever the severity.\<close>

definition LogMessage_destructor :: "log_env \<Rightarrow> log_message \<Rightarrow> unit logging" where
  "LogMessage_destructor env msg =
     (let str_newline = lm_stream msg @ [CHR 0x0A]
      in bindm (offer_message msg str_newline) (\<lambda>taken.
           if taken then ret ()
           else seq (modify (print_message (lm_severity msg) str_newline))
               (seq (modify (LoggingLock_Init env LOCK_LOG_FILE None))
               (bindm (gets log_dest) (\<lambda>dest.
                  if dest \<noteq> LOG_NONE \<and> dest \<noteq> LOG_ONLY_TO_SYSTEM_DEBUG_LOG then
                    locked (bindm (InitializeLogFileHandle env) (\<lambda>ok.
                      if ok then modify (write_log str_newline) else ret ()))
                  else ret ())))))"

text \<open>A temporary message, to which \<open>body\<close> is streamed.\<close>

definition log_stream :: "log_env \<Rightarrow> LogSeverity \<Rightarrow> string \<Rightarrow> int \<Rightarrow> string \<Rightarrow> unit logging" where
  "log_stream env severity file line body =
     bindm (\<lambda>s. (LogMessage_Init env s severity file line, s)) (\<lambda>msg.
       LogMessage_destructor env (msg\<lparr>lm_stream := lm_stream msg @ body\<rparr>))"

section \<open>The macros\<close>

definition LOG_IS_ON :: "LogSeverity \<Rightarrow> log_state \<Rightarrow> bool" where
  "LOG_IS_ON severity s \<longleftrightarrow> severity \<ge> log_min_level s"

definition VLOG_IS_ON :: "int \<Rightarrow> string \<Rightarrow> log_state \<Rightarrow> bool" where
  "VLOG_IS_ON verboselevel file s \<longleftrightarrow> verboselevel \<le> GetVlogLevelHelper s file"

definition lazy_stream :: "bool \<Rightarrow> unit logging \<Rightarrow> unit logging" where
  "lazy_stream condition stream = (if \<not> condition then ret () else stream)"

definition LOG_IF :: "log_env \<Rightarrow> LogSeverity \<Rightarrow> bool \<Rightarrow> string \<Rightarrow> int \<Rightarrow> string \<Rightarrow> unit logging" where
  "LOG_IF env severity condition file line body =
     bindm (gets (LOG_IS_ON severity)) (\<lambda>on. lazy_stream (on \<and> condition) (log_stream env severity file line body))"

definition LOG :: "log_env \<Rightarrow> LogSeverity \<Rightarrow> string \<Rightarrow> int \<Rightarrow> string \<Rightarrow> unit logging" where
  "LOG env severity file line body =
     bindm (gets (LOG_IS_ON severity)) (\<lambda>on. lazy_stream on (log_stream env severity file line body))"

definition VLOG :: "log_env \<Rightarrow> int \<Rightarrow> string \<Rightarrow> int \<Rightarrow> string \<Rightarrow> unit logging" where
  "VLOG env verbose_level file line body =
     bindm (gets (VLOG_IS_ON verbose_level file)) (\<lambda>on.
       lazy_stream on (log_stream env (- verbose_level) file line body))"

text \<open>\<open>cond\<close> is the text of the condition.\<close>

definition CHECK :: "log_env \<Rightarrow> bool \<Rightarrow> string \<Rightarrow> int \<Rightarrow> string \<Rightarrow> string \<Rightarrow> unit logging" where
  "CHECK env condition file line cond body =
     lazy_stream (\<not> condition) (log_stream env LOG_FATAL file line (''Check failed: '' @ cond @ ''. '' @ body))"

definition MakeCheckOpString :: "string \<Rightarrow> string \<Rightarrow> string \<Rightarrow> string" where
  "MakeCheckOpString v1 v2 names = names @ '' ('' @ v1 @ '' vs. '' @ v2 @ '')''"

text \<open>The comparison has the result \<open>holds\<close>; its operands print as \<open>v1\<close> and \<open>v2\<close>.\<close>

definition CHECK_OP :: "log_env \<Rightarrow> bool \<Rightarrow> string \<Rightarrow> int \<Rightarrow> string \<Rightarrow> string \<Rightarrow> string \<Rightarrow> string \<Rightarrow> unit logging" where
  "CHECK_OP env holds file line v1 v2 names body =
     (case (if holds then None else Some (MakeCheckOpString v1 v2 names)) of
        None \<Rightarrow> ret ()
      | Some result \<Rightarrow> log_stream env LOG_FATAL file line (''Check failed: '' @ result @ body))"

text \<open>The release build: a failed \<open>DCHECK\<close> is an error message, if they are enabled.\<close>

definition DCHECK_IS_ON :: "log_state \<Rightarrow> bool" where
  "DCHECK_IS_ON s \<longleftrightarrow>
     g_dcheck_state s = ENABLE_DCHECK_FOR_NON_OFFICIAL_RELEASE_BUILDS \<and> LOG_IS_ON LOG_ERROR s"

definition DCHECK :: "log_env \<Rightarrow> bool \<Rightarrow> string \<Rightarrow> int \<Rightarrow> string \<Rightarrow> string \<Rightarrow> unit logging" where
  "DCHECK env condition file line cond body =
     bindm (gets DCHECK_IS_ON) (\<lambda>on. lazy_stream (on \<and> \<not> condition)
       (log_stream env LOG_ERROR file line (''Check failed: '' @ cond @ ''. '' @ body)))"

definition NOTREACHED :: "log_env \<Rightarrow> string \<Rightarrow> int \<Rightarrow> unit logging" where
  "NOTREACHED env file line = DCHECK env False file line ''false'' []"

section \<open>Every state\<close>

text \<open>
  What a process can do with its log; the name of the log file may be null where it is not used. A
  message has one of the severities that have a name, or is verbose.
\<close>

inductive log_step :: "log_state \<Rightarrow> log_state \<Rightarrow> bool" where
  init: "name \<noteq> None \<or> \<not> to_file dest \<Longrightarrow>
    log_step s (snd (ChromiumInitLoggingImpl env cl name dest lock delete dcheck s))"
| level: "log_step s (SetMinLogLevel n s)"
| items: "log_step s (SetLogItems p th ti tk s)"
| handler: "log_step s (SetLogMessageHandler h s)"
| message: "severity \<le> LOG_FATAL \<Longrightarrow> log_step s (snd (log_stream env severity file line body s))"

inductive log_reachable :: "(string \<rightharpoonup> string) \<Rightarrow> log_state \<Rightarrow> bool" for files where
  start: "log_reachable files (log_start files)"
| step: "log_reachable files s \<Longrightarrow> log_step s t \<Longrightarrow> log_reachable files t"

text \<open>
  The lock is free; the one of the process is there when it is chosen, and the lock that is chosen,
  mutex or not, is there exactly when the logging counts as initialized. A file is open only when
  messages go to a file, and it exists.
\<close>

definition lock_exists :: "log_state \<Rightarrow> bool" where
  "lock_exists s \<longleftrightarrow>
     (lock_log_file s = LOCK_LOG_FILE \<and> log_mutex s \<noteq> None) \<or> (lock_log_file s = DONT_LOCK_LOG_FILE \<and> log_lock s)"

definition lock_ready :: "log_state \<Rightarrow> bool" where
  "lock_ready s \<longleftrightarrow> lock_depth s = 0 \<and> (lock_log_file s = DONT_LOCK_LOG_FILE \<longrightarrow> log_lock s) \<and>
     (is_initialized s \<longleftrightarrow> lock_exists s)"

definition file_ready :: "log_state \<Rightarrow> bool" where
  "file_ready s \<longleftrightarrow> (case log_file s of None \<Rightarrow> True | Some f \<Rightarrow> to_file (log_dest s) \<and> disk s f \<noteq> None)"

lemma to_file_dest: "to_file dest \<longleftrightarrow> dest \<noteq> LOG_NONE \<and> dest \<noteq> LOG_ONLY_TO_SYSTEM_DEBUG_LOG"
  by (cases dest) (simp_all add: to_file_def)

lemma LoggingLock_Init_same:
  "log_file (LoggingLock_Init env l n s) = log_file s" "log_dest (LoggingLock_Init env l n s) = log_dest s"
  "disk (LoggingLock_Init env l n s) = disk s" "std_err (LoggingLock_Init env l n s) = std_err s"
  "debug_output (LoggingLock_Init env l n s) = debug_output s" "lock_depth (LoggingLock_Init env l n s) = lock_depth s"
  "log_file_name (LoggingLock_Init env l n s) = log_file_name s" "log_min_level (LoggingLock_Init env l n s) = log_min_level s"
  "g_vlog_info (LoggingLock_Init env l n s) = g_vlog_info s"
  by (simp_all add: LoggingLock_Init_def Let_def)

lemma lock_ready_Init: "lock_ready s \<Longrightarrow> lock_ready (LoggingLock_Init env l n s)"
  by (cases "lock_log_file s"; cases l) (auto simp: lock_ready_def lock_exists_def LoggingLock_Init_def Let_def)

text \<open>What runs under the lock leaves the lock alone, so it is free afterwards.\<close>

definition frames_lock :: "'a logging \<Rightarrow> bool" where
  "frames_lock m \<longleftrightarrow> (\<forall>s. \<exists>x t. m s = (Done x, t) \<and> lock_depth t = lock_depth s \<and>
     lock_log_file t = lock_log_file s \<and> log_lock t = log_lock s \<and> log_mutex t = log_mutex s \<and>
     is_initialized t = is_initialized s)"

definition lock_count :: "log_state \<Rightarrow> nat" where
  "lock_count s = (if lock_log_file s = LOCK_LOG_FILE \<and> log_mutex s = None then 0 else 1)"

lemma locked_run:
  assumes "lock_ready s" "frames_lock m"
  shows "locked m s = (case m (s\<lparr>lock_depth := lock_count s\<rparr>) of (r, t) \<Rightarrow> (r, t\<lparr>lock_depth := 0\<rparr>))"
proof -
  obtain x t where t: "m (s\<lparr>lock_depth := lock_count s\<rparr>) = (Done x, t)" "lock_depth t = lock_count s"
      "lock_log_file t = lock_log_file s" "log_lock t = log_lock s" "log_mutex t = log_mutex s"
    using assms(2)[unfolded frames_lock_def, rule_format, of "s\<lparr>lock_depth := lock_count s\<rparr>"] by auto
  have "LockLogging s = (Done (), s\<lparr>lock_depth := lock_count s\<rparr>)"
    using assms(1) by (cases "lock_log_file s") (auto simp: LockLogging_def lock_ready_def lock_count_def)
  moreover have "UnlockLogging t = (Done (), t\<lparr>lock_depth := 0\<rparr>)"
    using assms(1) t by (cases "lock_log_file s") (auto simp: UnlockLogging_def lock_ready_def lock_count_def)
  ultimately show ?thesis using t(1) by (simp add: locked_def seq_Done_run bindm_def method_simps)
qed

text \<open>Opening the file: the one that is open, the one named, or the fallback.\<close>

definition target :: "log_env \<Rightarrow> log_state \<Rightarrow> string option" where
  "target env s =
     (case log_file s of
        Some f \<Rightarrow> Some f
      | None \<Rightarrow>
          let name = the_default GetDefaultLogFile (log_file_name s)
          in if create_file env name then Some name
             else if create_file env fallback_log then Some fallback_log else None)"

lemma InitializeLogFileHandle_run:
  assumes "to_file (log_dest s)"
  shows "case InitializeLogFileHandle env s of (r, t) \<Rightarrow>
     r = Done (target env s \<noteq> None) \<and> log_file t = target env s \<and>
     disk t = (case target env s of
        Some f \<Rightarrow> if log_file s = None then (disk s)(f \<mapsto> the_default [] (disk s f)) else disk s
      | None \<Rightarrow> disk s) \<and>
     log_dest t = log_dest s \<and> std_err t = std_err s \<and> debug_output t = debug_output s \<and>
     lock_depth t = lock_depth s \<and> lock_log_file t = lock_log_file s \<and> log_lock t = log_lock s \<and>
     log_mutex t = log_mutex s \<and> is_initialized t = is_initialized s \<and> handled t = handled s"
  using assms by (auto simp: InitializeLogFileHandle_def target_def open_log_def Let_def split: option.split)

lemma frames_InitializeLogFileHandle: "frames_lock (InitializeLogFileHandle env)"
  by (auto simp: frames_lock_def InitializeLogFileHandle_def open_log_def Let_def split: option.split)

lemma frames_basic: "frames_lock (ret x)"
  "(\<And>s. lock_depth (f s) = lock_depth s \<and> lock_log_file (f s) = lock_log_file s \<and>
     log_lock (f s) = log_lock s \<and> log_mutex (f s) = log_mutex s \<and> is_initialized (f s) = is_initialized s) \<Longrightarrow> frames_lock (modify f)"
  by (auto simp: frames_lock_def method_simps)

lemma frames_bindm: "frames_lock m \<Longrightarrow> (\<And>x. frames_lock (k x)) \<Longrightarrow> frames_lock (bindm m k)"
  unfolding frames_lock_def
proof (intro allI)
  fix s
  assume m: "\<forall>s. \<exists>x t. m s = (Done x, t) \<and> lock_depth t = lock_depth s \<and>
      lock_log_file t = lock_log_file s \<and> log_lock t = log_lock s \<and> log_mutex t = log_mutex s \<and>
      is_initialized t = is_initialized s"
    and k: "\<And>x. \<forall>s. \<exists>y t. k x s = (Done y, t) \<and> lock_depth t = lock_depth s \<and>
      lock_log_file t = lock_log_file s \<and> log_lock t = log_lock s \<and> log_mutex t = log_mutex s \<and>
      is_initialized t = is_initialized s"
  obtain x t where t: "m s = (Done x, t)" "lock_depth t = lock_depth s" "lock_log_file t = lock_log_file s"
      "log_lock t = log_lock s" "log_mutex t = log_mutex s" "is_initialized t = is_initialized s" using m by blast
  then show "\<exists>y u. bindm m k s = (Done y, u) \<and> lock_depth u = lock_depth s \<and>
      lock_log_file u = lock_log_file s \<and> log_lock u = log_lock s \<and> log_mutex u = log_mutex s \<and>
      is_initialized u = is_initialized s"
    using k[rule_format, of x t] by (simp add: bindm_def)
qed

lemma frames_seq: "frames_lock m \<Longrightarrow> frames_lock k \<Longrightarrow> frames_lock (seq m k)"
  unfolding seq_def by (rule frames_bindm)

lemma frames_write_log: "frames_lock (modify (write_log text))"
  by (rule frames_basic) (simp add: write_log_def split: option.split)

lemmas frames = frames_basic(1) frames_bindm frames_seq frames_InitializeLogFileHandle frames_write_log

text \<open>The part of the destructor behind the handler.\<close>

definition deliver :: "log_env \<Rightarrow> LogSeverity \<Rightarrow> string \<Rightarrow> unit logging" where
  "deliver env severity text =
     seq (modify (print_message severity text))
    (seq (modify (LoggingLock_Init env LOCK_LOG_FILE None))
    (bindm (gets log_dest) (\<lambda>dest.
       if dest \<noteq> LOG_NONE \<and> dest \<noteq> LOG_ONLY_TO_SYSTEM_DEBUG_LOG then
         locked (bindm (InitializeLogFileHandle env) (\<lambda>ok. if ok then modify (write_log text) else ret ()))
       else ret ())))"

text \<open>Who sees a message: the debugger, the error output, and the file that receives it.\<close>

definition to_system :: "logging_destination \<Rightarrow> bool" where
  "to_system dest \<longleftrightarrow> dest = LOG_ONLY_TO_SYSTEM_DEBUG_LOG \<or> dest = LOG_TO_BOTH_FILE_AND_SYSTEM_DEBUG_LOG"

definition delivered :: "log_env \<Rightarrow> LogSeverity \<Rightarrow> string \<Rightarrow> log_state \<Rightarrow> log_state \<Rightarrow> bool" where
  "delivered env severity text s t \<longleftrightarrow>
     debug_output t = debug_output s @ (if to_system (log_dest s) then c_text text else []) \<and>
     std_err t = std_err s @ (if to_system (log_dest s) \<or> severity \<ge> LOG_ERROR then c_text text else []) \<and>
     disk t = (if to_file (log_dest s) then
                 case target env s of Some f \<Rightarrow> (disk s)(f \<mapsto> the_default [] (disk s f) @ text) | None \<Rightarrow> disk s
               else disk s) \<and>
     log_file t = (if to_file (log_dest s) then target env s else log_file s) \<and>
     log_dest t = log_dest s \<and> handled t = handled s"

lemma deliver_run:
  assumes "lock_ready s"
  shows "\<exists>t. deliver env severity text s = (Done (), t) \<and> lock_ready t \<and> delivered env severity text s t"
proof -
  let ?p = "print_message severity text s"
  let ?u = "LoggingLock_Init env LOCK_LOG_FILE None ?p"
  have p: "log_file ?p = log_file s" "log_dest ?p = log_dest s" "disk ?p = disk s" "log_file_name ?p = log_file_name s"
    "lock_depth ?p = lock_depth s" "lock_log_file ?p = lock_log_file s" "log_lock ?p = log_lock s" "handled ?p = handled s"
    "log_mutex ?p = log_mutex s" "is_initialized ?p = is_initialized s"
    by (simp_all add: print_message_def)
  have out: "debug_output ?p = debug_output s @ (if to_system (log_dest s) then c_text text else [])"
    "std_err ?p = std_err s @ (if to_system (log_dest s) \<or> severity \<ge> LOG_ERROR then c_text text else [])"
    by (simp_all add: print_message_def to_system_def)
  have h: "handled ?u = handled s" using p by (simp add: LoggingLock_Init_def Let_def)
  have "lock_ready ?p" using assms p by (simp add: lock_ready_def lock_exists_def)
  then have u: "lock_ready ?u" by (rule lock_ready_Init)
  show ?thesis
  proof (cases "to_file (log_dest s)")
    case False
    then have "deliver env severity text s = (Done (), ?u)"
      using p by (simp add: deliver_def method_simps LoggingLock_Init_same to_file_dest[symmetric])
    then show ?thesis
      using False u p out h by (simp add: delivered_def LoggingLock_Init_same)
  next
    case True
    let ?m = "bindm (InitializeLogFileHandle env) (\<lambda>ok. if ok then modify (write_log text) else ret ())"
    let ?v = "?u\<lparr>lock_depth := lock_count ?u\<rparr>"
    obtain r t where t: "InitializeLogFileHandle env ?v = (r, t)" by (cases "InitializeLogFileHandle env ?v")
    have target: "target env ?v = target env s"
      using p by (cases "log_file s") (simp_all add: target_def LoggingLock_Init_same)
    have v: "to_file (log_dest ?v)" using True p by (simp add: LoggingLock_Init_same)
    note run = InitializeLogFileHandle_run[OF v, of env, unfolded t target, simplified]
    have f: "frames_lock ?m" by (intro frames)
      (auto intro: frames split: if_split)
    have D: "deliver env severity text s = locked ?m ?u"
      using p True by (simp add: deliver_def method_simps LoggingLock_Init_same to_file_dest[symmetric])
    show ?thesis
      unfolding D locked_run[OF u f]
      using run t True u p out h
      by (cases "target env s")
        (auto simp: bindm_def method_simps write_log_def delivered_def lock_ready_def lock_exists_def LoggingLock_Init_same target_def
          split: option.splits)
  qed
qed

lemma delivered_file_ready: "file_ready s \<Longrightarrow> delivered env severity text s t \<Longrightarrow> file_ready t"
  by (auto simp: file_ready_def delivered_def split: option.splits if_splits)

text \<open>What the handler sees, and whether it takes the message.\<close>

definition offered :: "LogSeverity \<Rightarrow> string \<Rightarrow> log_state \<Rightarrow> log_state" where
  "offered severity text s =
     (case log_message_handler s of None \<Rightarrow> s | Some _ \<Rightarrow> s\<lparr>handled := handled s @ [(severity, text)]\<rparr>)"

definition takes :: "log_handler_fn option \<Rightarrow> LogSeverity \<Rightarrow> string \<Rightarrow> int \<Rightarrow> nat \<Rightarrow> string \<Rightarrow> bool" where
  "takes handler severity file line start text =
     (case handler of None \<Rightarrow> False | Some h \<Rightarrow> h severity file line start text)"

lemma offered_same: "lock_ready (offered severity text s) = lock_ready s" "file_ready (offered severity text s) = file_ready s"
  by (simp_all add: offered_def lock_ready_def lock_exists_def file_ready_def split: option.split)

lemma severity_named: "severity \<le> LOG_FATAL \<Longrightarrow> \<exists>name. severity_text severity = Done name"
  by (auto simp: severity_text_def log_severity_names_def LOG_FATAL_def nat_less_iff)

lemma destructor_deliver:
  "LogMessage_destructor env msg = bindm (offer_message msg (lm_stream msg @ [CHR 0x0A])) (\<lambda>taken.
     if taken then ret () else deliver env (lm_severity msg) (lm_stream msg @ [CHR 0x0A]))"
  unfolding LogMessage_destructor_def deliver_def Let_def ..

lemma log_stream_run:
  assumes "lock_ready s" "severity \<le> LOG_FATAL"
  shows "\<exists>name t. severity_text severity = Done name \<and> log_stream env severity file line body s = (Done (), t) \<and> lock_ready t \<and>
    (let header = log_header env s name file line; text = header @ body @ [CHR 0x0A]; u = offered severity text s
     in if takes (log_message_handler s) severity file line (length header) text then t = u
        else delivered env severity text u t)"
proof -
  obtain name where name: "severity_text severity = Done name" using severity_named[OF assms(2)] by blast
  let ?h = "log_header env s name file line"
  let ?text = "?h @ body @ [CHR 0x0A]"
  let ?u = "offered severity ?text s"
  let ?taken = "takes (log_message_handler s) severity file line (length ?h) ?text"
  define msg where "msg = \<lparr>lm_severity = severity, lm_stream = ?h @ body, message_start = length ?h, lm_file = file, lm_line = line\<rparr>"
  have msg: "lm_severity msg = severity" "lm_file msg = file" "lm_line msg = line" "message_start msg = length ?h"
      "lm_stream msg @ [CHR 0x0A] = ?text"
    by (simp_all add: msg_def)
  have "log_stream env severity file line body s = LogMessage_destructor env msg s"
    by (simp add: log_stream_def LogMessage_Init_def name Let_def msg_def bindm_def)
  also have "\<dots> = (if ?taken then (Done (), ?u) else deliver env severity ?text ?u)"
    unfolding destructor_deliver msg
    by (cases "log_message_handler s") (simp_all add: offer_message_def msg takes_def offered_def bindm_def method_simps)
  finally have "log_stream env severity file line body s = (if ?taken then (Done (), ?u) else deliver env severity ?text ?u)" .
  then show ?thesis
    using deliver_run[of ?u env severity ?text] assms(1) name
    by (auto simp: offered_same Let_def split: if_splits)
qed

text \<open>Set-up: the settings, then the file under the lock.\<close>

lemma frames_if: "frames_lock m \<Longrightarrow> frames_lock k \<Longrightarrow> frames_lock (if b then m else k)"
  by simp

definition init_file :: "log_env \<Rightarrow> string option \<Rightarrow> logging_destination \<Rightarrow> OldFileDeletionState \<Rightarrow> bool logging" where
  "init_file env new_log_file dest delete_old =
     seq (modify (\<lambda>s. s\<lparr>log_file := None, log_dest := dest\<rparr>))
       (if \<not> to_file dest then ret True
        else seq (modify (\<lambda>s. s\<lparr>log_file_name := Some (the new_log_file)\<rparr>))
            (seq (modify (\<lambda>s. if delete_old = DELETE_OLD_LOG_FILE \<and> delete_file env (the new_log_file)
                    then s\<lparr>disk := (disk s)(the new_log_file := None)\<rparr> else s))
                 (InitializeLogFileHandle env)))"

lemma ChromiumInit_run:
  assumes "lock_ready s" "name \<noteq> None \<or> \<not> to_file dest"
  shows "ChromiumInitLoggingImpl env cl name dest lock delete dcheck s =
    (let u = LoggingLock_Init env lock name (set_vlog cl (s\<lparr>g_dcheck_state := dcheck\<rparr>))
     in case init_file env name dest delete (u\<lparr>lock_depth := lock_count u\<rparr>) of (r, t) \<Rightarrow> (r, t\<lparr>lock_depth := 0\<rparr>))"
    (is "_ = (let u = ?u in _)")
    and "lock_ready (LoggingLock_Init env lock name (set_vlog cl (s\<lparr>g_dcheck_state := dcheck\<rparr>)))"
    and "frames_lock (init_file env name dest delete)"
proof -
  have "lock_ready (set_vlog cl (s\<lparr>g_dcheck_state := dcheck\<rparr>))"
    using assms(1) by (simp add: lock_ready_def lock_exists_def set_vlog_def split: option.split)
  then show u: "lock_ready ?u" by (rule lock_ready_Init)
  show f: "frames_lock (init_file env name dest delete)"
    unfolding init_file_def by (intro frames frames_if) (rule frames_basic; simp)+
  have m: "seq (modify (\<lambda>s. s\<lparr>log_file := None, log_dest := dest\<rparr>))
        (if dest = LOG_NONE \<or> dest = LOG_ONLY_TO_SYSTEM_DEBUG_LOG then ret True
         else case name of
                None \<Rightarrow> throw Undefined_Behaviour
              | Some name \<Rightarrow>
                  seq (modify (\<lambda>s. s\<lparr>log_file_name := Some name\<rparr>))
                 (seq (modify (\<lambda>s. if delete = DELETE_OLD_LOG_FILE \<and> delete_file env name
                         then s\<lparr>disk := (disk s)(name := None)\<rparr> else s))
                      (InitializeLogFileHandle env))) = init_file env name dest delete"
    using assms(2) by (cases name; cases dest) (simp_all add: init_file_def to_file_def cong: if_cong)
  show "ChromiumInitLoggingImpl env cl name dest lock delete dcheck s =
    (let u = ?u in case init_file env name dest delete (u\<lparr>lock_depth := lock_count u\<rparr>) of (r, t) \<Rightarrow> (r, t\<lparr>lock_depth := 0\<rparr>))"
    unfolding ChromiumInitLoggingImpl_def m Let_def locked_run[OF u f, symmetric] by (simp add: method_simps)
qed

lemma init_file_run:
  assumes "init_file env name dest delete s = (r, t)"
  shows "file_ready t \<and> g_vlog_info t = g_vlog_info s \<and> log_min_level t = log_min_level s \<and> log_dest t = dest"
  using assms
  by (auto simp: init_file_def method_simps InitializeLogFileHandle_def open_log_def file_ready_def Let_def
      split: if_splits)

lemma ChromiumInit_keeps:
  assumes "lock_ready s" "name \<noteq> None \<or> \<not> to_file dest"
    and "ChromiumInitLoggingImpl env cl name dest lock delete dcheck s = (r, t)"
  shows "lock_ready t \<and> file_ready t \<and> log_dest t = dest \<and>
    g_vlog_info t = g_vlog_info (set_vlog cl s) \<and> log_min_level t = log_min_level (set_vlog cl s)"
proof -
  note run = ChromiumInit_run[OF assms(1,2)]
  let ?u = "LoggingLock_Init env lock name (set_vlog cl (s\<lparr>g_dcheck_state := dcheck\<rparr>))"
  let ?v = "?u\<lparr>lock_depth := lock_count ?u\<rparr>"
  obtain x t' where f: "init_file env name dest delete ?v = (Done x, t')" "lock_log_file t' = lock_log_file ?u" "log_lock t' = log_lock ?u"
    "log_mutex t' = log_mutex ?u" "is_initialized t' = is_initialized ?u"
    using run(3)[of env delete, unfolded frames_lock_def, rule_format, of ?v] by auto
  have "t = t'\<lparr>lock_depth := 0\<rparr>" using run(1)[of env cl lock delete dcheck] assms(3) f(1) by (simp add: Let_def)
  moreover have "set_vlog cl (s\<lparr>g_dcheck_state := dcheck\<rparr>) = (set_vlog cl s)\<lparr>g_dcheck_state := dcheck\<rparr>"
    by (simp add: set_vlog_def split: option.split)
  ultimately show ?thesis
    using init_file_run[OF f(1)] run(2)[of env lock cl dcheck] f(2-5)
    by (auto simp: LoggingLock_Init_same lock_ready_def lock_exists_def file_ready_def split: option.splits)
qed

lemma ChromiumInit_returns:
  assumes "lock_ready s" "name \<noteq> None \<or> \<not> to_file dest"
  shows "\<exists>b. fst (ChromiumInitLoggingImpl env cl name dest lock delete dcheck s) = Done b"
proof -
  let ?u = "LoggingLock_Init env lock name (set_vlog cl (s\<lparr>g_dcheck_state := dcheck\<rparr>))"
  obtain x t where "init_file env name dest delete (?u\<lparr>lock_depth := lock_count ?u\<rparr>) = (Done x, t)"
    using ChromiumInit_run(3)[OF assms, unfolded frames_lock_def, rule_format] by blast
  then show ?thesis using ChromiumInit_run(1)[OF assms] by (simp add: Let_def)
qed

lemma reachable_ready: "log_reachable files s \<Longrightarrow> lock_ready s \<and> file_ready s"
proof (induction rule: log_reachable.induct)
  case start
  then show ?case by (simp add: lock_ready_def lock_exists_def file_ready_def log_start_def)
next
  case (step s t)
  note ready = step.IH
  from step.hyps(2) show ?case
  proof cases
    case (init name dest env cl lock delete dcheck)
    then show ?thesis
      using ChromiumInit_keeps[of s name dest env cl lock delete dcheck] ready
      by (cases "ChromiumInitLoggingImpl env cl name dest lock delete dcheck s") auto
  next
    case (message severity env fl line body)
    then show ?thesis
      using log_stream_run[of s severity env fl line body] ready
      by (auto simp: Let_def offered_same dest: delivered_file_ready[rotated] split: if_splits)
  qed (use ready in \<open>simp_all add: SetMinLogLevel_def SetLogItems_def SetLogMessageHandler_def lock_ready_def lock_exists_def file_ready_def
      cong: option.case_cong\<close>)
qed

text \<open>
  C28. Whatever the process does with its log, between two calls the lock is free, the logging counts as
  initialized exactly when the lock it has chosen exists, and a log file is open only when messages
  go to a file, and exists. So the lock that is not the mutex is there whenever it is chosen; the
  mutex is not when Windows could not create it, and then nothing is locked (\<open>no_mutex_no_lock\<close>).
\<close>
theorem log_invariant:
  assumes "log_reachable files s"
  shows "lock_ready s \<and> file_ready s"
  using assms by (rule reachable_ready)

text \<open>Without its mutex the logging is not initialized and what it does under the lock runs without one.\<close>

theorem no_mutex_no_lock:
  assumes "log_reachable files s" "lock_log_file s = LOCK_LOG_FILE" "log_mutex s = None"
  shows "\<not> is_initialized s \<and> LockLogging s = (Done (), s) \<and> UnlockLogging s = (Done (), s)"
  using reachable_ready[OF assms(1)] assms(2,3)
  by (simp add: lock_ready_def lock_exists_def LockLogging_def UnlockLogging_def)

theorem no_mutex_no_lock_witness: "LockLogging (log_start (\<lambda>_. None)) = (Done (), log_start (\<lambda>_. None))"
  using no_mutex_no_lock[OF log_reachable.start, of "\<lambda>_. None"] by (simp add: log_start_def)

text \<open>
  C27. What becomes of a message: its text is the header with the items that are set, the severity, the
  name of the file without its directories and the line, then what was streamed, then a newline. The
  handler decides first; what it does not take goes to the debugger and the error output, to the
  error output alone when it is an error and they are not chosen, and is appended to the log file, which
  is opened under its name or else under the fallback. The call comes back, whatever the severity.
\<close>
theorem message_delivered:
  assumes "log_reachable files s" "severity \<le> LOG_FATAL"
  shows "\<exists>name t. severity_text severity = Done name \<and> log_stream env severity file line body s = (Done (), t) \<and>
    (let header = log_header env s name file line; text = header @ body @ [CHR 0x0A]; u = offered severity text s
     in if takes (log_message_handler s) severity file line (length header) text then t = u
        else delivered env severity text u t)"
  using log_stream_run[of s severity env "file" line body] reachable_ready[OF assms(1)] assms(2) by blast

lemma log_stream_Done:
  "log_reachable files s \<Longrightarrow> severity \<le> LOG_FATAL \<Longrightarrow> fst (log_stream env severity file line body s) = Done ()"
  using log_stream_run[of s severity env "file" line body] reachable_ready by fastforce

text \<open>
  C29. Failed checks do not stop the process: \<open>CHECK\<close>, its comparisons, \<open>DCHECK\<close> and \<open>NOTREACHED\<close> come back
  whatever their condition is.
\<close>
theorem checks_continue:
  assumes "log_reachable files s"
  shows "fst (CHECK env condition file line cond body s) = Done () \<and>
    fst (CHECK_OP env holds file line v1 v2 names body s) = Done () \<and>
    fst (DCHECK env condition file line cond body s) = Done () \<and> fst (NOTREACHED env file line s) = Done ()"
proof -
  have "fst (log_stream env severity file line b s) = Done ()" if "severity \<in> {LOG_ERROR, LOG_FATAL}" for severity b
    using that by (intro log_stream_Done[OF assms]) (auto simp: LOG_ERROR_def LOG_FATAL_def)
  then show ?thesis
    by (simp add: CHECK_def CHECK_OP_def NOTREACHED_def DCHECK_def lazy_stream_def method_simps)
qed

text \<open>
  The switch \<open>--v\<close> sets both levels: verbose messages are on up to its number, and the others
  down to its negative, so a negative number turns them off from below.
\<close>
theorem v_switch_levels:
  assumes "lock_ready s" "name \<noteq> None \<or> \<not> to_file dest"
    and "HasSwitch cl kV" "\<not> HasSwitch cl kVModule" "GetSwitchValueASCII cl kV \<noteq> []"
    and "\<bar>atol (GetSwitchValueASCII cl kV)\<bar> < 2 ^ 31"
    and "ChromiumInitLoggingImpl env cl name dest lock delete dcheck s = (r, t)"
  shows "(VLOG_IS_ON n file t \<longleftrightarrow> n \<le> atol (GetSwitchValueASCII cl kV)) \<and>
    (LOG_IS_ON severity t \<longleftrightarrow> - atol (GetSwitchValueASCII cl kV) \<le> severity)"
proof -
  let ?v = "atol (GetSwitchValueASCII cl kV)"
  have e: "GetSwitchValueASCII cl kVModule = []"
    using assms(4) by (simp add: GetSwitchValueASCII_def GetSwitchValueNative_def HasSwitch_def)
  have kv: "snd (SplitStringIntoKeyValuePairs [] CHR ''='' CHR '','') = []" by code_simp
  have w: "wrap_signed 32 x = x" if "\<bar>x\<bar> < 2 ^ 31" for x :: int
    using that by (simp add: wrap_signed_def)
  have "g_vlog_info t = Some \<lparr>vmodule_levels = [], min_log_level = - ?v\<rparr>" "log_min_level t = - ?v"
    using ChromiumInit_keeps[OF assms(1,2,7)] assms(3,5,6) e kv w[of "- ?v"]
    by (simp_all add: set_vlog_def init_vlog_def VlogInfo_def Let_def SetMaxVlogLevel_def)
  then show ?thesis
    using w[of ?v] assms(6)
    by (simp add: VLOG_IS_ON_def LOG_IS_ON_def GetVlogLevelHelper_def GetVlogLevel_def GetMaxVlogLevel_def)
qed

section \<open>Examples\<close>

definition demo_log_env :: log_env where
  "demo_log_env =
     \<lparr>create_file = (\<lambda>name. name = fallback_log), create_mutex = (\<lambda>_. True), delete_file = (\<lambda>_. True),
      CurrentProcessId = 12, CurrentThreadId = 34, local_time = (0, 9, 8, 7, 6), TickCount = 5\<rparr>"

text \<open>The log file cannot be created, the fallback can.\<close>

definition demo_log :: log_state where
  "demo_log = snd (ChromiumInitLoggingImpl demo_log_env (CommandLine [''psych'', ''--v=2'']) (Some ''/psych.log'')
     LOG_ONLY_TO_FILE DONT_LOCK_LOG_FILE APPEND_TO_OLD_LOG_FILE ENABLE_DCHECK_FOR_NON_OFFICIAL_RELEASE_BUILDS
     (log_start (\<lambda>_. None)))"

lemma demo_log_reachable: "log_reachable (\<lambda>_. None) demo_log"
  unfolding demo_log_def by (rule log_reachable.step[OF log_reachable.start log_step.init]) simp

theorem log_invariant_witness: "lock_ready demo_log \<and> file_ready demo_log"
  by (rule log_invariant[OF demo_log_reachable])

theorem message_delivered_witness:
  "\<exists>t. log_stream demo_log_env LOG_ERROR ''src/a.cc'' 7 ''x'' demo_log = (Done (), t) \<and>
     disk t fallback_log = Some (''[ERROR:a.cc(7)] x'' @ [CHR 0x0A]) \<and>
     std_err t = ''[ERROR:a.cc(7)] x'' @ [CHR 0x0A] \<and> debug_output t = []"
proof -
  have h: "severity_text LOG_ERROR = Done ''ERROR''" "log_message_handler demo_log = None"
    "log_header demo_log_env demo_log ''ERROR'' ''src/a.cc'' 7 = ''[ERROR:a.cc(7)] ''"
    "log_dest demo_log = LOG_ONLY_TO_FILE" "target demo_log_env demo_log = Some fallback_log"
    "disk demo_log fallback_log = Some []" "std_err demo_log = []" "debug_output demo_log = []"
    "to_file LOG_ONLY_TO_FILE" "\<not> to_system LOG_ONLY_TO_FILE"
    "c_text (''[ERROR:a.cc(7)] x'' @ [CHR 0x0A]) = ''[ERROR:a.cc(7)] x'' @ [CHR 0x0A]"
    by code_simp+
  have "LOG_ERROR \<le> LOG_FATAL" by (simp add: LOG_ERROR_def LOG_FATAL_def)
  from message_delivered[OF demo_log_reachable this, of demo_log_env "''src/a.cc''" 7 "''x''"]
  show ?thesis
    using h by (auto simp: Let_def takes_def offered_def delivered_def)
qed

theorem checks_continue_witness: "fst (CHECK demo_log_env False ''psych.cc'' 566 ''root.get()'' [] demo_log) = Done ()"
  using checks_continue[OF demo_log_reachable, of demo_log_env False "''psych.cc''" 566 "''root.get()''" "[]"] by blast

theorem v_switch_levels_witness:
  "VLOG_IS_ON 2 ''a.cc'' demo_log \<and> \<not> VLOG_IS_ON 3 ''a.cc'' demo_log \<and> LOG_IS_ON (- 2) demo_log"
proof -
  let ?cl = "CommandLine [''psych'', ''--v=2'']"
  have h: "HasSwitch ?cl kV" "\<not> HasSwitch ?cl kVModule" "GetSwitchValueASCII ?cl kV \<noteq> []"
    "\<bar>atol (GetSwitchValueASCII ?cl kV)\<bar> < 2 ^ 31" "atol (GetSwitchValueASCII ?cl kV) = 2"
    by code_simp+
  have "lock_ready (log_start (\<lambda>_. None))" by (simp add: lock_ready_def lock_exists_def log_start_def)
  note levels = v_switch_levels[OF this _ h(1-4), of "Some ''/psych.log''" LOG_ONLY_TO_FILE demo_log_env
      DONT_LOCK_LOG_FILE APPEND_TO_OLD_LOG_FILE ENABLE_DCHECK_FOR_NON_OFFICIAL_RELEASE_BUILDS]
  show ?thesis
    using levels[of _ demo_log] h(5)
    by (cases "ChromiumInitLoggingImpl demo_log_env ?cl (Some ''/psych.log'') LOG_ONLY_TO_FILE DONT_LOCK_LOG_FILE
        APPEND_TO_OLD_LOG_FILE ENABLE_DCHECK_FOR_NON_OFFICIAL_RELEASE_BUILDS (log_start (\<lambda>_. None))")
      (simp add: demo_log_def)
qed

end
