(* ===== verification/Values.thy ===== *)
theory Values
  imports Numbers
begin

text \<open>
  The JSON value tree of \<open>src/src/chromium/values.cc\<close>. A \<open>Value*\<close> is the value it points to:
  the tree owns its children, so no two parents share one. Operations that return a pointer
  into the tree return the value found there; mutation through such a pointer is written as
  the update of the tree. An output argument of a function that returns false is untouched,
  so those functions return an \<open>option\<close>.
\<close>

datatype Value =
    NullValue
  | BooleanValue bool
  | IntegerValue int
  | DoubleValue double
  | StringValue string
  | BinaryValue "8 word list"
  | DictionaryValue "(string \<times> Value) list"
  | ListValue "Value list"

type_synonym dictionary = "(string, Value) omap"

datatype value_type =
    TYPE_NULL | TYPE_BOOLEAN | TYPE_INTEGER | TYPE_DOUBLE | TYPE_STRING | TYPE_BINARY
  | TYPE_DICTIONARY | TYPE_LIST

fun GetType :: "Value \<Rightarrow> value_type" where
  "GetType NullValue = TYPE_NULL"
| "GetType (BooleanValue _) = TYPE_BOOLEAN"
| "GetType (IntegerValue _) = TYPE_INTEGER"
| "GetType (DoubleValue _) = TYPE_DOUBLE"
| "GetType (StringValue _) = TYPE_STRING"
| "GetType (BinaryValue _) = TYPE_BINARY"
| "GetType (DictionaryValue _) = TYPE_DICTIONARY"
| "GetType (ListValue _) = TYPE_LIST"

definition IsType :: "Value \<Rightarrow> value_type \<Rightarrow> bool" where
  "IsType v t \<longleftrightarrow> GetType v = t"

section \<open>Scalars\<close>

text \<open>The constructor of a double replaces a value JSON cannot represent by zero.\<close>

definition CreateDoubleValue :: "double \<Rightarrow> Value" where
  "CreateDoubleValue d = DoubleValue (if IsFinite d then d else 0)"

definition CreateNullValue :: "Value" where "CreateNullValue = NullValue"
definition CreateBooleanValue :: "bool \<Rightarrow> Value" where "CreateBooleanValue b = BooleanValue b"
definition CreateIntegerValue :: "int \<Rightarrow> Value" where "CreateIntegerValue i = IntegerValue i"
definition CreateStringValue :: "string \<Rightarrow> Value" where "CreateStringValue s = StringValue s"

text \<open>A null buffer gives a null pointer.\<close>

definition CreateBinaryValue :: "8 word list option \<Rightarrow> Value option" where
  "CreateBinaryValue buffer = map_option BinaryValue buffer"

fun GetAsBoolean :: "Value \<Rightarrow> bool option" where
  "GetAsBoolean (BooleanValue b) = Some b"
| "GetAsBoolean _ = None"

fun GetAsInteger :: "Value \<Rightarrow> int option" where
  "GetAsInteger (IntegerValue i) = Some i"
| "GetAsInteger _ = None"

text \<open>\<open>GetAsDouble\<close> also converts an integer; the conversion is a parameter.\<close>

fun GetAsDouble :: "(int \<Rightarrow> double) \<Rightarrow> Value \<Rightarrow> double option" where
  "GetAsDouble of_integer (DoubleValue d) = Some d"
| "GetAsDouble of_integer (IntegerValue i) = Some (of_integer i)"
| "GetAsDouble of_integer _ = None"

fun GetAsString :: "Value \<Rightarrow> string option" where
  "GetAsString (StringValue s) = Some s"
| "GetAsString _ = None"

fun GetAsList :: "Value \<Rightarrow> Value list option" where
  "GetAsList (ListValue vs) = Some vs"
| "GetAsList _ = None"

fun GetAsDictionary :: "Value \<Rightarrow> dictionary option" where
  "GetAsDictionary (DictionaryValue d) = Some d"
| "GetAsDictionary _ = None"

fun GetAsBinary :: "Value \<Rightarrow> 8 word list option" where
  "GetAsBinary (BinaryValue b) = Some b"
| "GetAsBinary _ = None"

section \<open>Dictionaries\<close>

definition HasKey :: "dictionary \<Rightarrow> string \<Rightarrow> bool" where
  "HasKey d key \<longleftrightarrow> map_of d key \<noteq> None"

definition SetWithoutPathExpansion :: "string \<Rightarrow> Value \<Rightarrow> dictionary \<Rightarrow> dictionary" where
  "SetWithoutPathExpansion key v d = assign key v d"

definition GetWithoutPathExpansion :: "dictionary \<Rightarrow> string \<Rightarrow> Value option" where
  "GetWithoutPathExpansion d key = map_of d key"

definition GetIntegerWithoutPathExpansion :: "dictionary \<Rightarrow> string \<Rightarrow> int option" where
  "GetIntegerWithoutPathExpansion d key = Option.bind (GetWithoutPathExpansion d key) GetAsInteger"

definition GetDoubleWithoutPathExpansion :: "(int \<Rightarrow> double) \<Rightarrow> dictionary \<Rightarrow> string \<Rightarrow> double option" where
  "GetDoubleWithoutPathExpansion of_integer d key =
     Option.bind (GetWithoutPathExpansion d key) (GetAsDouble of_integer)"

definition GetStringWithoutPathExpansion :: "dictionary \<Rightarrow> string \<Rightarrow> string option" where
  "GetStringWithoutPathExpansion d key = Option.bind (GetWithoutPathExpansion d key) GetAsString"

definition GetDictionaryWithoutPathExpansion :: "dictionary \<Rightarrow> string \<Rightarrow> dictionary option" where
  "GetDictionaryWithoutPathExpansion d key = Option.bind (GetWithoutPathExpansion d key) GetAsDictionary"

definition GetListWithoutPathExpansion :: "dictionary \<Rightarrow> string \<Rightarrow> Value list option" where
  "GetListWithoutPathExpansion d key = Option.bind (GetWithoutPathExpansion d key) GetAsList"

abbreviation dot :: "string \<Rightarrow> nat option" where
  "dot path \<equiv> find_index (\<lambda>c. c = CHR ''.'') path"

text \<open>A path is split at its first dot; every part but the last names a dictionary.\<close>

function dict_Get :: "dictionary \<Rightarrow> string \<Rightarrow> Value option"
  and dict_GetDictionary :: "dictionary \<Rightarrow> string \<Rightarrow> dictionary option" where
  "dict_Get d path =
     (case dot path of
        None \<Rightarrow> GetWithoutPathExpansion d path
      | Some i \<Rightarrow>
          (case dict_GetDictionary d (take i path) of
             None \<Rightarrow> None
           | Some child \<Rightarrow> dict_Get child (drop (i + 1) path)))"
| "dict_GetDictionary d path =
     (case dict_Get d path of
        Some (DictionaryValue child) \<Rightarrow> Some child
      | _ \<Rightarrow> None)"
  by pat_completeness auto
termination
  by (relation "measure (\<lambda>x. case x of Inl (d, p) \<Rightarrow> 2 * length p | Inr (d, p) \<Rightarrow> 2 * length p + 1)")
    (auto dest: find_index_length)

declare dict_Get.simps [simp del] dict_GetDictionary.simps [simp del]

definition dict_GetBoolean :: "dictionary \<Rightarrow> string \<Rightarrow> bool option" where
  "dict_GetBoolean d path = Option.bind (dict_Get d path) GetAsBoolean"

definition dict_GetInteger :: "dictionary \<Rightarrow> string \<Rightarrow> int option" where
  "dict_GetInteger d path = Option.bind (dict_Get d path) GetAsInteger"

definition dict_GetString :: "dictionary \<Rightarrow> string \<Rightarrow> string option" where
  "dict_GetString d path = Option.bind (dict_Get d path) GetAsString"

definition dict_GetDouble :: "(int \<Rightarrow> double) \<Rightarrow> dictionary \<Rightarrow> string \<Rightarrow> double option" where
  "dict_GetDouble of_integer d path = Option.bind (dict_Get d path) (GetAsDouble of_integer)"

text \<open>The test for ASCII is commented out.\<close>

definition dict_GetStringASCII :: "dictionary \<Rightarrow> string \<Rightarrow> string option" where
  "dict_GetStringASCII d path = dict_GetString d path"

definition dict_GetBinary :: "dictionary \<Rightarrow> string \<Rightarrow> 8 word list option" where
  "dict_GetBinary d path = Option.bind (dict_Get d path) GetAsBinary"

definition dict_GetList :: "dictionary \<Rightarrow> string \<Rightarrow> Value list option" where
  "dict_GetList d path = Option.bind (dict_Get d path) GetAsList"

function dict_Set :: "dictionary \<Rightarrow> string \<Rightarrow> Value \<Rightarrow> dictionary" where
  "dict_Set d path v =
     (case dot path of
        None \<Rightarrow> SetWithoutPathExpansion path v d
      | Some i \<Rightarrow>
          let key = take i path;
              child = (case dict_GetDictionary d key of Some c \<Rightarrow> c | None \<Rightarrow> [])
          in SetWithoutPathExpansion key
               (DictionaryValue (dict_Set child (drop (i + 1) path) v)) d)"
  by pat_completeness auto
termination
  by (relation "measure (\<lambda>(d, p, v). length p)") (auto dest: find_index_length)

declare dict_Set.simps [simp del]

definition dict_SetBoolean :: "dictionary \<Rightarrow> string \<Rightarrow> bool \<Rightarrow> dictionary" where
  "dict_SetBoolean d path b = dict_Set d path (CreateBooleanValue b)"

definition dict_SetInteger :: "dictionary \<Rightarrow> string \<Rightarrow> int \<Rightarrow> dictionary" where
  "dict_SetInteger d path i = dict_Set d path (CreateIntegerValue i)"

definition dict_SetDouble :: "dictionary \<Rightarrow> string \<Rightarrow> double \<Rightarrow> dictionary" where
  "dict_SetDouble d path x = dict_Set d path (CreateDoubleValue x)"

definition dict_SetString :: "dictionary \<Rightarrow> string \<Rightarrow> string \<Rightarrow> dictionary" where
  "dict_SetString d path s = dict_Set d path (CreateStringValue s)"

definition RemoveWithoutPathExpansion :: "dictionary \<Rightarrow> string \<Rightarrow> (Value \<times> dictionary) option" where
  "RemoveWithoutPathExpansion d key =
     (case map_of d key of None \<Rightarrow> None | Some entry \<Rightarrow> Some (entry, erase key d))"

text \<open>
  \<open>Remove\<close> follows the path up to its last dot and removes the rest there; \<open>dict_replace\<close>
  puts the changed inner dictionary back where the pointer led.
\<close>

definition dict_Clear :: "dictionary \<Rightarrow> dictionary" where
  "dict_Clear d = []"

definition dict_Remove :: "dictionary \<Rightarrow> string \<Rightarrow> (Value \<times> dictionary) option" where
  "dict_Remove d path =
     (case find_last_index (\<lambda>c. c = CHR ''.'') path of
        None \<Rightarrow> RemoveWithoutPathExpansion d path
      | Some i \<Rightarrow>
          (case dict_GetDictionary d (take i path) of
             None \<Rightarrow> None
           | Some current \<Rightarrow>
               (case RemoveWithoutPathExpansion current (drop (i + 1) path) of
                  None \<Rightarrow> None
                | Some (out, current') \<Rightarrow> Some (out, dict_Set d (take i path) (DictionaryValue current')))))"

section \<open>Copying, merging and comparing\<close>

fun DeepCopy :: "Value \<Rightarrow> Value"
  and DeepCopy_entries :: "(string \<times> Value) list \<Rightarrow> dictionary \<Rightarrow> dictionary"
  and DeepCopy_list :: "Value list \<Rightarrow> Value list" where
  "DeepCopy (DoubleValue d) = CreateDoubleValue d"
| "DeepCopy (DictionaryValue d) = DictionaryValue (DeepCopy_entries d [])"
| "DeepCopy (ListValue vs) = ListValue (DeepCopy_list vs)"
| "DeepCopy v = v"
| "DeepCopy_entries [] result = result"
| "DeepCopy_entries ((k, v) # d) result =
     DeepCopy_entries d (SetWithoutPathExpansion k (DeepCopy v) result)"
| "DeepCopy_list [] = []"
| "DeepCopy_list (v # vs) = DeepCopy v # DeepCopy_list vs"

fun CopyWithoutEmptyChildren :: "Value \<Rightarrow> Value option"
  and copy_entries :: "(string \<times> Value) list \<Rightarrow> dictionary \<Rightarrow> dictionary"
  and copy_list :: "Value list \<Rightarrow> Value list" where
  "CopyWithoutEmptyChildren (ListValue vs) =
     (let copy = copy_list vs in if copy = [] then None else Some (ListValue copy))"
| "CopyWithoutEmptyChildren (DictionaryValue d) =
     (let copy = copy_entries d [] in if copy = [] then None else Some (DictionaryValue copy))"
| "CopyWithoutEmptyChildren v = Some (DeepCopy v)"
| "copy_entries [] result = result"
| "copy_entries ((k, v) # d) result =
     (case CopyWithoutEmptyChildren v of
        None \<Rightarrow> copy_entries d result
      | Some c \<Rightarrow> copy_entries d (SetWithoutPathExpansion k c result))"
| "copy_list [] = []"
| "copy_list (v # vs) =
     (case CopyWithoutEmptyChildren v of None \<Rightarrow> copy_list vs | Some c \<Rightarrow> c # copy_list vs)"

definition DeepCopyWithoutEmptyChildren :: "dictionary \<Rightarrow> dictionary" where
  "DeepCopyWithoutEmptyChildren d =
     (case CopyWithoutEmptyChildren (DictionaryValue d) of
        Some (DictionaryValue c) \<Rightarrow> c
      | _ \<Rightarrow> [])"

text \<open>The loop of \<open>MergeDictionary\<close> over the entries of its argument, in key order.\<close>

fun MergeDictionary :: "dictionary \<Rightarrow> (string \<times> Value) list \<Rightarrow> dictionary"
  and merge_value :: "Value option \<Rightarrow> Value \<Rightarrow> Value" where
  "MergeDictionary d [] = d"
| "MergeDictionary d ((key, mv) # rest) =
     MergeDictionary (SetWithoutPathExpansion key (merge_value (map_of d key) mv) d) rest"
| "merge_value (Some (DictionaryValue sub)) (DictionaryValue m) = DictionaryValue (MergeDictionary sub m)"
| "merge_value old mv = DeepCopy mv"

text \<open>The static \<open>Equals\<close> on two pointers, either of which may be null, is \<open>Equals_pointers\<close>.\<close>

fun Equals :: "Value \<Rightarrow> Value \<Rightarrow> bool"
  and Equals_entries :: "(string \<times> Value) list \<Rightarrow> (string \<times> Value) list \<Rightarrow> bool"
  and Equals_list :: "Value list \<Rightarrow> Value list \<Rightarrow> bool" where
  "Equals NullValue other = IsType other TYPE_NULL"
| "Equals (BooleanValue a) (BooleanValue b) = (a = b)"
| "Equals (IntegerValue a) (IntegerValue b) = (a = b)"
| "Equals (DoubleValue a) (DoubleValue b) = double_eq a b"
| "Equals (StringValue a) (StringValue b) = (a = b)"
| "Equals (BinaryValue a) (BinaryValue b) = (length b = length a \<and> a = b)"
| "Equals (DictionaryValue a) (DictionaryValue b) = Equals_entries a b"
| "Equals (ListValue a) (ListValue b) = Equals_list a b"
| "Equals _ _ = False"
| "Equals_entries [] [] = True"
| "Equals_entries ((k, v) # a) ((k', v') # b) = (k = k' \<and> Equals v v' \<and> Equals_entries a b)"
| "Equals_entries _ _ = False"
| "Equals_list [] [] = True"
| "Equals_list (v # a) (v' # b) = (Equals v v' \<and> Equals_list a b)"
| "Equals_list _ _ = False"

fun Equals_pointers :: "Value option \<Rightarrow> Value option \<Rightarrow> bool" where
  "Equals_pointers None None = True"
| "Equals_pointers (Some a) (Some b) = Equals a b"
| "Equals_pointers _ _ = False"

section \<open>Lists\<close>

definition list_Clear :: "Value list \<Rightarrow> Value list" where
  "list_Clear vs = []"

definition list_Append :: "Value list \<Rightarrow> Value \<Rightarrow> Value list" where
  "list_Append vs v = vs @ [v]"

text \<open>\<open>ListValue::Set\<close> pads with nulls up to the index; a null pointer is \<open>None\<close>.\<close>

function list_pad :: "Value list \<Rightarrow> nat \<Rightarrow> Value list" where
  "list_pad vs index = (if index > length vs then list_pad (list_Append vs NullValue) index else vs)"
  by pat_completeness auto
termination
  by (relation "measure (\<lambda>(vs, i). i - length vs)") (auto simp: list_Append_def)

declare list_pad.simps [simp del]

definition list_Set :: "Value list \<Rightarrow> nat \<Rightarrow> Value option \<Rightarrow> bool \<times> Value list" where
  "list_Set vs index in_value =
     (case in_value of
        None \<Rightarrow> (False, vs)
      | Some v \<Rightarrow>
          if index \<ge> length vs then (True, list_Append (list_pad vs index) v)
          else (True, vs[index := v]))"

definition list_Get :: "Value list \<Rightarrow> nat \<Rightarrow> Value option" where
  "list_Get vs index = (if index \<ge> length vs then None else Some (vs ! index))"

definition list_GetBoolean :: "Value list \<Rightarrow> nat \<Rightarrow> bool option" where
  "list_GetBoolean vs index = Option.bind (list_Get vs index) GetAsBoolean"

definition list_GetInteger :: "Value list \<Rightarrow> nat \<Rightarrow> int option" where
  "list_GetInteger vs index = Option.bind (list_Get vs index) GetAsInteger"

definition list_GetDouble :: "(int \<Rightarrow> double) \<Rightarrow> Value list \<Rightarrow> nat \<Rightarrow> double option" where
  "list_GetDouble of_integer vs index = Option.bind (list_Get vs index) (GetAsDouble of_integer)"

definition list_GetBinary :: "Value list \<Rightarrow> nat \<Rightarrow> 8 word list option" where
  "list_GetBinary vs index = Option.bind (list_Get vs index) GetAsBinary"

definition list_GetList :: "Value list \<Rightarrow> nat \<Rightarrow> Value list option" where
  "list_GetList vs index = Option.bind (list_Get vs index) GetAsList"

definition list_GetString :: "Value list \<Rightarrow> nat \<Rightarrow> string option" where
  "list_GetString vs index = Option.bind (list_Get vs index) GetAsString"

definition list_GetDictionary :: "Value list \<Rightarrow> nat \<Rightarrow> dictionary option" where
  "list_GetDictionary vs index = Option.bind (list_Get vs index) GetAsDictionary"

definition list_Remove :: "Value list \<Rightarrow> nat \<Rightarrow> (Value \<times> Value list) option" where
  "list_Remove vs index =
     (if index \<ge> length vs then None else Some (vs ! index, take index vs @ drop (index + 1) vs))"

fun list_Remove_value :: "Value list \<Rightarrow> Value \<Rightarrow> (nat \<times> Value list) option" where
  "list_Remove_value [] v = None"
| "list_Remove_value (x # xs) v =
     (if Equals x v then Some (0, xs)
      else map_option (\<lambda>(i, ys). (Suc i, x # ys)) (list_Remove_value xs v))"

definition list_AppendIfNotPresent :: "Value list \<Rightarrow> Value \<Rightarrow> bool \<times> Value list" where
  "list_AppendIfNotPresent vs v =
     (if list_ex (\<lambda>x. Equals x v) vs then (False, vs) else (True, vs @ [v]))"

definition list_Insert :: "Value list \<Rightarrow> nat \<Rightarrow> Value \<Rightarrow> bool \<times> Value list" where
  "list_Insert vs index v =
     (if index > length vs then (False, vs) else (True, take index vs @ v # drop index vs))"

definition list_Find :: "Value list \<Rightarrow> Value \<Rightarrow> nat option" where
  "list_Find vs v = find_index (\<lambda>x. Equals v x) vs"

end
