(* ===== verification/Config.thy ===== *)
theory Config
  imports Values Effects
begin

text \<open>
  The configuration of \<open>src/src/config.hh\<close> and \<open>src/src/config.cc\<close>: the records, the validation and
  the reader of the JSON tree. The reader changes the object it is called on, so it is a
  method of \<open>Effects\<close>. A failed \<open>CHECK\<close> only logs (\<open>LogMessage::~LogMessage\<close> does not end the process,
  whatever the severity), so what follows it is modelled; the use of a pointer that is null or was
  never set, or of a value under the wrong type, is a failure. Logging is left out.
\<close>

section \<open>The records\<close>

record session_config =
  session_name :: string
  connection_name :: string
  publisher_name :: string
  rssl_servers :: "string list"
  rssl_default_port :: string
  application_id :: string
  cfg_instance_id :: string
  user_name :: string
  cfg_position :: string

record resource =
  res_name :: string
  res_source :: string
  res_path :: string
  entitlement_code :: "32 word"
  res_fields :: "(string, int) omap"
  res_items :: "(string, string \<times> string) omap"

record config =
  is_snmp_enabled :: bool
  is_agentx_subagent :: bool
  snmp_filelog :: string
  agentx_socket :: string
  cfg_key :: string
  service_name :: string
  dacs_id :: string
  cfg_sessions :: "session_config list"
  monitor_name :: string
  event_queue_name :: string
  vendor_name :: string
  maximum_data_size :: string
  cfg_interval :: string
  tolerable_delay :: string
  retry_count :: string
  retry_delay_ms :: string
  retry_timeout_ms :: string
  timeout_ms :: string
  connect_timeout_ms :: string
  enable_http_pipelining :: string
  maximum_response_size :: string
  minimum_response_size :: string
  request_http_encoding :: string
  time_offset_constant :: string
  panic_threshold :: string
  http_proxy :: string
  dns_cache_timeout :: string
  base_url :: string
  resources :: "resource list"

text \<open>The default constructors: strings and vectors start empty.\<close>

definition session_config_init :: session_config where
  "session_config_init =
     \<lparr>session_name = [], connection_name = [], publisher_name = [], rssl_servers = [],
      rssl_default_port = [], application_id = [], cfg_instance_id = [], user_name = [],
      cfg_position = []\<rparr>"

definition config_init :: config where
  "config_init =
     \<lparr>is_snmp_enabled = False, is_agentx_subagent = True, snmp_filelog = [], agentx_socket = [],
      cfg_key = [], service_name = [], dacs_id = [], cfg_sessions = [], monitor_name = [],
      event_queue_name = [], vendor_name = [], maximum_data_size = [], cfg_interval = [],
      tolerable_delay = [], retry_count = [], retry_delay_ms = [], retry_timeout_ms = [],
      timeout_ms = [], connect_timeout_ms = [], enable_http_pipelining = [],
      maximum_response_size = [], minimum_response_size = [], request_http_encoding = [],
      time_offset_constant = [], panic_threshold = [], http_proxy = [], dns_cache_timeout = [],
      base_url = [], resources = []\<rparr>"

section \<open>Validation\<close>

fun validate_sessions :: "session_config list \<Rightarrow> bool" where
  "validate_sessions [] = True"
| "validate_sessions (it # its) =
     (if session_name it = [] then False
      else if connection_name it = [] then False
      else if publisher_name it = [] then False
      else if rssl_servers it = [] then False
      else if application_id it = [] then False
      else if cfg_instance_id it = [] then False
      else if user_name it = [] then False
      else validate_sessions its)"

fun validate_resources :: "resource list \<Rightarrow> bool" where
  "validate_resources [] = True"
| "validate_resources (it # its) =
     (if res_name it = [] then False
      else if res_path it = [] then False
      else if res_fields it = [] then False
      else if res_items it = [] then False
      else validate_resources its)"

definition Validate :: "config \<Rightarrow> bool" where
  "Validate cfg =
     (if service_name cfg = [] then False
      else if cfg_sessions cfg = [] then False
      else if \<not> validate_sessions (cfg_sessions cfg) then False
      else if monitor_name cfg = [] then False
      else if event_queue_name cfg = [] then False
      else if vendor_name cfg = [] then False
      else if maximum_data_size cfg = [] then False
      else if atol (maximum_data_size cfg) \<le> 0 then False
      else if maximum_response_size cfg = [] then False
      else if atol (maximum_response_size cfg) \<le> 0 then False
      else validate_resources (resources cfg))"

text \<open>What a valid configuration is.\<close>

definition valid_session :: "session_config \<Rightarrow> bool" where
  "valid_session s \<longleftrightarrow>
     [] \<notin> {session_name s, connection_name s, publisher_name s, application_id s,
           cfg_instance_id s, user_name s} \<and> rssl_servers s \<noteq> []"

definition valid_resource :: "resource \<Rightarrow> bool" where
  "valid_resource r \<longleftrightarrow> res_name r \<noteq> [] \<and> res_path r \<noteq> [] \<and> res_fields r \<noteq> [] \<and> res_items r \<noteq> []"

definition valid_config :: "config \<Rightarrow> bool" where
  "valid_config cfg \<longleftrightarrow>
     [] \<notin> {service_name cfg, monitor_name cfg, event_queue_name cfg, vendor_name cfg} \<and>
     cfg_sessions cfg \<noteq> [] \<and> (\<forall>s \<in> set (cfg_sessions cfg). valid_session s) \<and>
     0 < atol (maximum_data_size cfg) \<and> 0 < atol (maximum_response_size cfg) \<and>
     (\<forall>r \<in> set (resources cfg). valid_resource r)"

lemma validate_sessions_all: "validate_sessions ss \<longleftrightarrow> (\<forall>s \<in> set ss. valid_session s)"
  by (induction ss rule: validate_sessions.induct) (auto simp: valid_session_def)

lemma validate_resources_all: "validate_resources rs \<longleftrightarrow> (\<forall>r \<in> set rs. valid_resource r)"
  by (induction rs rule: validate_resources.induct) (auto simp: valid_resource_def)

lemma atol_Nil: "atol [] = 0"
  by (simp add: atol_def c_integer_def c_number_def)

lemma Validate_valid: "Validate cfg \<longleftrightarrow> valid_config cfg"
  by (auto simp: Validate_def valid_config_def validate_sessions_all validate_resources_all atol_Nil)

section \<open>Reading the JSON tree\<close>

text \<open>\<open>dict_val->GetString (path, &member)\<close> leaves the member alone when the path has no string.\<close>

definition load_string ::
    "dictionary \<Rightarrow> string \<Rightarrow> ((string \<Rightarrow> string) \<Rightarrow> 's \<Rightarrow> 's) \<Rightarrow> ('s, unit) method" where
  "load_string d path upd =
     (case dict_GetString d path of None \<Rightarrow> ret () | Some s \<Rightarrow> modify (upd (\<lambda>_. s)))"

definition load_bool ::
    "dictionary \<Rightarrow> string \<Rightarrow> ((bool \<Rightarrow> bool) \<Rightarrow> 's \<Rightarrow> 's) \<Rightarrow> ('s, unit) method" where
  "load_bool d path upd =
     (case dict_GetBoolean d path of None \<Rightarrow> ret () | Some b \<Rightarrow> modify (upd (\<lambda>_. b)))"

text \<open>An element that is no string leaves the local variable empty.\<close>

definition load_rssl_servers :: "Value list \<Rightarrow> (session_config, unit) method" where
  "load_rssl_servers vs =
     for_each vs (\<lambda>v. let rssl_server = the_default [] (GetAsString v)
       in modify (rssl_servers_update (\<lambda>ss. ss @ [rssl_server])))"

definition load_session :: "dictionary \<Rightarrow> (session_config, unit) method" where
  "load_session d =
     seq (load_string d ''session_name'' session_name_update)
    (seq (load_string d ''connection_name'' connection_name_update)
    (seq (load_string d ''publisher_name'' publisher_name_update)
    (seq (case dict_GetList d ''rssl_servers'' of
            None \<Rightarrow> throw Null_Deref
          | Some vs \<Rightarrow> load_rssl_servers vs)
    (seq (load_string d ''rssl_default_port'' rssl_default_port_update)
    (seq (load_string d ''application_id'' application_id_update)
    (seq (load_string d ''instance_id'' cfg_instance_id_update)
    (seq (load_string d ''user_name'' user_name_update)
         (load_string d ''position'' cfg_position_update))))))))"

definition ParseSession :: "dictionary \<Rightarrow> (config, bool) method" where
  "ParseSession d cfg =
     (case load_session d session_config_init of
        (Done _, session) \<Rightarrow> (Done True, cfg_sessions_update (\<lambda>ss. ss @ [session]) cfg)
      | (Raise e, _) \<Rightarrow> (Raise e, cfg)
      | (Diverged, _) \<Rightarrow> (Diverged, cfg))"

text \<open>A value that is no integer leaves the variable as it is.\<close>

fun load_fields :: "int \<Rightarrow> (string \<times> Value) list \<Rightarrow> (string, int) omap \<Rightarrow> (string, int) omap" where
  "load_fields integer_value [] out = out"
| "load_fields integer_value ((k, v) # rest) out =
     (let integer_value = the_default integer_value (GetAsInteger v)
      in load_fields integer_value rest (emplace k integer_value out))"

definition item_of :: "dictionary \<Rightarrow> string \<times> string" where
  "item_of item_val =
     (case dict_GetString item_val ''RIC'' of None \<Rightarrow> [] | Some s \<Rightarrow> s,
      case dict_GetString item_val ''topic'' of None \<Rightarrow> [] | Some s \<Rightarrow> s)"

fun load_items ::
    "(string \<times> Value) list \<Rightarrow> (string, string \<times> string) omap \<Rightarrow> (string, string \<times> string) omap outcome" where
  "load_items [] items = Done items"
| "load_items ((k, v) # rest) items =
     (case GetAsDictionary v of
        None \<Rightarrow> Raise Undefined_Behaviour
      | Some item_val \<Rightarrow> load_items rest (emplace k (item_of item_val) items))"

definition default_string :: "dictionary \<Rightarrow> string \<Rightarrow> string" where
  "default_string d path = (case dict_GetString d path of None \<Rightarrow> [] | Some s \<Rightarrow> s)"

text \<open>
  The pointer \<open>tmp_value\<close> is set by the first \<open>Get\<close> that succeeds: without \<open>items\<close> it still leads to
  \<open>fields\<close>.
\<close>

definition ParseResource :: "dictionary \<Rightarrow> (config, bool) method" where
  "ParseResource d cfg =
     (let integer_value = the_default 0 (dict_GetInteger d ''entitlement_code'')
      in case dict_Get d ''fields'' of
           Some (DictionaryValue fs) \<Rightarrow>
             (let field_map = load_fields integer_value fs []
              in case the_default (DictionaryValue fs) (dict_Get d ''items'') of
                   DictionaryValue its \<Rightarrow>
                     (case load_items its [] of
                        Done items \<Rightarrow>
                          (Done True, resources_update (\<lambda>rs. rs @ [
                             \<lparr>res_name = default_string d ''name'', res_source = default_string d ''source'',
                              res_path = default_string d ''path'',
                              entitlement_code = word_of_int integer_value,
                              res_fields = field_map, res_items = items\<rparr>]) cfg)
                      | Raise e \<Rightarrow> (Raise e, cfg)
                      | Diverged \<Rightarrow> (Diverged, cfg))
                 | _ \<Rightarrow> (Raise Undefined_Behaviour, cfg))
         | _ \<Rightarrow> (Raise Undefined_Behaviour, cfg))"

text \<open>The loops over the two arrays: each element must be a dictionary.\<close>

fun parse_all :: "(dictionary \<Rightarrow> (config, bool) method) \<Rightarrow> Value list \<Rightarrow> (config, bool) method" where
  "parse_all parse [] = ret True"
| "parse_all parse (v # vs) =
     (case GetAsDictionary v of
        None \<Rightarrow> throw Undefined_Behaviour
      | Some d \<Rightarrow> bindm (parse d) (\<lambda>ok. if \<not> ok then ret False else parse_all parse vs))"

definition load_head :: "dictionary \<Rightarrow> (config, unit) method" where
  "load_head d =
     seq (load_bool d ''is_snmp_enabled'' is_snmp_enabled_update)
    (seq (load_bool d ''is_agentx_subagent'' is_agentx_subagent_update)
    (seq (load_string d ''agentx_socket'' agentx_socket_update)
    (seq (load_string d ''key'' cfg_key_update)
    (seq (load_string d ''service_name'' service_name_update)
         (load_string d ''dacs_id'' dacs_id_update)))))"

definition load_parameters :: "dictionary \<Rightarrow> (config, unit) method" where
  "load_parameters d =
     seq (load_string d ''monitor_name'' monitor_name_update)
    (seq (load_string d ''event_queue_name'' event_queue_name_update)
    (seq (load_string d ''vendor_name'' vendor_name_update)
    (seq (load_string d ''maximum_data_size'' maximum_data_size_update)
    (seq (load_string d ''interval'' cfg_interval_update)
    (seq (load_string d ''tolerable_delay'' tolerable_delay_update)
    (seq (load_string d ''retry_count'' retry_count_update)
    (seq (load_string d ''retry_delay_ms'' retry_delay_ms_update)
    (seq (load_string d ''retry_timeout_ms'' retry_timeout_ms_update)
    (seq (load_string d ''timeout_ms'' timeout_ms_update)
    (seq (load_string d ''connect_timeout_ms'' connect_timeout_ms_update)
    (seq (load_string d ''enable_http_pipelining'' enable_http_pipelining_update)
    (seq (load_string d ''maximum_response_size'' maximum_response_size_update)
    (seq (load_string d ''minimum_response_size'' minimum_response_size_update)
    (seq (load_string d ''request_http_encoding'' request_http_encoding_update)
    (seq (load_string d ''time_offset_constant'' time_offset_constant_update)
    (seq (load_string d ''panic_threshold'' panic_threshold_update)
    (seq (load_string d ''http_proxy'' http_proxy_update)
    (seq (load_string d ''dns_cache_timeout'' dns_cache_timeout_update)
         (load_string d ''base_url'' base_url_update)))))))))))))))))))"

text \<open>The pointer \<open>list\<close> keeps what it was when the path has no list.\<close>

definition parse_list ::
    "dictionary \<Rightarrow> string \<Rightarrow> (dictionary \<Rightarrow> (config, bool) method) \<Rightarrow> Value list option \<Rightarrow>
     (config, bool) method" where
  "parse_list d path parse list_val =
     (case (case dict_GetList d path of None \<Rightarrow> list_val | Some vs \<Rightarrow> Some vs) of
        None \<Rightarrow> throw Null_Deref
      | Some vs \<Rightarrow> parse_all parse vs)"

definition ParseConfig :: "dictionary \<Rightarrow> (config, bool) method" where
  "ParseConfig d =
     (if \<not> HasKey d ''sessions'' then ret False
      else if \<not> HasKey d ''resources'' then ret False
      else seq (load_head d)
          (bindm (parse_list d ''sessions'' ParseSession None) (\<lambda>ok.
             if \<not> ok then ret False
             else seq (load_parameters d)
                 (bindm (parse_list d ''resources'' ParseResource (dict_GetList d ''sessions'')) (\<lambda>ok.
                    if \<not> ok then ret False else gets Validate)))))"

section \<open>What the reader stores\<close>

text \<open>A null pointer is read, or a value is used that is not there or has another type.\<close>

definition is_undefined :: "'a outcome \<Rightarrow> bool" where
  "is_undefined r \<longleftrightarrow> r = Raise Null_Deref \<or> r = Raise Undefined_Behaviour"

lemma is_undefined_simps [simp]:
  "is_undefined (Raise Null_Deref)" "is_undefined (Raise Undefined_Behaviour)"
  "\<not> is_undefined (Done x)" "\<not> is_undefined Diverged"
  by (simp_all add: is_undefined_def)

text \<open>The shape a session or resource must have, and the record that is read from it.\<close>

definition session_shape :: "dictionary \<Rightarrow> bool" where
  "session_shape d \<longleftrightarrow> dict_GetList d ''rssl_servers'' \<noteq> None"

definition session_of :: "dictionary \<Rightarrow> session_config" where
  "session_of d =
     \<lparr>session_name = default_string d ''session_name'',
      connection_name = default_string d ''connection_name'',
      publisher_name = default_string d ''publisher_name'',
      rssl_servers = map (\<lambda>v. the_default [] (GetAsString v)) (the_default [] (dict_GetList d ''rssl_servers'')),
      rssl_default_port = default_string d ''rssl_default_port'',
      application_id = default_string d ''application_id'',
      cfg_instance_id = default_string d ''instance_id'',
      user_name = default_string d ''user_name'',
      cfg_position = default_string d ''position''\<rparr>"

lemma load_string_run:
  "upd (\<lambda>x. x) s = s \<Longrightarrow>
   load_string d path upd s = (Done (), upd (\<lambda>old. the_default old (dict_GetString d path)) s)"
  by (simp add: load_string_def method_simps split: option.splits)

lemma session_update_same:
  "session_name_update (\<lambda>x. x) s = s" "connection_name_update (\<lambda>x. x) s = s"
  "publisher_name_update (\<lambda>x. x) s = s" "rssl_default_port_update (\<lambda>x. x) s = s"
  "application_id_update (\<lambda>x. x) s = s" "cfg_instance_id_update (\<lambda>x. x) s = s"
  "user_name_update (\<lambda>x. x) s = s" "cfg_position_update (\<lambda>x. x) s = s"
  for s :: session_config
  by (cases s; simp)+

lemma load_string_seq:
  "upd (\<lambda>x. x) s = s \<Longrightarrow>
   seq (load_string d path upd) k s = k (upd (\<lambda>old. the_default old (dict_GetString d path)) s)"
  by (simp add: load_string_run seq_def bindm_def)

lemma load_rssl_servers_run:
  "load_rssl_servers vs s =
     (Done (), rssl_servers_update (\<lambda>ss. ss @ map (\<lambda>v. the_default [] (GetAsString v)) vs) s)"
  by (induction vs arbitrary: s) (simp_all add: load_rssl_servers_def method_simps Let_def comp_def)

lemma load_rssl_servers_seq:
  "seq (load_rssl_servers vs) k s =
     k (rssl_servers_update (\<lambda>ss. ss @ map (\<lambda>v. the_default [] (GetAsString v)) vs) s)"
  by (simp add: load_rssl_servers_run seq_def bindm_def)

lemma ParseSession_run:
  "ParseSession d cfg =
     (if session_shape d then (Done True, cfg_sessions_update (\<lambda>ss. ss @ [session_of d]) cfg)
      else (Raise Null_Deref, cfg))"
proof (cases "dict_GetList d ''rssl_servers''")
  case None
  then show ?thesis
    by (simp add: ParseSession_def load_session_def session_shape_def load_string_seq
        session_update_same method_simps)
next
  case (Some vs)
  have ds: "the_default [] (dict_GetString d p) = default_string d p" for p
    by (simp add: default_string_def the_default_def)
  have "load_session d session_config_init = (Done (), session_of d)"
    by (simp add: load_session_def load_string_seq load_rssl_servers_seq load_string_run session_update_same
        Some session_of_def session_config_init_def ds)
  then show ?thesis by (simp add: ParseSession_def session_shape_def Some)
qed

text \<open>The numbers of the fields: a field without an integer has that of the one before.\<close>

fun carried :: "int \<Rightarrow> (string \<times> Value) list \<Rightarrow> (string \<times> int) list" where
  "carried i [] = []"
| "carried i ((k, v) # rest) = (let j = the_default i (GetAsInteger v) in (k, j) # carried j rest)"

text \<open>The value the items are read from.\<close>

definition items_value :: "dictionary \<Rightarrow> Value" where
  "items_value d = the_default (the_default NullValue (dict_Get d ''fields'')) (dict_Get d ''items'')"

definition resource_shape :: "dictionary \<Rightarrow> bool" where
  "resource_shape d =
     (case (dict_Get d ''fields'', items_value d) of
        (Some (DictionaryValue fs), DictionaryValue its) \<Rightarrow> list_all (\<lambda>(_, v). GetAsDictionary v \<noteq> None) its
      | _ \<Rightarrow> False)"

definition resource_of :: "dictionary \<Rightarrow> resource" where
  "resource_of d =
     (let code = the_default 0 (dict_GetInteger d ''entitlement_code'')
      in \<lparr>res_name = default_string d ''name'', res_source = default_string d ''source'',
          res_path = default_string d ''path'', entitlement_code = word_of_int code,
          res_fields = fold (\<lambda>(k, v). emplace k v)
            (carried code (the_default [] (dict_GetDictionary d ''fields''))) [],
          res_items = fold (\<lambda>(k, v). emplace k v)
            [(k, item_of e). (k, DictionaryValue e) \<leftarrow> the_default [] (GetAsDictionary (items_value d))] []\<rparr>)"

lemma load_fields_run: "load_fields i fs out = fold (\<lambda>(k, v). emplace k v) (carried i fs) out"
  by (induction i fs out rule: load_fields.induct) (simp_all add: Let_def)

lemma load_items_run:
  "load_items its out =
     (if list_all (\<lambda>(_, v). GetAsDictionary v \<noteq> None) its
      then Done (fold (\<lambda>(k, v). emplace k v) [(k, item_of e). (k, DictionaryValue e) \<leftarrow> its] out)
      else Raise Undefined_Behaviour)"
proof (induction its out rule: load_items.induct)
  case (1 out)
  then show ?case by simp
next
  case (2 k v rest out)
  then show ?case by (cases v) auto
qed

lemma ParseResource_run:
  "ParseResource d cfg =
     (if resource_shape d then (Done True, resources_update (\<lambda>rs. rs @ [resource_of d]) cfg)
      else (Raise Undefined_Behaviour, cfg))"
proof (cases "\<exists>fs. dict_Get d ''fields'' = Some (DictionaryValue fs)")
  case True
  then obtain fs where fs: "dict_Get d ''fields'' = Some (DictionaryValue fs)" by blast
  then have "the_default (DictionaryValue fs) (dict_Get d ''items'') = items_value d" by (simp add: items_value_def)
  then show ?thesis
    by (cases "items_value d")
      (simp_all add: fs ParseResource_def resource_shape_def resource_of_def load_fields_run load_items_run
        dict_GetDictionary.simps Let_def)
next
  case False
  then show ?thesis
    by (auto simp: ParseResource_def resource_shape_def Let_def split: option.splits Value.splits)
qed

section \<open>The arrays\<close>

text \<open>What the loops over an array rely on: the reader of one element stores its record or is undefined.\<close>

locale element_reader =
  fixes parse :: "dictionary \<Rightarrow> (config, bool) method"
    and shape :: "dictionary \<Rightarrow> bool"
    and elem :: "dictionary \<Rightarrow> 'e"
    and extend :: "'e list \<Rightarrow> config \<Rightarrow> config"
  assumes parse_run: "shape d \<Longrightarrow> parse d c = (Done True, extend [elem d] c)"
    and parse_undefined: "\<not> shape d \<Longrightarrow> is_undefined (fst (parse d c))"
    and extend_Nil: "extend [] c = c"
    and extend_append: "extend ys (extend xs c) = extend (xs @ ys) c"
begin

definition good :: "Value \<Rightarrow> bool" where
  "good v \<longleftrightarrow> (\<exists>d. v = DictionaryValue d \<and> shape d)"

lemma parse_all_run:
  "if \<forall>v \<in> set vs. good v
   then parse_all parse vs c = (Done True, extend [elem d. DictionaryValue d \<leftarrow> vs] c)
   else is_undefined (fst (parse_all parse vs c))"
proof (induction vs arbitrary: c)
  case Nil
  then show ?case by (simp add: method_simps extend_Nil)
next
  case (Cons v vs)
  show ?case
  proof (cases "good v")
    case True
    then obtain d where d: "v = DictionaryValue d" "shape d" by (auto simp: good_def)
    then have "parse_all parse (v # vs) c = parse_all parse vs (extend [elem d] c)"
      by (simp add: bindm_def parse_run)
    then show ?thesis
      using Cons[of "extend [elem d] c"] d True by (simp add: extend_append)
  next
    case False
    have "is_undefined (fst (parse_all parse (v # vs) c))"
    proof (cases "GetAsDictionary v")
      case None
      then show ?thesis by (simp add: method_simps)
    next
      case (Some d)
      then have "v = DictionaryValue d" by (cases v) auto
      then have "is_undefined (fst (parse d c))" using False by (auto simp: good_def intro: parse_undefined)
      then show ?thesis
        using Some by (cases "parse d c") (auto simp: bindm_def is_undefined_def)
    qed
    then show ?thesis using False by auto
  qed
qed

text \<open>The array that is read: the one at the path, or else the one before.\<close>

lemma parse_list_run:
  "case (case dict_GetList d path of None \<Rightarrow> list_val | Some vs \<Rightarrow> Some vs) of
     Some vs \<Rightarrow>
       if \<forall>v \<in> set vs. good v
       then parse_list d path parse list_val c = (Done True, extend [elem e. DictionaryValue e \<leftarrow> vs] c)
       else is_undefined (fst (parse_list d path parse list_val c))
   | None \<Rightarrow> is_undefined (fst (parse_list d path parse list_val c))"
proof (cases "case dict_GetList d path of None \<Rightarrow> list_val | Some vs \<Rightarrow> Some vs")
  case None
  then show ?thesis by (simp add: parse_list_def method_simps)
next
  case (Some vs)
  then show ?thesis using parse_all_run[of vs c] by (simp add: parse_list_def)
qed

end

interpretation session_reader: element_reader ParseSession session_shape session_of
    "\<lambda>xs. cfg_sessions_update (\<lambda>ss. ss @ xs)"
  by unfold_locales (simp_all add: ParseSession_run)

interpretation resource_reader: element_reader ParseResource resource_shape resource_of
    "\<lambda>xs. resources_update (\<lambda>rs. rs @ xs)"
  by unfold_locales (simp_all add: ParseResource_run)

text \<open>Reading the scalar members touches neither array and cannot fail.\<close>

definition scalars_only :: "(config, unit) method \<Rightarrow> bool" where
  "scalars_only m \<longleftrightarrow> (\<forall>c. \<exists>c'. m c = (Done (), c') \<and> cfg_sessions c' = cfg_sessions c \<and>
     resources c' = resources c)"

lemma scalars_only_seq: "scalars_only m \<Longrightarrow> scalars_only k \<Longrightarrow> scalars_only (seq m k)"
  unfolding scalars_only_def
proof (intro allI)
  fix c
  assume m: "\<forall>c. \<exists>c'. m c = (Done (), c') \<and> cfg_sessions c' = cfg_sessions c \<and> resources c' = resources c"
    and k: "\<forall>c. \<exists>c'. k c = (Done (), c') \<and> cfg_sessions c' = cfg_sessions c \<and> resources c' = resources c"
  obtain s where s: "m c = (Done (), s)" "cfg_sessions s = cfg_sessions c" "resources s = resources c"
    using m by blast
  then show "\<exists>c'. seq m k c = (Done (), c') \<and> cfg_sessions c' = cfg_sessions c \<and> resources c' = resources c"
    using k[rule_format, of s] by (simp add: seq_Done_run)
qed

lemma scalars_only_string:
  "(\<And>v c. cfg_sessions (upd (\<lambda>_. v) c) = cfg_sessions c \<and> resources (upd (\<lambda>_. v) c) = resources c) \<Longrightarrow>
   scalars_only (load_string d path upd)"
  by (auto simp: scalars_only_def load_string_def method_simps split: option.splits)

lemma scalars_only_bool:
  "(\<And>v c. cfg_sessions (upd (\<lambda>_. v) c) = cfg_sessions c \<and> resources (upd (\<lambda>_. v) c) = resources c) \<Longrightarrow>
   scalars_only (load_bool d path upd)"
  by (auto simp: scalars_only_def load_bool_def method_simps split: option.splits)

lemma load_head_scalars: "scalars_only (load_head d)"
  unfolding load_head_def by (intro scalars_only_seq scalars_only_string scalars_only_bool) auto

lemma load_parameters_scalars: "scalars_only (load_parameters d)"
  unfolding load_parameters_def by (intro scalars_only_seq scalars_only_string) auto

text \<open>The elements of the second array: those of the sessions when \<open>resources\<close> is no array.\<close>

definition resource_list :: "dictionary \<Rightarrow> Value list" where
  "resource_list d = the_default (the_default [] (dict_GetList d ''sessions'')) (dict_GetList d ''resources'')"

definition config_shape :: "dictionary \<Rightarrow> bool" where
  "config_shape d =
     (case dict_GetList d ''sessions'' of
        Some ss \<Rightarrow>
          list_all (\<lambda>v. case v of DictionaryValue e \<Rightarrow> session_shape e | _ \<Rightarrow> False) ss \<and>
          list_all (\<lambda>v. case v of DictionaryValue e \<Rightarrow> resource_shape e | _ \<Rightarrow> False) (resource_list d)
      | None \<Rightarrow> False)"

lemma config_shape_good:
  "config_shape d \<longleftrightarrow> (\<exists>ss. dict_GetList d ''sessions'' = Some ss \<and>
     (\<forall>v \<in> set ss. session_reader.good v) \<and> (\<forall>v \<in> set (resource_list d). resource_reader.good v))"
proof -
  have "(case v of DictionaryValue e \<Rightarrow> session_shape e | _ \<Rightarrow> False) = session_reader.good v"
    "(case v of DictionaryValue e \<Rightarrow> resource_shape e | _ \<Rightarrow> False) = resource_reader.good v" for v
    by (auto simp: session_reader.good_def resource_reader.good_def split: Value.splits)
  then show ?thesis by (auto simp: config_shape_def list_all_iff split: option.splits)
qed

lemma is_undefined_bindm: "is_undefined (fst (m s)) \<Longrightarrow> is_undefined (fst (bindm m k s))"
  by (cases "m s") (auto simp: bindm_def is_undefined_def)

lemma ParseConfig_cases:
  assumes "HasKey d ''sessions''" "HasKey d ''resources''"
  shows "if config_shape d
    then \<exists>c'. ParseConfig d c = (Done (Validate c'), c') \<and>
      cfg_sessions c' = cfg_sessions c @ [session_of e. DictionaryValue e \<leftarrow> the (dict_GetList d ''sessions'')] \<and>
      resources c' = resources c @ [resource_of e. DictionaryValue e \<leftarrow> resource_list d]
    else is_undefined (fst (ParseConfig d c))"
proof -
  obtain s1 where s1: "load_head d c = (Done (), s1)" "cfg_sessions s1 = cfg_sessions c"
      "resources s1 = resources c"
    using load_head_scalars unfolding scalars_only_def by blast
  let ?read = "parse_list d ''resources'' ParseResource (dict_GetList d ''sessions'')"
  let ?tail = "seq (load_parameters d) (bindm ?read (\<lambda>ok. if \<not> ok then ret False else gets Validate))"
  have P: "ParseConfig d c = bindm (parse_list d ''sessions'' ParseSession None)
      (\<lambda>ok. if \<not> ok then ret False else ?tail) s1"
    using assms s1 by (simp add: ParseConfig_def seq_Done_run)
  show ?thesis
  proof (cases "\<exists>ss. dict_GetList d ''sessions'' = Some ss \<and> (\<forall>v \<in> set ss. session_reader.good v)")
    case False
    then have "is_undefined (fst (parse_list d ''sessions'' ParseSession None s1))"
      using session_reader.parse_list_run[of d "''sessions''" None s1]
      by (cases "dict_GetList d ''sessions''") (auto split: if_splits)
    then show ?thesis using False by (auto simp: P config_shape_good intro: is_undefined_bindm)
  next
    case True
    then obtain ss where ss: "dict_GetList d ''sessions'' = Some ss" "\<forall>v \<in> set ss. session_reader.good v"
      by blast
    define s2 where "s2 = cfg_sessions_update (\<lambda>xs. xs @ [session_of e. DictionaryValue e \<leftarrow> ss]) s1"
    have "parse_list d ''sessions'' ParseSession None s1 = (Done True, s2)"
      using session_reader.parse_list_run[of d "''sessions''" None s1] ss by (simp add: s2_def)
    then have P2: "ParseConfig d c = ?tail s2" by (simp add: P bindm_def)
    obtain s3 where s3: "load_parameters d s2 = (Done (), s3)" "cfg_sessions s3 = cfg_sessions s2"
        "resources s3 = resources s2"
      using load_parameters_scalars unfolding scalars_only_def by blast
    have P3: "ParseConfig d c = bindm ?read (\<lambda>ok. if \<not> ok then ret False else gets Validate) s3"
      using s3 by (simp add: P2 seq_Done_run)
    have second: "(case dict_GetList d ''resources'' of None \<Rightarrow> dict_GetList d ''sessions'' | Some vs \<Rightarrow> Some vs) =
        Some (resource_list d)"
      using ss(1) by (simp add: resource_list_def split: option.split)
    note read = resource_reader.parse_list_run[of d "''resources''" "dict_GetList d ''sessions''" s3,
        unfolded second option.case]
    show ?thesis
    proof (cases "\<forall>v \<in> set (resource_list d). resource_reader.good v")
      case False
      then have "is_undefined (fst (?read s3))" using read by auto
      then show ?thesis using False by (auto simp: P3 config_shape_good intro: is_undefined_bindm)
    next
      case True
      then have "?read s3 =
          (Done True, resources_update (\<lambda>xs. xs @ [resource_of e. DictionaryValue e \<leftarrow> resource_list d]) s3)"
        using read by simp
      then show ?thesis
        using ss True s1 s3 by (auto simp: P3 bindm_def config_shape_good method_simps s2_def)
    qed
  qed
qed

text \<open>
  C8. \<open>ParseConfig\<close> returns false when an array is missing. When the tree has the expected shape it
  appends one session and one resource per element of the two arrays, in their order, and returns
  whether the configuration it has then is valid; when \<open>resources\<close> is no array, the elements of
  \<open>sessions\<close> are read as resources too. On any other tree it is undefined behaviour, since the failing
  \<open>CHECK\<close>s only log.
\<close>

theorem ParseConfig_outcome:
  "case ParseConfig d c of (r, c') \<Rightarrow>
     if HasKey d ''sessions'' \<and> HasKey d ''resources'' then
       if config_shape d then
         r = Done (valid_config c') \<and>
         cfg_sessions c' = cfg_sessions c @ [session_of e. DictionaryValue e \<leftarrow> the (dict_GetList d ''sessions'')] \<and>
         resources c' = resources c @ [resource_of e. DictionaryValue e \<leftarrow> resource_list d]
       else is_undefined r
     else r = Done False \<and> c' = c"
proof (cases "HasKey d ''sessions'' \<and> HasKey d ''resources''")
  case True
  then show ?thesis
    using ParseConfig_cases[of d c]
    by (cases "ParseConfig d c") (auto simp: Validate_valid split: if_splits)
next
  case False
  then show ?thesis by (auto simp: ParseConfig_def method_simps)
qed

text \<open>
  When every field has an integer, the column map of a resource that is read is the \<open>fields\<close> dictionary
  itself; its item map gives each key of the \<open>items\<close> dictionary the RIC and topic stored there.
\<close>

theorem resource_of_maps:
  assumes "resource_shape d" "list_all (\<lambda>(_, v). GetAsInteger v \<noteq> None) fs"
    and "dict_Get d ''fields'' = Some (DictionaryValue fs)" "dict_Get d ''items'' = Some (DictionaryValue its)"
  shows "map_of (res_fields (resource_of d)) col = Option.bind (map_of fs col) GetAsInteger \<and>
    map_of (res_items (resource_of d)) sector =
      map_option item_of (Option.bind (map_of its sector) GetAsDictionary)"
proof -
  have f: "map_of (carried i fs) x = Option.bind (map_of fs x) GetAsInteger" for i x
    using assms(2) by (induction i fs rule: carried.induct) (auto simp: Let_def)
  have g: "map_of [(k, item_of e). (k, DictionaryValue e) \<leftarrow> its] x =
      map_option item_of (Option.bind (map_of its x) GetAsDictionary)"
    if "list_all (\<lambda>(_, v). GetAsDictionary v \<noteq> None) its" for x
    using that
  proof (induction its)
    case (Cons kv its)
    then show ?case by (cases kv; cases "snd kv") auto
  qed simp
  show ?thesis
    using assms f g
    by (simp add: resource_of_def resource_shape_def items_value_def omap.lookup_fold_add dict_GetDictionary.simps Let_def)
qed

theorem resource_of_maps_witness:
  "map_of (res_fields (resource_of
     [(''fields'', DictionaryValue [(''buzz'', IntegerValue 12), (''fear'', IntegerValue 7)]),
      (''items'', DictionaryValue [(''1'', DictionaryValue [(''RIC'', StringValue ''MI0'')])])])) ''fear'' = Some 7"
  by (subst resource_of_maps[THEN conjunct1, of _ "[(''buzz'', IntegerValue 12), (''fear'', IntegerValue 7)]"
        "[(''1'', DictionaryValue [(''RIC'', StringValue ''MI0'')])]"])
    (simp_all add: resource_shape_def items_value_def dict_Get.simps dict_GetDictionary.simps GetWithoutPathExpansion_def)

text \<open>A field that is no number takes the number of the field before it, and the first the entitlement code.\<close>

lemma field_takes_previous:
  "GetAsInteger w = None \<Longrightarrow> carried i ((k, v) # (l, w) # fs) =
     (let j = the_default i (GetAsInteger v) in (k, j) # (l, j) # carried j fs)"
  by (simp add: Let_def)

end
