(* ===== verification/Tokenizer.thy ===== *)
theory Tokenizer
  imports Strings
begin

text \<open>
  \<open>StringTokenizerT\<close> of \<open>src/src/chromium/string_tokenizer.hh\<close>. Iterators are positions in
  the string. The scanning loops test \<open>token_end_ == end_\<close>; the model stops at \<open>end_\<close> or
  behind it, which is the same on every state the constructor and the steps reach
  (\<open>tok_ok\<close>).
\<close>

section \<open>State and construction\<close>

record tokenizer =
  tk_string :: string
  start_pos :: nat
  token_begin :: nat
  token_end :: nat
  end_pos :: nat
  delims :: string
  quotes :: string
  return_delims :: bool  \<comment> \<open>\<open>options_ & RETURN_DELIMS\<close>, the only option there is\<close>
  token_is_delim :: bool

definition tokenizer_Init :: "string \<Rightarrow> string \<Rightarrow> tokenizer" where
  "tokenizer_Init s d =
     \<lparr>tk_string = s, start_pos = 0, token_begin = 0, token_end = 0, end_pos = length s,
      delims = d, quotes = [], return_delims = False, token_is_delim = False\<rparr>"

definition set_return_delims :: "bool \<Rightarrow> tokenizer \<Rightarrow> tokenizer" where
  "set_return_delims b t = t\<lparr>return_delims := b\<rparr>"

definition set_quote_chars :: "string \<Rightarrow> tokenizer \<Rightarrow> tokenizer" where
  "set_quote_chars q t = t\<lparr>quotes := q\<rparr>"

definition tokenizer_Reset :: "tokenizer \<Rightarrow> tokenizer" where
  "tokenizer_Reset t = t\<lparr>token_end := start_pos t\<rparr>"

definition token :: "tokenizer \<Rightarrow> string" where
  "token t = take (token_end t - token_begin t) (drop (token_begin t) (tk_string t))"

definition IsDelim :: "tokenizer \<Rightarrow> char \<Rightarrow> bool" where
  "IsDelim t c \<longleftrightarrow> c \<in> set (delims t)"

definition IsQuote :: "tokenizer \<Rightarrow> char \<Rightarrow> bool" where
  "IsQuote t c \<longleftrightarrow> c \<in> set (quotes t)"

section \<open>GetNext without quotes\<close>

function quick_skip :: "tokenizer \<Rightarrow> bool \<times> tokenizer" where
  "quick_skip t =
     (let t = t\<lparr>token_begin := token_end t\<rparr>
      in if token_end t \<ge> end_pos t then (False, t)
         else let t = t\<lparr>token_end := token_end t + 1\<rparr>
              in if IsDelim t (tk_string t ! token_begin t) then quick_skip t else (True, t))"
  by pat_completeness auto
termination
  by (relation "measure (\<lambda>t. end_pos t - token_end t)") (auto simp: Let_def)

function quick_extend :: "tokenizer \<Rightarrow> tokenizer" where
  "quick_extend t =
     (if token_end t < end_pos t \<and> \<not> IsDelim t (tk_string t ! token_end t)
      then quick_extend (t\<lparr>token_end := token_end t + 1\<rparr>) else t)"
  by pat_completeness auto
termination
  by (relation "measure (\<lambda>t. end_pos t - token_end t)") auto

definition QuickGetNext :: "tokenizer \<Rightarrow> bool \<times> tokenizer" where
  "QuickGetNext t =
     (case quick_skip (t\<lparr>token_is_delim := False\<rparr>) of
        (False, t') \<Rightarrow> (False, t')
      | (True, t') \<Rightarrow> (True, quick_extend t'))"

section \<open>GetNext with quotes and returned delimiters\<close>

record advance_state =
  in_quote :: bool
  in_escape :: bool
  quote_char :: char

definition advance_init :: advance_state where
  "advance_init = \<lparr>in_quote = False, in_escape = False, quote_char = CHR 0x00\<rparr>"

text \<open>\<open>AdvanceOne\<close> returns true if a delimiter was not hit.\<close>

definition AdvanceOne :: "tokenizer \<Rightarrow> advance_state \<Rightarrow> char \<Rightarrow> bool \<times> advance_state" where
  "AdvanceOne t st c =
     (if in_quote st then
        (True,
         if in_escape st then st\<lparr>in_escape := False\<rparr>
         else if c = CHR 0x5C then st\<lparr>in_escape := True\<rparr>
         else if c = quote_char st then st\<lparr>in_quote := False\<rparr>
         else st)
      else if IsDelim t c then (False, st)
      else (True, st\<lparr>quote_char := c, in_quote := IsQuote t c\<rparr>))"

text \<open>The result says whether a token was found, and whether the loop returned a delimiter.\<close>

function full_skip ::
    "tokenizer \<Rightarrow> advance_state \<Rightarrow> bool \<times> bool \<times> tokenizer \<times> advance_state" where
  "full_skip t st =
     (let t = t\<lparr>token_begin := token_end t\<rparr>
      in if token_end t \<ge> end_pos t then (False, False, t, st)
         else let t = t\<lparr>token_end := token_end t + 1\<rparr>
              in case AdvanceOne t st (tk_string t ! token_begin t) of
                   (True, st') \<Rightarrow> (True, False, t, st')
                 | (False, st') \<Rightarrow>
                     if return_delims t then (True, True, t\<lparr>token_is_delim := True\<rparr>, st')
                     else full_skip t st')"
  by pat_completeness auto
termination
  by (relation "measure (\<lambda>(t, st). end_pos t - token_end t)") (auto simp: Let_def)

function full_extend :: "tokenizer \<Rightarrow> advance_state \<Rightarrow> tokenizer" where
  "full_extend t st =
     (if token_end t < end_pos t then
        (case AdvanceOne t st (tk_string t ! token_end t) of
           (True, st') \<Rightarrow> full_extend (t\<lparr>token_end := token_end t + 1\<rparr>) st'
         | (False, st') \<Rightarrow> t)
      else t)"
  by pat_completeness auto
termination
  by (relation "measure (\<lambda>(t, st). end_pos t - token_end t)") auto

declare quick_skip.simps [simp del] quick_extend.simps [simp del]
  full_skip.simps [simp del] full_extend.simps [simp del]

definition FullGetNext :: "tokenizer \<Rightarrow> bool \<times> tokenizer" where
  "FullGetNext t =
     (case full_skip (t\<lparr>token_is_delim := False\<rparr>) advance_init of
        (False, _, t', _) \<Rightarrow> (False, t')
      | (True, True, t', _) \<Rightarrow> (True, t')
      | (True, False, t', st) \<Rightarrow> (True, full_extend t' st))"

definition GetNext :: "tokenizer \<Rightarrow> bool \<times> tokenizer" where
  "GetNext t = (if quotes t = [] \<and> \<not> return_delims t then QuickGetNext t else FullGetNext t)"

section \<open>The states the tokenizer reaches\<close>

definition tok_ok :: "tokenizer \<Rightarrow> bool" where
  "tok_ok t \<longleftrightarrow> token_begin t \<le> token_end t \<and> token_end t \<le> end_pos t \<and>
     end_pos t = length (tk_string t)"

text \<open>What no step changes.\<close>

definition same_input :: "tokenizer \<Rightarrow> tokenizer \<Rightarrow> bool" where
  "same_input t t' \<longleftrightarrow> tk_string t' = tk_string t \<and> end_pos t' = end_pos t \<and>
     delims t' = delims t \<and> quotes t' = quotes t \<and> return_delims t' = return_delims t \<and>
     start_pos t' = start_pos t"

lemma same_input_refl [simp]: "same_input t t"
  by (simp add: same_input_def)

lemma same_input_trans: "same_input a b \<Longrightarrow> same_input b c \<Longrightarrow> same_input a c"
  by (simp add: same_input_def)

lemma full_skip_step:
  "token_end t \<le> end_pos t \<Longrightarrow> full_skip t st = (found, d, t', st') \<Longrightarrow>
   same_input t t' \<and> token_end t' \<le> end_pos t \<and> token_end t \<le> token_begin t' \<and>
   token_begin t' \<le> token_end t' \<and>
   (found \<longrightarrow> token_end t' = Suc (token_begin t')) \<and> (\<not> found \<longrightarrow> token_end t' = end_pos t)"
proof (induction t st rule: full_skip.induct)
  case (1 t st)
  show ?case
  proof (cases "token_end t \<ge> end_pos t")
    case True
    then show ?thesis using 1(2,3) by (auto simp: full_skip.simps[of t] same_input_def)
  next
    case False
    let ?t = "t\<lparr>token_begin := token_end t, token_end := token_end t + 1\<rparr>"
    obtain ok s1 where a: "AdvanceOne ?t st (tk_string t ! token_end t) = (ok, s1)" by force
    show ?thesis
    proof (cases "ok \<or> return_delims t")
      case True
      then show ?thesis using 1(3) False a
        by (auto simp: full_skip.simps[of t] same_input_def Let_def split: bool.splits if_splits)
    next
      case nf: False
      have "full_skip ?t s1 = (found, d, t', st')"
        using 1(3) False a nf by (simp add: full_skip.simps[of t] Let_def)
      then show ?thesis
        using 1(1)[of "t\<lparr>token_begin := token_end t\<rparr>" ?t ok s1] False a nf
        by (auto simp: same_input_def)
    qed
  qed
qed

lemma full_extend_step:
  "token_end t \<le> end_pos t \<Longrightarrow>
   same_input t (full_extend t st) \<and> token_begin (full_extend t st) = token_begin t \<and>
   token_end t \<le> token_end (full_extend t st) \<and> token_end (full_extend t st) \<le> end_pos t"
proof (induction t st rule: full_extend.induct)
  case (1 t st)
  obtain ok s1 where a: "AdvanceOne t st (tk_string t ! token_end t) = (ok, s1)" by force
  show ?case
  proof (cases "token_end t < end_pos t \<and> ok")
    case True
    then show ?thesis
      using 1(1)[of ok s1] a by (auto simp: full_extend.simps[of t] same_input_def)
  next
    case False
    then show ?thesis using 1(2) a by (auto simp: full_extend.simps[of t])
  qed
qed

text \<open>
  Without quotes and returned delimiters the two implementations compute the same.
\<close>

lemma AdvanceOne_plain:
  "quotes t = [] \<Longrightarrow> \<not> in_quote st \<Longrightarrow>
   fst (AdvanceOne t st c) = (\<not> IsDelim t c) \<and> \<not> in_quote (snd (AdvanceOne t st c))"
  by (simp add: AdvanceOne_def IsQuote_def)

lemma full_skip_quick:
  "quotes t = [] \<Longrightarrow> \<not> return_delims t \<Longrightarrow> \<not> in_quote st \<Longrightarrow>
   \<exists>st'. \<not> in_quote st' \<and>
     full_skip t st = (fst (quick_skip t), False, snd (quick_skip t), st')"
proof (induction t st rule: full_skip.induct)
  case (1 t st)
  let ?t = "t\<lparr>token_begin := token_end t, token_end := token_end t + 1\<rparr>"
  obtain ok s1 where a: "AdvanceOne ?t st (tk_string t ! token_end t) = (ok, s1)" by force
  then have ok: "ok = (\<not> IsDelim ?t (tk_string t ! token_end t))" "\<not> in_quote s1"
    using AdvanceOne_plain[of ?t st "tk_string t ! token_end t"] 1(2,4) by auto
  show ?case
  proof (cases "token_end t \<ge> end_pos t \<or> ok")
    case True
    then show ?thesis using 1(4) a ok
      by (auto simp: full_skip.simps[of t] quick_skip.simps[of t] Let_def)
  next
    case False
    then have "\<exists>st'. \<not> in_quote st' \<and>
        full_skip ?t s1 = (fst (quick_skip ?t), False, snd (quick_skip ?t), st')"
      using 1(1)[of "t\<lparr>token_begin := token_end t\<rparr>" ?t ok s1] 1(2,3) a ok by auto
    then show ?thesis using False a ok 1(3)
      by (simp add: full_skip.simps[of t] quick_skip.simps[of t] Let_def)
  qed
qed

lemma full_extend_quick:
  "quotes t = [] \<Longrightarrow> \<not> in_quote st \<Longrightarrow> full_extend t st = quick_extend t"
proof (induction t st rule: full_extend.induct)
  case (1 t st)
  obtain ok s1 where a: "AdvanceOne t st (tk_string t ! token_end t) = (ok, s1)" by force
  then have ok: "ok = (\<not> IsDelim t (tk_string t ! token_end t))" "\<not> in_quote s1"
    using AdvanceOne_plain[of t st "tk_string t ! token_end t"] 1(2,3) by auto
  show ?case
  proof (cases "token_end t < end_pos t \<and> ok")
    case True
    then show ?thesis using 1(1)[of ok s1] 1(2) a ok
      by (simp add: full_extend.simps[of t] quick_extend.simps[of t])
  next
    case False
    then show ?thesis using a ok
      by (auto simp: full_extend.simps[of t] quick_extend.simps[of t])
  qed
qed

lemma FullGetNext_quick:
  assumes "quotes t = []" "\<not> return_delims t"
  shows "FullGetNext t = QuickGetNext t"
proof -
  let ?t = "t\<lparr>token_is_delim := False\<rparr>"
  have q: "quotes (snd (quick_skip ?t)) = []"
  proof -
    have "quotes (snd (quick_skip t)) = quotes t" for t
    proof (induction t rule: quick_skip.induct)
      case (1 t)
      then show ?case by (subst quick_skip.simps) (auto simp: Let_def)
    qed
    then show ?thesis using assms by simp
  qed
  have init: "\<not> in_quote advance_init" by (simp add: advance_init_def)
  obtain st' where f: "\<not> in_quote st'"
      "full_skip ?t advance_init = (fst (quick_skip ?t), False, snd (quick_skip ?t), st')"
    using full_skip_quick[of ?t, OF _ _ init] assms by auto
  obtain found t' where s: "quick_skip ?t = (found, t')" by force
  show ?thesis
    using f full_extend_quick[of t' st'] q
    by (simp add: FullGetNext_def QuickGetNext_def s split: bool.splits)
qed

lemma GetNext_eq_FullGetNext: "GetNext t = FullGetNext t"
  by (simp add: GetNext_def FullGetNext_quick)

lemma FullGetNext_step:
  assumes "tok_ok t" "FullGetNext t = (found, t')"
  shows "tok_ok t' \<and> same_input t t' \<and> token_end t \<le> token_begin t' \<and>
    (found \<longrightarrow> token_begin t' < token_end t') \<and> (\<not> found \<longrightarrow> token_end t' = end_pos t)"
proof -
  let ?t = "t\<lparr>token_is_delim := False\<rparr>"
  obtain f d u st where s: "full_skip ?t advance_init = (f, d, u, st)" by (metis surj_pair)
  have u: "same_input t u \<and> token_end u \<le> end_pos t \<and> token_end t \<le> token_begin u \<and>
      token_begin u \<le> token_end u \<and> (f \<longrightarrow> token_end u = Suc (token_begin u)) \<and>
      (\<not> f \<longrightarrow> token_end u = end_pos t)"
    using full_skip_step[OF _ s] assms(1) by (auto simp: tok_ok_def same_input_def)
  then have e: "same_input u (full_extend u st) \<and> token_begin (full_extend u st) = token_begin u \<and>
      token_end u \<le> token_end (full_extend u st) \<and> token_end (full_extend u st) \<le> end_pos u"
    using full_extend_step[of u st] by (auto simp: same_input_def)
  show ?thesis
    using assms s u e
    by (auto simp: FullGetNext_def tok_ok_def same_input_def split: bool.splits)
qed

section \<open>Iterating over all tokens\<close>

text \<open>
  The loop \<open>while (t.GetNext()) ... t.token() ...\<close> of the clients: the interface they rely on
  is that every successful step moves the end of the token forward within the input.
\<close>

locale scanner =
  fixes step :: "'s \<Rightarrow> bool \<times> 's"
    and pos :: "'s \<Rightarrow> nat"
    and size_of :: "'s \<Rightarrow> nat"
    and ok :: "'s \<Rightarrow> bool"
  assumes step_ok: "ok s \<Longrightarrow> ok (snd (step s))"
    and step_size: "ok s \<Longrightarrow> size_of (snd (step s)) = size_of s"
    and step_progress: "ok s \<Longrightarrow> fst (step s) \<Longrightarrow> pos s < pos (snd (step s))"
    and pos_bound: "ok s \<Longrightarrow> pos s \<le> size_of s"
begin

lemma step_measure: "ok s \<Longrightarrow> step s = (True, s') \<Longrightarrow> size_of s' - pos s' < size_of s - pos s"
  using step_ok[of s] step_size[of s] step_progress[of s] pos_bound[of s'] by auto

text \<open>So a state can be stepped successfully at most as often as it has positions left.\<close>

lemma steps_bounded:
  "ok s \<Longrightarrow> n > size_of s - pos s \<Longrightarrow> \<exists>k < n. \<not> fst (step (((snd \<circ> step) ^^ k) s))"
proof (induction n arbitrary: s)
  case 0
  then show ?case by simp
next
  case (Suc n)
  show ?case
  proof (cases "fst (step s)")
    case False
    then show ?thesis by (intro exI[of _ 0]) simp
  next
    case True
    then have "size_of (snd (step s)) - pos (snd (step s)) < size_of s - pos s"
      using step_measure[of s "snd (step s)"] Suc.prems(1) by (metis prod.collapse)
    then have "size_of (snd (step s)) - pos (snd (step s)) < n" using Suc.prems(2) by simp
    then obtain k where k: "k < n" "\<not> fst (step (((snd \<circ> step) ^^ k) (snd (step s))))"
      using Suc.IH[OF step_ok[OF Suc.prems(1)]] by blast
    have "((snd \<circ> step) ^^ Suc k) s = ((snd \<circ> step) ^^ k) (snd (step s))"
      by (simp only: funpow_Suc_right o_apply)
    then show ?thesis using k by (metis Suc_less_eq)
  qed
qed

end

interpretation tok: scanner GetNext token_end end_pos tok_ok
proof
  fix t
  assume ok: "tok_ok t"
  obtain f t' where g: "GetNext t = (f, t')" by force
  note s = FullGetNext_step[OF ok g[unfolded GetNext_eq_FullGetNext]]
  show "tok_ok (snd (GetNext t))" using s g by simp
  show "end_pos (snd (GetNext t)) = end_pos t" using s g by (simp add: same_input_def)
  show "token_end t < token_end (snd (GetNext t))" if "fst (GetNext t)"
    using s g that by simp
  show "token_end t \<le> end_pos t" using ok by (simp add: tok_ok_def)
qed

text \<open>
  All tokens of a tokenizer, by fuel; one more than the remaining positions is enough, as
  \<open>tokens_fuel_enough\<close> shows.
\<close>

fun tokens_fuel :: "nat \<Rightarrow> tokenizer \<Rightarrow> string list option" where
  "tokens_fuel 0 t = None"
| "tokens_fuel (Suc n) t =
     (case GetNext t of
        (False, t') \<Rightarrow> Some []
      | (True, t') \<Rightarrow> map_option (\<lambda>ts. token t' # ts) (tokens_fuel n t'))"

lemma tokens_fuel_enough:
  "tok_ok t \<Longrightarrow> n > end_pos t - token_end t \<Longrightarrow> \<exists>ts. tokens_fuel n t = Some ts"
proof (induction n arbitrary: t)
  case 0
  then show ?case by simp
next
  case (Suc n)
  obtain f t' where g: "GetNext t = (f, t')" by force
  show ?case
  proof (cases f)
    case False
    then show ?thesis by (simp add: g)
  next
    case True
    then have "end_pos t' - token_end t' < end_pos t - token_end t"
      using tok.step_measure[OF Suc.prems(1)] g by simp
    then show ?thesis
      using Suc.IH[of t'] Suc.prems tok.step_ok[OF Suc.prems(1)] g True by fastforce
  qed
qed

lemma tokens_fuel_mono: "tokens_fuel n t = Some ts \<Longrightarrow> n \<le> m \<Longrightarrow> tokens_fuel m t = Some ts"
proof (induction n arbitrary: t ts m)
  case 0
  then show ?case by simp
next
  case (Suc n)
  then obtain k where k: "m = Suc k" "n \<le> k" by (cases m) auto
  obtain f t' where g: "GetNext t = (f, t')" by force
  show ?case
  proof (cases f)
    case False
    then show ?thesis using Suc.prems(1) by (simp add: g k)
  next
    case True
    then obtain ts' where ts': "tokens_fuel n t' = Some ts'" "ts = token t' # ts'"
      using Suc.prems(1) g by auto
    have "tokens_fuel k t' = Some ts'" by (rule Suc.IH[OF ts'(1) k(2)])
    then show ?thesis using True by (simp add: g k(1) ts'(2))
  qed
qed

definition tokens_of :: "tokenizer \<Rightarrow> string list" where
  "tokens_of t = (case tokens_fuel (Suc (end_pos t - token_end t)) t of Some ts \<Rightarrow> ts | None \<Rightarrow> [])"

lemma tokens_of_step:
  assumes "tok_ok t"
  shows "tokens_of t = (case GetNext t of (False, _) \<Rightarrow> [] | (True, t') \<Rightarrow> token t' # tokens_of t')"
proof -
  obtain f t' where g: "GetNext t = (f, t')" by force
  show ?thesis
  proof (cases f)
    case False
    then show ?thesis by (simp add: tokens_of_def g)
  next
    case True
    then have lt: "end_pos t' - token_end t' < end_pos t - token_end t"
      using tok.step_measure[OF assms] g by simp
    have "tok_ok t'" using tok.step_ok[OF assms] g by simp
    then obtain ts where ts: "tokens_fuel (Suc (end_pos t' - token_end t')) t' = Some ts"
      using tokens_fuel_enough by blast
    have "tokens_fuel (end_pos t - token_end t) t' = Some ts"
      by (rule tokens_fuel_mono[OF ts]) (use lt in simp)
    then show ?thesis using True ts by (simp add: tokens_of_def g del: tokens_fuel.simps(2))
        (simp add: g)
  qed
qed

lemma tok_ok_Init [simp]: "tok_ok (tokenizer_Init s d)"
  by (simp add: tok_ok_def tokenizer_Init_def)


section \<open>What the tokens are\<close>

lemma token_append_rest:
  "token_begin t \<le> token_end t \<Longrightarrow>
   token t @ drop (token_end t) (tk_string t) = drop (token_begin t) (tk_string t)"
  using append_take_drop_id[of "token_end t - token_begin t" "drop (token_begin t) (tk_string t)"]
  by (simp add: token_def)

text \<open>With returned delimiters no character is skipped, so the tokens make up the input again.\<close>

lemma full_skip_return_delims:
  assumes "return_delims t" "token_end t < end_pos t"
  shows "\<exists>d u st'. full_skip t st = (True, d, u, st') \<and> token_begin u = token_end t"
proof -
  let ?t = "t\<lparr>token_begin := token_end t, token_end := token_end t + 1\<rparr>"
  obtain ok s1 where a: "AdvanceOne ?t st (tk_string t ! token_end t) = (ok, s1)" by force
  have "full_skip t st =
      (if ok then (True, False, ?t, s1) else (True, True, ?t\<lparr>token_is_delim := True\<rparr>, s1))"
    by (subst full_skip.simps) (use a assms in \<open>simp add: Let_def\<close>)
  then show ?thesis by (cases ok) auto
qed

lemma FullGetNext_return_delims:
  assumes "tok_ok t" "return_delims t" "FullGetNext t = (found, t')"
  shows "(found \<longrightarrow> token_begin t' = token_end t) \<and> (\<not> found \<longrightarrow> token_end t = end_pos t)"
proof (cases "token_end t < end_pos t")
  case True
  let ?t = "t\<lparr>token_is_delim := False\<rparr>"
  obtain d u st where u: "full_skip ?t advance_init = (True, d, u, st)" "token_begin u = token_end t"
    using full_skip_return_delims[of ?t advance_init] assms True by auto
  have "token_end u \<le> end_pos u"
    using full_skip_step[OF _ u(1)] assms(1) by (auto simp: tok_ok_def same_input_def)
  then show ?thesis
    using assms(3) u full_extend_step[of u st] by (auto simp: FullGetNext_def split: bool.splits)
next
  case False
  then show ?thesis
    using assms(1) FullGetNext_step[OF assms(1,3)] by (auto simp: tok_ok_def same_input_def)
qed

text \<open>
  With \<open>RETURN_DELIMS\<close> nothing of the input is lost, whatever the delimiters and quote
  characters are: the tokens, concatenated, are the input from the current position on.
\<close>

theorem tokens_of_return_delims:
  "tok_ok t \<Longrightarrow> return_delims t \<Longrightarrow> concat (tokens_of t) = drop (token_end t) (tk_string t)"
proof (induction "end_pos t - token_end t" arbitrary: t rule: less_induct)
  case less
  obtain f t' where g: "GetNext t = (f, t')" by force
  note F = g[unfolded GetNext_eq_FullGetNext]
  note st = FullGetNext_step[OF less(2) F]
  note rd = FullGetNext_return_delims[OF less(2,3) F]
  show ?case
  proof (cases f)
    case False
    then show ?thesis
      using rd less(2) by (simp add: tokens_of_step[OF less(2)] g tok_ok_def)
  next
    case True
    have "return_delims t'" using st less(3) by (simp add: same_input_def)
    then have "concat (tokens_of t') = drop (token_end t') (tk_string t')"
      using less(1)[of t'] st rd less(3) True tok.step_measure[OF less(2)] g by simp
    then show ?thesis
      using True st rd token_append_rest[of t']
      by (simp add: tokens_of_step[OF less(2)] g same_input_def)
  qed
qed

text \<open>Without options the tokens are the non-empty pieces between delimiters.\<close>

theorem tokens_of_return_delims_witness:
  "concat (tokens_of (set_quote_chars ''\"'' (set_return_delims True (tokenizer_Init ''a;;\"b;c\"'' '';''))))
     = ''a;;\"b;c\"''"
  by (subst tokens_of_return_delims)
    (simp_all add: tok_ok_def tokenizer_Init_def set_quote_chars_def set_return_delims_def)

lemma quick_skip_spec:
  assumes "tk_string t = pre @ u @ rest" "token_end t = length pre"
    and "end_pos t = length (tk_string t)" "\<forall>x \<in> set u. IsDelim t x"
    and "rest = [] \<or> \<not> IsDelim t (hd rest)"
  shows "(rest = [] \<longrightarrow> \<not> fst (quick_skip t)) \<and>
    (rest \<noteq> [] \<longrightarrow> quick_skip t =
       (True, t\<lparr>token_begin := length (pre @ u), token_end := Suc (length (pre @ u))\<rparr>))"
  using assms
proof (induction u arbitrary: pre t)
  case Nil
  have D: "IsDelim (t\<lparr>token_begin := i, token_end := j\<rparr>) c = IsDelim t c" for i j c
    by (simp add: IsDelim_def)
  show ?case
    using Nil D by (cases rest) (simp_all add: quick_skip.simps[of t] Let_def)
next
  case (Cons x u)
  let ?t = "t\<lparr>token_begin := token_end t, token_end := token_end t + 1\<rparr>"
  have D: "IsDelim ?t c = IsDelim t c" for c
    by (simp add: IsDelim_def)
  have eq: "quick_skip t = quick_skip ?t"
    by (subst quick_skip.simps) (use Cons.prems D in \<open>simp add: Let_def\<close>)
  show ?case
    unfolding eq using Cons.IH[of ?t "pre @ [x]"] Cons.prems D by simp
qed

lemma quick_extend_spec:
  "token_end t \<le> end_pos t \<Longrightarrow> end_pos t = length (tk_string t) \<Longrightarrow>
   quick_extend t = t\<lparr>token_end := token_end t +
     length (takeWhile (\<lambda>c. \<not> IsDelim t c) (drop (token_end t) (tk_string t)))\<rparr>"
proof (induction t rule: quick_extend.induct)
  case (1 t)
  let ?t = "t\<lparr>token_end := token_end t + 1\<rparr>"
  have D: "IsDelim ?t = IsDelim t" by (simp add: IsDelim_def fun_eq_iff)
  show ?case
  proof (cases "token_end t < end_pos t")
    case True
    then have d: "drop (token_end t) (tk_string t)
        = tk_string t ! token_end t # drop (Suc (token_end t)) (tk_string t)"
      using 1(3) by (simp add: Cons_nth_drop_Suc)
    show ?thesis
      using 1 True d D by (cases "IsDelim t (tk_string t ! token_end t)")
        (simp_all add: quick_extend.simps[of t])
  next
    case False
    then show ?thesis using 1 by (simp add: quick_extend.simps[of t])
  qed
qed

lemma words_of_all: "\<forall>x \<in> set s. p x \<Longrightarrow> words_of p s = []"
  by (induction s) (auto simp: words_of_def)

lemma words_of_skip: "\<forall>x \<in> set u. p x \<Longrightarrow> words_of p (u @ s) = words_of p s"
  by (induction u) (auto simp: words_of_def)

lemma words_of_word:
  assumes "\<forall>x \<in> set u. \<not> p x" "u \<noteq> []" "s = [] \<or> p (hd s)"
  shows "words_of p (u @ s) = u # words_of p s"
  using assms(3)
proof (cases s)
  case Nil
  then show ?thesis
    using assms(2) split_when_append[OF assms(1), of "[]"] by (simp add: words_of_def)
next
  case (Cons x xs)
  then have "p x" using assms(3) by simp
  then show ?thesis
    using assms(2) split_when_append[OF assms(1), of s] Cons by (simp add: words_of_def)
qed

lemma tokens_of_words:
  "tok_ok t \<Longrightarrow> quotes t = [] \<Longrightarrow> \<not> return_delims t \<Longrightarrow>
   tokens_of t = words_of (\<lambda>c. c \<in> set (delims t)) (drop (token_end t) (tk_string t))"
proof (induction "end_pos t - token_end t" arbitrary: t rule: less_induct)
  case less
  let ?D = "\<lambda>c. c \<in> set (delims t)"
  let ?s = "drop (token_end t) (tk_string t)"
  let ?k = "length (takeWhile ?D ?s)"
  let ?t = "t\<lparr>token_is_delim := False\<rparr>"
  have D: "IsDelim ?t = ?D" "IsDelim t = ?D" by (simp_all add: IsDelim_def fun_eq_iff)
  have b: "token_end t \<le> end_pos t" "end_pos t = length (tk_string t)"
    using less(2) by (simp_all add: tok_ok_def)
  have G: "GetNext t = QuickGetNext t" using less(3,4) by (simp add: GetNext_def)
  let ?u = "takeWhile ?D ?s" and ?d = "dropWhile ?D ?s"
  have split: "tk_string t = take (token_end t) (tk_string t) @ ?u @ ?d"
    by simp
  have sk: "(?d = [] \<longrightarrow> \<not> fst (quick_skip ?t)) \<and>
    (?d \<noteq> [] \<longrightarrow> quick_skip ?t =
       (True, ?t\<lparr>token_begin := token_end t + ?k, token_end := Suc (token_end t + ?k)\<rparr>))"
  proof -
    have "\<forall>x \<in> set ?u. IsDelim ?t x" by (auto simp: D dest: set_takeWhileD)
    moreover have "?d = [] \<or> \<not> IsDelim ?t (hd ?d)"
      using hd_dropWhile[of ?D ?s] by (cases "?d = []") (simp_all only: D, simp_all)
    ultimately show ?thesis
      using quick_skip_spec[of ?t "take (token_end t) (tk_string t)" ?u ?d] b split
      by (simp only: tokenizer.simps tokenizer.surjective length_append)
        (simp add: min_absorb2)
  qed
  show ?case
  proof (cases "?d = []")
    case True
    then have "GetNext t = (False, snd (quick_skip ?t))"
      using sk G by (simp add: QuickGetNext_def split: prod.splits bool.splits)
    moreover have "\<forall>x \<in> set ?s. ?D x" using True by (simp add: dropWhile_eq_Nil_conv)
    ultimately show ?thesis
      by (simp add: tokens_of_step[OF less(2)] words_of_all)
  next
    case False
    let ?b = "token_end t + ?k"
    let ?a = "?t\<lparr>token_begin := ?b, token_end := Suc ?b\<rparr>"
    obtain c r where cr: "?d = c # r" using False by (cases ?d) auto
    have nd: "\<not> ?D c" using cr by (metis dropWhile_eq_Cons_conv)
    have len: "?b + length ?d = end_pos t"
    proof -
      have "length ?u + length ?d = length ?s"
        by (metis length_append takeWhile_dropWhile_id)
      then show ?thesis using b by simp
    qed
    have db: "drop ?b (tk_string t) = c # r"
      using cr by (simp add: dropWhile_eq_drop add.commute)
    then have dsb: "drop (Suc ?b) (tk_string t) = r"
      by (metis drop_Suc tl_drop list.sel(3))
    let ?w = "takeWhile (\<lambda>c. \<not> ?D c) r"
    let ?v = "?a\<lparr>token_end := Suc ?b + length ?w\<rparr>"
    have Dv: "IsDelim ?a = ?D" by (simp add: IsDelim_def fun_eq_iff)
    have "quick_extend ?a = ?a\<lparr>token_end := token_end ?a +
        length (takeWhile (\<lambda>c. \<not> IsDelim ?a c) (drop (token_end ?a) (tk_string ?a)))\<rparr>"
      by (rule quick_extend_spec) (use len cr b in simp_all)
    also have "\<dots> = ?v"
      by (simp add: Dv dsb)
    finally have "quick_extend ?a = ?v" .
    then have g: "GetNext t = (True, ?v)" using G sk False by (simp add: QuickGetNext_def)
    have tok: "token ?v = c # ?w"
      using db by (simp add: token_def flip: takeWhile_eq_take)
    have ok: "tok_ok ?v" using tok.step_ok[OF less(2)] g by simp
    have "tokens_of ?v = words_of ?D (drop (token_end ?v) (tk_string t))"
      using less(1)[of ?v] tok.step_measure[OF less(2) g] ok less(3,4) by simp
    also have "drop (token_end ?v) (tk_string t) = dropWhile (\<lambda>c. \<not> ?D c) r"
      using arg_cong[OF dsb, of "drop (length ?w)"] by (simp add: dropWhile_eq_drop ac_simps)
    finally have rest: "tokens_of ?v = words_of ?D (dropWhile (\<lambda>c. \<not> ?D c) r)" .
    have "words_of ?D ?s = words_of ?D (?u @ ?d)"
      by (simp only: takeWhile_dropWhile_id)
    also have "\<dots> = words_of ?D ?d"
      by (rule words_of_skip) (auto dest: set_takeWhileD)
    also have "\<dots> = words_of ?D ((c # ?w) @ dropWhile (\<lambda>c. \<not> ?D c) r)"
      by (simp only: cr append_Cons takeWhile_dropWhile_id)
    also have "\<dots> = (c # ?w) # words_of ?D (dropWhile (\<lambda>c. \<not> ?D c) r)"
      using nd hd_dropWhile[of "\<lambda>c. \<not> ?D c" r]
      by (intro words_of_word) (auto dest: set_takeWhileD)
    finally show ?thesis
      using rest tok by (simp add: tokens_of_step[OF less(2)] g)
  qed
qed

lemma tokens_of_Init:
  "tokens_of (tokenizer_Init s d) = words_of (\<lambda>c. c \<in> set d) s"
  using tokens_of_words[of "tokenizer_Init s d"] by (simp add: tokenizer_Init_def tok_ok_def)

end
