(* ===== verification/Http.thy ===== *)
theory Http
  imports Config Tokenizer
begin

text \<open>
  The HTTP callbacks and the reader of a MarketPsych response of \<open>src/src/psych.cc\<close>. A point in time is
  its distance from the Unix epoch in microseconds, \<open>None\<close> for \<open>not_a_date_time\<close>. libcurl and Boost
  are not part of the sources: what libcurl reports of a transfer is the record \<open>http_info\<close>, and
  the date and number parsers are the record \<open>text_env\<close>. Logging is left out.
\<close>

type_synonym ptime = "int option"

text \<open>
  \<open>time_from_string\<close> throws (\<open>None\<close>) or returns a time, which may be no date; \<open>gregorian_date\<close> gives the
  days since the epoch of a year, month and day, or throws; \<open>read_double\<close> is the extraction of a
  double from a stream.
\<close>

record text_env =
  time_from_string :: "string \<Rightarrow> ptime option"
  gregorian_date :: "int \<Rightarrow> int \<Rightarrow> int \<Rightarrow> int option"
  read_double :: "string \<Rightarrow> double"

section \<open>Counters and connections\<close>

datatype psych_pc =
    PSYCH_PC_TCL_QUERY_RECEIVED
  | PSYCH_PC_TIMER_QUERY_RECEIVED
  | PSYCH_PC_HTTP_REQUEST_SENT
  | PSYCH_PC_HTTP_1XX_RECEIVED
  | PSYCH_PC_HTTP_2XX_RECEIVED
  | PSYCH_PC_HTTP_3XX_RECEIVED
  | PSYCH_PC_HTTP_4XX_RECEIVED
  | PSYCH_PC_HTTP_5XX_RECEIVED
  | PSYCH_PC_HTTP_200_RECEIVED
  | PSYCH_PC_HTTP_304_RECEIVED
  | PSYCH_PC_HTTP_MALFORMED
  | PSYCH_PC_HTTP_RETRIES_EXCEEDED
  | PSYCH_PC_HTTPD_CLOCK_DRIFT
  | PSYCH_PC_HTTP_CLOCK_DRIFT
  | PSYCH_PC_PSYCH_CLOCK_DRIFT

type_synonym psych_stats = "psych_pc \<Rightarrow> 32 word"

definition count :: "psych_pc \<Rightarrow> psych_stats \<Rightarrow> psych_stats" where
  "count c st = st(c := st c + 1)"

record connection =
  conn_resource :: resource
  conn_url :: string
  conn_handle :: bool
  conn_data :: string
  conn_capacity :: nat
  request_ptime :: ptime
  httpd_ptime :: ptime
  last_filetime :: int

definition connection_t :: "resource \<Rightarrow> string \<Rightarrow> connection" where
  "connection_t r url =
     \<lparr>conn_resource = r, conn_url = url, conn_handle = False, conn_data = [], conn_capacity = 0,
      request_ptime = None, httpd_ptime = None, last_filetime = 0\<rparr>"

text \<open>\<open>total_seconds\<close> and \<open>total_milliseconds\<close> of a difference in microseconds truncate towards zero.\<close>

definition total_seconds :: "int \<Rightarrow> int" where
  "total_seconds d = (if d \<ge> 0 then d div 1000000 else - ((- d) div 1000000))"

definition total_milliseconds :: "int \<Rightarrow> int" where
  "total_milliseconds d = (if d \<ge> 0 then d div 1000 else - ((- d) div 1000))"

text \<open>A \<open>long\<close> of the target has 32 bits, and wraps; \<open>labs\<close> of the smallest one is itself.\<close>

definition to_long :: "int \<Rightarrow> int" where
  "to_long x = wrap_signed 32 x"

definition labs :: "int \<Rightarrow> int" where
  "labs x = to_long \<bar>x\<bar>"

definition to_unix_epoch :: "int \<Rightarrow> int" where
  "to_unix_epoch t = total_seconds t"

section \<open>The trace dump\<close>

text \<open>
  \<open>on_http_trace\<close> prints the bytes in lines of at most 64, a line ending early at a line break. The
  inner loop returns the text of a line and where the next one starts; the unsigned
  wrap-around of \<open>i += c + 2 - 0x40\<close> is undone by the \<open>i += 0x40\<close> of the loop.
\<close>

definition isprint :: "char \<Rightarrow> bool" where
  "isprint c \<longleftrightarrow> 32 \<le> char_code c \<and> char_code c < 127"

abbreviation crlf_at :: "string \<Rightarrow> nat \<Rightarrow> bool" where
  "crlf_at data i \<equiv> i + 1 < length data \<and> char_code (data ! i) = 13 \<and> char_code (data ! (i + 1)) = 10"

function trace_line :: "string \<Rightarrow> nat \<Rightarrow> nat \<Rightarrow> string \<Rightarrow> string \<times> nat" where
  "trace_line data i c ss =
     (if c < 64 \<and> i + c < length data then
        if crlf_at data (i + c) then (ss, i + c + 2)
        else
          let ss = ss @ [if isprint (data ! (i + c)) then data ! (i + c) else CHR ''.'']
          in if crlf_at data (i + c + 1) then (ss, i + c + 3)
             else trace_line data i (c + 1) ss
      else (ss, i + 64))"
  by pat_completeness auto
termination
  by (relation "measure (\<lambda>(data, i, c, ss). 64 - c)") auto

declare trace_line.simps [simp del]

lemma trace_line_bounds: "c \<le> 64 \<Longrightarrow> i < snd (trace_line data i c ss) \<and> snd (trace_line data i c ss) \<le> i + 66"
proof (induction data i c ss rule: trace_line.induct)
  case (1 data i c ss)
  then show ?case by (subst (1 2) trace_line.simps) (auto simp: Let_def)
qed

definition offset_text :: "nat \<Rightarrow> string" where
  "offset_text i = (let ds = int_to_string_loop (int i) [] in replicate (4 - length ds) CHR ''0'' @ ds)"

function trace_lines :: "string \<Rightarrow> nat \<Rightarrow> string list" where
  "trace_lines data i =
     (if i < length data then
        let (ss, next_i) = trace_line data i 0 (offset_text i) in ss # trace_lines data next_i
      else [])"
  by pat_completeness auto
termination
proof (relation "measure (\<lambda>(data, i). length data - i)")
  fix data :: string and i :: nat and x :: "string \<times> nat" and ss and next_i
  assume "i < length data" and "x = trace_line data i 0 (offset_text i)" "(ss, next_i) = x"
  then show "((data, next_i), data, i) \<in> measure (\<lambda>(data, i). length data - i)"
    using trace_line_bounds[of 0 i data "offset_text i"] by (metis (no_types, lifting) case_prod_conv
      diff_less_mono2 in_measure le0 snd_conv)
qed auto

declare trace_lines.simps [simp del]

datatype curl_infotype =
    CURLINFO_TEXT | CURLINFO_HEADER_IN | CURLINFO_HEADER_OUT | CURLINFO_DATA_IN | CURLINFO_DATA_OUT
  | CURLINFO_SSL_DATA_IN | CURLINFO_SSL_DATA_OUT | CURLINFO_OTHER

text \<open>The lines that are dumped; text and unknown kinds of information return at once.\<close>

definition on_http_trace :: "curl_infotype \<Rightarrow> string \<Rightarrow> string list" where
  "on_http_trace type data =
     (if type \<in> {CURLINFO_TEXT, CURLINFO_OTHER} then [] else trace_lines data 0)"

section \<open>The header callback\<close>

text \<open>
  The pieces of \<open>sscanf\<close> the header callback uses: a space in the format skips any white space,
  \<open>%s\<close> reads a word, \<open>%hu\<close> an unsigned number of 16 bits, and other characters match themselves.
\<close>

definition skip_ws :: "string \<Rightarrow> string" where
  "skip_ws s = dropWhile LocalIsWhitespace s"

definition scan_word :: "string \<Rightarrow> (string \<times> string) option" where
  "scan_word s =
     (let s = skip_ws s; w = takeWhile (\<lambda>c. \<not> LocalIsWhitespace c) s
      in if w = [] then None else Some (w, drop (length w) s))"

definition scan_hu :: "string \<Rightarrow> (int \<times> string) option" where
  "scan_hu s =
     (let s = skip_ws s;
          neg = (s \<noteq> [] \<and> hd s = CHR ''-'');
          ds = (if s \<noteq> [] \<and> (hd s = CHR ''-'' \<or> hd s = CHR ''+'') then tl s else s);
          n = takeWhile is_digit ds
      in if n = [] then None
         else Some ((if neg then - dec_from 0 n else dec_from 0 n) mod 2 ^ 16, drop (length n) ds))"

definition scan_char :: "char \<Rightarrow> string \<Rightarrow> string option" where
  "scan_char c s = (case s of [] \<Rightarrow> None | x # xs \<Rightarrow> if x = c then Some xs else None)"

text \<open>
  \<open>sscanf (ptr, "Date: %s %hu %s %hu %hu:%hu:%hu", ...)\<close> when all seven conversions succeed: the day
  name, day, month name, year, hour, minute and second.
\<close>

definition scan_date ::
    "string \<Rightarrow> (string \<times> int \<times> string \<times> int \<times> int \<times> int \<times> int) option" where
  "scan_date s =
     (if \<not> prefix ''Date:'' s then None
      else
        Option.bind (scan_word (drop 5 s)) (\<lambda>(ddd, s).
        Option.bind (scan_hu s) (\<lambda>(mday, s).
        Option.bind (scan_word s) (\<lambda>(mmm, s).
        Option.bind (scan_hu s) (\<lambda>(year, s).
        Option.bind (scan_hu s) (\<lambda>(hour, s).
        Option.bind (scan_char CHR '':'' s) (\<lambda>s.
        Option.bind (scan_hu s) (\<lambda>(minute, s).
        Option.bind (scan_char CHR '':'' s) (\<lambda>s.
        Option.bind (scan_hu s) (\<lambda>(second, _).
          Some (ddd, mday, mmm, year, hour, minute, second)))))))))))"

definition month_names :: "string list" where
  "month_names = [''Jan'', ''Feb'', ''Mar'', ''Apr'', ''May'', ''Jun'',
     ''Jul'', ''Aug'', ''Sep'', ''Oct'', ''Nov'', ''Dec'']"

text \<open>\<open>tm_mon\<close>: it stays 0 when no name matches.\<close>

definition month_index :: "string \<Rightarrow> int" where
  "month_index mmm = (case find_index (\<lambda>m. m = mmm) month_names of None \<Rightarrow> 0 | Some i \<Rightarrow> int i)"

text \<open>
  A header line of at most 37 characters that starts with \<open>Date:\<close> is scanned. The two word buffers
  have 26 bytes, terminator included: a longer word overruns them. The words are stored as they
  are converted, also when a later conversion fails. An invalid date throws.
\<close>

definition word_overrun :: "string \<Rightarrow> bool" where
  "word_overrun s =
     (case scan_word (drop 5 s) of
        None \<Rightarrow> False
      | Some (ddd, s1) \<Rightarrow> length ddd \<ge> 26 \<or>
          (case scan_hu s1 of
             None \<Rightarrow> False
           | Some (_, s2) \<Rightarrow>
               (case scan_word s2 of None \<Rightarrow> False | Some (mmm, _) \<Rightarrow> length mmm \<ge> 26)))"

definition on_http_header :: "text_env \<Rightarrow> string \<Rightarrow> connection \<Rightarrow> nat outcome \<times> connection" where
  "on_http_header env ptr c =
     (if prefix ''Date:'' ptr \<and> length ptr \<le> 37 then
        if word_overrun ptr then (Raise Undefined_Behaviour, c)
        else
          case scan_date ptr of
            None \<Rightarrow> (Done (length ptr), c)
          | Some (_, mday, mmm, year, hour, minute, second) \<Rightarrow>
              (case gregorian_date env year (1 + month_index mmm) mday of
                 None \<Rightarrow> (Raise Std_Exception, c)
               | Some d \<Rightarrow>
                   (Done (length ptr),
                    c\<lparr>httpd_ptime := Some ((d * 86400 + hour * 3600 + minute * 60 + second) * 1000000)\<rparr>))
      else (Done (length ptr), c))"

section \<open>The data callback\<close>

definition on_http_data :: "string \<Rightarrow> connection \<Rightarrow> nat \<times> connection" where
  "on_http_data ptr c =
     (if length (conn_data c) + length ptr > conn_capacity c then (0, c)
      else (length ptr, c\<lparr>conn_data := conn_data c @ ptr\<rparr>))"

section \<open>The response\<close>

record http_info =
  response_code :: int
  content_type :: "string option"
  filetime :: int

text \<open>The object's counters, the connection and the output arguments of \<open>OnHttpResponse\<close>.\<close>

record response =
  resp_stats :: psych_stats
  resp_conn :: connection
  engine_version :: string
  open_time :: ptime
  close_time :: ptime
  columns :: "string list"
  rows :: "(string \<times> double list) list"

type_synonym 'a reader = "(response, 'a) method"

definition tally :: "psych_pc \<Rightarrow> unit reader" where
  "tally c = modify (\<lambda>r. r\<lparr>resp_stats := count c (resp_stats r)\<rparr>)"

definition assign_stat :: "psych_pc \<Rightarrow> int \<Rightarrow> unit reader" where
  "assign_stat c v = modify (\<lambda>r. r\<lparr>resp_stats := (resp_stats r)(c := word_of_int v)\<rparr>)"

text \<open>The count of a status other than 200.\<close>

definition count_status :: "int \<Rightarrow> unit reader" where
  "count_status code =
     seq (if code \<ge> 100 \<and> code \<le> 199 then tally PSYCH_PC_HTTP_1XX_RECEIVED
          else if code \<ge> 200 \<and> code \<le> 299 then tally PSYCH_PC_HTTP_2XX_RECEIVED
          else if code \<ge> 300 \<and> code \<le> 399 then tally PSYCH_PC_HTTP_3XX_RECEIVED
          else if code \<ge> 400 \<and> code \<le> 499 then tally PSYCH_PC_HTTP_4XX_RECEIVED
          else if code \<ge> 500 \<and> code \<le> 599 then tally PSYCH_PC_HTTP_5XX_RECEIVED
          else ret ())
         (if code = 304 then tally PSYCH_PC_HTTP_304_RECEIVED else ret ())"

text \<open>
  The checks of type, size and magic number. The size is compared with a \<open>long\<close> that is converted
  to an unsigned type, so a negative limit is a huge one; four bytes are read whatever the size,
  the terminator of the string being the last that may be read.
\<close>

definition kPsychMagic :: string where
  "kPsychMagic = ''# Ma''"

definition minimum_size :: "config \<Rightarrow> int" where
  "minimum_size cfg =
     (if minimum_response_size cfg \<noteq> [] then atol (minimum_response_size cfg) else 4)"

definition check_content :: "config \<Rightarrow> http_info \<Rightarrow> string \<Rightarrow> bool outcome" where
  "check_content cfg info data =
     (case content_type info of
        None \<Rightarrow> Raise Null_Deref
      | Some ct \<Rightarrow>
          if \<not> prefix ''text/plain'' ct then Done False
          else if minimum_size cfg < 0 \<or> int (length data) < minimum_size cfg then Done False
          else if length data < 3 then Raise Undefined_Behaviour
          else Done (take 4 data = kPsychMagic))"

text \<open>The clock offsets; the result says whether the panic threshold lets the response pass.\<close>

definition clock_offsets :: "config \<Rightarrow> http_info \<Rightarrow> bool reader" where
  "clock_offsets cfg info =
     bindm (gets resp_conn) (\<lambda>c.
     seq (case (httpd_ptime c, request_ptime c) of
            (Some h, Some q) \<Rightarrow> assign_stat PSYCH_PC_HTTPD_CLOCK_DRIFT (total_seconds (h - q))
          | _ \<Rightarrow> ret ())
    (if filetime info = - 1 then ret True
     else
       let request_filetime = to_long (total_seconds (the_default 0 (request_ptime c)));
           http_offset = to_long (filetime info - request_filetime)
       in seq (assign_stat PSYCH_PC_HTTP_CLOCK_DRIFT http_offset)
         (if panic_threshold cfg \<noteq> [] \<and> labs http_offset \<ge> atol (panic_threshold cfg) then ret False
          else seq (modify (\<lambda>r. r\<lparr>resp_conn := (resp_conn r)\<lparr>last_filetime := filetime info\<rparr>\<rparr>)) (ret True))))"

section \<open>The table\<close>

definition engine_prefix :: string where
  "engine_prefix = ''# MarketPsych Engine Version ''"

definition shortest_header :: string where
  "shortest_header =
     ''# MarketPsych Engine Version 0 | 2012-05-02 21:19:00 UTC - 2012-05-03 21:19:00 UTC''"

definition date_len :: nat where
  "date_len = length ''2012-05-02 21:19:00''"

text \<open>A date that throws is logged and leaves the output argument as it is.\<close>

definition read_time ::
    "text_env \<Rightarrow> string \<Rightarrow> ((ptime \<Rightarrow> ptime) \<Rightarrow> response \<Rightarrow> response) \<Rightarrow> unit reader" where
  "read_time env s upd =
     (case time_from_string env s of None \<Rightarrow> ret () | Some v \<Rightarrow> modify (upd (\<lambda>_. v)))"

text \<open>The first line: engine version, open time, close time. False aborts the transfer.\<close>

definition parse_timestamp :: "text_env \<Rightarrow> string \<Rightarrow> bool reader" where
  "parse_timestamp env line =
     (if length line < length shortest_header then ret False
      else
        case str_find line '' '' (length engine_prefix) of
          None \<Rightarrow> ret False
        | Some space_after_version \<Rightarrow>
            seq (modify (\<lambda>r. r\<lparr>engine_version :=
                   take (space_after_version - length engine_prefix) (drop (length engine_prefix) line)\<rparr>))
           (case str_find line ''| '' space_after_version of
              None \<Rightarrow> ret False
            | Some pipe_delimiter \<Rightarrow>
                seq (read_time env (take date_len (drop (pipe_delimiter + 2) line)) open_time_update)
               (case str_find line ''- '' pipe_delimiter of
                  None \<Rightarrow> ret False
                | Some hyphen_delimiter \<Rightarrow>
                    seq (read_time env (take date_len (drop (hyphen_delimiter + 2) line)) close_time_update)
                        (gets (\<lambda>r. open_time r \<noteq> None \<and> close_time r \<noteq> None)))))"

text \<open>The second line: the column names. \<open>SplitString\<close> appends to the vector it is given.\<close>

definition parse_columns :: "string \<Rightarrow> bool reader" where
  "parse_columns line =
     seq (modify (\<lambda>r. r\<lparr>columns := SplitString line (char_of (9 :: nat)) (columns r)\<rparr>))
         (gets (\<lambda>r. columns r \<noteq> [] \<and> \<not> length (columns r) < 2))"

text \<open>A data line: the row name and one number per remaining column, or a line that is skipped.\<close>

definition row_of :: "text_env \<Rightarrow> nat \<Rightarrow> string \<Rightarrow> (string \<times> double list) option" where
  "row_of env n line =
     (let row_text = SplitString line (char_of (9 :: nat)) []
      in if length row_text \<noteq> n then None
         else Some (row_text ! 0, map (read_double env) (drop 1 row_text)))"

datatype parse_state = STATE_TIMESTAMP | STATE_HEADER | STATE_ROW | STATE_FIN

text \<open>The loop over the lines; a comment line ends the table.\<close>

fun parse_lines :: "text_env \<Rightarrow> parse_state \<Rightarrow> string list \<Rightarrow> bool reader" where
  "parse_lines env state [] = ret True"
| "parse_lines env STATE_TIMESTAMP (line # ts) =
     bindm (parse_timestamp env line) (\<lambda>ok. if \<not> ok then ret False else parse_lines env STATE_HEADER ts)"
| "parse_lines env STATE_HEADER (line # ts) =
     bindm (parse_columns line) (\<lambda>ok. if \<not> ok then ret False else parse_lines env STATE_ROW ts)"
| "parse_lines env STATE_ROW (line # ts) =
     (if length line > 0 \<and> line ! 0 = CHR ''#'' then parse_lines env STATE_FIN ts
      else
        bindm (gets (\<lambda>r. row_of env (length (columns r)) line)) (\<lambda>row.
          case row of
            None \<Rightarrow> parse_lines env STATE_ROW ts
          | Some x \<Rightarrow> seq (modify (\<lambda>r. r\<lparr>rows := rows r @ [x]\<rparr>)) (parse_lines env STATE_ROW ts)))"
| "parse_lines env STATE_FIN (line # ts) = ret True"

definition parse_table :: "text_env \<Rightarrow> bool reader" where
  "parse_table env =
     bindm (gets (\<lambda>r. tokens_of (tokenizer_Init (conn_data (resp_conn r)) [char_of (10 :: nat)])))
       (parse_lines env STATE_TIMESTAMP)"

text \<open>The drift of the feed against the request.\<close>

definition psych_offset :: "unit reader" where
  "psych_offset =
     bindm (gets (\<lambda>r. (close_time r, request_ptime (resp_conn r)))) (\<lambda>v.
       case v of
         (Some t, Some q) \<Rightarrow> assign_stat PSYCH_PC_PSYCH_CLOCK_DRIFT (total_seconds (t - q))
       | _ \<Rightarrow> ret ())"

definition OnHttpResponse :: "text_env \<Rightarrow> config \<Rightarrow> http_info \<Rightarrow> bool reader" where
  "OnHttpResponse env cfg info =
     (if response_code info \<noteq> 200 then seq (count_status (response_code info)) (ret False)
      else
        seq (tally PSYCH_PC_HTTP_200_RECEIVED)
       (seq (tally PSYCH_PC_HTTP_2XX_RECEIVED)
       (bindm (gets (\<lambda>r. check_content cfg info (conn_data (resp_conn r)))) (\<lambda>content.
          case content of
            Raise e \<Rightarrow> throw e
          | Diverged \<Rightarrow> throw Undefined_Behaviour
          | Done ok \<Rightarrow>
              if \<not> ok then ret False
              else bindm (clock_offsets cfg info) (\<lambda>ok.
                if \<not> ok then ret False
                else bindm (parse_table env) (\<lambda>ok.
                  if \<not> ok then ret False
                  else seq psych_offset (ret True)))))))"

text \<open>The output arguments as \<open>httpPsychQuery\<close> passes them.\<close>

definition response_init :: "psych_stats \<Rightarrow> string \<Rightarrow> connection \<Rightarrow> response" where
  "response_init st version c =
     \<lparr>resp_stats = st, resp_conn = c, engine_version = version, open_time = None, close_time = None,
      columns = [], rows = []\<rparr>"

section \<open>What an accepted response holds\<close>

definition rows_fit :: "response \<Rightarrow> bool" where
  "rows_fit r \<longleftrightarrow> (\<forall>(name, vs) \<in> set (rows r). length vs + 1 = length (columns r))"

fun table_inv :: "parse_state \<Rightarrow> response \<Rightarrow> bool" where
  "table_inv STATE_TIMESTAMP r \<longleftrightarrow> columns r = [] \<and> rows r = []"
| "table_inv STATE_HEADER r \<longleftrightarrow>
     columns r = [] \<and> rows r = [] \<and> open_time r \<noteq> None \<and> close_time r \<noteq> None"
| "table_inv _ r \<longleftrightarrow>
     open_time r \<noteq> None \<and> close_time r \<noteq> None \<and> 2 \<le> length (columns r) \<and> rows_fit r"

definition table_ok :: "response \<Rightarrow> bool" where
  "table_ok r \<longleftrightarrow> open_time r \<noteq> None \<and> close_time r \<noteq> None \<and> rows_fit r \<and>
     (rows r \<noteq> [] \<longrightarrow> 2 \<le> length (columns r))"

lemma read_time_run:
  "upd \<in> {open_time_update, close_time_update} \<Longrightarrow>
   \<exists>r'. read_time env s upd r = (Done (), r') \<and> columns r' = columns r \<and> rows r' = rows r \<and>
     resp_conn r' = resp_conn r \<and> resp_stats r' = resp_stats r"
  by (auto simp: read_time_def method_simps split: option.splits)

lemma parse_timestamp_True:
  assumes "parse_timestamp env line r = (Done True, r')" "table_inv STATE_TIMESTAMP r"
  shows "table_inv STATE_HEADER r' \<and> resp_conn r' = resp_conn r"
proof -
  have t: "read_time env s upd q = (Done (), q') \<Longrightarrow> upd \<in> {open_time_update, close_time_update} \<Longrightarrow>
      columns q' = columns q \<and> rows q' = rows q \<and> resp_conn q' = resp_conn q" for s upd q q'
    using read_time_run[of upd env s q] by auto
  show ?thesis
    using assms
    by (auto simp: parse_timestamp_def method_simps seq_Done split: if_splits option.splits dest!: t)
qed

lemma row_of_fits: "row_of env n line = Some (name, vs) \<Longrightarrow> 0 < n \<Longrightarrow> length vs + 1 = n"
  by (auto simp: row_of_def Let_def split: if_splits)

lemma parse_lines_ok:
  assumes "parse_lines env state ls r = (Done True, r')" "table_inv state r"
    and "ls \<noteq> [] \<or> state \<noteq> STATE_TIMESTAMP"
  shows "table_ok r' \<and> resp_conn r' = resp_conn r"
  using assms
proof (induction env state ls arbitrary: r rule: parse_lines.induct)
  case (1 env state)
  then show ?case by (cases state) (auto simp: method_simps table_ok_def rows_fit_def)
next
  case (2 env line ts)
  obtain ok q where q: "parse_timestamp env line r = (Done ok, q)"
    "(if \<not> ok then ret False else parse_lines env STATE_HEADER ts) q = (Done True, r')"
    using 2(2) by (auto simp: bindm_Done)
  then have ok: "ok" by (auto simp: method_simps split: if_splits)
  have h: "table_inv STATE_HEADER q \<and> resp_conn q = resp_conn r"
    by (rule parse_timestamp_True) (use q ok 2(3) in simp_all)
  show ?case using 2(1)[of ok q] q(2) ok h by simp
next
  case (3 env line ts)
  obtain ok q where q: "parse_columns line r = (Done ok, q)"
    "(if \<not> ok then ret False else parse_lines env STATE_ROW ts) q = (Done True, r')"
    using 3(2) by (auto simp: bindm_Done)
  then have ok: "ok" by (auto simp: method_simps split: if_splits)
  have h: "table_inv STATE_ROW q \<and> resp_conn q = resp_conn r"
    using q(1) ok 3(3) by (auto simp: parse_columns_def method_simps rows_fit_def)
  show ?case using 3(1)[of ok q] q(2) ok h by simp
next
  case (4 env line ts)
  show ?case
  proof (cases "length line > 0 \<and> line ! 0 = CHR ''#''")
    case True
    then show ?thesis using 4(1)[of r] 4(4,5) by simp
  next
    case False
    have IH: "table_ok r' \<and> resp_conn r' = resp_conn q"
      if "parse_lines env STATE_ROW ts q = (Done True, r')" "table_inv STATE_ROW q" for q
      using 4(2)[OF False] that by simp
    show ?thesis
    proof (cases "row_of env (length (columns r)) line")
      case None
      then have "parse_lines env STATE_ROW ts r = (Done True, r')"
        using 4(4) False by (simp add: bindm_run(2) split: if_splits)
      then show ?thesis using IH[of r] 4(5) by simp
    next
      case (Some x)
      obtain name vs where x: "x = (name, vs)" by (cases x)
      let ?q = "r\<lparr>rows := rows r @ [x]\<rparr>"
      have "table_inv STATE_ROW ?q"
        using 4(5) row_of_fits[of env "length (columns r)" line name vs] Some x
        by (cases "columns r") (auto simp: rows_fit_def)
      moreover have "parse_lines env STATE_ROW ts ?q = (Done True, r')"
        using 4(4) False Some by (simp add: bindm_run split: if_splits)
      ultimately show ?thesis using IH[of ?q] by simp
    qed
  qed
next
  case (5 env line ts)
  then show ?case by (auto simp: method_simps table_ok_def)
qed

lemma tokens_start:
  assumes "c \<noteq> d"
  shows "tokens_of (tokenizer_Init (c # s) [d]) \<noteq> []"
proof -
  obtain q qs where "split_when (\<lambda>x. x = d) s = q # qs" by (cases "split_when (\<lambda>x. x = d) s") auto
  then have "split_when (\<lambda>x. x = d) (c # s) = (c # q) # qs"
    using assms by (simp add: split_when_Cons_out del: split_when.simps)
  then show ?thesis by (simp add: tokens_of_Init words_of_def)
qed

lemma OnHttpResponse_True:
  assumes "OnHttpResponse env cfg info (response_init st version c) = (Done True, r)"
  shows "response_code info = 200" and "check_content cfg info (conn_data c) = Done True"
    and "table_ok r"
proof -
  show code: "response_code info = 200"
    using assms by (auto simp: OnHttpResponse_def seq_Done method_simps split: if_splits)
  let ?r0 = "response_init st version c"
  let ?r2 = "?r0\<lparr>resp_stats := count PSYCH_PC_HTTP_2XX_RECEIVED (count PSYCH_PC_HTTP_200_RECEIVED st)\<rparr>"
  have O: "OnHttpResponse env cfg info ?r0 =
      (case check_content cfg info (conn_data c) of
         Raise e \<Rightarrow> throw e | Diverged \<Rightarrow> throw Undefined_Behaviour
       | Done ok \<Rightarrow> if \<not> ok then ret False
          else bindm (clock_offsets cfg info) (\<lambda>ok. if \<not> ok then ret False
            else bindm (parse_table env) (\<lambda>ok. if \<not> ok then ret False else seq psych_offset (ret True)))) ?r2"
    using code by (simp add: OnHttpResponse_def tally_def method_simps response_init_def)
  then show content: "check_content cfg info (conn_data c) = Done True"
    using assms by (auto simp: method_simps split: outcome.splits if_splits)
  obtain ok r3 where "clock_offsets cfg info ?r2 = (Done ok, r3)"
    "(if \<not> ok then ret False
      else bindm (parse_table env) (\<lambda>ok. if \<not> ok then ret False else seq psych_offset (ret True))) r3 = (Done True, r)"
    using assms O content unfolding bindm_Done by (auto simp: bindm_Done[of "clock_offsets cfg info"])
  then have r3: "clock_offsets cfg info ?r2 = (Done True, r3)"
    "bindm (parse_table env) (\<lambda>ok. if \<not> ok then ret False else seq psych_offset (ret True)) r3 = (Done True, r)"
    by (auto simp: method_simps split: if_splits)
  have "columns r3 = [] \<and> rows r3 = [] \<and> conn_data (resp_conn r3) = conn_data c"
    using r3(1) by (auto simp: clock_offsets_def assign_stat_def method_simps seq_Done response_init_def Let_def
        split: if_splits option.splits)
  moreover obtain ok r4 where "parse_table env r3 = (Done ok, r4)"
      "(if \<not> ok then ret False else seq psych_offset (ret True)) r4 = (Done True, r)"
    using r3(2) by (auto simp: bindm_Done)
  then have r4: "parse_table env r3 = (Done True, r4)" "seq psych_offset (ret True) r4 = (Done True, r)"
    by (auto simp: method_simps split: if_splits)
  moreover have "tokens_of (tokenizer_Init (conn_data c) [char_of (10 :: nat)]) \<noteq> []"
  proof -
    have "take 4 (conn_data c) = kPsychMagic"
      using content by (auto simp: check_content_def split: option.splits if_splits)
    then obtain s where "conn_data c = CHR ''#'' # s"
      by (cases "conn_data c") (auto simp: kPsychMagic_def)
    moreover have "CHR ''#'' \<noteq> char_of (10 :: nat)" by code_simp
    ultimately show ?thesis using tokens_start by simp
  qed
  ultimately have "table_ok r4"
    using parse_lines_ok[of env STATE_TIMESTAMP _ r3 r4]
    by (auto simp: parse_table_def method_simps)
  moreover have "open_time r = open_time r4 \<and> close_time r = close_time r4 \<and> columns r = columns r4 \<and> rows r = rows r4"
    using r4(2) by (auto simp: psych_offset_def assign_stat_def method_simps seq_Done split: option.splits)
  ultimately show "table_ok r" by (simp add: table_ok_def rows_fit_def)
qed

text \<open>
  C5. A response is accepted only with status 200, a plain text type, the configured minimum size
  and the MarketPsych magic number. Then open and close time are dates, and every row has one
  number for each column but the first, so that publishing never indexes a row out of range.
\<close>

theorem OnHttpResponse_accepts:
  assumes "OnHttpResponse env cfg info (response_init st version c) = (Done True, r)"
  shows "response_code info = 200 \<and> (\<exists>ct. content_type info = Some ct \<and> prefix ''text/plain'' ct) \<and>
    minimum_size cfg \<le> int (length (conn_data c)) \<and> prefix kPsychMagic (conn_data c) \<and>
    open_time r \<noteq> None \<and> close_time r \<noteq> None \<and>
    (\<forall>(name, vs) \<in> set (rows r). 1 \<le> length vs \<and> length vs + 1 = length (columns r))"
proof -
  note T = OnHttpResponse_True[OF assms]
  have "prefix kPsychMagic (conn_data c)"
    using T(2) take_is_prefix[of 4 "conn_data c"] by (auto simp: check_content_def split: option.splits if_splits)
  moreover have "\<exists>ct. content_type info = Some ct \<and> prefix ''text/plain'' ct"
    "minimum_size cfg \<le> int (length (conn_data c))"
    using T(2) by (auto simp: check_content_def split: option.splits if_splits)
  moreover have "1 \<le> length vs \<and> length vs + 1 = length (columns r)" if "(name, vs) \<in> set (rows r)" for name vs
    using T(3) that by (cases "rows r") (force simp: table_ok_def rows_fit_def)+
  ultimately show ?thesis using T(1,3) by (auto simp: table_ok_def)
qed

definition demo_text_env :: text_env where
  "demo_text_env =
     \<lparr>time_from_string = (\<lambda>s. if length s = 19 then Some (Some 5000000) else None),
      gregorian_date = (\<lambda>y m d. Some 0), read_double = (\<lambda>_. 0)\<rparr>"

definition demo_payload :: string where
  "demo_payload = shortest_header @ [char_of (10 :: nat)] @ ''Sector'' @ [char_of (9 :: nat)] @ ''Buzz'' @
     [char_of (10 :: nat)] @ ''1679'' @ [char_of (9 :: nat)] @ ''0.5'' @ [char_of (10 :: nat)]"

definition demo_connection :: connection where
  "demo_connection = (connection_t
     \<lparr>res_name = ''r'', res_source = [], res_path = ''/r'', entitlement_code = 0, res_fields = [], res_items = []\<rparr>
     ''http://h/r'')\<lparr>conn_data := demo_payload, request_ptime := Some 0\<rparr>"

definition demo_info :: http_info where
  "demo_info = \<lparr>response_code = 200, content_type = Some ''text/plain; charset=utf-8'', filetime = - 1\<rparr>"

definition demo_response :: "bool outcome \<times> response" where
  "demo_response = OnHttpResponse demo_text_env config_init demo_info
     (response_init (\<lambda>_. 0) [] demo_connection)"

lemma demo_accepted:
  "fst demo_response = Done True" "rows (snd demo_response) = [(''1679'', [0])]"
  by code_simp+

theorem OnHttpResponse_accepts_witness:
  "length (columns (snd demo_response)) = 2"
proof -
  have "OnHttpResponse demo_text_env config_init demo_info (response_init (\<lambda>_. 0) [] demo_connection) =
      (Done True, snd demo_response)"
    using demo_accepted(1) by (simp add: demo_response_def prod_eq_iff)
  from OnHttpResponse_accepts[OF this] show ?thesis using demo_accepted(2) by simp
qed

text \<open>The counter of the class of a status code.\<close>

definition status_class :: "int \<Rightarrow> psych_pc option" where
  "status_class code =
     (if code div 100 = 1 then Some PSYCH_PC_HTTP_1XX_RECEIVED
      else if code div 100 = 2 then Some PSYCH_PC_HTTP_2XX_RECEIVED
      else if code div 100 = 3 then Some PSYCH_PC_HTTP_3XX_RECEIVED
      else if code div 100 = 4 then Some PSYCH_PC_HTTP_4XX_RECEIVED
      else if code div 100 = 5 then Some PSYCH_PC_HTTP_5XX_RECEIVED
      else None)"

lemma status_class_ranges:
  "code div 100 = 1 \<longleftrightarrow> code \<ge> 100 \<and> code \<le> 199" "code div 100 = 2 \<longleftrightarrow> code \<ge> 200 \<and> code \<le> 299"
  "code div 100 = 3 \<longleftrightarrow> code \<ge> 300 \<and> code \<le> 399" "code div 100 = 4 \<longleftrightarrow> code \<ge> 400 \<and> code \<le> 499"
  "code div 100 = 5 \<longleftrightarrow> code \<ge> 500 \<and> code \<le> 599" for code :: int
  by presburger+

text \<open>
  Any status but 200 rejects the response whatever it carries, a not-modified 304 too: nothing
  of the body is looked at, the connection and the output arguments stay as they are, and exactly
  the counter of the status class, and the one of 304, go up by one.
\<close>

theorem OnHttpResponse_status:
  assumes "response_code info \<noteq> 200"
  shows "OnHttpResponse env cfg info r = (Done False, r\<lparr>resp_stats := (\<lambda>k. resp_stats r k +
      (if status_class (response_code info) = Some k then 1 else 0) +
      (if response_code info = 304 \<and> k = PSYCH_PC_HTTP_304_RECEIVED then 1 else 0))\<rparr>)"
  using assms
  by (auto simp: OnHttpResponse_def count_status_def tally_def count_def status_class_def status_class_ranges
      run_simps_all fun_eq_iff intro!: arg_cong[where f = "\<lambda>s. resp_stats_update (\<lambda>_. s) r"])

theorem OnHttpResponse_status_witness:
  "resp_stats (snd (OnHttpResponse demo_text_env config_init (demo_info\<lparr>response_code := 304\<rparr>)
     (response_init (\<lambda>_. 0) [] demo_connection))) PSYCH_PC_HTTP_3XX_RECEIVED = 1"
  by (subst OnHttpResponse_status) (simp_all add: status_class_def response_init_def)

text \<open>
  The clock check cannot be disabled by a threshold of zero: with any threshold that reads as
  zero or less, every response that reports a modification time is rejected, unless its offset is
  the one \<open>long\<close> that has no absolute value.
\<close>

theorem panic_threshold_zero_rejects:
  assumes "panic_threshold cfg \<noteq> []" "atol (panic_threshold cfg) \<le> 0" "filetime info \<noteq> - 1"
    and "to_long (filetime info - to_long (total_seconds (the_default 0 (request_ptime (resp_conn r))))) \<noteq> - (2 ^ 31)"
  shows "fst (OnHttpResponse env cfg info r) \<noteq> Done True"
proof -
  have "fst (clock_offsets cfg info s) = Done False" if s: "resp_conn s = resp_conn r" for s
  proof -
    define x where "x = to_long (filetime info - to_long (total_seconds (the_default 0 (request_ptime (resp_conn r)))))"
    have "- (2 ^ 31) \<le> x" "x < 2 ^ 31" by (simp_all add: x_def to_long_def wrap_signed_def)
    moreover have "x \<noteq> - (2 ^ 31)" using assms(4) unfolding x_def .
    ultimately have "labs x = \<bar>x\<bar>"
      unfolding labs_def to_long_def by (intro wrap_signed_id) auto
    then have "atol (panic_threshold cfg) \<le> labs x" using assms(2) by simp
    then show ?thesis
      using assms(1,3) s unfolding x_def
      by (simp add: clock_offsets_def assign_stat_def Let_def run_simps_all cong: bindm_weak split: option.splits)
  qed
  then have c: "\<exists>t. clock_offsets cfg info s = (Done False, t)" if "resp_conn s = resp_conn r" for s
    using that by (metis prod.collapse)
  have "fst (bindm (clock_offsets cfg info) (\<lambda>ok. if \<not> ok then ret False else k) s) = Done False"
    if "resp_conn s = resp_conn r" for k s
    using c[OF that] by (auto simp: bindm_def method_simps)
  then show ?thesis
    by (auto simp: OnHttpResponse_def count_status_def tally_def seq_bindm bindm_assoc bindm_modify method_simps
        split: outcome.splits)
qed

theorem panic_threshold_zero_rejects_witness:
  "fst (OnHttpResponse demo_text_env (config_init\<lparr>panic_threshold := ''0''\<rparr>) (demo_info\<lparr>filetime := 0\<rparr>)
     (response_init (\<lambda>_. 0) [] demo_connection)) \<noteq> Done True"
  by (rule panic_threshold_zero_rejects) (simp_all add: atol_def c_integer_def c_number_def
      LocalIsWhitespace_def is_digit_def char_code_def response_init_def demo_connection_def to_long_def
      wrap_signed_def total_seconds_def)

text \<open>
  The length check of the date header does not protect the word buffers: a \<open>Date:\<close> line of the
  accepted length can carry a word of 26 characters or more, which overruns them.
\<close>

theorem date_header_overrun:
  assumes "26 \<le> n" "n \<le> 31" "\<not> LocalIsWhitespace c"
  shows "on_http_header env (''Date: '' @ replicate n c) conn = (Raise Undefined_Behaviour, conn)"
proof -
  have w: "LocalIsWhitespace CHR '' ''" by code_simp
  have "takeWhile (\<lambda>c. \<not> LocalIsWhitespace c) (replicate n c) = replicate n c"
    using assms(3) by simp
  moreover have "skip_ws (CHR '' '' # replicate n c) = replicate n c"
    using assms w by (cases n) (auto simp: skip_ws_def)
  ultimately have "scan_word (CHR '' '' # replicate n c) = Some (replicate n c, [])"
    using assms(1) by (simp add: scan_word_def)
  then have "word_overrun (''Date: '' @ replicate n c)"
    using assms(1) by (simp add: word_overrun_def)
  then show ?thesis using assms(2) by (simp add: on_http_header_def)
qed

theorem date_header_overrun_witness:
  "on_http_header demo_text_env (''Date: '' @ replicate 31 CHR ''x'') demo_connection =
     (Raise Undefined_Behaviour, demo_connection)"
  by (rule date_header_overrun) (simp_all, code_simp)

section \<open>Reading a date header\<close>

definition digits :: "string \<Rightarrow> int \<Rightarrow> bool" where
  "digits ds n \<longleftrightarrow> ds \<noteq> [] \<and> list_all is_digit ds \<and> dec_from 0 ds = n \<and> n < 65536"

definition date_word :: "string \<Rightarrow> bool" where
  "date_word w \<longleftrightarrow> w \<noteq> [] \<and> length w < 26 \<and> list_all (\<lambda>c. \<not> LocalIsWhitespace c) w"

lemma is_digit_not_ws: "is_digit c \<Longrightarrow> \<not> LocalIsWhitespace c"
  by (auto simp: is_digit_def dest: LocalIsWhitespace_code)

lemma space_ws: "LocalIsWhitespace CHR '' ''"
  by code_simp

lemma skip_space: "s \<noteq> [] \<Longrightarrow> \<not> LocalIsWhitespace (hd s) \<Longrightarrow> skip_ws (CHR '' '' # s) = s \<and> skip_ws s = s"
  using space_ws by (cases s) (auto simp: skip_ws_def)

lemma scan_word_date:
  assumes "date_word w"
  shows "scan_word (CHR '' '' # w @ CHR '' '' # s) = Some (w, CHR '' '' # s)"
proof -
  have "skip_ws (CHR '' '' # w @ CHR '' '' # s) = w @ CHR '' '' # s"
    using assms skip_space[of "w @ CHR '' '' # s"] by (cases w) (auto simp: date_word_def)
  moreover have "takeWhile (\<lambda>c. \<not> LocalIsWhitespace c) (w @ CHR '' '' # s) = w"
    using assms space_ws by (subst takeWhile_append2) (auto simp: date_word_def list_all_iff)
  ultimately show ?thesis using assms by (simp add: scan_word_def date_word_def)
qed

lemma scan_hu_digits:
  assumes "digits ds n" "\<not> is_digit c"
  shows "scan_hu (CHR '' '' # ds @ c # s) = Some (n, c # s)" "scan_hu (ds @ c # s) = Some (n, c # s)"
proof -
  obtain d ds' where d: "ds = d # ds'" "is_digit d" using assms(1) by (cases ds) (auto simp: digits_def)
  have n: "d \<noteq> CHR ''-''" "d \<noteq> CHR ''+''" using d(2) by (auto simp: is_digit_def)
  have sk: "skip_ws (CHR '' '' # ds @ c # s) = ds @ c # s" "skip_ws (ds @ c # s) = ds @ c # s"
    using skip_space[of "ds @ c # s"] d is_digit_not_ws by auto
  have t: "takeWhile is_digit (ds @ c # s) = ds"
    using assms by (subst takeWhile_append2) (auto simp: digits_def list_all_iff)
  have "0 \<le> n" using assms(1) dec_from_ge[of ds 0] by (auto simp: digits_def)
  then have m: "dec_from 0 ds mod 65536 = n" using assms(1) by (simp add: digits_def)
  show "scan_hu (CHR '' '' # ds @ c # s) = Some (n, c # s)" "scan_hu (ds @ c # s) = Some (n, c # s)"
    using d n t m sk by (simp_all add: scan_hu_def)
qed

definition date_line :: "string \<Rightarrow> string \<Rightarrow> string \<Rightarrow> string \<Rightarrow> string \<Rightarrow> string \<Rightarrow> string \<Rightarrow> string" where
  "date_line ddd mday mmm year hour minute second =
     ''Date:'' @ CHR '' '' # ddd @ CHR '' '' # mday @ CHR '' '' # mmm @ CHR '' '' # year @ CHR '' '' # hour @
     CHR '':'' # minute @ CHR '':'' # second @ CHR '' '' # ''GMT'' @ [char_of (13 :: nat), char_of (10 :: nat)]"

lemma not_digit: "\<not> is_digit CHR '' ''" "\<not> is_digit CHR '':''"
  by (simp_all add: is_digit_def char_code_def)

text \<open>
  A date header in the standard form, with any decimal spelling of its numbers and no more than
  37 characters, is read back exactly: the callback stores the time it names and consumes the
  whole line; a month that is none of the twelve names counts as January.
\<close>

theorem date_header_read:
  assumes "date_word ddd" "date_word mmm" "digits mday d" "digits year y" "digits hour h" "digits minute m" "digits second s"
    and "length (date_line ddd mday mmm year hour minute second) \<le> 37"
    and "gregorian_date env y (1 + month_index mmm) d = Some days"
  shows "on_http_header env (date_line ddd mday mmm year hour minute second) c =
    (Done (length (date_line ddd mday mmm year hour minute second)),
     c\<lparr>httpd_ptime := Some ((days * 86400 + h * 3600 + m * 60 + s) * 1000000)\<rparr>)"
proof -
  let ?l = "date_line ddd mday mmm year hour minute second"
  have p: "prefix ''Date:'' ?l" by (simp add: date_line_def)
  have "scan_date ?l = Some (ddd, d, mmm, y, h, m, s)"
    using assms p
    by (simp add: scan_date_def date_line_def scan_word_date scan_hu_digits not_digit scan_char_def)
  moreover have "\<not> word_overrun ?l"
    using assms by (simp add: word_overrun_def date_line_def scan_word_date scan_hu_digits not_digit date_word_def)
  ultimately show ?thesis using assms(8,9) p by (simp add: on_http_header_def)
qed

theorem date_header_read_witness:
  "httpd_ptime (snd (on_http_header (demo_text_env\<lparr>gregorian_date := \<lambda>y m d. Some (y + m + d)\<rparr>)
     (date_line ''Thu,'' ''03'' ''May'' ''2012'' ''21'' ''19'' ''00'') demo_connection)) =
     Some ((2020 * 86400 + 21 * 3600 + 19 * 60) * 1000000)"
proof -
  have "on_http_header (demo_text_env\<lparr>gregorian_date := \<lambda>y m d. Some (y + m + d)\<rparr>)
      (date_line ''Thu,'' ''03'' ''May'' ''2012'' ''21'' ''19'' ''00'') demo_connection =
    (Done (length (date_line ''Thu,'' ''03'' ''May'' ''2012'' ''21'' ''19'' ''00'')),
     demo_connection\<lparr>httpd_ptime := Some ((2020 * 86400 + 21 * 3600 + 19 * 60 + 0) * 1000000)\<rparr>)"
    by (rule date_header_read[where d = 3 and y = 2012])
      (code_simp, code_simp, code_simp, code_simp, code_simp, code_simp, code_simp, code_simp,
       simp add: month_index_def month_names_def)
  then show ?thesis by simp
qed

end
