(* ===== verification/Rfa_Model.thy ===== *)
theory Rfa_Model
  imports Config
begin

text \<open>
  The state shared by \<open>provider_t\<close> and \<open>session_t\<close> (\<open>src/src/provider.hh\<close>, \<open>src/src/session.hh\<close>) and the
  calls they make into RFA. RFA is not part of the sources: its answers are an environment, a
  record of functions from the index of the call to its result, which may be an exception.
  Messages and payloads are the values the program builds with the RFA setters.
\<close>

section \<open>Messages\<close>

datatype rdm_name =
    ENAME_APP_ID | ENAME_POSITION | ENAME_INST_ID
  | ENAME_NAME | ENAME_VENDOR | ENAME_CAPABILITIES | ENAME_DICTIONARYS_USED | ENAME_QOS
  | ENAME_SVC_STATE

datatype filter_id = SERVICE_INFO_ID | SERVICE_STATE_ID
datatype timeliness = RealTime
datatype rate = TickByTick
datatype exponent = ExponentNeg6

type_synonym rwf_version = "8 word \<times> 8 word"

datatype omm =
    OmmAscii string
  | OmmRmtes string
  | OmmUInt nat
  | OmmQoS timeliness rate
  | OmmTime int int int int
  | OmmDate int int int
  | OmmReal int exponent
  | OmmBlank
  | OmmArray "omm list"
  | OmmElementList "rwf_version option" "(rdm_name \<times> omm) list"
  | OmmFilterList rwf_version "(filter_id \<times> omm) list"
  | OmmMap rwf_version "(string \<times> omm) list"
  | OmmFieldList rwf_version int int "(int \<times> omm) list"

datatype model_type = MMT_LOGIN | MMT_DIRECTORY | MMT_MARKET_PRICE | MMT_OTHER
datatype stream_enum = StreamOpen | StreamClosed | StreamOther
datatype data_enum = DataOk | DataSuspect | DataOther

text \<open>\<open>rfa::message::RespMsg\<close>, with the members the program sets.\<close>

record resp_msg =
  msg_model_type :: model_type
  refresh_complete :: bool
  attrib_name :: string
  attrib_service :: string
  data_mask :: "filter_id list"
  msg_payload :: omm
  msg_status :: "stream_enum \<times> data_enum"
  permission_data :: "string option"

section \<open>The answers of RFA\<close>

datatype validation = MsgValidationOk | MsgValidationWarning

record rfa_env =
  env_acquire :: "nat \<Rightarrow> bool outcome"
  env_create_provider :: "nat \<Rightarrow> bool outcome"
  env_register :: "nat \<Rightarrow> bool outcome"
  env_validate :: "nat \<Rightarrow> validation outcome"
  env_version :: "nat \<Rightarrow> rwf_version outcome"
  env_token :: "nat \<Rightarrow> nat outcome"
  env_submit :: "nat \<Rightarrow> 32 word outcome"
  env_clock :: "nat \<Rightarrow> int"

section \<open>Sessions and the provider\<close>

datatype session_pc =
    SESSION_PC_RFA_MSGS_SENT
  | SESSION_PC_RFA_EVENTS_RECEIVED
  | SESSION_PC_RFA_EVENTS_DISCARDED
  | SESSION_PC_OMM_ITEM_EVENTS_RECEIVED
  | SESSION_PC_OMM_ITEM_EVENTS_DISCARDED
  | SESSION_PC_RESPONSE_MSGS_RECEIVED
  | SESSION_PC_RESPONSE_MSGS_DISCARDED
  | SESSION_PC_MMT_LOGIN_RESPONSE_RECEIVED
  | SESSION_PC_MMT_LOGIN_RESPONSE_DISCARDED
  | SESSION_PC_MMT_LOGIN_SUCCESS_RECEIVED
  | SESSION_PC_MMT_LOGIN_SUSPECT_RECEIVED
  | SESSION_PC_MMT_LOGIN_CLOSED_RECEIVED
  | SESSION_PC_OMM_CMD_ERRORS
  | SESSION_PC_MMT_LOGIN_VALIDATED
  | SESSION_PC_MMT_LOGIN_MALFORMED
  | SESSION_PC_MMT_LOGIN_SENT
  | SESSION_PC_MMT_DIRECTORY_VALIDATED
  | SESSION_PC_MMT_DIRECTORY_MALFORMED
  | SESSION_PC_MMT_DIRECTORY_SENT
  | SESSION_PC_TOKENS_GENERATED

text \<open>The handles and the two RFA objects a session owns are null or not.\<close>

record session =
  instance_id :: nat
  sess_prefix :: string
  sess_config :: session_config
  has_session :: bool
  has_provider :: bool
  error_item_handle :: bool
  item_handle :: bool
  rwf_major_version :: "8 word"
  rwf_minor_version :: "8 word"
  is_muted :: bool
  stream_state :: "stream_enum option"
  data_state :: "data_enum option"
  sess_last_activity :: int
  sess_stats :: "session_pc \<Rightarrow> 32 word"

text \<open>A token is \<open>None\<close> when its pointer is null; a generated token is a reference, never null.\<close>

record item_stream =
  stream_name :: string
  stream_tokens :: "nat option list"

text \<open>
  The provider with everything reachable from it. \<open>streams\<close> are the item streams that shared
  pointers keep alive, by address; the directory holds weak pointers to them, in insertion
  order where the hash table of the code has an order of its own, which only decides in what order
  \<open>ResetTokens\<close> asks for the tokens. \<open>ticks\<close> counts the calls into RFA and the clock; \<open>wire\<close> is what was submitted: the
  session, the token and the message; \<open>login_requests\<close> are the requests registered: the session,
  the user name and the attributes.
\<close>

record provider =
  prov_config :: config
  ticks :: nat
  wire :: "(nat \<times> nat option \<times> resp_msg) list"
  login_requests :: "(nat \<times> string \<times> omm) list"
  sessions :: "session list"
  min_rwf_major_version :: "8 word"
  min_rwf_minor_version :: "8 word"
  directory :: "(string \<times> nat) list"
  streams :: "nat \<Rightarrow> item_stream option"
  provider_pc_msgs_sent :: "32 word"
  prov_last_activity :: int

type_synonym 'a operation = "(provider, 'a) method"

text \<open>One call into RFA: the answer to the current index, and the index moves on.\<close>

definition rfa_call :: "(nat \<Rightarrow> 'a outcome) \<Rightarrow> 'a operation" where
  "rfa_call answer = (\<lambda>p. (answer (ticks p), p\<lparr>ticks := Suc (ticks p)\<rparr>))"

lemma bindm_rfa_call:
  "bindm (rfa_call a) k s =
     (case a (ticks s) of
        Done x \<Rightarrow> k x (s\<lparr>ticks := Suc (ticks s)\<rparr>)
      | Raise e \<Rightarrow> (Raise e, s\<lparr>ticks := Suc (ticks s)\<rparr>)
      | Diverged \<Rightarrow> (Diverged, s\<lparr>ticks := Suc (ticks s)\<rparr>))"
  by (simp add: bindm_def rfa_call_def split: outcome.splits)

definition clock_call :: "rfa_env \<Rightarrow> int operation" where
  "clock_call env = rfa_call (\<lambda>n. Done (env_clock env n))"

definition on_session :: "nat \<Rightarrow> (session \<Rightarrow> session) \<Rightarrow> unit operation" where
  "on_session i f = modify (\<lambda>p. p\<lparr>sessions := (sessions p)[i := f (sessions p ! i)]\<rparr>)"

definition bump :: "nat \<Rightarrow> session_pc \<Rightarrow> unit operation" where
  "bump i c = on_session i (\<lambda>s. s\<lparr>sess_stats := (sess_stats s)(c := sess_stats s c + 1)\<rparr>)"

definition touch_session :: "rfa_env \<Rightarrow> nat \<Rightarrow> unit operation" where
  "touch_session env i =
     bindm (clock_call env) (\<lambda>now. on_session i (\<lambda>s. s\<lparr>sess_last_activity := now\<rparr>))"

definition touch_provider :: "rfa_env \<Rightarrow> unit operation" where
  "touch_provider env =
     bindm (clock_call env) (\<lambda>now. modify (\<lambda>p. p\<lparr>prov_last_activity := now\<rparr>))"

section \<open>Construction\<close>

definition session_init :: "nat \<Rightarrow> session_config \<Rightarrow> int \<Rightarrow> session" where
  "session_init i cfg now =
     \<lparr>instance_id = i, sess_prefix = session_name cfg @ '':'', sess_config = cfg,
      has_session = False, has_provider = False, error_item_handle = False, item_handle = False,
      rwf_major_version = 0, rwf_minor_version = 0, is_muted = True, stream_state = None,
      data_state = None, sess_last_activity = now, sess_stats = (\<lambda>_. 0)\<rparr>"

fun sessions_init :: "rfa_env \<Rightarrow> nat \<Rightarrow> session_config list \<Rightarrow> unit operation" where
  "sessions_init env i [] = ret ()"
| "sessions_init env i (cfg # cfgs) =
     bindm (clock_call env) (\<lambda>now.
       seq (modify (\<lambda>p. p\<lparr>sessions := sessions p @ [session_init i cfg now]\<rparr>))
           (sessions_init env (Suc i) cfgs))"

definition provider_init :: "config \<Rightarrow> provider" where
  "provider_init cfg =
     \<lparr>prov_config = cfg, ticks = 0, wire = [], login_requests = [], sessions = [], min_rwf_major_version = 0,
      min_rwf_minor_version = 0, directory = [], streams = (\<lambda>_. None),
      provider_pc_msgs_sent = 0, prov_last_activity = 0\<rparr>"

definition provider_t :: "rfa_env \<Rightarrow> unit operation" where
  "provider_t env =
     seq (touch_provider env) (bindm (gets (\<lambda>p. cfg_sessions (prov_config p))) (sessions_init env 0))"

section \<open>The service directory\<close>

definition rwf :: "provider \<Rightarrow> rwf_version" where
  "rwf p = (min_rwf_major_version p, min_rwf_minor_version p)"

definition kRdmFieldDictionaryName :: string where "kRdmFieldDictionaryName = ''RWFFld''"
definition kEnumTypeDictionaryName :: string where "kEnumTypeDictionaryName = ''RWFEnum''"

text \<open>\<open>MMT_MARKET_PRICE\<close> is message model type 6.\<close>

definition GetServiceCapabilities :: omm where
  "GetServiceCapabilities = OmmArray [OmmUInt 6]"

definition GetServiceDictionaries :: omm where
  "GetServiceDictionaries = OmmArray [OmmAscii kRdmFieldDictionaryName, OmmAscii kEnumTypeDictionaryName]"

definition GetDirectoryQoS :: omm where
  "GetDirectoryQoS = OmmArray [OmmQoS RealTime TickByTick]"

definition GetServiceInformation :: "provider \<Rightarrow> omm" where
  "GetServiceInformation p =
     OmmElementList (Some (rwf p))
       [(ENAME_NAME, OmmAscii (service_name (prov_config p))),
        (ENAME_VENDOR, OmmAscii (vendor_name (prov_config p))),
        (ENAME_CAPABILITIES, GetServiceCapabilities),
        (ENAME_DICTIONARYS_USED, GetServiceDictionaries),
        (ENAME_QOS, GetDirectoryQoS)]"

definition GetServiceState :: "provider \<Rightarrow> omm" where
  "GetServiceState p = OmmElementList (Some (rwf p)) [(ENAME_SVC_STATE, OmmUInt 1)]"

definition GetServiceFilterList :: "provider \<Rightarrow> omm" where
  "GetServiceFilterList p =
     OmmFilterList (rwf p)
       [(SERVICE_INFO_ID, GetServiceInformation p), (SERVICE_STATE_ID, GetServiceState p)]"

definition GetServiceDirectory :: "rfa_env \<Rightarrow> omm operation" where
  "GetServiceDirectory env =
     bindm (gets (\<lambda>p. OmmMap (rwf p) [(service_name (prov_config p), GetServiceFilterList p)])) (\<lambda>m.
       seq (touch_provider env) (ret m))"

lemmas rfa_run = run_simps_all bindm_rfa_call clock_call_def on_session_def bump_def
  touch_session_def touch_provider_def

end
