(* ===== verification/Session.thy ===== *)
theory Session
  imports Rfa_Model
begin

text \<open>
  The session of \<open>src/src/session.cc\<close>, the layer that logs in, holds the item tokens of one connection
  and mutes publishing while it has no permission. Every method names its session by the index
  it has in the provider, which is its \<open>instance_id_\<close>. \<open>assert\<close> is compiled out of a release
  build and has no effect here; a null \<open>session_\<close> or \<open>omm_provider_\<close> that is dereferenced is the
  outcome \<open>Raise Null_Deref\<close>.
\<close>

section \<open>The end of a session\<close>

text \<open>The destructor: the two clients are unregistered, then the provider and the session released.\<close>

definition session_destructor :: "(session, unit) method" where
  "session_destructor =
     bindm (gets id) (\<lambda>s.
       if (item_handle s \<or> error_item_handle s) \<and> \<not> has_provider s then throw Null_Deref
       else modify (\<lambda>s. s\<lparr>item_handle := False, error_item_handle := False, has_provider := False,
              has_session := False\<rparr>))"

section \<open>Start-up and login\<close>

text \<open>\<open>Session::acquire\<close> returns null or the session.\<close>

definition session_Init :: "rfa_env \<Rightarrow> nat \<Rightarrow> bool operation" where
  "session_Init env i =
     seq (touch_session env i)
    (bindm (rfa_call (env_acquire env)) (\<lambda>acquired.
       seq (on_session i (\<lambda>s. s\<lparr>has_session := acquired\<rparr>)) (ret acquired)))"

text \<open>The attributes of the login request.\<close>

definition login_attributes :: "session_config \<Rightarrow> omm" where
  "login_attributes cfg =
     OmmElementList None
       ([(ENAME_APP_ID, OmmAscii (application_id cfg)), (ENAME_POSITION, OmmAscii (cfg_position cfg))] @
        (if cfg_instance_id cfg \<noteq> [] then [(ENAME_INST_ID, OmmAscii (cfg_instance_id cfg))] else []))"

text \<open>The minimum version: the first session sets it, a lower version degrades it.\<close>

definition degrade :: "rwf_version \<Rightarrow> rwf_version \<Rightarrow> rwf_version" where
  "degrade minimum v =
     (let (min_major, min_minor) = (if minimum = (0, 0) then v else minimum);
          (major, minor) = v
      in if (min_major = major \<and> min_minor > minor) \<or> min_major > major then (major, minor)
         else (min_major, min_minor))"

definition store_version :: "nat \<Rightarrow> rwf_version \<Rightarrow> unit operation" where
  "store_version i v =
     seq (on_session i (\<lambda>s. s\<lparr>rwf_major_version := fst v, rwf_minor_version := snd v\<rparr>))
         (modify (\<lambda>p. p\<lparr>min_rwf_major_version := fst (degrade (rwf p) v),
                       min_rwf_minor_version := snd (degrade (rwf p) v)\<rparr>))"

definition SendLoginRequest :: "rfa_env \<Rightarrow> nat \<Rightarrow> bool operation" where
  "SendLoginRequest env i =
     bindm (rfa_call (env_validate env)) (\<lambda>validation_status.
     seq (bump i (if validation_status = MsgValidationWarning then SESSION_PC_MMT_LOGIN_MALFORMED
                  else SESSION_PC_MMT_LOGIN_VALIDATED))
    (seq (modify (\<lambda>p. p\<lparr>login_requests := login_requests p @
            [(i, user_name (sess_config (sessions p ! i)), login_attributes (sess_config (sessions p ! i)))]\<rparr>))
    (bindm (rfa_call (env_register env)) (\<lambda>handle.
     seq (on_session i (\<lambda>s. s\<lparr>item_handle := handle\<rparr>))
    (seq (bump i SESSION_PC_MMT_LOGIN_SENT)
         (if \<not> handle then ret False
          else bindm (rfa_call (env_version env)) (\<lambda>v. seq (store_version i v) (ret True))))))))"

definition CreateOMMProvider :: "rfa_env \<Rightarrow> nat \<Rightarrow> bool operation" where
  "CreateOMMProvider env i =
     seq (touch_session env i)
    (bindm (gets (\<lambda>p. has_session (sessions p ! i))) (\<lambda>alive.
     if \<not> alive then throw Null_Deref
     else bindm (rfa_call (env_create_provider env)) (\<lambda>created.
       seq (on_session i (\<lambda>s. s\<lparr>has_provider := created\<rparr>))
      (if \<not> created then ret False
       else bindm (rfa_call (env_register env)) (\<lambda>handle.
         seq (on_session i (\<lambda>s. s\<lparr>error_item_handle := handle\<rparr>))
        (if \<not> handle then ret False
         else SendLoginRequest env i))))))"

section \<open>Tokens and publishing\<close>

definition generateItemToken :: "rfa_env \<Rightarrow> nat \<Rightarrow> nat operation" where
  "generateItemToken env i =
     bindm (gets (\<lambda>p. has_provider (sessions p ! i))) (\<lambda>alive.
     if \<not> alive then throw Null_Deref else rfa_call (env_token env))"

text \<open>\<open>set_token a i t\<close> is the assignment \<open>token[i] = t\<close> to the stream at address \<open>a\<close>.\<close>

definition set_token :: "nat \<Rightarrow> nat \<Rightarrow> nat \<Rightarrow> unit operation" where
  "set_token a i t =
     modify (\<lambda>p. p\<lparr>streams := (streams p)(a := map_option
       (\<lambda>st. st\<lparr>stream_tokens := (stream_tokens st)[i := Some t]\<rparr>) (streams p a))\<rparr>)"

definition session_CreateItemStream :: "rfa_env \<Rightarrow> nat \<Rightarrow> nat \<Rightarrow> bool operation" where
  "session_CreateItemStream env i a =
     bindm (gets (\<lambda>p. is_muted (sessions p ! i))) (\<lambda>muted.
     if \<not> muted then
       bindm (generateItemToken env i) (\<lambda>t.
         seq (set_token a i t)
        (seq (bump i SESSION_PC_TOKENS_GENERATED)
        (seq (touch_session env i) (ret True))))
     else ret True)"

definition Submit :: "rfa_env \<Rightarrow> nat \<Rightarrow> resp_msg \<Rightarrow> nat option \<Rightarrow> (32 word) operation" where
  "Submit env i msg token =
     bindm (gets (\<lambda>p. has_provider (sessions p ! i))) (\<lambda>alive.
     if \<not> alive then throw Null_Deref
     else seq (modify (\<lambda>p. p\<lparr>wire := wire p @ [(i, token, msg)]\<rparr>))
         (bindm (rfa_call (env_submit env)) (\<lambda>submit_status.
            seq (bump i SESSION_PC_RFA_MSGS_SENT)
           (seq (touch_session env i) (ret submit_status)))))"

definition session_Send :: "rfa_env \<Rightarrow> nat \<Rightarrow> resp_msg \<Rightarrow> nat option \<Rightarrow> (32 word) operation" where
  "session_Send env i msg token =
     bindm (gets (\<lambda>p. is_muted (sessions p ! i))) (\<lambda>muted.
     if muted then ret 0 else Submit env i msg token)"

section \<open>Login success\<close>

definition directory_message :: "omm \<Rightarrow> resp_msg" where
  "directory_message directory_map =
     \<lparr>msg_model_type = MMT_DIRECTORY, refresh_complete = False, attrib_name = [],
      attrib_service = [], data_mask = [SERVICE_INFO_ID, SERVICE_STATE_ID],
      msg_payload = directory_map, msg_status = (StreamOpen, DataOk), permission_data = None\<rparr>"

definition SendDirectoryResponse :: "rfa_env \<Rightarrow> nat \<Rightarrow> bool operation" where
  "SendDirectoryResponse env i =
     bindm (GetServiceDirectory env) (\<lambda>m.
     bindm (try_catch
              (bindm (rfa_call (env_validate env)) (\<lambda>_.
                 seq (bump i SESSION_PC_MMT_DIRECTORY_VALIDATED) (ret True)))
              (\<lambda>e. e = Rfa_Invalid_Usage)
              (\<lambda>_. seq (bump i SESSION_PC_MMT_DIRECTORY_MALFORMED) (ret False)))
       (\<lambda>valid.
          if \<not> valid then ret False
          else bindm (generateItemToken env i) (\<lambda>t.
            bindm (Submit env i (directory_message m) (Some t)) (\<lambda>_.
              seq (bump i SESSION_PC_MMT_DIRECTORY_SENT) (ret True)))))"

text \<open>The loop body of \<open>ResetTokens\<close>: \<open>lock\<close> yields the stream unless it has expired.\<close>

definition reset_token :: "rfa_env \<Rightarrow> nat \<Rightarrow> nat \<Rightarrow> unit operation" where
  "reset_token env i a =
     bindm (gets (\<lambda>p. streams p a)) (\<lambda>sp.
     case sp of
       None \<Rightarrow> ret ()
     | Some _ \<Rightarrow>
         bindm (generateItemToken env i) (\<lambda>t.
           seq (set_token a i t) (bump i SESSION_PC_TOKENS_GENERATED)))"

definition ResetTokens :: "rfa_env \<Rightarrow> nat \<Rightarrow> bool operation" where
  "ResetTokens env i =
     bindm (gets (\<lambda>p. has_provider (sessions p ! i))) (\<lambda>alive.
     if \<not> alive then ret False
     else bindm (gets directory) (\<lambda>entries.
       seq (for_each entries (\<lambda>(_, a). reset_token env i a)) (ret True)))"

definition OnLoginSuccess :: "rfa_env \<Rightarrow> nat \<Rightarrow> unit operation" where
  "OnLoginSuccess env i =
     seq (bump i SESSION_PC_MMT_LOGIN_SUCCESS_RECEIVED)
    (try_catch
       (bindm (SendDirectoryResponse env i) (\<lambda>_.
        bindm (ResetTokens env i) (\<lambda>_.
        on_session i (\<lambda>s. s\<lparr>is_muted := False\<rparr>))))
       (\<lambda>e. e = Rfa_Invalid_Usage)
       (\<lambda>_. ret ()))"

section \<open>Events\<close>

definition OnLoginSuspect :: "nat \<Rightarrow> unit operation" where
  "OnLoginSuspect i =
     seq (bump i SESSION_PC_MMT_LOGIN_SUSPECT_RECEIVED) (on_session i (\<lambda>s. s\<lparr>is_muted := True\<rparr>))"

definition OnLoginClosed :: "nat \<Rightarrow> unit operation" where
  "OnLoginClosed i =
     seq (bump i SESSION_PC_MMT_LOGIN_CLOSED_RECEIVED) (on_session i (\<lambda>s. s\<lparr>is_muted := True\<rparr>))"

definition OnOMMCmdErrorEvent :: "nat \<Rightarrow> unit operation" where
  "OnOMMCmdErrorEvent i = bump i SESSION_PC_OMM_CMD_ERRORS"

definition OnRespMsg :: "rfa_env \<Rightarrow> nat \<Rightarrow> model_type \<Rightarrow> stream_enum \<Rightarrow> data_enum \<Rightarrow> unit operation" where
  "OnRespMsg env i model stream data =
     seq (bump i SESSION_PC_RESPONSE_MSGS_RECEIVED)
    (if model \<noteq> MMT_LOGIN then bump i SESSION_PC_RESPONSE_MSGS_DISCARDED
     else
       seq (bump i SESSION_PC_MMT_LOGIN_RESPONSE_RECEIVED)
      (seq (on_session i (\<lambda>s. s\<lparr>stream_state := Some stream, data_state := Some data\<rparr>))
      (case stream of
         StreamOpen \<Rightarrow>
           (case data of
              DataOk \<Rightarrow> OnLoginSuccess env i
            | DataSuspect \<Rightarrow> OnLoginSuspect i
            | DataOther \<Rightarrow> bump i SESSION_PC_MMT_LOGIN_RESPONSE_DISCARDED)
       | StreamClosed \<Rightarrow> OnLoginClosed i
       | StreamOther \<Rightarrow> bump i SESSION_PC_MMT_LOGIN_RESPONSE_DISCARDED)))"

datatype item_msg = RespMsg model_type stream_enum data_enum | OtherMsg
datatype rfa_event = OMMItemEvent item_msg | OMMCmdErrorEvent | OtherEvent

definition OnOMMItemEvent :: "rfa_env \<Rightarrow> nat \<Rightarrow> item_msg \<Rightarrow> unit operation" where
  "OnOMMItemEvent env i msg =
     seq (bump i SESSION_PC_OMM_ITEM_EVENTS_RECEIVED)
    (case msg of
       RespMsg model stream data \<Rightarrow> OnRespMsg env i model stream data
     | OtherMsg \<Rightarrow> bump i SESSION_PC_OMM_ITEM_EVENTS_DISCARDED)"

definition processEvent :: "rfa_env \<Rightarrow> nat \<Rightarrow> rfa_event \<Rightarrow> unit operation" where
  "processEvent env i event =
     seq (bump i SESSION_PC_RFA_EVENTS_RECEIVED)
    (seq (touch_session env i)
    (case event of
       OMMItemEvent msg \<Rightarrow> OnOMMItemEvent env i msg
     | OMMCmdErrorEvent \<Rightarrow> OnOMMCmdErrorEvent i
     | OtherEvent \<Rightarrow> bump i SESSION_PC_RFA_EVENTS_DISCARDED))"

end
