(* ===== verification/Provider.thy ===== *)
theory Provider
  imports Session
begin

text \<open>
  The provider of \<open>src/src/provider.cc\<close>, which owns the sessions and the directory of item streams.
\<close>

section \<open>Operations\<close>

text \<open>The results of \<open>Init\<close> and \<open>CreateOMMProvider\<close> of the sessions are ignored, as in the code.\<close>

definition provider_Init :: "rfa_env \<Rightarrow> bool \<Rightarrow> bool operation" where
  "provider_Init env version_ok =
     bindm (gets (\<lambda>p. length (sessions p))) (\<lambda>n.
     seq (for_each [0..<n] (\<lambda>i. bindm (session_Init env i) (\<lambda>_. ret ())))
    (if \<not> version_ok then ret False
     else seq (for_each [0..<n] (\<lambda>i. bindm (CreateOMMProvider env i) (\<lambda>_. ret ()))) (ret True)))"

text \<open>\<open>vector::resize\<close>\<close>

definition resize :: "nat \<Rightarrow> 'a \<Rightarrow> 'a list \<Rightarrow> 'a list" where
  "resize n x xs = take n xs @ replicate (n - length xs) x"

definition emplace_back :: "string \<Rightarrow> 'a \<Rightarrow> (string \<times> 'a) list \<Rightarrow> (string \<times> 'a) list" where
  "emplace_back k v m = (if map_of m k = None then m @ [(k, v)] else m)"

definition provider_CreateItemStream :: "rfa_env \<Rightarrow> string \<Rightarrow> nat \<Rightarrow> bool operation" where
  "provider_CreateItemStream env name a =
     bindm (gets (\<lambda>p. length (sessions p))) (\<lambda>n.
     seq (modify (\<lambda>p. p\<lparr>streams := (streams p)(a := map_option
            (\<lambda>st. st\<lparr>stream_name := name, stream_tokens := resize n None (stream_tokens st)\<rparr>)
            (streams p a))\<rparr>))
    (seq (for_each [0..<n] (\<lambda>i. bindm (session_CreateItemStream env i a) (\<lambda>_. ret ())))
    (seq (modify (\<lambda>p. p\<lparr>directory := emplace_back name a (directory p)\<rparr>))
    (seq (touch_provider env) (ret True)))))"

definition stream_token :: "provider \<Rightarrow> nat \<Rightarrow> nat \<Rightarrow> nat option" where
  "stream_token p a i = (case streams p a of None \<Rightarrow> None | Some st \<Rightarrow> stream_tokens st ! i)"

definition provider_Send :: "rfa_env \<Rightarrow> nat \<Rightarrow> resp_msg \<Rightarrow> bool operation" where
  "provider_Send env a msg =
     bindm (gets (\<lambda>p. length (sessions p))) (\<lambda>n.
     seq (for_each [0..<n] (\<lambda>i.
            bindm (gets (\<lambda>p. stream_token p a i)) (\<lambda>t. bindm (session_Send env i msg t) (\<lambda>_. ret ()))))
    (seq (modify (\<lambda>p. p\<lparr>provider_pc_msgs_sent := provider_pc_msgs_sent p + 1\<rparr>))
    (seq (touch_provider env) (ret True))))"

text \<open>\<open>std::make_shared<item_stream_t>\<close> at a fresh address, and the release of the last pointer.\<close>

definition make_stream :: "nat \<Rightarrow> unit operation" where
  "make_stream a = modify (\<lambda>p. p\<lparr>streams := (streams p)(a \<mapsto> \<lparr>stream_name = [], stream_tokens = []\<rparr>)\<rparr>)"

definition drop_stream :: "nat \<Rightarrow> unit operation" where
  "drop_stream a = modify (\<lambda>p. p\<lparr>streams := (streams p)(a := None)\<rparr>)"

end
