(* ===== verification/Provider_Safety.thy ===== *)
theory Provider_Safety
  imports Provider
begin

text \<open>
  The connection logic of the provider and its sessions as a transition system, and what holds in
  every state it reaches: who may publish has a token for every live stream, and nothing is
  submitted without one when the operations do not overlap. The proofs go statement by statement: an operation is \<open>silent\<close> when it
  leaves the part of the state the invariant reads alone, and the few that are not have a lemma.
\<close>

section \<open>What the operations leave alone\<close>

text \<open>
  The part of the state the connection logic is about: who each session is, whether it has a
  provider, a registered client and permission to publish; the directory, the streams and the
  wire.
\<close>

definition core :: "session \<Rightarrow> nat \<times> bool \<times> bool \<times> bool" where
  "core s = (instance_id s, has_provider s, item_handle s \<or> error_item_handle s, is_muted s)"

definition links :: "provider \<Rightarrow> (nat \<times> bool \<times> bool \<times> bool) list \<times> (string \<times> nat) list \<times>
    (nat \<Rightarrow> item_stream option) \<times> (nat \<times> nat option \<times> resp_msg) list" where
  "links p = (map core (sessions p), directory p, streams p, wire p)"

definition silent :: "'a operation \<Rightarrow> bool" where
  "silent m \<longleftrightarrow> (\<forall>v. keeps (\<lambda>p. links p = v) m)"

lemma silentD: "silent m \<Longrightarrow> links (snd (m p)) = links p"
  unfolding silent_def keeps_def by blast

lemma keeps_rfa_call:
  "(\<And>p. I p \<Longrightarrow> I (p\<lparr>ticks := Suc (ticks p)\<rparr>)) \<Longrightarrow> keeps I (rfa_call answer)"
  by (simp add: keeps_def rfa_call_def)

lemma silent_rfa_call: "silent (rfa_call answer)"
  unfolding silent_def by (intro allI keeps_rfa_call) (simp add: links_def)

lemma silent_on_session:
  assumes "\<And>s. core (f s) = core s"
  shows "silent (on_session i f)"
proof -
  have "map core (xs[i := f (xs ! i)]) = map core xs" for xs
    by (cases "i < length xs"; rule nth_equalityI) (auto simp: nth_list_update assms)
  then show ?thesis
    unfolding silent_def on_session_def by (intro allI keeps_modify) (simp add: links_def)
qed

lemma silent_bindm: "silent m \<Longrightarrow> (\<And>x. silent (f x)) \<Longrightarrow> silent (bindm m f)"
  by (simp add: silent_def keeps_bindm)

lemma silent_seq: "silent m \<Longrightarrow> silent k \<Longrightarrow> silent (seq m k)"
  by (simp add: silent_def keeps_seq)

lemma silent_basic: "silent (ret x)" "silent (gets g)" "silent (throw e)"
  by (simp_all add: silent_def keeps_ret keeps_gets keeps_throw)

lemma silent_bump: "silent (bump i c)"
  unfolding bump_def by (intro silent_on_session) (simp add: core_def)

lemma silent_touch_session: "silent (touch_session env i)"
  unfolding touch_session_def clock_call_def
  by (intro silent_bindm silent_rfa_call silent_on_session) (simp add: core_def)

lemma silent_touch_provider: "silent (touch_provider env)"
  unfolding touch_provider_def clock_call_def
  by (intro silent_bindm silent_rfa_call) (simp add: silent_def keeps_def method_simps links_def)

lemma silent_GetServiceDirectory: "silent (GetServiceDirectory env)"
  unfolding GetServiceDirectory_def
  by (intro silent_bindm silent_seq silent_basic silent_touch_provider)

lemma silent_generateItemToken: "silent (generateItemToken env i)"
  unfolding generateItemToken_def
  by (intro silent_bindm silent_basic) (simp add: silent_basic silent_rfa_call)

lemmas silent_intro = silent_bindm silent_seq silent_basic silent_rfa_call silent_bump
  silent_touch_session silent_touch_provider silent_GetServiceDirectory silent_generateItemToken

section \<open>The invariant\<close>

definition has_token :: "provider \<Rightarrow> nat \<Rightarrow> nat \<Rightarrow> bool" where
  "has_token p i a \<longleftrightarrow> (\<forall>st. streams p a = Some st \<longrightarrow>
     length (stream_tokens st) = length (sessions p) \<and> stream_tokens st ! i \<noteq> None)"

definition sized :: "provider \<Rightarrow> nat \<Rightarrow> bool" where
  "sized p a \<longleftrightarrow> (\<forall>st. streams p a = Some st \<longrightarrow> length (stream_tokens st) = length (sessions p))"

text \<open>
  A session that has permission to publish has a provider, and a token for every live stream of
  the directory; whatever reached the wire carried a token.
\<close>

fun session_inv :: "provider \<Rightarrow> nat \<Rightarrow> nat \<times> bool \<times> bool \<times> bool \<Rightarrow> bool" where
  "session_inv p i (k, provided, registered, muted) \<longleftrightarrow>
     k = i \<and> (registered \<longrightarrow> provided) \<and>
     (\<not> muted \<longrightarrow> provided \<and> (\<forall>a \<in> snd ` set (directory p). has_token p i a))"

definition link_inv :: "provider \<Rightarrow> bool" where
  "link_inv p \<longleftrightarrow>
     (\<forall>i < length (sessions p). session_inv p i (core (sessions p ! i))) \<and>
     (\<forall>a \<in> snd ` set (directory p). sized p a) \<and>
     distinct (map fst (directory p)) \<and>
     (\<forall>(i, t, m) \<in> set (wire p). t \<noteq> None)"

lemma links_core: "links p = links q \<Longrightarrow> i < length (sessions p) \<Longrightarrow> core (sessions p ! i) = core (sessions q ! i)"
  unfolding links_def by (metis length_map nth_map prod.inject)

lemma links_length: "links p = links q \<Longrightarrow> length (sessions p) = length (sessions q)"
  unfolding links_def by (metis length_map prod.inject)

lemma links_rest: "links p = links q \<Longrightarrow> directory p = directory q \<and> streams p = streams q \<and> wire p = wire q"
  by (simp add: links_def)

lemma link_inv_links: 
  assumes "links p = links q" "link_inv p"
  shows "link_inv q"
proof -
  note r = links_rest[OF assms(1)] and n = links_length[OF assms(1)] and c = links_core[OF assms(1)]
  have h: "has_token p = has_token q" "sized p = sized q"
    using r n by (simp_all add: has_token_def sized_def fun_eq_iff)
  then have "session_inv p = session_inv q"
    using r by (simp add: fun_eq_iff)
  then show ?thesis
    using assms(2) r n c h unfolding link_inv_def by simp
qed

lemma silent_keeps: "silent m \<Longrightarrow> keeps link_inv m"
  unfolding keeps_def using silentD link_inv_links by metis

lemma keeps_on_session:
  assumes "\<And>p s. session_inv p i (core s) \<Longrightarrow> session_inv p i (core (f s))"
  shows "keeps link_inv (on_session i f)"
  unfolding on_session_def
proof (rule keeps_modify)
  fix p
  assume I: "link_inv p"
  let ?q = "p\<lparr>sessions := (sessions p)[i := f (sessions p ! i)]\<rparr>"
  have h: "has_token ?q = has_token p" "sized ?q = sized p"
    by (simp_all add: has_token_def sized_def fun_eq_iff)
  then have s: "session_inv ?q = session_inv p" by (simp add: fun_eq_iff)
  have "session_inv p j (core (sessions ?q ! j))" if "j < length (sessions p)" for j
    using I that assms[of p "sessions p ! i"] by (cases "j = i") (auto simp: link_inv_def)
  then show "link_inv ?q" using I s h by (simp add: link_inv_def)
qed

lemma keeps_mute: "keeps link_inv (on_session i (\<lambda>s. s\<lparr>is_muted := True\<rparr>))"
  by (rule keeps_on_session) (auto simp: core_def)

lemma tokens_set:
  "streams (snd (set_token a i t p)) b = (if b = a then map_option
     (\<lambda>st. st\<lparr>stream_tokens := (stream_tokens st)[i := Some t]\<rparr>) (streams p a) else streams p b)"
  "sessions (snd (set_token a i t p)) = sessions p"
  "directory (snd (set_token a i t p)) = directory p"
  "wire (snd (set_token a i t p)) = wire p"
  by (simp_all add: set_token_def method_simps)

lemma list_update_Some: "xs ! j \<noteq> None \<Longrightarrow> xs[i := Some t] ! j \<noteq> None"
  by (cases "i = j"; cases "i < length xs") (auto simp: list_update_beyond)

lemma set_token_mono:
  "has_token p j b \<Longrightarrow> has_token (snd (set_token a i t p)) j b"
  "sized p b \<Longrightarrow> sized (snd (set_token a i t p)) b"
  using list_update_Some by (fastforce simp: has_token_def tokens_set split: if_splits)
    (auto simp: sized_def tokens_set split: if_splits)

lemma set_token_sets:
  "i < length (sessions p) \<Longrightarrow> sized p a \<Longrightarrow> has_token (snd (set_token a i t p)) i a"
  by (auto simp: has_token_def sized_def tokens_set)

lemma session_inv_mono:
  "session_inv p i c \<Longrightarrow> directory q = directory p \<Longrightarrow>
   (\<And>a. has_token p i a \<Longrightarrow> has_token q i a) \<Longrightarrow> session_inv q i c"
  by (cases c) auto

lemma keeps_set_token: "keeps link_inv (set_token a i t)"
  unfolding keeps_def
proof (intro allI impI)
  fix p
  assume I: "link_inv p"
  let ?q = "snd (set_token a i t p)"
  have "session_inv ?q j c" if "session_inv p j c" for j c
    by (rule session_inv_mono[OF that]) (simp_all add: tokens_set set_token_mono)
  then show "link_inv ?q"
    using I by (auto simp: link_inv_def tokens_set set_token_mono)
qed

text \<open>\<open>Submit\<close> appends to the wire and changes nothing else of the links.\<close>

lemma Submit_links:
  "links (snd (Submit env i msg t p)) =
     (if has_provider (sessions p ! i) then links (p\<lparr>wire := wire p @ [(i, t, msg)]\<rparr>) else links p)"
proof -
  have "silent (bindm (rfa_call (env_submit env)) (\<lambda>submit_status.
            seq (bump i SESSION_PC_RFA_MSGS_SENT) (seq (touch_session env i) (ret submit_status))))"
    by (intro silent_intro)
  then show ?thesis
    by (simp add: Submit_def method_simps silentD)
qed

lemma link_inv_wire: "link_inv p \<Longrightarrow> t \<noteq> None \<Longrightarrow> link_inv (p\<lparr>wire := wire p @ [(i, t, msg)]\<rparr>)"
proof -
  assume I: "link_inv p" "t \<noteq> None"
  let ?q = "p\<lparr>wire := wire p @ [(i, t, msg)]\<rparr>"
  have h: "has_token ?q = has_token p" "sized ?q = sized p"
    by (simp_all add: has_token_def sized_def fun_eq_iff)
  then have "session_inv ?q = session_inv p" by (simp add: fun_eq_iff)
  then show ?thesis using I h by (simp add: link_inv_def)
qed

lemma keeps_Submit: "keeps link_inv (Submit env i msg (Some t))"
  unfolding keeps_def
proof (intro allI impI)
  fix p
  assume I: "link_inv p"
  show "link_inv (snd (Submit env i msg (Some t) p))"
  proof (cases "has_provider (sessions p ! i)")
    case True
    have "link_inv (p\<lparr>wire := wire p @ [(i, Some t, msg)]\<rparr>)" by (rule link_inv_wire[OF I]) simp
    then show ?thesis
      by (rule link_inv_links[rotated]) (simp add: Submit_links True)
  next
    case False
    show ?thesis by (rule link_inv_links[OF _ I]) (simp add: Submit_links False)
  qed
qed

lemma keeps_SendDirectoryResponse: "keeps link_inv (SendDirectoryResponse env i)"
  unfolding SendDirectoryResponse_def
  by (intro keeps_bindm keeps_try keeps_seq keeps_if keeps_ret keeps_Submit)
    (simp_all add: silent_keeps silent_intro)

lemma keeps_reset_token: "keeps link_inv (reset_token env i a)"
  unfolding reset_token_def
  by (intro keeps_bindm keeps_case_option keeps_seq keeps_set_token silent_keeps silent_intro)

lemma keeps_ResetTokens: "keeps link_inv (ResetTokens env i)"
  unfolding ResetTokens_def
  by (intro keeps_bindm keeps_if keeps_seq keeps_for_each keeps_ret keeps_gets)
    (auto intro: keeps_reset_token)

section \<open>Resetting the tokens\<close>

lemma new_token_Done:
  assumes "bindm (generateItemToken env i) (\<lambda>t. seq (set_token a i t) k) p = (Done x, q)" "silent k"
    and "i < length (sessions p)" "sized p a"
  shows "directory q = directory p \<and> map core (sessions q) = map core (sessions p) \<and>
    wire q = wire p \<and> has_token q i a \<and> (\<forall>j b. has_token p j b \<longrightarrow> has_token q j b) \<and>
    (\<forall>b. sized p b \<longrightarrow> sized q b)"
proof -
  obtain t r where r: "generateItemToken env i p = (Done t, r)"
    "seq (set_token a i t) k r = (Done x, q)"
    using assms(1) by (auto simp: bindm_Done)
  have l: "links r = links p" using silentD[OF silent_generateItemToken[of env i], of p] r(1) by simp
  note lr = links_rest[OF l] links_length[OF l]
  let ?s = "snd (set_token a i t r)"
  have l2: "links q = links ?s"
    using r(2) silentD[OF assms(2), of ?s] by (simp add: set_token_def method_simps)
  note lq = links_rest[OF l2] links_length[OF l2]
  have h: "has_token q = has_token ?s" "sized q = sized ?s" "has_token r = has_token p" "sized r = sized p"
    using lq lr by (simp_all add: has_token_def sized_def fun_eq_iff)
  have "map core (sessions q) = map core (sessions ?s)" "map core (sessions r) = map core (sessions p)"
    using l2 l by (simp_all add: links_def)
  moreover have "has_token ?s i a"
    using set_token_sets[of i r a t] assms(3,4) lr h by simp
  ultimately show ?thesis
    using lq lr set_token_mono(1)[of r _ _ a i t] set_token_mono(2)[of r _ a i t]
    by (simp add: h tokens_set)
qed

lemma reset_token_Done:
  assumes "reset_token env i a p = (Done (), q)" "i < length (sessions p)" "sized p a"
  shows "directory q = directory p \<and> map core (sessions q) = map core (sessions p) \<and>
    wire q = wire p \<and> has_token q i a \<and> (\<forall>j b. has_token p j b \<longrightarrow> has_token q j b) \<and>
    (\<forall>b. sized p b \<longrightarrow> sized q b)"
proof (cases "streams p a")
  case None
  then show ?thesis using assms(1) by (simp add: reset_token_def method_simps has_token_def)
next
  case (Some st)
  then show ?thesis
    using assms(1) by (intro new_token_Done[OF _ silent_bump assms(2,3)])
      (simp add: reset_token_def method_simps)
qed

lemma ResetTokens_Done:
  assumes "ResetTokens env i p = (Done b, q)" "link_inv p" "i < length (sessions p)"
  shows "directory q = directory p \<and> map core (sessions q) = map core (sessions p) \<and>
    (has_provider (sessions p ! i) \<longrightarrow> (\<forall>a \<in> snd ` set (directory p). has_token q i a))"
proof (cases "has_provider (sessions p ! i)")
  case False
  then show ?thesis using assms(1) by (auto simp: ResetTokens_def method_simps)
next
  case True
  have loop: "for_each (directory p) (\<lambda>(_, a). reset_token env i a) p = (Done (), q)"
    using assms(1) True by (auto simp: ResetTokens_def method_simps seq_Done)
  define Q where "Q js s \<longleftrightarrow> directory s = directory p \<and> map core (sessions s) = map core (sessions p) \<and>
      (\<forall>a \<in> snd ` set (directory p). sized s a) \<and> (\<forall>a \<in> snd ` js. has_token s i a)"
    for js :: "(string \<times> nat) set" and s
  have "Q ({} \<union> set (directory p)) q"
  proof (rule for_each_collect[OF _ _ loop])
    show "Q {} p" using assms(2) by (simp add: Q_def link_inv_def)
  next
    fix x js s u
    assume x: "x \<in> set (directory p)" "Q js s" "(case x of (_, a) \<Rightarrow> reset_token env i a) s = (Done (), u)"
    have len: "length (sessions s) = length (sessions p)"
      using x(2) map_eq_imp_length_eq unfolding Q_def by blast
    have "reset_token env i (snd x) s = (Done (), u)" "i < length (sessions s)" "sized s (snd x)"
      using x assms(3) len by (auto simp: Q_def split: prod.splits)
    from reset_token_Done[OF this] x(2) show "Q (insert x js) u"
      by (auto simp: Q_def)
  qed
  then show ?thesis by (auto simp: Q_def)
qed

lemma silent_keeps_links:
  assumes "silent m" and J: "\<And>p q. links p = links q \<Longrightarrow> J p \<Longrightarrow> J q"
  shows "keeps J m"
  unfolding keeps_def using silentD[OF assms(1)] J by metis

lemma SendDirectoryResponse_core:
  "map core (sessions (snd (SendDirectoryResponse env i p))) = map core (sessions p) \<and>
   directory (snd (SendDirectoryResponse env i p)) = directory p"
proof -
  define J where "J s \<longleftrightarrow> map core (sessions s) = map core (sessions p) \<and> directory s = directory p"
    for s :: provider
  have L: "J q \<Longrightarrow> links q = links r \<Longrightarrow> J r" for q r by (simp add: J_def links_def)
  have S: "keeps J (Submit env i msg t)" for msg t
    unfolding keeps_def
  proof (intro allI impI)
    fix s assume "J s"
    then show "J (snd (Submit env i msg t s))"
      using Submit_links[of env i msg t s] by (auto simp: links_def J_def split: if_splits)
  qed
  have "keeps J (SendDirectoryResponse env i)"
    unfolding SendDirectoryResponse_def
    by (intro keeps_bindm keeps_try keeps_seq keeps_if keeps_ret S)
      (rule silent_keeps_links, (intro silent_intro)?, erule (1) L)+
  then show ?thesis using keepsD[of J _ p] by (simp add: J_def)
qed

section \<open>Handling events\<close>

lemma unmute:
  assumes I: "link_inv p" and "i < length (sessions p)" "has_provider (sessions p ! i)"
    and T: "\<forall>a \<in> snd ` set (directory p). has_token p i a"
  shows "link_inv (snd (on_session i (\<lambda>s. s\<lparr>is_muted := False\<rparr>) p))"
proof -
  let ?q = "p\<lparr>sessions := (sessions p)[i := (sessions p ! i)\<lparr>is_muted := False\<rparr>]\<rparr>"
  have h: "has_token ?q = has_token p" "sized ?q = sized p"
    by (simp_all add: has_token_def sized_def fun_eq_iff)
  then have s: "session_inv ?q = session_inv p" by (simp add: fun_eq_iff)
  have "session_inv p j (core (sessions ?q ! j))" if "j < length (sessions p)" for j
    using I that assms by (cases "j = i") (auto simp: link_inv_def core_def)
  then show ?thesis using I s h by (simp add: link_inv_def on_session_def method_simps)
qed

lemma OnLoginSuccess_keeps:
  assumes "link_inv p" "i < length (sessions p)" "has_provider (sessions p ! i)"
  shows "link_inv (snd (OnLoginSuccess env i p))"
proof -
  let ?b = "bump i SESSION_PC_MMT_LOGIN_SUCCESS_RECEIVED"
  let ?body = "bindm (SendDirectoryResponse env i) (\<lambda>_. bindm (ResetTokens env i) (\<lambda>_.
      on_session i (\<lambda>s. s\<lparr>is_muted := False\<rparr>)))"
  obtain p1 where p1: "?b p = (Done (), p1)" by (simp add: bump_def on_session_def method_simps)
  have l1: "links p1 = links p" using silentD[OF silent_bump, of i _ p] p1 by (metis snd_conv)
  have I1: "link_inv p1" by (rule link_inv_links[OF l1[symmetric] assms(1)])
  have n1: "i < length (sessions p1)" "has_provider (sessions p1 ! i)"
    using links_length[OF l1] links_core[OF l1, of i] assms(2,3) by (simp_all add: core_def)
  have "link_inv (snd (?body p1))"
  proof (cases "SendDirectoryResponse env i p1")
    case (Pair o2 p2)
    have I2: "link_inv p2" using keepsD[OF keeps_SendDirectoryResponse I1, of env i] Pair by simp
    have c2: "map core (sessions p2) = map core (sessions p1)"
      using SendDirectoryResponse_core[of env i p1] Pair by simp
    then have n2: "i < length (sessions p2)" using n1 by (metis length_map)
    have "core (sessions p2 ! i) = core (sessions p1 ! i)" using c2 n1 n2 by (metis nth_map)
    then have a2: "has_provider (sessions p2 ! i)" using n1(2) by (simp add: core_def)
    show ?thesis
    proof (cases "ResetTokens env i p2")
      case (Pair o3 p3)
      have I3: "link_inv p3" using keepsD[OF keeps_ResetTokens I2, of env i] Pair by simp
      show ?thesis
      proof (cases o3)
        case (Done b)
        note R = ResetTokens_Done[OF Pair[unfolded Done] I2 n2]
        have n3: "i < length (sessions p3)" using R n2 by (metis length_map)
        have "core (sessions p3 ! i) = core (sessions p2 ! i)" using R n2 n3 by (metis nth_map)
        then have "has_provider (sessions p3 ! i)" using a2 by (simp add: core_def)
        then have "link_inv (snd (on_session i (\<lambda>s. s\<lparr>is_muted := False\<rparr>) p3))"
          by (intro unmute[OF I3 n3]) (use R a2 in simp_all)
        then show ?thesis
          using \<open>SendDirectoryResponse env i p1 = (o2, p2)\<close> Pair Done I2
          by (cases o2) (simp_all add: bindm_def)
      next
        case (Raise e)
        then show ?thesis
          using \<open>SendDirectoryResponse env i p1 = (o2, p2)\<close> Pair I2 I3
          by (cases o2) (simp_all add: bindm_def)
      next
        case Diverged
        then show ?thesis
          using \<open>SendDirectoryResponse env i p1 = (o2, p2)\<close> Pair I2 I3
          by (cases o2) (simp_all add: bindm_def)
      qed
    qed
  qed
  then show ?thesis
    by (auto simp: OnLoginSuccess_def seq_def bindm_def[of ?b] p1 try_catch_def method_simps
        split: prod.splits outcome.splits)
qed

definition live :: "nat \<Rightarrow> provider \<Rightarrow> bool" where
  "live i p \<longleftrightarrow> link_inv p \<and> i < length (sessions p) \<and> has_provider (sessions p ! i)"

lemma live_links:
  assumes "links p = links q" "live i p"
  shows "live i q"
  using assms link_inv_links[OF assms(1)] links_length[OF assms(1)] links_core[OF assms(1), of i]
  by (simp add: live_def core_def)

lemma after_silent:
  assumes "silent m" "live i p" "\<And>q. live i q \<Longrightarrow> link_inv (snd (k q))"
  shows "link_inv (snd (seq m k p))"
proof (cases "m p")
  case (Pair o1 q)
  then have "links p = links q" using silentD[OF assms(1), of p] by simp
  then have "live i q" using live_links assms(2) by blast
  then show ?thesis
    using Pair assms(3)[of q] by (cases o1) (auto simp: seq_def bindm_def live_def)
qed

lemma live_silent: "silent m \<Longrightarrow> live i p \<Longrightarrow> link_inv (snd (m p))"
  by (rule keepsD[OF silent_keeps]) (simp_all add: live_def)

lemma live_OnRespMsg: "live i p \<Longrightarrow> link_inv (snd (OnRespMsg env i model stream data p))"
  unfolding OnRespMsg_def
proof (rule after_silent[OF silent_bump], assumption)
  fix q
  assume q: "live i q"
  let ?st = "on_session i (\<lambda>s. s\<lparr>stream_state := Some stream, data_state := Some data\<rparr>)"
  have st: "silent ?st" by (rule silent_on_session) (simp add: core_def)
  have mute: "link_inv (snd (seq (bump i c) (on_session i (\<lambda>s. s\<lparr>is_muted := True\<rparr>)) r))"
    if "live i r" for c r
    by (rule after_silent[OF silent_bump that]) (simp add: keepsD[OF keeps_mute] live_def)
  show "link_inv (snd ((if model \<noteq> MMT_LOGIN then bump i SESSION_PC_RESPONSE_MSGS_DISCARDED
     else seq (bump i SESSION_PC_MMT_LOGIN_RESPONSE_RECEIVED) (seq ?st
      (case stream of
         StreamOpen \<Rightarrow>
           (case data of
              DataOk \<Rightarrow> OnLoginSuccess env i
            | DataSuspect \<Rightarrow> OnLoginSuspect i
            | DataOther \<Rightarrow> bump i SESSION_PC_MMT_LOGIN_RESPONSE_DISCARDED)
       | StreamClosed \<Rightarrow> OnLoginClosed i
       | StreamOther \<Rightarrow> bump i SESSION_PC_MMT_LOGIN_RESPONSE_DISCARDED))) q))"
  proof (cases "model = MMT_LOGIN")
    case False
    then show ?thesis using live_silent[OF silent_bump q] by simp
  next
    case True
    show ?thesis
      unfolding True simp_thms if_False
    proof (rule after_silent[OF silent_bump q], rule after_silent[OF st], assumption)
      fix r
      assume r: "live i r"
      then show "link_inv (snd ((case stream of
         StreamOpen \<Rightarrow>
           (case data of
              DataOk \<Rightarrow> OnLoginSuccess env i
            | DataSuspect \<Rightarrow> OnLoginSuspect i
            | DataOther \<Rightarrow> bump i SESSION_PC_MMT_LOGIN_RESPONSE_DISCARDED)
       | StreamClosed \<Rightarrow> OnLoginClosed i
       | StreamOther \<Rightarrow> bump i SESSION_PC_MMT_LOGIN_RESPONSE_DISCARDED) r))"
        using OnLoginSuccess_keeps[of r i env] live_silent[OF silent_bump r] mute[OF r]
        by (auto simp: live_def OnLoginSuspect_def OnLoginClosed_def split: stream_enum.splits data_enum.splits)
    qed
  qed
qed

lemma live_processEvent: "live i p \<Longrightarrow> link_inv (snd (processEvent env i ev p))"
  unfolding processEvent_def
proof (rule after_silent[OF silent_bump], assumption, rule after_silent[OF silent_touch_session], assumption)
  fix q
  assume q: "live i q"
  have item: "link_inv (snd (OnOMMItemEvent env i msg q))" for msg
    unfolding OnOMMItemEvent_def
    by (rule after_silent[OF silent_bump q])
      (simp split: item_msg.splits add: live_OnRespMsg live_silent silent_bump)
  show "link_inv (snd ((case ev of
       OMMItemEvent msg \<Rightarrow> OnOMMItemEvent env i msg
     | OMMCmdErrorEvent \<Rightarrow> OnOMMCmdErrorEvent i
     | OtherEvent \<Rightarrow> bump i SESSION_PC_RFA_EVENTS_DISCARDED) q))"
    using item live_silent[OF silent_bump q]
    by (simp add: OnOMMCmdErrorEvent_def split: rfa_event.splits)
qed

section \<open>Publishing\<close>

text \<open>A published stream: in the directory, alive.\<close>

definition published :: "nat \<Rightarrow> nat \<Rightarrow> provider \<Rightarrow> bool" where
  "published n a p \<longleftrightarrow> link_inv p \<and> length (sessions p) = n \<and> a \<in> snd ` set (directory p) \<and>
     streams p a \<noteq> None"

lemma published_links: "links p = links q \<Longrightarrow> published n a p \<Longrightarrow> published n a q"
  using link_inv_links[of p q] links_rest[of p q] links_length[of p q] by (simp add: published_def)

lemma published_token:
  assumes "published n a p" "i < n" "\<not> is_muted (sessions p ! i)"
  shows "stream_token p a i \<noteq> None"
proof -
  obtain st where st: "streams p a = Some st" using assms(1) by (auto simp: published_def)
  have "session_inv p i (core (sessions p ! i))" using assms by (auto simp: published_def link_inv_def)
  then have "has_token p i a" using assms by (auto simp: core_def published_def)
  then show ?thesis using st by (simp add: has_token_def stream_token_def)
qed

text \<open>What one session does in \<open>provider_t::Send\<close>.\<close>

definition send_one :: "rfa_env \<Rightarrow> nat \<Rightarrow> resp_msg \<Rightarrow> nat \<Rightarrow> unit operation" where
  "send_one env a msg i =
     bindm (gets (\<lambda>p. stream_token p a i)) (\<lambda>t. bindm (session_Send env i msg t) (\<lambda>_. ret ()))"

lemma send_one_links:
  "links (snd (send_one env a msg i p)) =
     (if \<not> is_muted (sessions p ! i) \<and> has_provider (sessions p ! i)
      then links (p\<lparr>wire := wire p @ [(i, stream_token p a i, msg)]\<rparr>) else links p)"
proof -
  let ?t = "stream_token p a i"
  have r: "snd (bindm m (\<lambda>_. ret ()) s) = snd (m s)" for m and s :: provider
    by (simp add: bindm_def method_simps split: prod.splits outcome.splits)
  have "snd (send_one env a msg i p) = snd (session_Send env i msg ?t p)"
    by (simp add: send_one_def method_simps r)
  moreover have "links (snd (session_Send env i msg ?t p)) =
      (if is_muted (sessions p ! i) then links p else links (snd (Submit env i msg ?t p)))"
    by (simp add: session_Send_def method_simps)
  ultimately show ?thesis by (simp add: Submit_links)
qed

lemma keeps_send_one:
  assumes "i < n"
  shows "keeps (published n a) (send_one env a msg i)"
  unfolding keeps_def
proof (intro allI impI)
  fix p
  assume P: "published n a p"
  show "published n a (snd (send_one env a msg i p))"
  proof (cases "\<not> is_muted (sessions p ! i) \<and> has_provider (sessions p ! i)")
    case True
    have "link_inv (p\<lparr>wire := wire p @ [(i, stream_token p a i, msg)]\<rparr>)"
      using P published_token[OF P assms] True by (intro link_inv_wire) (simp_all add: published_def)
    then have "published n a (p\<lparr>wire := wire p @ [(i, stream_token p a i, msg)]\<rparr>)"
      using P by (simp add: published_def)
    then show ?thesis by (rule published_links[rotated]) (use True in \<open>simp add: send_one_links\<close>)
  next
    case False
    show ?thesis by (rule published_links[OF _ P]) (use False in \<open>auto simp: send_one_links\<close>)
  qed
qed

lemma keeps_provider_Send: "published n a p \<Longrightarrow> link_inv (snd (provider_Send env a msg p))"
proof -
  assume P: "published n a p"
  have silent: "silent (modify (\<lambda>p. p\<lparr>provider_pc_msgs_sent := provider_pc_msgs_sent p + 1\<rparr>) :: unit operation)"
    by (simp add: silent_def keeps_def method_simps links_def)
  have S: "silent m \<Longrightarrow> keeps (published n a) m" for m :: "unit operation"
    by (rule silent_keeps_links, assumption) (rule published_links)
  have "keeps (published n a) (seq (for_each [0..<n] (send_one env a msg))
    (seq (modify (\<lambda>p. p\<lparr>provider_pc_msgs_sent := provider_pc_msgs_sent p + 1\<rparr>))
    (seq (touch_provider env) (ret True))))"
    by (intro keeps_seq keeps_for_each keeps_ret S[OF silent] S[OF silent_touch_provider])
      (simp add: keeps_send_one)
  then have "published n a (snd (provider_Send env a msg p))"
    using P by (simp add: keeps_def provider_Send_def method_simps send_one_def[abs_def] published_def)
  then show ?thesis by (simp add: published_def)
qed

section \<open>Creating streams\<close>

lemma link_inv_streams:
  assumes "link_inv p" "sessions q = sessions p" "directory q = directory p" "wire q = wire p"
    and "\<And>b. b \<in> snd ` set (directory p) \<Longrightarrow> streams q b = streams p b \<or> streams q b = None"
  shows "link_inv q"
proof -
  have h: "has_token q j b" if "has_token p j b" "b \<in> snd ` set (directory p)" for j b
    using that assms(2) assms(5)[of b] by (auto simp: has_token_def)
  have s: "sized q b" if "sized p b" "b \<in> snd ` set (directory p)" for b
    using that assms(2) assms(5)[of b] by (auto simp: sized_def)
  have "session_inv q j c" if "session_inv p j c" for j c
    using that h assms(3) by (cases c) auto
  then show ?thesis using assms(1-4) s unfolding link_inv_def by auto
qed

lemma keeps_session_CreateItemStream: "keeps link_inv (session_CreateItemStream env i a)"
  unfolding session_CreateItemStream_def
  by (intro keeps_bindm keeps_if keeps_seq keeps_ret keeps_gets keeps_set_token silent_keeps
      silent_bump silent_touch_session silent_generateItemToken)

lemma session_CreateItemStream_Done:
  assumes "session_CreateItemStream env i a p = (Done x, q)" "i < length (sessions p)" "sized p a"
  shows "directory q = directory p \<and> map core (sessions q) = map core (sessions p) \<and>
    (\<not> is_muted (sessions p ! i) \<longrightarrow> has_token q i a) \<and>
    (\<forall>j b. has_token p j b \<longrightarrow> has_token q j b) \<and> (\<forall>b. sized p b \<longrightarrow> sized q b)"
proof (cases "is_muted (sessions p ! i)")
  case True
  then show ?thesis using assms(1) by (simp add: session_CreateItemStream_def method_simps)
next
  case False
  have k: "silent (seq (bump i SESSION_PC_TOKENS_GENERATED) (seq (touch_session env i) (ret True)))"
    by (intro silent_intro)
  show ?thesis
    using new_token_Done[OF _ k assms(2,3), of env x q] assms(1) False
    by (simp add: session_CreateItemStream_def method_simps)
qed

lemma emplace_back_cases:
  "emplace_back k v m = m \<or> (k \<notin> fst ` set m \<and> emplace_back k v m = m @ [(k, v)])"
  by (auto simp: emplace_back_def map_of_eq_None_iff)

lemma length_resize [simp]: "length (resize n x xs) = n"
  by (simp add: resize_def)

lemma add_entry:
  assumes "link_inv p" "sized p a"
    and "\<forall>i < length (sessions p). \<not> is_muted (sessions p ! i) \<longrightarrow> has_token p i a"
  shows "link_inv (p\<lparr>directory := emplace_back name a (directory p)\<rparr>)"
proof -
  let ?q = "p\<lparr>directory := emplace_back name a (directory p)\<rparr>"
  consider "directory ?q = directory p"
    | "name \<notin> fst ` set (directory p)" "directory ?q = directory p @ [(name, a)]"
    using emplace_back_cases[of name a "directory p"] by auto
  then show ?thesis
  proof cases
    case 1
    then show ?thesis by (intro link_inv_streams[OF assms(1)]) simp_all
  next
    case 2
    have h: "has_token ?q = has_token p" "sized ?q = sized p"
      by (simp_all add: has_token_def sized_def fun_eq_iff)
    have "session_inv ?q i (core (sessions p ! i))" if "i < length (sessions p)" for i
    proof -
      have "session_inv p i (core (sessions p ! i))" using assms(1) that by (simp add: link_inv_def)
      then show ?thesis using that assms(3) 2(2) h by (auto simp: core_def)
    qed
    then show ?thesis using assms(1,2) 2 h by (auto simp: link_inv_def)
  qed
qed

lemma keeps_provider_CreateItemStream:
  assumes I: "link_inv p" and fresh: "a \<notin> snd ` set (directory p)"
  shows "link_inv (snd (provider_CreateItemStream env name a p))"
proof -
  let ?n = "length (sessions p)"
  define p1 where "p1 = p\<lparr>streams := (streams p)(a := map_option
      (\<lambda>st. st\<lparr>stream_name := name, stream_tokens := resize ?n None (stream_tokens st)\<rparr>) (streams p a))\<rparr>"
  have I1: "link_inv p1"
    by (rule link_inv_streams[OF I]) (use fresh in \<open>auto simp: p1_def\<close>)
  have z1: "sized p1 a" by (auto simp: sized_def p1_def)
  let ?loop = "for_each [0..<?n] (\<lambda>i. bindm (session_CreateItemStream env i a) (\<lambda>_. ret ()))"
  have K: "keeps link_inv ?loop"
    by (intro keeps_for_each keeps_bindm keeps_session_CreateItemStream keeps_ret)
  obtain o2 p2 where loop: "?loop p1 = (o2, p2)" by force
  have I2: "link_inv p2" using keepsD[OF K I1] loop by simp
  have P: "provider_CreateItemStream env name a p = seq ?loop
      (seq (modify (\<lambda>p. p\<lparr>directory := emplace_back name a (directory p)\<rparr>))
      (seq (touch_provider env) (ret True))) p1"
    by (simp add: provider_CreateItemStream_def method_simps p1_def)
  show ?thesis
  proof (cases o2)
    case (Done u)
    then have loop': "?loop p1 = (Done (), p2)" using loop by simp
    define Q where "Q js s \<longleftrightarrow> map core (sessions s) = map core (sessions p1) \<and>
        sized s a \<and> (\<forall>j \<in> js. j < ?n \<and> (\<not> is_muted (sessions s ! j) \<longrightarrow> has_token s j a))" for js s
    have "Q ({} \<union> set [0..<?n]) p2"
    proof (rule for_each_collect[OF _ _ loop'])
      show "Q {} p1" using z1 by (simp add: Q_def)
    next
      fix i js s q
      assume i: "i \<in> set [0..<?n]" "Q js s"
        "bindm (session_CreateItemStream env i a) (\<lambda>_. ret ()) s = (Done (), q)"
      have len: "length (sessions s) = ?n"
        using i(2) map_eq_imp_length_eq[of core "sessions s" core "sessions p1"] by (simp add: Q_def p1_def)
      obtain x where x: "session_CreateItemStream env i a s = (Done x, q)"
        using i(3) by (auto simp: bindm_Done method_simps)
      have D: "directory q = directory s \<and> map core (sessions q) = map core (sessions s) \<and>
        (\<not> is_muted (sessions s ! i) \<longrightarrow> has_token q i a) \<and>
        (\<forall>j b. has_token s j b \<longrightarrow> has_token q j b) \<and> (\<forall>b. sized s b \<longrightarrow> sized q b)"
        by (rule session_CreateItemStream_Done[OF x]) (use i(1,2) len in \<open>simp_all add: Q_def\<close>)
      have "is_muted (sessions q ! j) = is_muted (sessions s ! j)" if "j < ?n" for j
      proof -
        have "length (sessions q) = ?n" using D len by (metis length_map)
        then have "core (sessions q ! j) = core (sessions s ! j)" using D that len by (metis nth_map)
        then show ?thesis by (simp add: core_def)
      qed
      then show "Q (insert i js) q"
        using D i(1,2) unfolding Q_def by auto
    qed
    then have Q2: "sized p2 a" "\<forall>j < ?n. \<not> is_muted (sessions p2 ! j) \<longrightarrow> has_token p2 j a"
        "length (sessions p2) = ?n"
      using map_eq_imp_length_eq[of core "sessions p2" core "sessions p1"] by (auto simp: Q_def p1_def)
    then have "link_inv (p2\<lparr>directory := emplace_back name a (directory p2)\<rparr>)"
      by (intro add_entry[OF I2]) simp_all
    moreover have "keeps link_inv (seq (touch_provider env) (ret True))"
      by (intro silent_keeps silent_intro)
    ultimately show ?thesis
      by (simp add: P seq_Done_run[of ?loop, OF loop'] method_simps keeps_def)
  next
    case (Raise e)
    then show ?thesis using I2 by (simp add: P seq_def bindm_def[of ?loop] loop)
  next
    case Diverged
    then show ?thesis using I2 by (simp add: P seq_def bindm_def[of ?loop] loop)
  qed
qed

section \<open>Start-up\<close>

text \<open>A session as its constructor leaves it.\<close>

definition fresh :: "nat \<Rightarrow> nat \<times> bool \<times> bool \<times> bool" where
  "fresh i = (i, False, False, True)"

lemma sessions_init_run:
  "map core (sessions (snd (sessions_init env k cfgs p))) =
     map core (sessions p) @ map fresh [k..<k + length cfgs] \<and>
   directory (snd (sessions_init env k cfgs p)) = directory p \<and>
   wire (snd (sessions_init env k cfgs p)) = wire p"
proof (induction cfgs arbitrary: k p)
  case Nil
  then show ?case by (simp add: method_simps)
next
  case (Cons c cfgs)
  have u: "[k..<k + length (c # cfgs)] = k # [Suc k..<Suc k + length cfgs]"
    by (subst upt_conv_Cons) simp_all
  show ?case
    unfolding u using Cons
    by (simp add: clock_call_def rfa_call_def bindm_def method_simps core_def session_init_def fresh_def)
qed

definition started :: "nat \<Rightarrow> nat \<Rightarrow> provider \<Rightarrow> bool" where
  "started i n p \<longleftrightarrow> link_inv p \<and> length (sessions p) = n \<and>
     (\<forall>j < n. i \<le> j \<longrightarrow> core (sessions p ! j) = fresh j)"

lemma started_links: "links p = links q \<Longrightarrow> started i n p \<Longrightarrow> started i n q"
  using link_inv_links[of p q] links_length[of p q] links_core[of p q] by (auto simp: started_def)

lemma started_Suc: "started i n p \<Longrightarrow> started (Suc i) n p"
  by (simp add: started_def)

lemma started_provider_t:
  "started 0 (length (cfg_sessions cfg)) (snd (provider_t env (provider_init cfg)))"
proof -
  let ?p = "(provider_init cfg)\<lparr>ticks := Suc 0, prov_last_activity := env_clock env 0\<rparr>"
  let ?q = "snd (provider_t env (provider_init cfg))"
  have q: "?q = snd (sessions_init env 0 (cfg_sessions cfg) ?p)"
    by (simp add: provider_t_def touch_provider_def clock_call_def rfa_call_def seq_def bindm_def
        method_simps provider_init_def)
  have c: "map core (sessions ?q) = map fresh [0..<length (cfg_sessions cfg)]"
    "directory ?q = []" "wire ?q = []"
    unfolding q using sessions_init_run[of env 0 "cfg_sessions cfg" ?p]
    by (simp_all add: provider_init_def)
  have n: "length (sessions ?q) = length (cfg_sessions cfg)"
    using arg_cong[OF c(1), of length] by simp
  have f: "core (sessions ?q ! j) = fresh j" if "j < length (cfg_sessions cfg)" for j
    using arg_cong[OF c(1), of "\<lambda>xs. xs ! j"] that n by simp
  show ?thesis
    using c n f by (auto simp: started_def link_inv_def fresh_def)
qed

lemma for_each_upt:
  assumes "\<And>i p. k \<le> i \<Longrightarrow> i < n \<Longrightarrow> J i p \<Longrightarrow> J (Suc i) (snd (f i p))" "J k p" "k \<le> n"
  shows "\<exists>m. J m (snd (for_each [k..<n] f p))"
  using assms
proof (induction "n - k" arbitrary: k p)
  case 0
  then show ?case by (auto simp: method_simps)
next
  case (Suc d)
  have u: "[k..<n] = k # [Suc k..<n]" using Suc.hyps(2) by (simp add: upt_conv_Cons)
  obtain o1 q where q: "f k p = (o1, q)" by force
  have J: "J (Suc k) q" using Suc.prems(1)[of k p] Suc.prems(2) Suc.hyps(2) q by simp
  show ?case
  proof (cases o1)
    case (Done x)
    have "\<exists>m. J m (snd (for_each [Suc k..<n] f q))"
      by (rule Suc.hyps(1)) (use Suc.hyps(2) J Suc.prems(1) in auto)
    then show ?thesis using Done q by (simp add: u seq_def bindm_def)
  qed (use J q in \<open>auto simp: u seq_def bindm_def\<close>)
qed

text \<open>While session \<open>i\<close> is being set up, the later ones are still fresh.\<close>

definition in_setup :: "nat \<Rightarrow> nat \<Rightarrow> provider \<Rightarrow> bool" where
  "in_setup i n p \<longleftrightarrow> live i p \<and> started (Suc i) n p"

lemma in_setup_links: "links p = links q \<Longrightarrow> in_setup i n p \<Longrightarrow> in_setup i n q"
  unfolding in_setup_def using live_links[of p q i] started_links[of p q "Suc i" n] by simp

lemma setup_silent: "silent m \<Longrightarrow> keeps (in_setup i n) m"
  by (rule silent_keeps_links, assumption) (rule in_setup_links)

lemma setup_handle:
  assumes "\<And>s. core (f s) = (instance_id s, has_provider s, h s, is_muted s)"
  shows "keeps (in_setup i n) (on_session i f)"
  unfolding keeps_def
proof (intro allI impI)
  fix p
  assume S: "in_setup i n p"
  let ?q = "p\<lparr>sessions := (sessions p)[i := f (sessions p ! i)]\<rparr>"
  have q: "snd (on_session i f p) = ?q" by (simp add: on_session_def method_simps)
  have h: "has_token ?q = has_token p" "sized ?q = sized p"
    by (simp_all add: has_token_def sized_def fun_eq_iff)
  then have s: "session_inv ?q = session_inv p" by (simp add: fun_eq_iff)
  have i: "i < length (sessions p)" "has_provider (sessions p ! i)" "link_inv p"
    using S by (simp_all add: in_setup_def live_def)
  then have "session_inv p i (core (sessions p ! i))" by (simp add: link_inv_def)
  then have "instance_id (sessions p ! i) = i"
    "\<not> is_muted (sessions p ! i) \<Longrightarrow> \<forall>a \<in> snd ` set (directory p). has_token p i a"
    by (auto simp: core_def)
  then have "session_inv p i (core (f (sessions p ! i)))"
    unfolding assms using i(2) by simp
  then have "session_inv p j (core (sessions ?q ! j))" if "j < length (sessions p)" for j
    using i that by (cases "j = i") (auto simp: link_inv_def)
  then have "link_inv ?q" using i(3) s h by (simp add: link_inv_def)
  moreover have "has_provider (sessions ?q ! i)" using i assms[of "sessions p ! i"] by (simp add: core_def)
  ultimately show "in_setup i n (snd (on_session i f p))"
    using S i unfolding q in_setup_def live_def started_def by simp
qed

lemma silent_store_version: "silent (store_version i v)"
proof -
  have "silent (modify (\<lambda>p. p\<lparr>min_rwf_major_version := fst (degrade (rwf p) v),
                       min_rwf_minor_version := snd (degrade (rwf p) v)\<rparr>) :: unit operation)"
    by (simp add: silent_def keeps_def method_simps links_def)
  moreover have "silent (on_session i (\<lambda>s. s\<lparr>rwf_major_version := fst v, rwf_minor_version := snd v\<rparr>))"
    by (rule silent_on_session) (simp add: core_def)
  ultimately show ?thesis unfolding store_version_def by (rule silent_seq[rotated])
qed

lemma setup_SendLoginRequest: "keeps (in_setup i n) (SendLoginRequest env i)"
proof -
  have l: "silent (modify (\<lambda>p. p\<lparr>login_requests := login_requests p @ xs p\<rparr>) :: unit operation)" for xs
    by (simp add: silent_def keeps_def method_simps links_def)
  have h: "keeps (in_setup i n) (on_session i (\<lambda>s. s\<lparr>item_handle := h\<rparr>))" for h
    by (rule setup_handle[where h = "\<lambda>s. h \<or> error_item_handle s"]) (simp add: core_def)
  show ?thesis
    unfolding SendLoginRequest_def
    by (intro keeps_bindm keeps_seq keeps_if keeps_ret h)
      (intro setup_silent silent_rfa_call silent_bump l silent_store_version)+
qed

lemma CreateOMMProvider_started:
  assumes "started i n p" "i < n"
  shows "started (Suc i) n (snd (CreateOMMProvider env i p))"
proof -
  obtain u p1 where p1: "touch_session env i p = (u, p1)" by force
  have l1: "links p1 = links p" using silentD[OF silent_touch_session, of env i p] p1 by simp
  have S1: "started i n p1" by (rule started_links[OF l1[symmetric] assms(1)])
  then have c1: "core (sessions p1 ! i) = fresh i" "link_inv p1" "length (sessions p1) = n"
    using assms(2) by (simp_all add: started_def)
  obtain created p2 where p2: "rfa_call (env_create_provider env) p1 = (created, p2)" by force
  have l2: "links p2 = links p1" using silentD[OF silent_rfa_call, of _ p1] p2 by (metis snd_conv)
  have S2: "started i n p2" by (rule started_links[OF l2[symmetric] S1])
  then have c2: "core (sessions p2 ! i) = fresh i" "link_inv p2" "length (sessions p2) = n"
    using assms(2) by (simp_all add: started_def)
  define q where "q b = snd (on_session i (\<lambda>s. s\<lparr>has_provider := b\<rparr>) p2)" for b
  have qs: "sessions (q b) = (sessions p2)[i := (sessions p2 ! i)\<lparr>has_provider := b\<rparr>]"
    "directory (q b) = directory p2" "streams (q b) = streams p2" "wire (q b) = wire p2" for b
    by (simp_all add: q_def on_session_def method_simps)
  have h: "has_token (q b) = has_token p2" "sized (q b) = sized p2" for b
    by (simp_all add: has_token_def sized_def fun_eq_iff qs)
  have s: "session_inv (q b) = session_inv p2" for b using h qs by (simp add: fun_eq_iff)
  have "session_inv p2 j (core (sessions (q b) ! j))" if "j < n" for j b
    using that c2 by (cases "j = i") (auto simp: link_inv_def qs core_def fresh_def)
  then have I: "link_inv (q b)" for b using c2 s h qs by (simp add: link_inv_def)
  have Sq: "started (Suc i) n (q b)" for b
    using I S2 c2 by (simp add: started_def qs)
  have in_setup: "in_setup i n (q True)"
    using I[of True] Sq[of True] c2 assms(2) by (simp add: in_setup_def live_def qs)
  define rest where "rest = bindm (rfa_call (env_register env)) (\<lambda>handle.
      seq (on_session i (\<lambda>s. s\<lparr>error_item_handle := handle\<rparr>))
        (if \<not> handle then ret False else SendLoginRequest env i))"
  have e: "keeps (in_setup i n) (on_session i (\<lambda>s. s\<lparr>error_item_handle := h\<rparr>))" for h
    by (rule setup_handle[where h = "\<lambda>s. item_handle s \<or> h"]) (simp add: core_def)
  have "keeps (in_setup i n) rest"
    unfolding rest_def
    by (intro keeps_bindm keeps_seq keeps_if keeps_ret e setup_SendLoginRequest setup_silent[OF silent_rfa_call])
  then have "in_setup i n (snd (rest (q True)))"
    by (rule keepsD) (rule in_setup)
  then have R: "started (Suc i) n (snd (rest (q True)))"
    by (simp add: in_setup_def)
  have on: "seq (on_session i (\<lambda>s. s\<lparr>has_provider := b\<rparr>)) k p2 = k (q b)" for b and k :: "bool operation"
    by (rule seq_Done_run) (simp add: q_def on_session_def method_simps)
  show ?thesis
    using started_Suc[OF S1] started_Suc[OF S2] Sq R p2
    by (cases u; cases created)
      (auto simp: CreateOMMProvider_def seq_def[of "touch_session env i"] bindm_def[of "touch_session env i"]
        p1 method_simps bindm_def[of "rfa_call (env_create_provider env)"] rest_def[symmetric] on)
qed

lemma silent_session_Init: "silent (session_Init env i)"
  unfolding session_Init_def
  by (intro silent_intro silent_on_session) (simp add: core_def)

lemma started_provider_Init:
  assumes "started 0 n p"
  shows "\<exists>m. started m n (snd (provider_Init env version_ok p))"
proof -
  let ?a = "for_each [0..<n] (\<lambda>i. bindm (session_Init env i) (\<lambda>_. ret ()))"
  let ?b = "for_each [0..<n] (\<lambda>i. bindm (CreateOMMProvider env i) (\<lambda>_. ret ()))"
  have len: "length (sessions p) = n" using assms by (simp add: started_def)
  have "keeps (started 0 n) ?a"
    by (intro keeps_for_each keeps_bindm keeps_ret silent_keeps_links[OF silent_session_Init])
      (rule started_links)
  then have A: "started 0 n (snd (?a p))" by (rule keepsD) (rule assms)
  have B: "\<exists>m. started m n (snd (?b q))" if "started 0 n q" for q
    by (rule for_each_upt[where J = "\<lambda>i. started i n"])
      (use that in \<open>simp_all add: snd_ignore CreateOMMProvider_started\<close>)
  obtain o1 q where q: "?a p = (o1, q)" by force
  have P: "provider_Init env version_ok p =
      seq ?a (if \<not> version_ok then ret False else seq ?b (ret True)) p"
    by (simp add: provider_Init_def method_simps len)
  have S: "\<exists>m. started m n (snd (seq ?b (ret True) q))"
  proof -
    have "snd (seq ?b (ret True) q) = snd (?b q)"
      by (simp add: seq_def bindm_def[of ?b] method_simps split: prod.splits outcome.splits)
    then show ?thesis using B[of q] A q by simp
  qed
  show ?thesis
    unfolding P using A q S by (cases o1; cases version_ok)
      (auto simp: seq_def[of ?a] bindm_def[of ?a] method_simps)
qed

section \<open>The transition system\<close>

text \<open>
  The steps of a started provider: an event for a session with a registered client, the
  creation of a stream at an address no live or expired entry of the directory has, a message
  through a stream of the directory, and the release of a stream.
\<close>

inductive link_step :: "rfa_env \<Rightarrow> provider \<Rightarrow> provider \<Rightarrow> bool" for env :: rfa_env where
  event: "i < length (sessions p) \<Longrightarrow> item_handle (sessions p ! i) \<or> error_item_handle (sessions p ! i) \<Longrightarrow>
    link_step env p (snd (processEvent env i ev p))"
| create: "streams p a = None \<Longrightarrow> a \<notin> snd ` set (directory p) \<Longrightarrow>
    link_step env p (snd (seq (make_stream a) (provider_CreateItemStream env name a) p))"
| send: "(name, a) \<in> set (directory p) \<Longrightarrow> streams p a \<noteq> None \<Longrightarrow>
    link_step env p (snd (provider_Send env a msg p))"
| release: "link_step env p (snd (drop_stream a p))"

inductive_simps link_step_simps: "link_step env p q"

inductive link_reach :: "rfa_env \<Rightarrow> config \<Rightarrow> provider \<Rightarrow> bool" for env :: rfa_env and cfg :: config where
  start: "link_reach env cfg (snd (seq (provider_t env) (provider_Init env version_ok) (provider_init cfg)))"
| step: "link_reach env cfg p \<Longrightarrow> link_step env p q \<Longrightarrow> link_reach env cfg q"

lemma link_step_inv:
  assumes "link_step env p q" "link_inv p"
  shows "link_inv q"
  using assms
proof cases
  case (event i ev)
  have "session_inv p i (core (sessions p ! i))" using event assms(2) by (simp add: link_inv_def)
  then have "live i p" using event assms(2) by (auto simp: live_def core_def)
  then show ?thesis using live_processEvent event by simp
next
  case (create a name)
  let ?p = "p\<lparr>streams := (streams p)(a \<mapsto> \<lparr>stream_name = [], stream_tokens = []\<rparr>)\<rparr>"
  have "link_inv ?p" by (rule link_inv_streams[OF assms(2)]) (use create in auto)
  then have "link_inv (snd (provider_CreateItemStream env name a ?p))"
    by (rule keeps_provider_CreateItemStream) (use create in simp)
  then show ?thesis using create by (simp add: make_stream_def method_simps)
next
  case (send name a msg)
  have "published (length (sessions p)) a p"
    using send assms(2) by (force simp: published_def)
  then show ?thesis using keeps_provider_Send send by simp
next
  case (release a)
  then show ?thesis
    by (intro link_inv_streams[OF assms(2)]) (auto simp: drop_stream_def method_simps)
qed

lemma link_reach_inv: "link_reach env cfg p \<Longrightarrow> link_inv p"
proof (induction rule: link_reach.induct)
  case (start version_ok)
  let ?p = "snd (provider_t env (provider_init cfg))"
  have "started 0 (length (cfg_sessions cfg)) ?p" by (rule started_provider_t)
  then obtain m where "started m (length (cfg_sessions cfg)) (snd (provider_Init env version_ok ?p))"
    using started_provider_Init by blast
  then have "link_inv (snd (provider_Init env version_ok ?p))" "link_inv ?p"
    using started_provider_t[of cfg env] by (simp_all add: started_def)
  then show ?case
    by (cases "provider_t env (provider_init cfg)"; cases "fst (provider_t env (provider_init cfg))")
      (simp_all add: seq_def bindm_def[of "provider_t env"])
next
  case (step p q)
  then show ?case using link_step_inv by blast
qed

text \<open>
  C3. Whenever a session may publish, it has a provider and holds a token for every live stream of
  the directory, in every state a provider can reach: logins, suspensions and log-outs in any
  order, streams created and released at any time, and RFA calls that fail or throw anywhere.
\<close>

theorem unmuted_session_has_tokens:
  assumes "link_reach env cfg p" "i < length (sessions p)" "\<not> is_muted (sessions p ! i)"
    and "(name, a) \<in> set (directory p)" "streams p a = Some st"
  shows "has_provider (sessions p ! i) \<and> length (stream_tokens st) = length (sessions p) \<and>
    stream_tokens st ! i \<noteq> None"
proof -
  have I: "link_inv p" by (rule link_reach_inv[OF assms(1)])
  then have "session_inv p i (core (sessions p ! i))" using assms(2) by (simp add: link_inv_def)
  then have "has_provider (sessions p ! i)" "has_token p i a"
    using assms(3,4) by (force simp: core_def)+
  then show ?thesis using assms(5) by (simp add: has_token_def)
qed

text \<open>
  As long as every operation runs to its end before the next one starts, no message is submitted with a
  null item token. What is left of this when the timer thread publishes while the event thread
  handles a login is in \<open>Provider_Threads\<close>.
\<close>

theorem wire_has_tokens:
  assumes "link_reach env cfg p" "(i, t, msg) \<in> set (wire p)"
  shows "t \<noteq> None"
  using link_reach_inv[OF assms(1)] assms(2) by (auto simp: link_inv_def)

section \<open>A run\<close>

text \<open>An RFA that answers every call, and one session that logs in, opens a stream and publishes.\<close>

definition demo_env :: rfa_env where
  "demo_env =
     \<lparr>env_acquire = (\<lambda>_. Done True), env_create_provider = (\<lambda>_. Done True),
      env_register = (\<lambda>_. Done True), env_validate = (\<lambda>_. Done MsgValidationOk),
      env_version = (\<lambda>_. Done (14, 1)), env_token = (\<lambda>n. Done n), env_submit = (\<lambda>_. Done 0),
      env_clock = (\<lambda>n. int n)\<rparr>"

definition demo_config :: config where
  "demo_config = config_init\<lparr>service_name := ''NI_VTA'',
     cfg_sessions := [session_config_init\<lparr>session_name := ''Session'', user_name := ''user1''\<rparr>]\<rparr>"

definition demo_start :: provider where
  "demo_start = snd (seq (provider_t demo_env) (provider_Init demo_env True) (provider_init demo_config))"

definition demo_open :: provider where
  "demo_open = snd (seq (make_stream 0) (provider_CreateItemStream demo_env ''MI'' 0) demo_start)"

definition demo_login :: provider where
  "demo_login = snd (processEvent demo_env 0 (OMMItemEvent (RespMsg MMT_LOGIN StreamOpen DataOk)) demo_open)"

definition demo_sent :: provider where
  "demo_sent = snd (provider_Send demo_env 0 (directory_message OmmBlank) demo_login)"

definition observe where
  "observe p = (map (\<lambda>s. (has_provider s, item_handle s, is_muted s)) (sessions p), directory p,
     streams p 0, map (\<lambda>(i, t, _). (i, t)) (wire p))"

lemmas demo_defs = observe_def demo_config_def demo_env_def config_init_def session_config_init_def
  provider_t_def provider_init_def session_init_def provider_Init_def session_Init_def
  CreateOMMProvider_def SendLoginRequest_def store_version_def degrade_def rwf_def login_attributes_def
  make_stream_def provider_CreateItemStream_def session_CreateItemStream_def emplace_back_def resize_def
  processEvent_def OnOMMItemEvent_def OnRespMsg_def OnLoginSuccess_def SendDirectoryResponse_def
  GetServiceDirectory_def generateItemToken_def Submit_def ResetTokens_def reset_token_def set_token_def
  provider_Send_def session_Send_def stream_token_def

lemma demo_start_run: "observe demo_start = ([(True, True, True)], [], None, [])"
  by (simp add: demo_start_def rfa_run demo_defs cong: bindm_weak)

lemma demo_open_run:
  "observe demo_open = ([(True, True, True)], [(''MI'', 0)], Some \<lparr>stream_name = ''MI'', stream_tokens = [None]\<rparr>, [])"
  by (simp add: demo_open_def demo_start_def rfa_run demo_defs cong: bindm_weak)

lemma demo_login_run:
  "observe demo_login = ([(True, True, False)], [(''MI'', 0)],
     Some \<lparr>stream_name = ''MI'', stream_tokens = [Some 17]\<rparr>, [(0, Some 14)])"
  by (simp add: demo_login_def demo_open_def demo_start_def rfa_run demo_defs cong: bindm_weak)

lemma demo_sent_run:
  "observe demo_sent = ([(True, True, False)], [(''MI'', 0)],
     Some \<lparr>stream_name = ''MI'', stream_tokens = [Some 17]\<rparr>, [(0, Some 14), (0, Some 17)])"
  by (simp add: demo_sent_def demo_login_def demo_open_def demo_start_def rfa_run demo_defs cong: bindm_weak)

lemma demo_reach: "link_reach demo_env demo_config demo_start" "link_reach demo_env demo_config demo_open"
  "link_reach demo_env demo_config demo_login" "link_reach demo_env demo_config demo_sent"
proof -
  show s: "link_reach demo_env demo_config demo_start" unfolding demo_start_def by (rule link_reach.start)
  show o: "link_reach demo_env demo_config demo_open"
    unfolding demo_open_def
    by (rule link_reach.step[OF s], rule link_step.create) (use demo_start_run in \<open>simp_all add: observe_def\<close>)
  have "length (sessions demo_open) = 1" "item_handle (sessions demo_open ! 0)"
    using demo_open_run by (auto simp: observe_def)
  then show l: "link_reach demo_env demo_config demo_login"
    unfolding demo_login_def by (intro link_reach.step[OF o] link_step.event) simp_all
  show "link_reach demo_env demo_config demo_sent"
    unfolding demo_sent_def
    by (rule link_reach.step[OF l], rule link_step.send[of "''MI''"])
      (use demo_login_run in \<open>simp_all add: observe_def\<close>)
qed

theorem unmuted_session_has_tokens_witness:
  "has_provider (sessions demo_login ! 0) \<and>
   stream_tokens \<lparr>stream_name = ''MI'', stream_tokens = [Some 17]\<rparr> ! 0 \<noteq> None"
proof -
  have "length (sessions demo_login) = 1" "\<not> is_muted (sessions demo_login ! 0)"
    "(''MI'', 0) \<in> set (directory demo_login)"
    "streams demo_login 0 = Some \<lparr>stream_name = ''MI'', stream_tokens = [Some 17]\<rparr>"
    using demo_login_run by (auto simp: observe_def)
  then show ?thesis
    using unmuted_session_has_tokens[OF demo_reach(3), of 0 "''MI''" 0] by simp
qed

theorem wire_has_tokens_witness:
  "map (\<lambda>(i, t, _). (i, t)) (wire demo_sent) = [(0, Some 14), (0, Some 17)] \<and>
   (\<exists>i t msg. wire demo_sent ! 1 = (i, t, msg) \<and> t \<noteq> None)"
proof -
  have w: "map (\<lambda>(i, t, _). (i, t)) (wire demo_sent) = [(0, Some 14), (0, Some 17)]"
    using demo_sent_run by (auto simp: observe_def)
  then have "length (wire demo_sent) = 2" by (metis length_Cons length_map list.size(3) numeral_2_eq_2)
  then have "wire demo_sent ! 1 \<in> set (wire demo_sent)" by simp
  moreover obtain i t msg where "wire demo_sent ! 1 = (i, t, msg)" by (cases "wire demo_sent ! 1")
  ultimately show ?thesis using w wire_has_tokens[OF demo_reach(4), of i t msg] by auto
qed

section \<open>What is sent, and when a session is muted\<close>

lemma send_one_Done:
  assumes "send_one env a msg i p = (Done (), q)"
  shows "map core (sessions q) = map core (sessions p) \<and> directory q = directory p \<and>
    streams q = streams p \<and>
    wire q = wire p @ (if is_muted (sessions p ! i) then [] else [(i, stream_token p a i, msg)])"
proof -
  have l: "links q = (if \<not> is_muted (sessions p ! i) \<and> has_provider (sessions p ! i)
      then links (p\<lparr>wire := wire p @ [(i, stream_token p a i, msg)]\<rparr>) else links p)"
    using send_one_links[of env a msg i p] assms by simp
  have "has_provider (sessions p ! i)" if "\<not> is_muted (sessions p ! i)"
    using assms that
    by (auto simp: send_one_def session_Send_def Submit_def method_simps bindm_Done split: if_splits)
  then show ?thesis using l by (auto simp: links_def split: if_splits)
qed

lemma core_muted: "map core (sessions q) = map core (sessions p) \<Longrightarrow> map is_muted (sessions q) = map is_muted (sessions p)"
proof -
  assume "map core (sessions q) = map core (sessions p)"
  then have "map ((\<lambda>(_, _, _, m). m) \<circ> core) (sessions q) = map ((\<lambda>(_, _, _, m). m) \<circ> core) (sessions p)"
    by (simp flip: map_map)
  then show ?thesis by (simp add: core_def comp_def)
qed

lemma send_all_Done:
  assumes "for_each xs (send_one env a msg) p = (Done (), q)" "\<forall>i \<in> set xs. i < length (sessions p)"
  shows "map core (sessions q) = map core (sessions p) \<and> directory q = directory p \<and>
    streams q = streams p \<and>
    wire q = wire p @ [(i, stream_token p a i, msg). i \<leftarrow> xs, \<not> is_muted (sessions p ! i)]"
  using assms
proof (induction xs arbitrary: p)
  case Nil
  then show ?case by (simp add: method_simps)
next
  case (Cons x xs)
  obtain r where r: "send_one env a msg x p = (Done (), r)" "for_each xs (send_one env a msg) r = (Done (), q)"
    using Cons.prems(1) by (auto simp: seq_Done)
  note S = send_one_Done[OF r(1)]
  have n: "length (sessions r) = length (sessions p)"
    using S map_eq_imp_length_eq by blast
  have m: "is_muted (sessions r ! i) = is_muted (sessions p ! i)" if "i < length (sessions p)" for i
    using core_muted[of r p] S that n by (metis nth_map)
  have t: "stream_token r a = stream_token p a" using S by (simp add: stream_token_def fun_eq_iff)
  have "[(i, stream_token r a i, msg). i \<leftarrow> xs, \<not> is_muted (sessions r ! i)] =
      [(i, stream_token p a i, msg). i \<leftarrow> xs, \<not> is_muted (sessions p ! i)]"
    using Cons.prems(2) m t by (intro arg_cong[where f = concat] map_cong) auto
  then show ?case using Cons.IH[OF r(2)] Cons.prems(2) S n by simp
qed

lemma keeps_msgs_sent: 
  "keeps (\<lambda>p. provider_pc_msgs_sent p = c) (for_each xs (send_one env a msg))"
  unfolding send_one_def session_Send_def Submit_def bump_def touch_session_def clock_call_def on_session_def
  by (intro keeps_intro keeps_rfa_call keeps_modify) simp_all

lemma provider_Send_Done:
  assumes "provider_Send env a msg p = (Done b, q)"
  shows "wire q = wire p @
      [(i, stream_token p a i, msg). i \<leftarrow> [0..<length (sessions p)], \<not> is_muted (sessions p ! i)] \<and>
    map is_muted (sessions q) = map is_muted (sessions p) \<and> directory q = directory p \<and>
    streams q = streams p \<and> provider_pc_msgs_sent q = provider_pc_msgs_sent p + 1"
proof -
  let ?n = "length (sessions p)"
  obtain r where r: "for_each [0..<?n] (send_one env a msg) p = (Done (), r)"
    "seq (modify (\<lambda>p. p\<lparr>provider_pc_msgs_sent := provider_pc_msgs_sent p + 1\<rparr>))
      (seq (touch_provider env) (ret True)) r = (Done b, q)"
    using assms by (auto simp: provider_Send_def method_simps seq_Done send_one_def[abs_def])
  have q: "q = r\<lparr>provider_pc_msgs_sent := provider_pc_msgs_sent r + 1, ticks := Suc (ticks r),
      prov_last_activity := env_clock env (ticks r)\<rparr>"
    using r(2) by (simp add: rfa_run cong: bindm_weak)
  have "provider_pc_msgs_sent r = provider_pc_msgs_sent p"
    using keepsD[OF keeps_msgs_sent, of p _ "[0..<?n]" env a msg] r(1) by simp
  then show ?thesis
    using send_all_Done[OF r(1)] core_muted[of r p] q by simp
qed

text \<open>
  C6. A message sent through a stream goes out once on every session that is not muted, in the
  order of the sessions, with the token that session holds for the stream; muted sessions send
  nothing, and publishing changes neither the permissions nor the directory nor a token.
\<close>

theorem provider_Send_wire:
  assumes "provider_Send env a msg p = (Done b, q)"
  shows "wire q = wire p @
      [(i, stream_token p a i, msg). i \<leftarrow> [0..<length (sessions p)], \<not> is_muted (sessions p ! i)] \<and>
    map is_muted (sessions q) = map is_muted (sessions p) \<and> directory q = directory p \<and>
    streams q = streams p \<and> provider_pc_msgs_sent q = provider_pc_msgs_sent p + 1"
  using assms by (rule provider_Send_Done)

theorem provider_Send_wire_witness:
  "wire (snd (provider_Send demo_env 0 (directory_message OmmBlank) demo_login)) =
   wire demo_login @ [(0, Some 17, directory_message OmmBlank)]"
proof -
  have s: "length (sessions demo_login) = 1" "\<not> is_muted (sessions demo_login ! 0)"
    "stream_token demo_login 0 0 = Some 17"
    using demo_login_run by (auto simp: observe_def stream_token_def)
  have "fst (provider_Send demo_env 0 (directory_message OmmBlank) demo_login) = Done True"
    by (simp add: demo_login_def demo_open_def demo_start_def rfa_run demo_defs cong: bindm_weak)
  then obtain q where "provider_Send demo_env 0 (directory_message OmmBlank) demo_login = (Done True, q)"
    by (cases "provider_Send demo_env 0 (directory_message OmmBlank) demo_login") simp
  from provider_Send_wire[OF this] this s show ?thesis by simp
qed

text \<open>The permissions after a method that only \<open>OnLoginSuccess\<close> can change.\<close>

definition mutes_are :: "bool list \<Rightarrow> provider \<Rightarrow> bool" where
  "mutes_are ms p \<longleftrightarrow> map is_muted (sessions p) = ms"

lemma keeps_mutes_silent: "silent m \<Longrightarrow> keeps (mutes_are ms) m"
proof (rule silent_keeps_links, assumption)
  fix p q
  assume "links p = links q" "mutes_are ms p"
  then show "mutes_are ms q" using core_muted[of q p] by (simp add: links_def mutes_are_def)
qed

lemma keeps_mutes_tokens: "keeps (mutes_are ms) (set_token a i t)"
  by (simp add: keeps_def mutes_are_def tokens_set)

lemma keeps_mutes_Submit: "keeps (mutes_are ms) (Submit env i msg t)"
  unfolding Submit_def
  by (intro keeps_intro keeps_modify keeps_mutes_silent[OF silent_rfa_call]
      keeps_mutes_silent[OF silent_bump] keeps_mutes_silent[OF silent_touch_session])
    (simp add: mutes_are_def)

lemma keeps_mutes_directory: "keeps (mutes_are ms) (SendDirectoryResponse env i)"
  unfolding SendDirectoryResponse_def
  by (intro keeps_intro keeps_mutes_Submit keeps_mutes_silent[OF silent_rfa_call]
      keeps_mutes_silent[OF silent_bump] keeps_mutes_silent[OF silent_GetServiceDirectory]
      keeps_mutes_silent[OF silent_generateItemToken])

lemma keeps_mutes_reset: "keeps (mutes_are ms) (ResetTokens env i)"
  unfolding ResetTokens_def
  by (intro keeps_intro)
    (auto simp: reset_token_def intro!: keeps_intro keeps_mutes_tokens
      keeps_mutes_silent[OF silent_bump] keeps_mutes_silent[OF silent_generateItemToken])

lemma set_muted:
  "mutes_are ms p \<Longrightarrow> mutes_are (ms[i := b]) (snd (on_session i (\<lambda>s. s\<lparr>is_muted := b\<rparr>) p))"
proof -
  assume "mutes_are ms p"
  then show ?thesis
    by (cases "i < length (sessions p)")
      (auto simp: mutes_are_def on_session_def method_simps map_update)
qed

text \<open>An answer of RFA is not the exception a login handler swallows.\<close>

definition never_invalid :: "rfa_env \<Rightarrow> bool" where
  "never_invalid env \<longleftrightarrow> (\<forall>n. env_token env n \<noteq> Raise Rfa_Invalid_Usage \<and>
     env_submit env n \<noteq> Raise Rfa_Invalid_Usage)"

definition tame :: "(provider, 'a) method \<Rightarrow> bool" where
  "tame m \<longleftrightarrow> (\<forall>p. fst (m p) \<noteq> Raise Rfa_Invalid_Usage)"

lemma tame_intro:
  "tame (ret x)" "tame (gets g)" "tame (modify h)" "tame (throw Null_Deref)"
  "\<forall>n. answer n \<noteq> Raise Rfa_Invalid_Usage \<Longrightarrow> tame (rfa_call answer)"
  by (simp_all add: tame_def method_simps rfa_call_def)

lemma tame_bindm: "tame m \<Longrightarrow> (\<And>x. tame (f x)) \<Longrightarrow> tame (bindm m f)"
  unfolding tame_def by (auto simp: bindm_def split: prod.splits outcome.splits) (metis fst_conv)+

lemma tame_seq: "tame m \<Longrightarrow> tame k \<Longrightarrow> tame (seq m k)"
  by (simp add: seq_def tame_bindm)

lemma tame_for_each: "(\<And>x. x \<in> set xs \<Longrightarrow> tame (f x)) \<Longrightarrow> tame (for_each xs f)"
  by (induction xs) (simp_all add: tame_intro tame_seq)

lemma tame_bump: "tame (bump i c)" and tame_touch: "tame (touch_session env i)" "tame (touch_provider env)"
  unfolding bump_def on_session_def touch_session_def touch_provider_def clock_call_def
  by (intro tame_bindm tame_intro; simp)+

lemma tame_try: "tame (try_catch m (\<lambda>e. e = Rfa_Invalid_Usage) h)" if "\<And>e. tame (h e)"
  using that unfolding tame_def try_catch_def by (auto split: prod.splits outcome.splits)

lemma tame_token: "never_invalid env \<Longrightarrow> tame (generateItemToken env i)"
  unfolding generateItemToken_def never_invalid_def
  by (intro tame_bindm tame_intro) (auto intro: tame_intro)

lemma tame_login_body:
  assumes "never_invalid env"
  shows "tame (SendDirectoryResponse env i)" "tame (ResetTokens env i)"
proof -
  have S: "tame (Submit env i m t)" for m t
    using assms unfolding Submit_def never_invalid_def
    by (auto intro!: tame_bindm tame_intro tame_seq tame_bump tame_touch)
  show "tame (SendDirectoryResponse env i)"
    unfolding SendDirectoryResponse_def GetServiceDirectory_def
    by (auto intro!: tame_bindm tame_intro tame_seq tame_bump tame_touch tame_try S tame_token[OF assms])
  show "tame (ResetTokens env i)"
    unfolding ResetTokens_def reset_token_def set_token_def
    by (auto intro!: tame_bindm tame_intro tame_seq tame_bump tame_for_each tame_token[OF assms] split: option.splits)
qed

lemma OnLoginSuccess_mutes:
  assumes "mutes_are ms p"
  shows "mutes_are ms (snd (OnLoginSuccess env i p)) \<or> mutes_are (ms[i := False]) (snd (OnLoginSuccess env i p))"
    and "never_invalid env \<Longrightarrow> fst (OnLoginSuccess env i p) = Done () \<Longrightarrow>
      mutes_are (ms[i := False]) (snd (OnLoginSuccess env i p))"
proof -
  let ?body = "bindm (SendDirectoryResponse env i) (\<lambda>_. bindm (ResetTokens env i) (\<lambda>_.
      on_session i (\<lambda>s. s\<lparr>is_muted := False\<rparr>)))"
  obtain p1 where p1: "bump i SESSION_PC_MMT_LOGIN_SUCCESS_RECEIVED p = (Done (), p1)"
    by (simp add: bump_def on_session_def method_simps)
  have m1: "mutes_are ms p1"
    using keepsD[OF keeps_mutes_silent[OF silent_bump] assms] p1 by (metis snd_conv)
  obtain o2 p2 where p2: "SendDirectoryResponse env i p1 = (o2, p2)" by force
  have m2: "mutes_are ms p2" using keepsD[OF keeps_mutes_directory m1, of env i] p2 by simp
  obtain o3 p3 where p3: "ResetTokens env i p2 = (o3, p3)" by force
  have m3: "mutes_are ms p3" using keepsD[OF keeps_mutes_reset m2, of env i] p3 by simp
  have m4: "mutes_are (ms[i := False]) (snd (on_session i (\<lambda>s. s\<lparr>is_muted := False\<rparr>) p3))"
    by (rule set_muted[OF m3])
  have on: "on_session i f s = (Done (), snd (on_session i f s))" for f s
    by (simp add: on_session_def method_simps)
  have L: "OnLoginSuccess env i p = try_catch ?body (\<lambda>e. e = Rfa_Invalid_Usage) (\<lambda>_. ret ()) p1"
    by (simp add: OnLoginSuccess_def seq_Done_run[of "bump i SESSION_PC_MMT_LOGIN_SUCCESS_RECEIVED", OF p1])
  show "mutes_are ms (snd (OnLoginSuccess env i p)) \<or> mutes_are (ms[i := False]) (snd (OnLoginSuccess env i p))"
    unfolding L try_catch_run using m2 m3 m4 p2 p3 on[of "\<lambda>s. s\<lparr>is_muted := False\<rparr>" p3]
    by (cases o2; cases o3) (auto simp: bindm_def method_simps split: prod.splits)
  assume "never_invalid env"
  then have "o2 \<noteq> Raise Rfa_Invalid_Usage" "o3 \<noteq> Raise Rfa_Invalid_Usage"
    using tame_login_body[of env i] p2 p3 unfolding tame_def by (metis fst_conv)+
  then show "fst (OnLoginSuccess env i p) = Done () \<Longrightarrow>
      mutes_are (ms[i := False]) (snd (OnLoginSuccess env i p))"
    unfolding L try_catch_run using m4 p2 p3 on[of "\<lambda>s. s\<lparr>is_muted := False\<rparr>" p3]
    by (cases o2; cases o3) (auto simp: bindm_def method_simps split: prod.splits)
qed
fun verdict :: "rfa_event \<Rightarrow> bool option" where
  "verdict (OMMItemEvent (RespMsg MMT_LOGIN StreamOpen DataOk)) = Some False"
| "verdict (OMMItemEvent (RespMsg MMT_LOGIN StreamOpen DataSuspect)) = Some True"
| "verdict (OMMItemEvent (RespMsg MMT_LOGIN StreamClosed _)) = Some True"
| "verdict _ = None"

lemma processEvent_mutes:
  assumes "mutes_are ms p" and "processEvent env i ev p = (r, q)"
  shows "mutes_are ms q \<and> verdict ev \<noteq> Some True \<or> verdict ev = Some True \<and> mutes_are (ms[i := True]) q \<or>
      verdict ev = Some False \<and> mutes_are (ms[i := False]) q"
    and "never_invalid env \<Longrightarrow> r = Done () \<Longrightarrow> verdict ev = Some False \<Longrightarrow> mutes_are (ms[i := False]) q"
proof -
  have on: "on_session i f s = (Done (), snd (on_session i f s))" for f s
    by (simp add: on_session_def method_simps)
  have bump: "bump i c s = (Done (), snd (bump i c s))" for c s
    by (simp add: bump_def on_session_def method_simps)
  have touch: "touch_session env i s = (Done (), snd (touch_session env i s))" for s
    by (simp add: rfa_run cong: bindm_weak)
  have k: "mutes_are ms (snd (bump i c s))" "mutes_are ms (snd (touch_session env i s))"
    if "mutes_are ms s" for c s
    using that keepsD[OF keeps_mutes_silent[OF silent_bump]]
      keepsD[OF keeps_mutes_silent[OF silent_touch_session]] by metis+
  let ?f = "\<lambda>st d s. s\<lparr>stream_state := Some st, data_state := Some d\<rparr>"
  have st: "mutes_are ms (snd (on_session i (?f st d) s))" if "mutes_are ms s" for st d s
    by (rule keepsD[OF keeps_mutes_silent that], rule silent_on_session) (simp add: core_def)
  note K = k st set_muted[of ms _ i True] OnLoginSuccess_mutes(1)[of ms _ env i]
  note B = seq_Done_run[of "bump i c" for c, OF bump] seq_Done_run[of "touch_session env i", OF touch]
    seq_Done_run[of "on_session i (?f st d)" for st d, OF on]
  have q: "q = snd (processEvent env i ev p)" "r = fst (processEvent env i ev p)" using assms(2) by simp_all
  show "mutes_are ms q \<and> verdict ev \<noteq> Some True \<or> verdict ev = Some True \<and> mutes_are (ms[i := True]) q \<or>
      verdict ev = Some False \<and> mutes_are (ms[i := False]) q"
    unfolding q processEvent_def OnOMMItemEvent_def OnRespMsg_def OnLoginSuspect_def OnLoginClosed_def
      OnOMMCmdErrorEvent_def B
    using assms(1)
    by (cases ev rule: verdict.cases)
      (simp_all add: B K split: model_type.splits stream_enum.splits data_enum.splits item_msg.splits)
  show "never_invalid env \<Longrightarrow> r = Done () \<Longrightarrow> verdict ev = Some False \<Longrightarrow> mutes_are (ms[i := False]) q"
    unfolding q processEvent_def OnOMMItemEvent_def OnRespMsg_def B
    using assms(1)
    by (cases ev rule: verdict.cases) (simp_all add: B K OnLoginSuccess_mutes(2))
qed
text \<open>
  C7. Only a login response changes who may publish: a successful login unmutes exactly the session
  that received it, a suspect or closed login mutes it, and every other event, a response with
  another state or of another model included, leaves all permissions as they are. An RFA call
  that throws can only keep a session muted, never unmute it.
\<close>

theorem processEvent_permissions:
  assumes "processEvent env i ev p = (r, q)"
  shows "case verdict ev of
      None \<Rightarrow> map is_muted (sessions q) = map is_muted (sessions p)
    | Some True \<Rightarrow> map is_muted (sessions q) = (map is_muted (sessions p))[i := True]
    | Some False \<Rightarrow>
        (if never_invalid env \<and> r = Done ()
         then map is_muted (sessions q) = (map is_muted (sessions p))[i := False]
         else map is_muted (sessions q) \<in>
           {map is_muted (sessions p), (map is_muted (sessions p))[i := False]})"
proof -
  have "mutes_are (map is_muted (sessions p)) p" by (simp add: mutes_are_def)
  from processEvent_mutes[OF this assms] show ?thesis
    by (auto simp: mutes_are_def split: option.splits bool.splits)
qed

theorem processEvent_permissions_witness:
  "map is_muted (sessions demo_login) = [False]"
proof -
  let ?ev = "OMMItemEvent (RespMsg MMT_LOGIN StreamOpen DataOk)"
  have m: "map is_muted (sessions demo_open) = [True]" using demo_open_run by (auto simp: observe_def)
  have "fst (processEvent demo_env 0 ?ev demo_open) = Done ()"
    by (simp add: demo_open_def demo_start_def rfa_run demo_defs cong: bindm_weak)
  then have "processEvent demo_env 0 ?ev demo_open = (Done (), demo_login)"
    by (simp add: demo_login_def prod_eq_iff)
  from processEvent_permissions[OF this] show ?thesis
    by (simp add: m never_invalid_def demo_env_def)
qed

text \<open>
  A directory that fails validation is not noticed: \<open>SendDirectoryResponse\<close> then returns false
  without submitting anything, and \<open>OnLoginSuccess\<close>, which ignores the result, still hands out
  tokens and unmutes the session.
\<close>

theorem invalid_directory_still_unmutes:
  assumes "\<And>n. env_validate env n = Raise Rfa_Invalid_Usage" "\<And>n. \<exists>t. env_token env n = Done t"
    and "i < length (sessions p)" "has_provider (sessions p ! i)" "directory p = []"
  shows "OnLoginSuccess env i p = (Done (), snd (OnLoginSuccess env i p)) \<and>
    \<not> is_muted (sessions (snd (OnLoginSuccess env i p)) ! i) \<and>
    wire (snd (OnLoginSuccess env i p)) = wire p"
  using assms
  by (simp add: OnLoginSuccess_def SendDirectoryResponse_def GetServiceDirectory_def ResetTokens_def rfa_run
      cong: bindm_weak)

theorem invalid_directory_still_unmutes_witness:
  "\<not> is_muted (sessions (snd (OnLoginSuccess (demo_env\<lparr>env_validate := \<lambda>_. Raise Rfa_Invalid_Usage\<rparr>) 0 demo_start)) ! 0)"
proof -
  have "length (sessions demo_start) = 1" "has_provider (sessions demo_start ! 0)" "directory demo_start = []"
    using demo_start_run by (auto simp: observe_def)
  then show ?thesis
    by (intro invalid_directory_still_unmutes[THEN conjunct2, THEN conjunct1]) (simp_all add: demo_env_def)
qed

end
