(* ===== verification/Publish.thy ===== *)
theory Publish
  imports Http Provider_Safety
begin

text \<open>
  Publishing a response: \<open>SendRefresh\<close> and \<open>GeneratePELock\<close> of \<open>src/src/psych.cc\<close> and the rounding of
  \<open>src/src/marketpsych.hh\<close>. The operations of the floating-point unit and the DACS lock generator are
  parameters, the record \<open>publish_env\<close>.
\<close>

section \<open>Rounding\<close>

record publish_env =
  fp_mul :: "double \<Rightarrow> double \<Rightarrow> double"
  fp_add :: "double \<Rightarrow> double \<Rightarrow> double"
  fp_div :: "double \<Rightarrow> double \<Rightarrow> double"
  fp_floor :: "double \<Rightarrow> double"
  fp_to_int64 :: "double \<Rightarrow> int"
  fp_of_int64 :: "int \<Rightarrow> double"
  dacs_lock :: "int \<Rightarrow> 32 word list \<Rightarrow> string option"

text \<open>The constants 0.5 and 1000000.0 as IEEE doubles.\<close>

definition fp_half :: double where "fp_half = 0x3FE0000000000000"
definition fp_million :: double where "fp_million = 0x412E848000000000"

definition round_half_up :: "publish_env \<Rightarrow> double \<Rightarrow> double" where
  "round_half_up pe x = fp_floor pe (fp_add pe x fp_half)"

definition mantissa :: "publish_env \<Rightarrow> double \<Rightarrow> int" where
  "mantissa pe x = fp_to_int64 pe (round_half_up pe (fp_mul pe x fp_million))"

definition mp_round :: "publish_env \<Rightarrow> double \<Rightarrow> double" where
  "mp_round pe x = fp_div pe (fp_of_int64 pe (mantissa pe x)) fp_million"

section \<open>The calendar\<close>

text \<open>The civil date of a day count from the epoch, by 400-year eras that start in March.\<close>

definition civil_of_days :: "int \<Rightarrow> int \<times> int \<times> int" where
  "civil_of_days days =
     (let z = days + 719468;
          era = z div 146097;
          doe = z mod 146097;
          yoe = (doe - doe div 1460 + doe div 36524 - doe div 146096) div 365;
          doy = doe - (365 * yoe + yoe div 4 - yoe div 100);
          mp = (5 * doy + 2) div 153;
          d = doy - (153 * mp + 2) div 5 + 1;
          m = (if mp < 10 then mp + 3 else mp - 9);
          y = yoe + era * 400 + (if m \<le> 2 then 1 else 0)
      in (y, m, d))"

text \<open>
  \<open>__time32_t\<close> is a \<open>long\<close>, to which the seconds of a time are cut, so times from the year 2038 on wrap
  around. \<open>_gmtime32_s\<close> fails on a negative one and sets every member to minus one; its result is
  not looked at.
\<close>

definition time32 :: "int \<Rightarrow> int" where
  "time32 t = to_long (to_unix_epoch t)"

record tm =
  tm_year :: int
  tm_mon :: int
  tm_mday :: int
  tm_hour :: int
  tm_min :: int
  tm_sec :: int

definition gmtime32 :: "int \<Rightarrow> tm" where
  "gmtime32 t =
     (if t < 0 then \<lparr>tm_year = - 1, tm_mon = - 1, tm_mday = - 1, tm_hour = - 1, tm_min = - 1, tm_sec = - 1\<rparr>
      else let (year, month, day) = civil_of_days (t div 86400)
           in \<lparr>tm_year = year - 1900, tm_mon = month - 1, tm_mday = day, tm_hour = t mod 86400 div 3600,
               tm_min = t mod 3600 div 60, tm_sec = t mod 60\<rparr>)"

section \<open>Constants\<close>

definition kDictionaryId :: int where "kDictionaryId = 1"
definition kFieldListId :: int where "kFieldListId = 3"
definition kRdmStockRicId :: int where "kRdmStockRicId = 1026"
definition kRdmSourceFeedNameId :: int where "kRdmSourceFeedNameId = 1686"
definition kRdmTimeOfUpdateId :: int where "kRdmTimeOfUpdateId = 6640"
definition kRdmActiveDateId :: int where "kRdmActiveDateId = 6772"
definition kRdmEngineVersionId :: int where "kRdmEngineVersionId = 8569"

section \<open>The fields of a row\<close>

text \<open>A row name is mapped to the item's topic and the address of its stream.\<close>

type_synonym name_map = "(string, string \<times> nat) omap"

text \<open>The year is an unsigned number of 16 bits, month and day are unsigned ones of 8.\<close>

definition common_fields :: "resource \<Rightarrow> string \<Rightarrow> int \<Rightarrow> string \<Rightarrow> (int \<times> omm) list" where
  "common_fields r version t stock_ric =
     (let m = gmtime32 t;
          year = (1900 + tm_year m) mod 2 ^ 16;
          month = (1 + tm_mon m) mod 2 ^ 8;
          day = tm_mday m mod 2 ^ 8
      in [(kRdmStockRicId, OmmAscii stock_ric),
          (kRdmSourceFeedNameId, OmmRmtes (res_source r)),
          (kRdmEngineVersionId, OmmRmtes version),
          (kRdmTimeOfUpdateId, OmmTime (tm_hour m) (tm_min m) (tm_sec m) 0),
          (kRdmActiveDateId, OmmDate year month day)])"

text \<open>Up to the year 2038 the cut to 32 bits changes nothing; from then on the calendar has no date.\<close>

lemma time32_early: "0 \<le> to_unix_epoch t \<Longrightarrow> to_unix_epoch t < 2 ^ 31 \<Longrightarrow> time32 t = to_unix_epoch t"
  by (simp add: time32_def to_long_def wrap_signed_def)

theorem late_close_time:
  assumes "2 ^ 31 \<le> to_unix_epoch t" "to_unix_epoch t < 2 ^ 32"
  shows "common_fields r version (time32 t) stock_ric =
    [(kRdmStockRicId, OmmAscii stock_ric), (kRdmSourceFeedNameId, OmmRmtes (res_source r)),
     (kRdmEngineVersionId, OmmRmtes version), (kRdmTimeOfUpdateId, OmmTime (- 1) (- 1) (- 1) 0),
     (kRdmActiveDateId, OmmDate 1899 0 255)]"
proof -
  have "(to_unix_epoch t + 2 ^ 31) mod 2 ^ 32 = (to_unix_epoch t + 2 ^ 31 - 2 ^ 32) mod 2 ^ 32"
    by (simp only: minus_mod_self2)
  also have "\<dots> = to_unix_epoch t + 2 ^ 31 - 2 ^ 32"
    using assms by (intro mod_pos_pos_trivial) simp_all
  finally have "time32 t = to_unix_epoch t - 2 ^ 32"
    by (simp add: time32_def to_long_def wrap_signed_def)
  then have "time32 t < 0" using assms(2) by simp
  then show ?thesis by (simp add: common_fields_def gmtime32_def)
qed

text \<open>A close time on the first day of the year 2050, in microseconds from the epoch of the model.\<close>

theorem late_close_time_witness:
  "\<exists>t. (kRdmActiveDateId, OmmDate 1899 0 255) \<in> set (common_fields r [] (time32 t) [])"
proof
  show "(kRdmActiveDateId, OmmDate 1899 0 255) \<in> set (common_fields r [] (time32 2524608000000000) [])"
    by (subst late_close_time) (simp_all add: to_unix_epoch_def total_seconds_def)
qed

definition real_field :: "publish_env \<Rightarrow> double \<Rightarrow> omm" where
  "real_field pe v = (if isnan v then OmmBlank else OmmReal (mantissa pe v) ExponentNeg6)"

text \<open>
  The loop over the columns, \<open>column_idx\<close> running along. An unmapped column is skipped; the value
  vector is offset by one, so the index of a mapped first column wraps
  around; the \<open>CHECK\<close> on it only logs.
\<close>

fun column_fields ::
    "publish_env \<Rightarrow> (string, int) omap \<Rightarrow> double list \<Rightarrow> nat \<Rightarrow> string list \<Rightarrow> (int \<times> omm) list \<Rightarrow>
     (int \<times> omm) list outcome" where
  "column_fields pe fs vs column_idx [] out = Done out"
| "column_fields pe fs vs column_idx (column # rest) out =
     (case map_of fs column of
        None \<Rightarrow> column_fields pe fs vs (column_idx + 1) rest out
      | Some fid \<Rightarrow>
          if column_idx = 0 \<or> \<not> column_idx - 1 < length vs then Raise Undefined_Behaviour
          else column_fields pe fs vs (column_idx + 1) rest
                 (out @ [(fid, real_field pe (vs ! (column_idx - 1)))]))"

section \<open>SendRefresh\<close>

definition GeneratePELock :: "publish_env \<Rightarrow> config \<Rightarrow> 32 word list \<Rightarrow> string option" where
  "GeneratePELock pe cfg peList = dacs_lock pe (atol (dacs_id cfg)) peList"

text \<open>
  The permission data of the reused response message: it is replaced when a lock is generated and
  stays what it was when the generator fails.
\<close>

definition next_permission :: "publish_env \<Rightarrow> config \<Rightarrow> resource \<Rightarrow> string option \<Rightarrow> string option" where
  "next_permission pe cfg r old =
     (if dacs_id cfg \<noteq> [] then
        case GeneratePELock pe cfg [entitlement_code r] of None \<Rightarrow> old | Some buf \<Rightarrow> Some buf
      else old)"

definition refresh_message ::
    "config \<Rightarrow> string \<Rightarrow> omm \<Rightarrow> string option \<Rightarrow> resp_msg" where
  "refresh_message cfg name payload permission =
     \<lparr>msg_model_type = MMT_MARKET_PRICE, refresh_complete = True, attrib_name = name,
      attrib_service = service_name cfg, data_mask = [], msg_payload = payload,
      msg_status = (StreamOpen, DataOk), permission_data = permission\<rparr>"

definition stream_rfa_name :: "provider \<Rightarrow> nat \<Rightarrow> string" where
  "stream_rfa_name p a = (case streams p a of None \<Rightarrow> [] | Some st \<Rightarrow> stream_name st)"

text \<open>The loop over the rows; \<open>v\<close> is the wire format version read at the start.\<close>

fun send_rows ::
    "rfa_env \<Rightarrow> publish_env \<Rightarrow> config \<Rightarrow> resource \<Rightarrow> name_map \<Rightarrow> string \<Rightarrow> int \<Rightarrow> string list \<Rightarrow> rwf_version \<Rightarrow>
     string option \<Rightarrow> (string \<times> double list) list \<Rightarrow> unit operation" where
  "send_rows env pe cfg r names version t cols v permission [] = ret ()"
| "send_rows env pe cfg r names version t cols v permission ((row, vs) # rest) =
     (case map_of names row of
        None \<Rightarrow> send_rows env pe cfg r names version t cols v permission rest
      | Some (stock_ric, a) \<Rightarrow>
          (case column_fields pe (res_fields r) vs 0 cols (common_fields r version t stock_ric) of
             Raise e \<Rightarrow> throw e
           | Diverged \<Rightarrow> throw Undefined_Behaviour
           | Done fs \<Rightarrow>
               let permission' = next_permission pe cfg r permission
               in bindm (gets (\<lambda>p. stream_rfa_name p a)) (\<lambda>name.
                  bindm (provider_Send env a (refresh_message cfg name
                      (OmmFieldList v kDictionaryId kFieldListId fs) permission')) (\<lambda>_.
                    send_rows env pe cfg r names version t cols v permission' rest))))"

definition SendRefresh ::
    "rfa_env \<Rightarrow> publish_env \<Rightarrow> config \<Rightarrow> resource \<Rightarrow> name_map \<Rightarrow> string \<Rightarrow> ptime \<Rightarrow> string list \<Rightarrow>
     (string \<times> double list) list \<Rightarrow> bool operation" where
  "SendRefresh env pe cfg r names version close cols rs =
     bindm (gets rwf) (\<lambda>v.
       seq (send_rows env pe cfg r names version (time32 (the_default 0 close)) cols v None rs) (ret True))"

section \<open>The columns that are published\<close>

text \<open>The index loop publishes each mapped column after the first with the value below it.\<close>

definition mapped_fields ::
    "publish_env \<Rightarrow> (string, int) omap \<Rightarrow> string list \<Rightarrow> double list \<Rightarrow> (int \<times> omm) list" where
  "mapped_fields pe fs cols vs =
     concat (map (\<lambda>(col, v). case map_of fs col of None \<Rightarrow> [] | Some fid \<Rightarrow> [(fid, real_field pe v)])
       (zip cols vs))"

lemma column_fields_from:
  assumes "0 < i" "i - 1 + length cols = length vs"
  shows "column_fields pe fs vs i cols out = Done (out @ mapped_fields pe fs cols (drop (i - 1) vs))"
  using assms
proof (induction cols arbitrary: i out)
  case Nil
  then show ?case by (simp add: mapped_fields_def)
next
  case (Cons c cols)
  obtain j where j: "i = Suc j" using Cons.prems(1) by (cases i) auto
  have "j < length vs" using Cons.prems j by simp
  then have d: "drop j vs = vs ! j # drop (Suc j) vs" by (simp add: Cons_nth_drop_Suc)
  show ?case
    using Cons.IH[of "i + 1"] Cons.prems \<open>j < length vs\<close>
    by (simp add: j d mapped_fields_def split: option.split)
qed

lemma column_fields_row:
  assumes "length vs + 1 = length cols"
  shows "column_fields pe fs vs 0 cols out =
    (if map_of fs (hd cols) = None then Done (out @ mapped_fields pe fs (tl cols) vs)
     else Raise Undefined_Behaviour)"
proof -
  obtain c cs where c: "cols = c # cs" using assms by (cases cols) auto
  show ?thesis
    using column_fields_from[of 1 cs vs pe fs out] assms by (auto simp: c split: option.split)
qed

section \<open>What SendRefresh sends\<close>

text \<open>The messages of a response: one per row that has an item, in the order of the rows.\<close>

definition row_message ::
    "publish_env \<Rightarrow> config \<Rightarrow> resource \<Rightarrow> string \<Rightarrow> int \<Rightarrow> string list \<Rightarrow> provider \<Rightarrow> string \<Rightarrow> nat \<Rightarrow> double list \<Rightarrow> resp_msg" where
  "row_message pe cfg r version t cols p stock_ric a vs =
     refresh_message cfg (stream_rfa_name p a)
       (OmmFieldList (rwf p) kDictionaryId kFieldListId
          (common_fields r version t stock_ric @ mapped_fields pe (res_fields r) (tl cols) vs))
       (next_permission pe cfg r None)"

fun row_wire ::
    "publish_env \<Rightarrow> config \<Rightarrow> resource \<Rightarrow> name_map \<Rightarrow> string \<Rightarrow> int \<Rightarrow> string list \<Rightarrow> provider \<Rightarrow>
     string \<times> double list \<Rightarrow> (nat \<times> nat option \<times> resp_msg) list" where
  "row_wire pe cfg r names version t cols p (name, vs) =
     (case map_of names name of
        None \<Rightarrow> []
      | Some (stock_ric, a) \<Rightarrow>
          [(i, stream_token p a i, row_message pe cfg r version t cols p stock_ric a vs).
            i \<leftarrow> [0..<length (sessions p)], \<not> is_muted (sessions p ! i)])"

lemma next_permission_idem: "next_permission pe cfg r (next_permission pe cfg r old) = next_permission pe cfg r old"
  by (simp add: next_permission_def split: option.splits)

lemma muted_nth:
  "map is_muted (sessions q) = map is_muted (sessions p) \<Longrightarrow>
   length (sessions q) = length (sessions p) \<and> (\<forall>i < length (sessions p). is_muted (sessions q ! i) = is_muted (sessions p ! i))"
  by (metis length_map nth_map)

lemma keeps_rwf_provider_Send: "keeps (\<lambda>p. rwf p = v) (provider_Send env a msg)"
  unfolding provider_Send_def session_Send_def Submit_def bump_def touch_session_def touch_provider_def
    clock_call_def on_session_def
  by (intro keeps_intro keeps_rfa_call keeps_modify) (simp_all add: rwf_def)

lemma row_wire_cong:
  assumes "map is_muted (sessions q) = map is_muted (sessions p)" "streams q = streams p" "rwf q = rwf p"
  shows "row_wire pe cfg r names version t cols q = row_wire pe cfg r names version t cols p"
proof
  fix row
  have "stream_token q = stream_token p" "stream_rfa_name q = stream_rfa_name p"
    using assms(2) by (simp_all add: stream_token_def stream_rfa_name_def fun_eq_iff)
  then show "row_wire pe cfg r names version t cols q row = row_wire pe cfg r names version t cols p row"
    using muted_nth[OF assms(1)] assms(3)
    by (cases row) (auto simp: row_message_def split: option.split intro!: arg_cong[where f = concat] map_cong)
qed

lemma send_rows_Done:
  assumes "send_rows env pe cfg r names version t cols (rwf p) perm rs p = (Done (), q)"
    and "\<forall>(name, vs) \<in> set rs. length vs + 1 = length cols"
    and "map_of (res_fields r) (hd cols) = None"
    and "next_permission pe cfg r perm = next_permission pe cfg r None"
  shows "wire q = wire p @ concat (map (row_wire pe cfg r names version t cols p) rs)"
  using assms
proof (induction rs arbitrary: p perm)
  case Nil
  then show ?case by (simp add: method_simps)
next
  case (Cons row rs)
  obtain name vs where row: "row = (name, vs)" by (cases row)
  show ?case
  proof (cases "map_of names name")
    case None
    then show ?thesis using Cons row by simp
  next
    case (Some x)
    obtain stock_ric a where x: "x = (stock_ric, a)" by (cases x)
    have fs: "column_fields pe (res_fields r) vs 0 cols out =
        Done (out @ mapped_fields pe (res_fields r) (tl cols) vs)" for out
      using Cons.prems(2,3) row by (subst column_fields_row) auto
    let ?m = "row_message pe cfg r version t cols p stock_ric a vs"
    obtain b s where s: "provider_Send env a ?m p = (Done b, s)"
      "send_rows env pe cfg r names version t cols (rwf p) (next_permission pe cfg r None) rs s = (Done (), q)"
      using Cons.prems(1,4) Some x row fs
      by (auto simp: bindm_Done method_simps Let_def row_message_def)
    note D = provider_Send_Done[OF s(1)]
    have v: "rwf s = rwf p"
      using keepsD[OF keeps_rwf_provider_Send, of p "rwf p" env a ?m] s(1) by simp
    have "wire q = wire s @ concat (map (row_wire pe cfg r names version t cols s) rs)"
      by (rule Cons.IH[where perm = "next_permission pe cfg r None"])
        (use s(2) v Cons.prems(2,3) in \<open>simp_all add: next_permission_idem\<close>)
    moreover have "row_wire pe cfg r names version t cols s = row_wire pe cfg r names version t cols p"
      by (rule row_wire_cong) (use D v in simp_all)
    moreover have "wire s = wire p @ row_wire pe cfg r names version t cols p row"
      using D Some x row by simp
    ultimately show ?thesis by simp
  qed
qed

text \<open>
  C4. \<open>SendRefresh\<close> publishes exactly the rows that have an item, in order, each once on every
  session that may publish: the message goes to the item's stream with that session's token and
  carries the five common fields, one field for every mapped column with the rounded value of the
  row below it (blank for a NaN), the negotiated wire format version and the DACS lock of the
  resource. The rows need one number for each column but the first, which must not be mapped. The
  time and the date are those of \<open>gmtime32\<close> at the close time cut to 32 bits, as the code has them:
  the cut changes nothing up to the year 2038 (\<open>time32_early\<close>) and leaves no date afterwards (\<open>late_close_time\<close>).
\<close>

theorem SendRefresh_publishes:
  assumes "SendRefresh env pe cfg r names version close cols rs p = (Done b, q)"
    and "\<forall>(name, vs) \<in> set rs. length vs + 1 = length cols"
    and "map_of (res_fields r) (hd cols) = None"
  shows "wire q = wire p @
    concat (map (row_wire pe cfg r names version (time32 (the_default 0 close)) cols p) rs)"
proof -
  have "send_rows env pe cfg r names version (time32 (the_default 0 close)) cols (rwf p) None rs p = (Done (), q)"
    using assms(1) by (auto simp: SendRefresh_def method_simps seq_Done)
  then show ?thesis by (rule send_rows_Done) (use assms(2,3) in simp_all)
qed

text \<open>
  When the first column of a table is mapped to a field, the first row that has an item is
  undefined behaviour: the value before the first one is read, before anything is published.
\<close>

theorem mapped_first_column_undefined:
  assumes "map_of (res_fields r) (hd cols) \<noteq> None" "cols \<noteq> []"
    and "(name, vs) \<in> set rs" "map_of names name \<noteq> None"
  shows "SendRefresh env pe cfg r names version close cols rs p = (Raise Undefined_Behaviour, p)"
proof -
  obtain c cs where c: "cols = c # cs" using assms(2) by (cases cols) auto
  have f: "column_fields pe (res_fields r) vs 0 cols out = Raise Undefined_Behaviour" for vs out
    using assms(1) by (auto simp: c)
  have "send_rows env pe cfg r names version t cols v perm rs p = (Raise Undefined_Behaviour, p)" for t v perm
    using assms(3)
  proof (induction rs)
    case (Cons row rs)
    show ?case
      using Cons assms(4) f by (cases row) (auto simp: method_simps split: option.splits)
  qed simp
  then show ?thesis by (simp add: SendRefresh_def seq_def bindm_def method_simps)
qed
definition demo_publish_env :: publish_env where
  "demo_publish_env =
     \<lparr>fp_mul = (\<lambda>a b. a), fp_add = (\<lambda>a b. a), fp_div = (\<lambda>a b. a), fp_floor = (\<lambda>a. a),
      fp_to_int64 = (\<lambda>a. 1500000), fp_of_int64 = (\<lambda>i. 0), dacs_lock = (\<lambda>i pes. Some ''lock'')\<rparr>"

definition demo_resource :: "(string, int) omap \<Rightarrow> resource" where
  "demo_resource fs =
     \<lparr>res_name = ''Equities'', res_source = ''News'', res_path = ''/eq'', entitlement_code = 5,
      res_fields = fs, res_items = [(''1679'', (''MI'', ''topic''))]\<rparr>"

definition demo_refresh :: "bool outcome \<times> provider" where
  "demo_refresh = SendRefresh demo_env demo_publish_env config_init (demo_resource [(''Buzz'', 7)])
     [(''1679'', (''MI'', 0))] ''2.0'' (Some 0) [''Sector'', ''Buzz''] [(''1679'', [0])] demo_login"

lemma demo_refresh_run: "fst demo_refresh = Done True"
proof -
  have "\<exists>fs. column_fields demo_publish_env [(''Buzz'', 7)] [0] 0 [''Sector'', ''Buzz'']
      (common_fields (demo_resource [(''Buzz'', 7)]) ''2.0'' 0 ''MI'') = Done fs"
    by (subst column_fields_row) simp_all
  then obtain fs where fs: "column_fields demo_publish_env [(''Buzz'', 7)] [0] 0 [''Sector'', ''Buzz'']
      (common_fields (demo_resource [(''Buzz'', 7)]) ''2.0'' 0 ''MI'') = Done fs" by blast
  have r: "res_fields (demo_resource [(''Buzz'', 7)]) = [(''Buzz'', 7)]" by (simp add: demo_resource_def)
  have send: "\<exists>q. provider_Send demo_env 0 msg demo_login = (Done True, q)" for msg
    by (simp add: demo_login_def demo_open_def demo_start_def rfa_run demo_defs cong: bindm_weak)
  show ?thesis
    using fs send
    by (auto simp: demo_refresh_def SendRefresh_def r time32_def to_long_def wrap_signed_def to_unix_epoch_def total_seconds_def bindm_def seq_def
        method_simps Let_def split: prod.splits outcome.splits)
      (metis prod.inject outcome.distinct(1,3))+
qed

theorem SendRefresh_publishes_witness:
  "\<exists>m. wire (snd demo_refresh) = wire demo_login @ [(0, Some 17, m)] \<and> attrib_name m = ''MI'' \<and>
     msg_model_type m = MMT_MARKET_PRICE"
proof -
  have "demo_refresh = (Done True, snd demo_refresh)" using demo_refresh_run by (simp add: prod_eq_iff)
  then have w: "wire (snd demo_refresh) = wire demo_login @
    concat (map (row_wire demo_publish_env config_init (demo_resource [(''Buzz'', 7)]) [(''1679'', (''MI'', 0))] ''2.0''
      (time32 (the_default 0 (Some 0))) [''Sector'', ''Buzz''] demo_login) [(''1679'', [0])])"
    unfolding demo_refresh_def
    by (rule SendRefresh_publishes) (simp_all add: demo_resource_def)
  have "length (sessions demo_login) = 1" "\<not> is_muted (sessions demo_login ! 0)"
    "streams demo_login 0 = Some \<lparr>stream_name = ''MI'', stream_tokens = [Some 17]\<rparr>"
    using demo_login_run by (auto simp: observe_def)
  then show ?thesis
    by (simp add: w stream_token_def row_message_def refresh_message_def stream_rfa_name_def)
qed

theorem mapped_first_column_undefined_witness:
  "fst (SendRefresh demo_env demo_publish_env config_init (demo_resource [(''Sector'', 7)])
     [(''1679'', (''MI'', 0))] ''2.0'' (Some 0) [''Sector'', ''Buzz''] [(''1679'', [0])] demo_login) = Raise Undefined_Behaviour"
  by (subst mapped_first_column_undefined) (simp_all add: demo_resource_def)

end
