(* ===== verification/Query.thy ===== *)
theory Query
  imports Publish
begin

text \<open>
  \<open>httpPsychQuery\<close> of \<open>src/src/psych.cc\<close>: one request per connection, the transfers run together, each
  response read and published, and what is still pending tried again on a carousel. libcurl is
  the record \<open>curl_env\<close>: its answers by the index of the call or of the round. Sleeping is
  recorded.
\<close>

section \<open>Request options\<close>

datatype setopt =
    CURLOPT_MAXFILESIZE int
  | CURLOPT_URL string
  | CURLOPT_HEADERFUNCTION
  | CURLOPT_WRITEFUNCTION
  | CURLOPT_WRITEHEADER
  | CURLOPT_WRITEDATA
  | CURLOPT_PRIVATE
  | CURLOPT_HEADER int
  | CURLOPT_FRESH_CONNECT int
  | CURLOPT_CONNECTTIMEOUT_MS int
  | CURLOPT_IPRESOLVE_V4
  | CURLOPT_TIMEOUT_MS int
  | CURLOPT_DNS_CACHE_TIMEOUT int
  | CURLOPT_USERAGENT string
  | CURLOPT_FILETIME int
  | CURLOPT_TIMECONDITION_IFMODSINCE
  | CURLOPT_TIMEVALUE int
  | CURLOPT_ACCEPT_ENCODING string
  | CURLOPT_PROXY string
  | CURLOPT_ERRORBUFFER
  | CURLOPT_VERBOSE int
  | CURLOPT_DEBUGFUNCTION

record query_flags =
  QUERY_HTTP_KEEPALIVE :: bool
  QUERY_IF_MODIFIED_SINCE :: bool

text \<open>The options of one easy handle, in the order they are set; \<open>agent\<close> is the formatted user agent.\<close>

definition transfer_options :: "config \<Rightarrow> query_flags \<Rightarrow> connection \<Rightarrow> setopt list" where
  "transfer_options cfg flags c =
     [CURLOPT_MAXFILESIZE (atol (maximum_response_size cfg)), CURLOPT_URL (conn_url c),
      CURLOPT_HEADERFUNCTION, CURLOPT_WRITEFUNCTION, CURLOPT_WRITEHEADER, CURLOPT_WRITEDATA,
      CURLOPT_PRIVATE, CURLOPT_HEADER 0] @
     (if \<not> QUERY_HTTP_KEEPALIVE flags then [CURLOPT_FRESH_CONNECT 1] else []) @
     (if connect_timeout_ms cfg \<noteq> [] then [CURLOPT_CONNECTTIMEOUT_MS (atol (connect_timeout_ms cfg))] else []) @
     [CURLOPT_IPRESOLVE_V4] @
     (if timeout_ms cfg \<noteq> [] then [CURLOPT_TIMEOUT_MS (atol (timeout_ms cfg))] else []) @
     (if dns_cache_timeout cfg \<noteq> [] then [CURLOPT_DNS_CACHE_TIMEOUT (atol (dns_cache_timeout cfg))] else [])"

definition request_options :: "config \<Rightarrow> query_flags \<Rightarrow> string \<Rightarrow> bool \<Rightarrow> connection \<Rightarrow> setopt list" where
  "request_options cfg flags agent verbose c =
     [CURLOPT_USERAGENT agent, CURLOPT_FILETIME 1] @
     (if QUERY_IF_MODIFIED_SINCE flags
      then [CURLOPT_TIMECONDITION_IFMODSINCE, CURLOPT_TIMEVALUE (last_filetime c)] else []) @
     (if request_http_encoding cfg \<noteq> [] then [CURLOPT_ACCEPT_ENCODING (request_http_encoding cfg)] else []) @
     (if http_proxy cfg \<noteq> [] then [CURLOPT_PROXY (http_proxy cfg)] else []) @
     [CURLOPT_ERRORBUFFER] @
     (if verbose then [CURLOPT_VERBOSE 1, CURLOPT_DEBUGFUNCTION] else [])"

section \<open>libcurl\<close>

text \<open>A transfer that has run: the header lines and body blocks it delivered, and its summary.\<close>

record transfer =
  tr_headers :: "string list"
  tr_blocks :: "string list"
  tr_info :: http_info

text \<open>A message of the multi handle: a finished transfer of the connection, or another kind.\<close>

datatype multi_msg = MsgDone nat transfer | MsgOther

record curl_env =
  easy_init :: "nat \<Rightarrow> nat \<Rightarrow> bool"
  multi_perform :: "nat \<Rightarrow> bool \<times> nat"
  multi_messages :: "nat \<Rightarrow> multi_msg list"
  curl_clock :: "nat \<Rightarrow> int"
  curl_end :: int
  user_agent :: string
  vlog_10 :: bool

text \<open>
  The perform loop. \<open>multi_perform n\<close> is the answer of the \<open>n\<close>-th call: whether libcurl wants to be
  called again at once, and the number of running transfers. The loop need not end, so its
  result, the number of calls, is an option. The wait for sockets between two calls is left out.
\<close>

partial_function (option) perform_again :: "curl_env \<Rightarrow> nat \<Rightarrow> bool \<Rightarrow> nat \<Rightarrow> (nat \<times> nat) option" where
  "perform_again ce n again running =
     (if again then perform_again ce (n + 1) (fst (multi_perform ce n)) (snd (multi_perform ce n))
      else Some (n, running))"

partial_function (option) perform_loop :: "curl_env \<Rightarrow> nat \<Rightarrow> bool \<Rightarrow> nat \<Rightarrow> nat option" where
  "perform_loop ce n again running =
     (if running > 0 then
        Option.bind (perform_again ce n again running) (\<lambda>(n, running).
          if running = 0 then Some n else perform_loop ce n True running)
      else Some n)"

definition perform_all :: "curl_env \<Rightarrow> nat \<Rightarrow> nat option" where
  "perform_all ce n = perform_loop ce (n + 1) (fst (multi_perform ce n)) (snd (multi_perform ce n))"

section \<open>The state of a query\<close>

text \<open>The shortest, longest and total refresh time; \<open>None\<close> is the infinity they start from.\<close>

record refresh_times =
  min_refresh_time :: "int option"
  max_refresh_time :: "int option"
  total_refresh_time :: int

definition note_time :: "int \<Rightarrow> refresh_times \<Rightarrow> refresh_times" where
  "note_time td t =
     t\<lparr>min_refresh_time :=
         (case min_refresh_time t of None \<Rightarrow> Some td | Some m \<Rightarrow> if td < m then Some td else Some m),
       max_refresh_time :=
         (case max_refresh_time t of None \<Rightarrow> Some td | Some m \<Rightarrow> if td > m then Some td else Some m),
       total_refresh_time := total_refresh_time t + td\<rparr>"

record query =
  q_conns :: "connection list"
  q_pending :: "nat list"
  q_stats :: psych_stats
  q_provider :: provider
  q_performs :: nat
  q_options :: "(nat \<times> setopt list) list"
  q_slept :: "int list"
  q_times :: refresh_times

type_synonym 'a querying = "(query, 'a) method"

definition q_count :: "psych_pc \<Rightarrow> unit querying" where
  "q_count c = modify (\<lambda>q. q\<lparr>q_stats := count c (q_stats q)\<rparr>)"

text \<open>
  Preparing one connection. \<open>reserve\<close> gives the buffer at least the maximum response size and
  throws on a negative one, which becomes a huge size.
\<close>

definition prepare_connection ::
    "curl_env \<Rightarrow> config \<Rightarrow> query_flags \<Rightarrow> int \<Rightarrow> nat \<Rightarrow> nat \<Rightarrow> unit querying" where
  "prepare_connection ce cfg flags t0 k i =
     seq (modify (\<lambda>q. q\<lparr>q_conns := (q_conns q)[i := (q_conns q ! i)\<lparr>conn_handle := easy_init ce k i\<rparr>]\<rparr>))
    (if \<not> easy_init ce k i then ret ()
     else
       seq (modify (\<lambda>q. q\<lparr>q_conns := (q_conns q)[i := (q_conns q ! i)\<lparr>conn_data := []\<rparr>]\<rparr>))
      (let maxfilesize = atol (maximum_response_size cfg)
       in if maxfilesize < 0 then throw Std_Exception
          else modify (\<lambda>q.
            let c = q_conns q ! i
            in q\<lparr>q_options := q_options q @
                   [(i, transfer_options cfg flags c @ request_options cfg flags (user_agent ce) (vlog_10 ce) c)],
                 q_conns := (q_conns q)[i := c\<lparr>
                   conn_capacity := max (conn_capacity c) (nat maxfilesize),
                   request_ptime := Some t0, httpd_ptime := None\<rparr>]\<rparr>)))"

text \<open>
  The callbacks of a transfer: libcurl stops at the first block that is refused. Callbacks of
  different transfers touch different connections, so the transfers are delivered one by one. An
  exception of a callback passes through libcurl.
\<close>

fun deliver_headers :: "text_env \<Rightarrow> string list \<Rightarrow> connection \<Rightarrow> unit outcome \<times> connection" where
  "deliver_headers te [] c = (Done (), c)"
| "deliver_headers te (h # hs) c =
     (case on_http_header te h c of
        (Done _, c) \<Rightarrow> deliver_headers te hs c
      | (Raise e, c) \<Rightarrow> (Raise e, c)
      | (Diverged, c) \<Rightarrow> (Diverged, c))"

fun deliver_blocks :: "string list \<Rightarrow> connection \<Rightarrow> connection" where
  "deliver_blocks [] c = c"
| "deliver_blocks (b # bs) c =
     (let (n, c') = on_http_data b c in if n \<noteq> length b then c' else deliver_blocks bs c')"

definition run_transfer :: "text_env \<Rightarrow> multi_msg \<Rightarrow> unit querying" where
  "run_transfer te msg =
     (case msg of
        MsgOther \<Rightarrow> ret ()
      | MsgDone i tr \<Rightarrow> (\<lambda>q.
          case deliver_headers te (tr_headers tr) (q_conns q ! i) of
            (Done _, c) \<Rightarrow> (Done (), q\<lparr>q_conns := (q_conns q)[i := deliver_blocks (tr_blocks tr) c]\<rparr>)
          | (Raise e, c) \<Rightarrow> (Raise e, q\<lparr>q_conns := (q_conns q)[i := c]\<rparr>)
          | (Diverged, c) \<Rightarrow> (Diverged, q\<lparr>q_conns := (q_conns q)[i := c]\<rparr>)))"

section \<open>Reading the results\<close>

type_synonym query_map = "(string, name_map) omap"

text \<open>\<open>query_vector_[resource]\<close>, an empty map when the path is not there.\<close>

definition names_of :: "query_map \<Rightarrow> resource \<Rightarrow> name_map" where
  "names_of qv r = the_default [] (map_of qv (res_path r))"

text \<open>Exceptions of \<open>SendRefresh\<close> are logged; the request counts as successful.\<close>

definition publish_response ::
    "rfa_env \<Rightarrow> publish_env \<Rightarrow> config \<Rightarrow> query_map \<Rightarrow> response \<Rightarrow> unit querying" where
  "publish_response env pe cfg qv resp = (\<lambda>q.
     let r = conn_resource (resp_conn resp);
         (out, p) = try_catch
           (SendRefresh env pe cfg r (names_of qv r) (engine_version resp) (close_time resp)
              (columns resp) (rows resp))
           (\<lambda>e. e \<in> {Rfa_Invalid_Usage, Std_Exception, Out_Of_Range, Invalid_Argument})
           (\<lambda>_. ret True) (q_provider q)
     in (case out of Done _ \<Rightarrow> Done () | Raise e \<Rightarrow> Raise e | Diverged \<Rightarrow> Diverged, q\<lparr>q_provider := p\<rparr>))"

text \<open>
  \<open>pending.erase (remove_if (...))\<close> erases one element, at the position \<open>remove_if\<close> returns: the
  finished connection when it is pending once, and past the end when it is not.
\<close>

definition erase_pending :: "nat \<Rightarrow> unit querying" where
  "erase_pending i =
     bindm (gets (\<lambda>q. i \<in> set (q_pending q))) (\<lambda>found.
       if found then modify (\<lambda>q. q\<lparr>q_pending := remove1 i (q_pending q)\<rparr>)
       else throw Undefined_Behaviour)"

definition process_message ::
    "rfa_env \<Rightarrow> publish_env \<Rightarrow> text_env \<Rightarrow> config \<Rightarrow> query_map \<Rightarrow> multi_msg \<Rightarrow> string \<Rightarrow> string querying" where
  "process_message env pe te cfg qv msg version =
     (case msg of
        MsgOther \<Rightarrow> ret version
      | MsgDone i tr \<Rightarrow>
          bindm (\<lambda>q.
            let (out, resp) = OnHttpResponse te cfg (tr_info tr)
                  (response_init (q_stats q) version (q_conns q ! i))
            in (case out of Done ok \<Rightarrow> Done (ok, resp) | Raise e \<Rightarrow> Raise e | Diverged \<Rightarrow> Diverged,
                q\<lparr>q_stats := resp_stats resp, q_conns := (q_conns q)[i := resp_conn resp]\<rparr>))
          (\<lambda>(ok, resp).
             if ok then
               seq (publish_response env pe cfg qv resp) (seq (erase_pending i) (ret (engine_version resp)))
             else seq (q_count PSYCH_PC_HTTP_MALFORMED) (ret (engine_version resp))))"

fun process_messages ::
    "rfa_env \<Rightarrow> publish_env \<Rightarrow> text_env \<Rightarrow> config \<Rightarrow> query_map \<Rightarrow> multi_msg list \<Rightarrow> string \<Rightarrow> unit querying" where
  "process_messages env pe te cfg qv [] version = ret ()"
| "process_messages env pe te cfg qv (msg # msgs) version =
     bindm (process_message env pe te cfg qv msg version) (process_messages env pe te cfg qv msgs)"

section \<open>Rounds and retries\<close>

text \<open>One round: prepare, perform, deliver, read.\<close>

definition perform_round :: "curl_env \<Rightarrow> unit querying" where
  "perform_round ce = (\<lambda>q.
     case perform_all ce (q_performs q) of
       None \<Rightarrow> (Diverged, q)
     | Some n \<Rightarrow> (Done (), q\<lparr>q_performs := n,
         q_stats := (q_stats q)(PSYCH_PC_HTTP_REQUEST_SENT :=
           q_stats q PSYCH_PC_HTTP_REQUEST_SENT + of_nat (length (q_pending q)))\<rparr>))"

definition query_round ::
    "curl_env \<Rightarrow> rfa_env \<Rightarrow> publish_env \<Rightarrow> text_env \<Rightarrow> config \<Rightarrow> query_map \<Rightarrow> query_flags \<Rightarrow> int \<Rightarrow> nat \<Rightarrow> unit querying" where
  "query_round ce env pe te cfg qv flags t0 k =
     bindm (gets q_pending) (\<lambda>pending.
     seq (for_each pending (prepare_connection ce cfg flags t0 k))
    (seq (perform_round ce)
    (seq (for_each (multi_messages ce k) (run_transfer te))
         (process_messages env pe te cfg qv (multi_messages ce k) []))))"

definition RETRY_SLEEP_DEFAULT :: int where "RETRY_SLEEP_DEFAULT = 1000"
definition RETRY_SLEEP_MAX :: int where "RETRY_SLEEP_MAX = 600000"

definition first_sleep :: "config \<Rightarrow> int" where
  "first_sleep cfg = (if atol (retry_delay_ms cfg) \<noteq> 0 then atol (retry_delay_ms cfg) else RETRY_SLEEP_DEFAULT)"

definition next_sleep :: "config \<Rightarrow> int \<Rightarrow> int" where
  "next_sleep cfg retry_sleep =
     (if atol (retry_delay_ms cfg) = 0 then
        (if retry_sleep * 2 > RETRY_SLEEP_MAX then RETRY_SLEEP_MAX else retry_sleep * 2)
      else retry_sleep)"

text \<open>\<open>(now - retrystart).total_milliseconds () < retry_timeout_ms\<close>\<close>

definition in_time :: "config \<Rightarrow> int \<Rightarrow> int \<Rightarrow> bool" where
  "in_time cfg t0 now \<longleftrightarrow>
     retry_timeout_ms cfg = [] \<or> total_milliseconds (now - t0) < atol (retry_timeout_ms cfg)"

text \<open>
  \<open>Sleep\<close> takes an unsigned number of 32 bits: the largest one, which a delay of minus one becomes, is
  \<open>INFINITE\<close>. What is recorded is the argument before the conversion.
\<close>

definition Sleep :: "int \<Rightarrow> unit querying" where
  "Sleep ms =
     seq (modify (\<lambda>q. q\<lparr>q_slept := q_slept q @ [ms]\<rparr>))
         (if (word_of_int ms :: 32 word) = - 1 then Pair Diverged else ret ())"

text \<open>The loop \<open>for (;;)\<close>; a round that is tried again uses up one of the retries that are left.\<close>

function query_loop ::
    "curl_env \<Rightarrow> rfa_env \<Rightarrow> publish_env \<Rightarrow> text_env \<Rightarrow> config \<Rightarrow> query_map \<Rightarrow> query_flags \<Rightarrow> int \<Rightarrow>
     nat \<Rightarrow> int \<Rightarrow> int \<Rightarrow> unit querying" where
  "query_loop ce env pe te cfg qv flags t0 k retry_numretries retry_sleep =
     seq (query_round ce env pe te cfg qv flags t0 k)
    (bindm (gets q_pending) (\<lambda>pending.
       if pending = [] then ret ()
       else if retry_numretries > 0 \<and> in_time cfg t0 (curl_clock ce k) then
         seq (Sleep retry_sleep)
             (query_loop ce env pe te cfg qv flags t0 (k + 1) (retry_numretries - 1) (next_sleep cfg retry_sleep))
       else q_count PSYCH_PC_HTTP_RETRIES_EXCEEDED))"
  by pat_completeness auto
termination
  by (relation "measure (\<lambda>(ce, env, pe, te, cfg, qv, flags, t0, k, n, s). nat n)") auto

declare query_loop.simps [simp del]

definition httpPsychQuery ::
    "curl_env \<Rightarrow> rfa_env \<Rightarrow> publish_env \<Rightarrow> text_env \<Rightarrow> config \<Rightarrow> query_map \<Rightarrow> query_flags \<Rightarrow> int \<Rightarrow> bool querying" where
  "httpPsychQuery ce env pe te cfg qv flags t0 =
     seq (modify (\<lambda>q. q\<lparr>q_pending := [0..<length (q_conns q)]\<rparr>))
    (seq (query_loop ce env pe te cfg qv flags t0 0 (atol (retry_count cfg)) (first_sleep cfg))
    (seq (modify (\<lambda>q. q\<lparr>q_conns := map (\<lambda>c. c\<lparr>conn_handle := False\<rparr>) (q_conns q)\<rparr>))
    (seq (modify (\<lambda>q. q\<lparr>q_times := note_time (curl_end ce - t0) (q_times q)\<rparr>))
         (ret True))))"

section \<open>Retries\<close>

lemma keeps_sub:
  assumes "\<And>q out t. I q \<Longrightarrow> m q = (out, t) \<Longrightarrow> I t"
  shows "keeps I m"
  using assms unfolding keeps_def by (metis prod.collapse)

definition slept_is :: "int list \<Rightarrow> query \<Rightarrow> bool" where
  "slept_is ss q \<longleftrightarrow> q_slept q = ss"

lemma keeps_slept_round: "keeps (slept_is ss) (query_round ce env pe te cfg qv flags t0 k)"
proof -
  have prep: "keeps (slept_is ss) (prepare_connection ce cfg flags t0 k i)" for i
    unfolding prepare_connection_def Let_def
    by (intro keeps_intro keeps_modify) (simp_all add: slept_is_def Let_def)
  have perf: "keeps (slept_is ss) (perform_round ce)"
    by (rule keeps_sub) (auto simp: perform_round_def slept_is_def split: option.splits)
  have tr: "keeps (slept_is ss) (run_transfer te msg)" for msg
    by (rule keeps_sub) (auto simp: run_transfer_def slept_is_def method_simps
        split: multi_msg.splits prod.splits outcome.splits)
  have pub: "keeps (slept_is ss) (publish_response env pe cfg qv resp)" for resp
    by (rule keeps_sub) (auto simp: publish_response_def slept_is_def Let_def split: prod.splits)
  have er: "keeps (slept_is ss) (erase_pending i)" for i
    unfolding erase_pending_def by (intro keeps_intro keeps_modify) (simp_all add: slept_is_def)
  have cnt: "keeps (slept_is ss) (q_count c)" for c
    unfolding q_count_def by (intro keeps_modify) (simp add: slept_is_def)
  have msg: "keeps (slept_is ss) (process_message env pe te cfg qv msg version)" for msg version
  proof (cases msg)
    case (MsgDone i tr)
    have resp: "keeps (slept_is ss) (\<lambda>q. let (out, resp) = OnHttpResponse te cfg (tr_info tr)
                  (response_init (q_stats q) version (q_conns q ! i))
            in (case out of Done ok \<Rightarrow> Done (ok, resp) | Raise e \<Rightarrow> Raise e | Diverged \<Rightarrow> Diverged,
                q\<lparr>q_stats := resp_stats resp, q_conns := (q_conns q)[i := resp_conn resp]\<rparr>))"
      by (rule keeps_sub) (auto simp: slept_is_def split: prod.splits)
    show ?thesis
      unfolding MsgDone process_message_def multi_msg.case
      by (intro keeps_bindm resp) (auto intro!: keeps_seq pub er cnt keeps_ret)
  qed (simp add: process_message_def keeps_ret)
  have msgs: "keeps (slept_is ss) (process_messages env pe te cfg qv msgs version)" for msgs version
    by (induction msgs arbitrary: version) (auto intro!: keeps_ret keeps_bindm msg)
  show ?thesis
    unfolding query_round_def
    by (intro keeps_bindm keeps_seq keeps_for_each keeps_gets prep perf tr msgs)
qed

definition finite_sleep :: "int \<Rightarrow> bool" where
  "finite_sleep ms \<longleftrightarrow> (word_of_int ms :: 32 word) \<noteq> - 1"

lemma Sleep_run:
  "Sleep ms q = (if finite_sleep ms then Done () else Diverged, q\<lparr>q_slept := q_slept q @ [ms]\<rparr>)"
  by (simp add: Sleep_def finite_sleep_def method_simps)

lemma Sleep_seq:
  "seq (Sleep ms) k q = (if finite_sleep ms then k (q\<lparr>q_slept := q_slept q @ [ms]\<rparr>)
     else (Diverged, q\<lparr>q_slept := q_slept q @ [ms]\<rparr>))"
  by (simp add: seq_def bindm_def Sleep_run)

lemma query_loop_slept:
  "\<exists>m. m \<le> nat n \<and> q_slept (snd (query_loop ce env pe te cfg qv flags t0 k n s q)) =
     q_slept q @ map (\<lambda>j. (next_sleep cfg ^^ j) s) [0..<m]"
proof (induction "nat n" arbitrary: n k s q)
  case 0
  obtain out q1 where r: "query_round ce env pe te cfg qv flags t0 k q = (out, q1)" by force
  have "q_slept q1 = q_slept q"
    using keepsD[OF keeps_slept_round, of "q_slept q" q ce env pe te cfg qv flags t0 k] r
    by (simp add: slept_is_def)
  then show ?case
    using 0 r by (intro exI[of _ 0]) (cases out, auto simp: query_loop.simps[of ce env pe te cfg qv flags t0 k]
        seq_def bindm_def[of "query_round ce env pe te cfg qv flags t0 k"] method_simps q_count_def)
next
  case (Suc d)
  obtain out q1 where r: "query_round ce env pe te cfg qv flags t0 k q = (out, q1)" by force
  have sl: "q_slept q1 = q_slept q"
    using keepsD[OF keeps_slept_round, of "q_slept q" q ce env pe te cfg qv flags t0 k] r
    by (simp add: slept_is_def)
  let ?L = "query_loop ce env pe te cfg qv flags t0"
  have pos: "0 < n" and dn: "d = nat (n - 1)" using Suc.hyps(2) by simp_all
  show ?case
  proof (cases "out = Done () \<and> q_pending q1 \<noteq> [] \<and> in_time cfg t0 (curl_clock ce k)")
    case True
    let ?q2 = "q1\<lparr>q_slept := q_slept q1 @ [s]\<rparr>"
    have L: "?L k n s q = (if finite_sleep s then ?L (k + 1) (n - 1) (next_sleep cfg s) ?q2 else (Diverged, ?q2))"
      using True r pos
      by (subst query_loop.simps) (simp add: seq_Done_run[of "query_round ce env pe te cfg qv flags t0 k"] method_simps Sleep_seq)
    obtain m where "m \<le> nat (n - 1)" "q_slept (snd (?L (k + 1) (n - 1) (next_sleep cfg s) ?q2)) =
        q_slept ?q2 @ map (\<lambda>j. (next_sleep cfg ^^ j) (next_sleep cfg s)) [0..<m]"
      using Suc.hyps(1)[OF dn, of "k + 1" "next_sleep cfg s" ?q2] by blast
    moreover have "map (\<lambda>j. (next_sleep cfg ^^ j) s) [0..<Suc m] =
        s # map (\<lambda>j. (next_sleep cfg ^^ j) (next_sleep cfg s)) [0..<m]" for m
      by (simp add: upt_conv_Cons map_Suc_upt[symmetric] funpow_swap1 del: upt_Suc)
    ultimately show ?thesis using sl Suc.hyps(2) L pos
      by (cases "finite_sleep s", intro exI[of _ "Suc m"]) (simp del: upt_Suc, intro exI[of _ 1], simp)
  next
    case False
    then show ?thesis
      using r sl by (intro exI[of _ 0]) (cases out, auto simp: query_loop.simps[of ce env pe te cfg qv flags t0 k]
        seq_def bindm_def[of "query_round ce env pe te cfg qv flags t0 k"] method_simps q_count_def)
  qed
qed

lemma next_sleep_backoff:
  assumes "atol (retry_delay_ms cfg) = 0"
  shows "(next_sleep cfg ^^ j) (first_sleep cfg) = min (1000 * 2 ^ j) 600000"
proof (induction j)
  case 0
  then show ?case using assms by (simp add: first_sleep_def RETRY_SLEEP_DEFAULT_def)
next
  case (Suc j)
  have "(0::int) < 2 ^ j" by simp
  then show ?case using Suc assms by (auto simp: next_sleep_def RETRY_SLEEP_MAX_def min_def)
qed

lemma next_sleep_fixed:
  "atol (retry_delay_ms cfg) \<noteq> 0 \<Longrightarrow> (next_sleep cfg ^^ j) (first_sleep cfg) = atol (retry_delay_ms cfg)"
  by (induction j) (simp_all add: first_sleep_def next_sleep_def)

lemma sleeps_finite:
  assumes "atol (retry_delay_ms cfg) \<noteq> - 1"
  shows "finite_sleep ((next_sleep cfg ^^ j) (first_sleep cfg))"
proof -
  have finite: "finite_sleep x" if "- (2 ^ 31) \<le> x" "x < 2 ^ 31" "x \<noteq> - 1" for x
  proof -
    have "x = - 1" if "(word_of_int x :: 32 word) = - 1"
    proof -
      have "x mod 2 ^ 32 = - 1 mod 2 ^ 32"
        using arg_cong[OF that, of uint] by (simp add: uint_word_of_int uint_word_ariths)
      then obtain k where "x + 1 = 2 ^ 32 * k" 
        unfolding mod_eq_dvd_iff by (auto elim: dvdE)
      moreover from this have "k < 1" "- 1 < k" using \<open>- (2 ^ 31) \<le> x\<close> \<open>x < 2 ^ 31\<close> by simp_all
      ultimately show ?thesis by simp
    qed
    then show ?thesis using that(3) by (auto simp: finite_sleep_def)
  qed
  show ?thesis
  proof (cases "atol (retry_delay_ms cfg) = 0")
    case True
    obtain m :: int where m: "m = min (1000 * 2 ^ j) 600000" "0 < m" "m \<le> 600000" by simp
    then show ?thesis unfolding next_sleep_backoff[OF True] m(1)[symmetric] by (intro finite) simp_all
  next
    case False
    then show ?thesis
      using next_sleep_fixed[OF False] atol_range[of "retry_delay_ms cfg"] assms by (simp add: finite)
  qed
qed

lemma httpPsychQuery_slept:
  "\<exists>m. m \<le> nat (atol (retry_count cfg)) \<and>
     q_slept (snd (httpPsychQuery ce env pe te cfg qv flags t0 q)) =
     q_slept q @ map (\<lambda>j. (next_sleep cfg ^^ j) (first_sleep cfg)) [0..<m]"
proof -
  let ?q = "q\<lparr>q_pending := [0..<length (q_conns q)]\<rparr>"
  let ?L = "query_loop ce env pe te cfg qv flags t0 0 (atol (retry_count cfg)) (first_sleep cfg)"
  have "q_slept (snd (httpPsychQuery ce env pe te cfg qv flags t0 q)) = q_slept (snd (?L ?q))"
    by (auto simp: httpPsychQuery_def bindm_run seq_def[of ?L] bindm_def[of ?L] method_simps
        split: prod.splits outcome.splits)
  then show ?thesis using query_loop_slept[of "atol (retry_count cfg)" ce env pe te cfg qv flags t0 0 "first_sleep cfg" ?q]
    by simp
qed

text \<open>
  C25. A query waits at most \<open>retry_count\<close> times. With no delay configured the waits double from one
  second up to ten minutes and stay there; a configured delay is used unchanged every time.
\<close>

theorem retry_waits:
  "\<exists>m. m \<le> nat (atol (retry_count cfg)) \<and>
     q_slept (snd (httpPsychQuery ce env pe te cfg qv flags t0 q)) = q_slept q @
       map (\<lambda>j. if atol (retry_delay_ms cfg) = 0 then min (1000 * 2 ^ j) 600000 else atol (retry_delay_ms cfg)) [0..<m]"
proof -
  have "(next_sleep cfg ^^ j) (first_sleep cfg) =
      (if atol (retry_delay_ms cfg) = 0 then min (1000 * 2 ^ j) 600000 else atol (retry_delay_ms cfg))" for j
    using next_sleep_backoff next_sleep_fixed by simp
  then show ?thesis using httpPsychQuery_slept[of cfg ce env pe te qv flags t0 q] by simp
qed

section \<open>The perform loop\<close>

lemma perform_again_returns:
  assumes "multi_perform ce (n + d) = (False, 0)"
  shows "\<exists>n' r. perform_again ce n again running = Some (n', r) \<and> n' \<le> n + d + 1 \<and>
    (again \<longrightarrow> n < n' \<and> (n' = n + d + 1 \<longrightarrow> r = 0))"
  using assms
proof (induction d arbitrary: n again running)
  case 0
  then show ?case
    by (cases again) (simp_all add: perform_again.simps[of ce n] perform_again.simps[of ce "n + 1"]
        perform_again.simps[of ce "Suc n"])
next
  case (Suc d)
  show ?case
  proof (cases again)
    case True
    obtain a r where m: "multi_perform ce n = (a, r)" by force
    obtain n' r' where "perform_again ce (n + 1) a r = Some (n', r')" "n' \<le> n + 1 + d + 1"
        "a \<longrightarrow> n + 1 < n' \<and> (n' = n + 1 + d + 1 \<longrightarrow> r' = 0)"
      using Suc.IH[of "n + 1" a r] Suc.prems by (auto simp: add.commute add.left_commute)
    moreover have "\<not> a \<Longrightarrow> n' = n + 1 \<and> r' = r"
      using \<open>perform_again ce (n + 1) a r = Some (n', r')\<close> by (simp add: perform_again.simps[of ce "Suc n"])
    ultimately show ?thesis
      using True m by (cases a) (auto simp: perform_again.simps[of ce n])
  next
    case False
    then show ?thesis by (simp add: perform_again.simps[of ce n])
  qed
qed

lemma perform_loop_returns:
  assumes "multi_perform ce (n + d) = (False, 0)" "again"
  shows "\<exists>n'. perform_loop ce n again running = Some n'"
  using assms
proof (induction d arbitrary: n again running rule: less_induct)
  case (less d)
  show ?case
  proof (cases "running > 0")
    case True
    obtain n' r where P: "perform_again ce n again running = Some (n', r)" "n' \<le> n + d + 1" "n < n'"
        "n' = n + d + 1 \<longrightarrow> r = 0"
      using perform_again_returns[OF less(2), of again running] less(3) by auto
    show ?thesis
    proof (cases "r = 0")
      case True
      then show ?thesis using P by (simp add: perform_loop.simps[of ce n])
    next
      case False
      then have "n' + (n + d - n') = n + d" "n + d - n' < d" using P by auto
      then have "\<exists>x. perform_loop ce n' True r = Some x"
        using less(1)[of "n + d - n'" n' True r] less(2) by simp
      then show ?thesis using P False by (simp add: perform_loop.simps[of ce n])
    qed
  next
    case False
    then show ?thesis by (simp add: perform_loop.simps[of ce n])
  qed
qed

lemma perform_all_Some:
  assumes "multi_perform ce (n + d) = (False, 0)"
  shows "\<exists>m. perform_all ce n = Some m"
proof -
  obtain again running where m: "multi_perform ce n = (again, running)" by force
  show ?thesis
  proof (cases "d = 0 \<or> running = 0")
    case True
    then show ?thesis using assms m by (auto simp: perform_all_def perform_loop.simps[of ce "Suc n"])
  next
    case False
    then obtain d' where d: "d = Suc d'" by (cases d) auto
    have loop: "\<exists>x. perform_loop ce (Suc n) True running = Some x"
      using perform_loop_returns[of ce "Suc n" d' True running] assms d by simp
    show ?thesis
    proof (cases again)
      case True
      then show ?thesis using m loop by (simp add: perform_all_def)
    next
      case A: False
      have "perform_again ce (Suc n) False running = Some (Suc n, running)"
        by (simp add: perform_again.simps[of ce "Suc n"])
      then show ?thesis using m loop False A by (simp add: perform_all_def perform_loop.simps[of ce "Suc n" False])
    qed
  qed
qed

text \<open>
  The perform loop returns as soon as libcurl once answers that it needs no further call and
  has no running transfer, whatever it answered before.
\<close>

theorem perform_all_returns:
  assumes "multi_perform ce (n + d) = (False, 0)"
  shows "\<exists>m. perform_all ce n = Some m"
  by (rule perform_all_Some[OF assms])

theorem perform_all_returns_witness:
  "\<exists>m. perform_all \<lparr>easy_init = \<lambda>_ _. True, multi_perform = (\<lambda>n. (n = 1, 3 - n)), multi_messages = \<lambda>_. [],
     curl_clock = \<lambda>_. 0, curl_end = 0, user_agent = [], vlog_10 = False\<rparr> 0 = Some m"
  by (rule perform_all_returns[where d = 3]) simp

section \<open>A query that fails\<close>

definition pending_is :: "nat list \<Rightarrow> query \<Rightarrow> bool" where
  "pending_is ps q \<longleftrightarrow> q_pending q = ps"

text \<open>The counters that only the query itself changes, with what was sent.\<close>

definition tallies :: "query \<Rightarrow> 32 word \<times> 32 word \<times> 32 word \<times> nat list \<times> provider \<times> nat" where
  "tallies q = (q_stats q PSYCH_PC_HTTP_REQUEST_SENT, q_stats q PSYCH_PC_HTTP_MALFORMED,
     q_stats q PSYCH_PC_HTTP_RETRIES_EXCEEDED, q_pending q, q_provider q, length (q_conns q))"

lemma for_each_Done:
  assumes "\<And>x s. x \<in> set xs \<Longrightarrow> I s \<Longrightarrow> \<exists>t. f x s = (Done (), t) \<and> I t" "I s"
  shows "\<exists>t. for_each xs f s = (Done (), t) \<and> I t"
  using assms
proof (induction xs arbitrary: s)
  case Nil
  then show ?case by (simp add: method_simps)
next
  case (Cons x xs)
  obtain u where u: "f x s = (Done (), u)" "I u" using Cons.prems by force
  have "\<exists>t. for_each xs f u = (Done (), t) \<and> I t"
    using Cons.IH[OF _ u(2)] Cons.prems(1) by simp
  then show ?case by (simp add: seq_Done_run[of "f x", OF u(1)])
qed

lemma prepare_tallies:
  assumes "0 \<le> atol (maximum_response_size cfg)" "tallies q = v"
  shows "\<exists>t. prepare_connection ce cfg flags t0 k i q = (Done (), t) \<and> tallies t = v"
  using assms by (auto simp: prepare_connection_def method_simps tallies_def Let_def)

text \<open>A transfer that ends with a status other than 200, with header lines the callback can read.\<close>

definition fails :: "text_env \<Rightarrow> multi_msg \<Rightarrow> bool" where
  "fails te m \<longleftrightarrow> (\<exists>i tr. m = MsgDone i tr \<and> response_code (tr_info tr) \<noteq> 200 \<and>
     (\<forall>c. fst (deliver_headers te (tr_headers tr) c) = Done ()))"

lemma run_transfer_tallies:
  assumes "fails te msg" "tallies q = v"
  shows "\<exists>t. run_transfer te msg q = (Done (), t) \<and> tallies t = v"
proof -
  obtain i tr where m: "msg = MsgDone i tr" "\<And>c. fst (deliver_headers te (tr_headers tr) c) = Done ()"
    using assms(1) by (auto simp: fails_def)
  then obtain c where "deliver_headers te (tr_headers tr) (q_conns q ! i) = (Done (), c)"
    by (metis prod.collapse)
  then show ?thesis using assms(2) m(1) by (simp add: run_transfer_def tallies_def)
qed

lemma status_fails:
  assumes "response_code info \<noteq> 200"
  shows "\<exists>r'. OnHttpResponse te cfg info r = (Done False, r') \<and>
     (\<forall>c \<in> {PSYCH_PC_HTTP_REQUEST_SENT, PSYCH_PC_HTTP_MALFORMED, PSYCH_PC_HTTP_RETRIES_EXCEEDED}.
        resp_stats r' c = resp_stats r c)"
  using assms by (auto simp: OnHttpResponse_def count_status_def tally_def count_def run_simps_all)

lemma process_failed:
  assumes "response_code (tr_info tr) \<noteq> 200" "tallies q = (a, b, c, ps, p, l)"
  shows "\<exists>t w. process_message env pe te cfg qv (MsgDone i tr) version q = (Done w, t) \<and>
    tallies t = (a, b + 1, c, ps, p, l)"
proof -
  obtain r' where r: "OnHttpResponse te cfg (tr_info tr) (response_init (q_stats q) version (q_conns q ! i)) = (Done False, r')"
    "resp_stats r' PSYCH_PC_HTTP_REQUEST_SENT = q_stats q PSYCH_PC_HTTP_REQUEST_SENT"
    "resp_stats r' PSYCH_PC_HTTP_MALFORMED = q_stats q PSYCH_PC_HTTP_MALFORMED"
    "resp_stats r' PSYCH_PC_HTTP_RETRIES_EXCEEDED = q_stats q PSYCH_PC_HTTP_RETRIES_EXCEEDED"
    using status_fails[OF assms(1), of te cfg "response_init (q_stats q) version (q_conns q ! i)"]
    by (auto simp: response_init_def)
  then show ?thesis
    using assms(2) by (simp add: process_message_def bindm_def method_simps q_count_def count_def tallies_def)
qed

lemma process_all_failed:
  assumes "\<forall>m \<in> set msgs. fails te m" "tallies q = (a, b, c, ps, p, l)"
  shows "\<exists>t. process_messages env pe te cfg qv msgs version q = (Done (), t) \<and>
    tallies t = (a, b + of_nat (length msgs), c, ps, p, l)"
  using assms
proof (induction msgs arbitrary: q b version)
  case Nil
  then show ?case by (simp add: method_simps)
next
  case (Cons m msgs)
  obtain i tr where m: "m = MsgDone i tr" "response_code (tr_info tr) \<noteq> 200" using Cons.prems(1) by (auto simp: fails_def)
  obtain t w where t: "process_message env pe te cfg qv m version q = (Done w, t)" "tallies t = (a, b + 1, c, ps, p, l)"
    using process_failed[OF m(2) Cons.prems(2)] m(1) by blast
  show ?case
    using Cons.IH[OF _ t(2), of w] Cons.prems(1) t(1) by (auto simp: bindm_def algebra_simps)
qed

lemma failed_round:
  assumes "\<forall>n. perform_all ce n \<noteq> None" "0 \<le> atol (maximum_response_size cfg)"
    and "\<forall>m \<in> set (multi_messages ce k). fails te m" "tallies q = (a, b, c, ps, p, l)"
  shows "\<exists>t. query_round ce env pe te cfg qv flags t0 k q = (Done (), t) \<and>
    tallies t = (a + of_nat (length ps), b + of_nat (length (multi_messages ce k)), c, ps, p, l)"
proof -
  have ps: "q_pending q = ps" using assms(4) by (simp add: tallies_def)
  obtain q1 where q1: "for_each ps (prepare_connection ce cfg flags t0 k) q = (Done (), q1)" "tallies q1 = (a, b, c, ps, p, l)"
    using for_each_Done[of ps "\<lambda>q. tallies q = (a, b, c, ps, p, l)" "prepare_connection ce cfg flags t0 k" q]
      prepare_tallies[OF assms(2)] assms(4) by blast
  obtain n where n: "perform_all ce (q_performs q1) = Some n" using assms(1) by blast
  obtain q2 where q2: "perform_round ce q1 = (Done (), q2)" "tallies q2 = (a + of_nat (length ps), b, c, ps, p, l)"
    using n q1(2) by (simp add: perform_round_def tallies_def)
  obtain q3 where q3: "for_each (multi_messages ce k) (run_transfer te) q2 = (Done (), q3)"
      "tallies q3 = (a + of_nat (length ps), b, c, ps, p, l)"
    using for_each_Done[of "multi_messages ce k" "\<lambda>q. tallies q = (a + of_nat (length ps), b, c, ps, p, l)" "run_transfer te" q2]
      run_transfer_tallies[of te] assms(3) q2(2) by blast
  show ?thesis
    using process_all_failed[OF assms(3) q3(2), of env pe cfg qv "[]"]
    by (simp add: query_round_def method_simps ps seq_Done_run[of "for_each ps (prepare_connection ce cfg flags t0 k)", OF q1(1)]
        seq_Done_run[of "perform_round ce", OF q2(1)] seq_Done_run[of "for_each (multi_messages ce k) (run_transfer te)", OF q3(1)])
qed

lemma failed_loop:
  assumes "\<forall>n. perform_all ce n \<noteq> None" "0 \<le> atol (maximum_response_size cfg)" "retry_timeout_ms cfg = []"
    and "\<forall>k. length (multi_messages ce k) = length ps \<and> (\<forall>m \<in> set (multi_messages ce k). fails te m)"
    and "ps \<noteq> []" "tallies q = (a, b, c, ps, p, l)" "\<forall>j < nat n. finite_sleep ((next_sleep cfg ^^ j) s)"
  shows "\<exists>t. query_loop ce env pe te cfg qv flags t0 k n s q = (Done (), t) \<and>
    tallies t = (a + of_nat (length ps * (nat n + 1)), b + of_nat (length ps * (nat n + 1)), c + 1, ps, p, l)"
  using assms(6,7)
proof (induction "nat n" arbitrary: n k s q a b)
  case 0
  obtain t where t: "query_round ce env pe te cfg qv flags t0 k q = (Done (), t)"
    "tallies t = (a + of_nat (length ps), b + of_nat (length ps), c, ps, p, l)"
    using failed_round[OF assms(1,2) _ "0.prems"(1)] assms(4) by metis
  then show ?case using "0.hyps" assms(5)
    by (subst query_loop.simps) (simp add: seq_Done_run[of "query_round ce env pe te cfg qv flags t0 k", OF t(1)]
        method_simps q_count_def count_def tallies_def)
next
  case (Suc d)
  obtain t where t: "query_round ce env pe te cfg qv flags t0 k q = (Done (), t)"
    "tallies t = (a + of_nat (length ps), b + of_nat (length ps), c, ps, p, l)"
    using failed_round[OF assms(1,2) _ Suc.prems(1)] assms(4) by metis
  let ?t = "t\<lparr>q_slept := q_slept t @ [s]\<rparr>"
  have d: "d = nat (n - 1)" "0 < n" using Suc.hyps(2) by simp_all
  have fin: "finite_sleep s" using Suc.prems(2) Suc.hyps(2) by force
  have fin': "\<forall>j < nat (n - 1). finite_sleep ((next_sleep cfg ^^ j) (next_sleep cfg s))"
  proof (intro allI impI)
    fix j
    assume "j < nat (n - 1)"
    then have "Suc j < nat n" using Suc.hyps(2) d by simp
    then have "finite_sleep ((next_sleep cfg ^^ Suc j) s)" using Suc.prems(2) by blast
    then show "finite_sleep ((next_sleep cfg ^^ j) (next_sleep cfg s))" by (simp add: funpow_swap1)
  qed
  have "query_loop ce env pe te cfg qv flags t0 k n s q =
      query_loop ce env pe te cfg qv flags t0 (k + 1) (n - 1) (next_sleep cfg s) ?t"
    using t(2) assms(3,5) d(2) by (subst query_loop.simps)
      (simp add: seq_Done_run[of "query_round ce env pe te cfg qv flags t0 k", OF t(1)] method_simps in_time_def tallies_def
        Sleep_seq fin)
  moreover have "tallies ?t = tallies t" by (simp add: tallies_def)
  ultimately show ?case
    using Suc.hyps(1)[OF d(1), of ?t "a + of_nat (length ps)" "b + of_nat (length ps)" "next_sleep cfg s" "k + 1"] t(2) d fin'
    by (auto simp: algebra_simps of_nat_diff Suc.hyps(2)[symmetric])
qed

text \<open>
  C24. A query whose transfers all end with a status other than 200, a not-modified answer included, is
  tried again until the retries are used up: each of the \<open>retry_count + 1\<close> rounds requests every
  connection and counts each of them as malformed, then one abort is counted. The query returns
  true all the same, and nothing is published. Only a delay of minus one, with which the first
  retry would wait for ever, is excluded.
\<close>

theorem failing_query_uses_all_retries:
  assumes "\<forall>n. perform_all ce n \<noteq> None" "0 \<le> atol (maximum_response_size cfg)" "retry_timeout_ms cfg = []"
    and "\<forall>k. length (multi_messages ce k) = length (q_conns q) \<and> (\<forall>m \<in> set (multi_messages ce k). fails te m)"
    and "q_conns q \<noteq> []" "rounds = nat (atol (retry_count cfg)) + 1"
    and "0 < atol (retry_count cfg) \<longrightarrow> atol (retry_delay_ms cfg) \<noteq> - 1"
  shows "\<exists>t. httpPsychQuery ce env pe te cfg qv flags t0 q = (Done True, t) \<and> q_provider t = q_provider q \<and>
    q_stats t PSYCH_PC_HTTP_REQUEST_SENT = q_stats q PSYCH_PC_HTTP_REQUEST_SENT + of_nat (length (q_conns q) * rounds) \<and>
    q_stats t PSYCH_PC_HTTP_MALFORMED = q_stats q PSYCH_PC_HTTP_MALFORMED + of_nat (length (q_conns q) * rounds) \<and>
    q_stats t PSYCH_PC_HTTP_RETRIES_EXCEEDED = q_stats q PSYCH_PC_HTTP_RETRIES_EXCEEDED + 1"
proof -
  let ?ps = "[0..<length (q_conns q)]" and ?q = "q\<lparr>q_pending := [0..<length (q_conns q)]\<rparr>"
  let ?L = "query_loop ce env pe te cfg qv flags t0 0 (atol (retry_count cfg)) (first_sleep cfg)"
  have start: "tallies ?q = (q_stats q PSYCH_PC_HTTP_REQUEST_SENT, q_stats q PSYCH_PC_HTTP_MALFORMED,
      q_stats q PSYCH_PC_HTTP_RETRIES_EXCEEDED, ?ps, q_provider q, length (q_conns q))"
    by (simp add: tallies_def)
  have sleeps: "\<forall>j < nat (atol (retry_count cfg)). finite_sleep ((next_sleep cfg ^^ j) (first_sleep cfg))"
    using assms(7) sleeps_finite[of cfg] by auto
  from failed_loop[OF assms(1-3) _ _ start sleeps, of te env pe qv flags t0 0] assms(4,5)
  obtain t where t: "?L ?q = (Done (), t)" "tallies t = (q_stats q PSYCH_PC_HTTP_REQUEST_SENT + of_nat (length ?ps * rounds),
      q_stats q PSYCH_PC_HTTP_MALFORMED + of_nat (length ?ps * rounds), q_stats q PSYCH_PC_HTTP_RETRIES_EXCEEDED + 1,
      ?ps, q_provider q, length (q_conns q))"
    using assms(6) by auto
  then show ?thesis
    by (simp add: httpPsychQuery_def method_simps seq_Done_run[of ?L, OF t(1)] tallies_def)
qed

definition demo_curl_env :: "(nat \<Rightarrow> multi_msg list) \<Rightarrow> curl_env" where
  "demo_curl_env msgs = \<lparr>easy_init = \<lambda>_ _. True, multi_perform = \<lambda>_. (False, 0), multi_messages = msgs,
     curl_clock = \<lambda>_. 0, curl_end = 0, user_agent = ''psych/1.0.0'', vlog_10 = False\<rparr>"

definition demo_not_modified :: transfer where
  "demo_not_modified = \<lparr>tr_headers = [''HTTP/1.1 304 Not Modified''], tr_blocks = [],
     tr_info = \<lparr>response_code = 304, content_type = None, filetime = - 1\<rparr>\<rparr>"

definition demo_query :: "connection list \<Rightarrow> query" where
  "demo_query cs = \<lparr>q_conns = cs, q_pending = [], q_stats = (\<lambda>_. 0), q_provider = demo_login, q_performs = 0,
     q_options = [], q_slept = [], q_times = \<lparr>min_refresh_time = None, max_refresh_time = None, total_refresh_time = 0\<rparr>\<rparr>"

text \<open>A feed that answers not modified, asked with two retries.\<close>

theorem failing_query_uses_all_retries_witness:
  "\<exists>t. httpPsychQuery (demo_curl_env (\<lambda>_. [MsgDone 0 demo_not_modified])) demo_env demo_publish_env demo_text_env
      (config_init\<lparr>retry_count := ''2'', maximum_response_size := ''100''\<rparr>) [] \<lparr>QUERY_HTTP_KEEPALIVE = True, QUERY_IF_MODIFIED_SINCE = True\<rparr> 0
      (demo_query [demo_connection]) = (Done True, t) \<and>
    q_stats t PSYCH_PC_HTTP_MALFORMED = 3 \<and> q_stats t PSYCH_PC_HTTP_RETRIES_EXCEEDED = 1"
proof -
  have "\<forall>n. perform_all (demo_curl_env (\<lambda>_. [MsgDone 0 demo_not_modified])) n \<noteq> None"
    by (simp add: perform_all_def demo_curl_env_def perform_loop.simps)
  moreover have "atol ''100'' = 100" "atol ''2'' = 2" by code_simp+
  moreover have "atol (retry_delay_ms (config_init\<lparr>retry_count := ''2'', maximum_response_size := ''100''\<rparr>)) \<noteq> - 1"
    by code_simp
  moreover have "fails demo_text_env (MsgDone 0 demo_not_modified)"
    by (simp add: fails_def demo_not_modified_def on_http_header_def)
  ultimately show ?thesis
    using failing_query_uses_all_retries[of "demo_curl_env (\<lambda>_. [MsgDone 0 demo_not_modified])"
        "config_init\<lparr>retry_count := ''2'', maximum_response_size := ''100''\<rparr>" "demo_query [demo_connection]" demo_text_env 3
        demo_env demo_publish_env "[]" "\<lparr>QUERY_HTTP_KEEPALIVE = True, QUERY_IF_MODIFIED_SINCE = True\<rparr>" 0]
    by (auto simp: demo_query_def demo_curl_env_def config_init_def)
qed

section \<open>The query comes back\<close>

lemma returns_OnHttpResponse: "returns (OnHttpResponse te cfg info)"
proof -
  have tally: "returns (tally c)" "returns (assign_stat c v)" for c v
    by (simp_all add: tally_def assign_stat_def returns_basic)
  have status: "returns (count_status code)" for code
    unfolding count_status_def by (intro returns_intro tally)
  have clock: "returns (clock_offsets cfg info)"
    unfolding clock_offsets_def Let_def by (intro returns_intro tally)
  have time: "returns (read_time te s upd)" for s upd
    unfolding read_time_def by (intro returns_intro)
  have stamp: "returns (parse_timestamp te line)" "returns (parse_columns line)" for line
    unfolding parse_timestamp_def parse_columns_def by (intro returns_intro time)+
  have lines: "returns (parse_lines te st ls)" for st ls
  proof (induction ls arbitrary: st)
    case Nil
    then show ?case by (cases st) (simp_all add: returns_basic)
  next
    case (Cons line ls)
    then show ?case
      by (cases st) (simp_all add: returns_basic returns_bindm returns_seq returns_if stamp split: option.split)
  qed
  have tail: "returns (parse_table te)" "returns psych_offset"
    unfolding parse_table_def psych_offset_def by (intro returns_intro lines tally)+
  show ?thesis
    unfolding OnHttpResponse_def
    by (intro returns_intro tally status) (auto split: outcome.split intro!: returns_intro clock tail)
qed

definition rfa_returns :: "rfa_env \<Rightarrow> bool" where
  "rfa_returns env \<longleftrightarrow> (\<forall>n. env_submit env n \<noteq> Diverged)"

lemma returns_SendRefresh:
  assumes "rfa_returns env"
  shows "returns (SendRefresh env pe cfg r names version close cols rs)"
proof -
  have call: "returns (rfa_call answer)" if "\<And>n. answer n \<noteq> Diverged" for answer :: "nat \<Rightarrow> 'x outcome"
    using that by (simp add: returns_def rfa_call_def)
  have clock: "returns (touch_session env i)" "returns (touch_provider env)" "returns (bump i c)" for i c
    unfolding touch_session_def touch_provider_def clock_call_def on_session_def bump_def
    by (intro returns_intro call; simp)+
  have send: "returns (provider_Send env a msg)" for a msg
    using assms unfolding provider_Send_def session_Send_def Submit_def rfa_returns_def
    by (intro returns_intro call clock) auto
  have rows: "returns (send_rows env pe cfg r names version t cols v perm rs)" for t v perm
    by (induction rs arbitrary: perm)
      (auto split: option.split outcome.split simp: Let_def intro!: returns_intro send)
  show ?thesis unfolding SendRefresh_def by (intro returns_intro rows)
qed

lemma returns_query_loop:
  assumes "rfa_returns env" "\<forall>n. perform_all ce n \<noteq> None" "\<And>j. finite_sleep ((next_sleep cfg ^^ j) s)"
  shows "returns (query_loop ce env pe te cfg qv flags t0 k n s)"
proof -
  have prep: "returns (prepare_connection ce cfg flags t0 k i)" for k i
    unfolding prepare_connection_def Let_def by (intro returns_intro)
  have perf: "returns (perform_round ce)"
    using assms(2) by (auto simp: returns_def perform_round_def split: option.split)
  have header: "fst (on_http_header te h c) \<noteq> Diverged" for h c
    by (simp add: on_http_header_def split: option.split)
  have headers: "fst (deliver_headers te hs c) \<noteq> Diverged" for hs c
  proof (induction hs arbitrary: c)
    case (Cons h hs)
    show ?case using Cons[of "snd (on_http_header te h c)"] header[of h c]
      by (auto split: prod.splits outcome.splits)
  qed simp
  have tr: "returns (run_transfer te m)" for m
    unfolding returns_def run_transfer_def
    using headers by (cases m) (auto simp: method_simps split: prod.split outcome.split dest!: arg_cong[where f = fst] simp: headers)
  have pub: "returns (publish_response env pe cfg qv resp)" for resp
  proof -
    have "returns (try_catch (SendRefresh env pe cfg r names version close cols rs) P (\<lambda>_. ret True))" for r names version close cols rs P
      by (intro returns_intro returns_SendRefresh assms(1))
    then show ?thesis
      unfolding returns_def publish_response_def Let_def
      by (auto split: prod.split outcome.split dest!: arg_cong[where f = fst])
  qed
  have msg: "returns (process_message env pe te cfg qv m version)" for m version
  proof (cases m)
    case (MsgDone i tr)
    have "fst (OnHttpResponse te cfg (tr_info tr) r) \<noteq> Diverged" for r
      using returns_OnHttpResponse by (simp add: returns_def)
    then have resp: "returns (\<lambda>q. let (out, resp) = OnHttpResponse te cfg (tr_info tr) (response_init (q_stats q) version (q_conns q ! i))
            in (case out of Done ok \<Rightarrow> Done (ok, resp) | Raise e \<Rightarrow> Raise e | Diverged \<Rightarrow> Diverged,
                q\<lparr>q_stats := resp_stats resp, q_conns := (q_conns q)[i := resp_conn resp]\<rparr>))"
      unfolding returns_def Let_def by (auto split: prod.split outcome.split dest!: arg_cong[where f = fst])
    show ?thesis
      unfolding MsgDone process_message_def multi_msg.case erase_pending_def q_count_def
      by (intro returns_bindm resp) (auto intro!: returns_intro pub)
  qed (simp add: process_message_def returns_basic)
  have msgs: "returns (process_messages env pe te cfg qv ms version)" for ms version
    by (induction ms arbitrary: version) (auto intro!: returns_intro msg)
  have round: "returns (query_round ce env pe te cfg qv flags t0 k)" for k
    unfolding query_round_def by (intro returns_intro prep perf tr msgs)
  show ?thesis
    using assms(3)
  proof (induction "nat n" arbitrary: k n s)
    case 0
    then show ?case by (subst query_loop.simps) (auto simp: q_count_def intro!: returns_intro round)
  next
    case (Suc d)
    have later: "finite_sleep ((next_sleep cfg ^^ j) (next_sleep cfg s))" for j
      using Suc.prems[of "Suc j"] by (simp add: funpow_swap1)
    have "returns (Sleep s)" using Suc.prems[of 0] by (simp add: returns_def Sleep_run)
    moreover have "returns (query_loop ce env pe te cfg qv flags t0 (k + 1) (n - 1) (next_sleep cfg s))"
      using Suc.hyps later by simp
    ultimately show ?case by (subst query_loop.simps) (auto simp: q_count_def intro!: returns_intro round)
  qed
qed

text \<open>
  C15. A query comes back, with true or an exception, whatever libcurl delivers: it is enough that RFA
  answers every submission, that libcurl, asked again and again, at some point has no running
  transfer left, and that the configured delay between retries is not minus one, the delay that
  \<open>Sleep\<close> takes for ever. There is no round without a bound, even without a time limit for the retries.
\<close>

theorem query_returns:
  assumes "\<And>n. env_submit env n \<noteq> Diverged" "\<And>n. \<exists>d. multi_perform ce (n + d) = (False, 0)"
    and "atol (retry_delay_ms cfg) \<noteq> - 1"
  shows "fst (httpPsychQuery ce env pe te cfg qv flags t0 q) \<noteq> Diverged"
proof -
  have "perform_all ce n \<noteq> None" for n using perform_all_Some assms(2) by (metis option.distinct(1))
  then have "returns (httpPsychQuery ce env pe te cfg qv flags t0)"
    using assms(1) sleeps_finite[OF assms(3)] unfolding httpPsychQuery_def rfa_returns_def[symmetric]
    by (intro returns_intro returns_query_loop) (auto simp: rfa_returns_def)
  then show ?thesis by (simp add: returns_def)
qed

theorem query_returns_witness:
  "fst (httpPsychQuery (demo_curl_env (\<lambda>_. [MsgDone 0 demo_not_modified])) demo_env demo_publish_env demo_text_env
      config_init [] \<lparr>QUERY_HTTP_KEEPALIVE = True, QUERY_IF_MODIFIED_SINCE = True\<rparr> 0 (demo_query [demo_connection])) \<noteq> Diverged"
proof -
  have "atol (retry_delay_ms config_init) \<noteq> - 1" by code_simp
  then show ?thesis by (intro query_returns) (simp_all add: demo_env_def demo_curl_env_def)
qed

text \<open>
  The condition on the delay is needed: with a delay of minus one, which no check of the configuration
  refuses, a query that still has a retry left after a round that failed waits for ever.
\<close>

theorem endless_delay:
  assumes "atol (retry_delay_ms cfg) = - 1" "0 < atol (retry_count cfg)" "retry_timeout_ms cfg = []"
    and "\<forall>n. perform_all ce n \<noteq> None" "0 \<le> atol (maximum_response_size cfg)"
    and "\<forall>k. length (multi_messages ce k) = length (q_conns q) \<and> (\<forall>m \<in> set (multi_messages ce k). fails te m)"
    and "q_conns q \<noteq> []"
  shows "fst (httpPsychQuery ce env pe te cfg qv flags t0 q) = Diverged"
proof -
  let ?ps = "[0..<length (q_conns q)]" and ?q = "q\<lparr>q_pending := [0..<length (q_conns q)]\<rparr>"
  let ?R = "query_round ce env pe te cfg qv flags t0 0"
  have start: "tallies ?q = (q_stats q PSYCH_PC_HTTP_REQUEST_SENT, q_stats q PSYCH_PC_HTTP_MALFORMED,
      q_stats q PSYCH_PC_HTTP_RETRIES_EXCEEDED, ?ps, q_provider q, length (q_conns q))"
    by (simp add: tallies_def)
  obtain t where t: "?R ?q = (Done (), t)" "q_pending t = ?ps"
    using failed_round[OF assms(4,5) _ start, of 0 te env pe qv flags t0] assms(6) by (auto simp: tallies_def)
  have "\<not> finite_sleep (first_sleep cfg)" using assms(1) by (simp add: finite_sleep_def first_sleep_def)
  then have "fst (query_loop ce env pe te cfg qv flags t0 0 (atol (retry_count cfg)) (first_sleep cfg) ?q) = Diverged"
    using t assms(2,3,7)
    by (subst query_loop.simps) (simp add: seq_Done_run[of ?R, OF t(1)] method_simps in_time_def Sleep_seq)
  then show ?thesis
    by (auto simp: httpPsychQuery_def bindm_run seq_def[of "query_loop _ _ _ _ _ _ _ _ _ _ _"]
        bindm_def[of "query_loop _ _ _ _ _ _ _ _ _ _ _"] method_simps split: prod.splits outcome.splits)
qed

text \<open>The feed that answers not modified, with one retry after a delay of minus one.\<close>

theorem endless_delay_witness:
  "fst (httpPsychQuery (demo_curl_env (\<lambda>_. [MsgDone 0 demo_not_modified])) demo_env demo_publish_env demo_text_env
      (config_init\<lparr>retry_count := ''1'', retry_delay_ms := ''-1'', maximum_response_size := ''100''\<rparr>) []
      \<lparr>QUERY_HTTP_KEEPALIVE = True, QUERY_IF_MODIFIED_SINCE = True\<rparr> 0 (demo_query [demo_connection])) = Diverged"
proof -
  have "\<forall>n. perform_all (demo_curl_env (\<lambda>_. [MsgDone 0 demo_not_modified])) n \<noteq> None"
    by (simp add: perform_all_def demo_curl_env_def perform_loop.simps)
  moreover have "atol ''100'' = 100" "atol ''1'' = 1" "atol ''-1'' = - 1" by code_simp+
  moreover have "fails demo_text_env (MsgDone 0 demo_not_modified)"
    by (simp add: fails_def demo_not_modified_def on_http_header_def)
  ultimately show ?thesis
    by (intro endless_delay) (auto simp: demo_query_def demo_curl_env_def config_init_def)
qed

section \<open>The size of a download\<close>

definition fits :: "connection \<Rightarrow> bool" where
  "fits c \<longleftrightarrow> length (conn_data c) \<le> conn_capacity c"

definition data_fits :: "query \<Rightarrow> bool" where
  "data_fits q \<longleftrightarrow> (\<forall>c \<in> set (q_conns q). fits c)"

lemma data_fits_update:
  assumes "data_fits q" "i < length (q_conns q) \<Longrightarrow> fits c"
  shows "data_fits (q\<lparr>q_conns := (q_conns q)[i := c]\<rparr>)"
proof (cases "i < length (q_conns q)")
  case True
  then show ?thesis using assms set_update_subset_insert[of "q_conns q" i c] by (auto simp: data_fits_def)
qed (use assms in \<open>simp add: data_fits_def list_update_beyond\<close>)

lemma data_fits_nth: "data_fits q \<Longrightarrow> i < length (q_conns q) \<Longrightarrow> fits (q_conns q ! i)"
  by (simp add: data_fits_def)

lemma data_fits_replace:
  "data_fits q \<Longrightarrow> (i < length (q_conns q) \<Longrightarrow> fits c) \<Longrightarrow> q_conns t = (q_conns q)[i := c] \<Longrightarrow> data_fits t"
  using data_fits_update[of q i c] by (simp add: data_fits_def)

lemma keeps_conn:
  assumes "\<And>q. q_conns (g q) = (q_conns q)[i := f (q_conns q ! i)]" "\<And>c. fits c \<Longrightarrow> fits (f c)"
  shows "keeps data_fits (modify g)"
  by (intro keeps_modify) (rule data_fits_replace[OF _ _ assms(1)], assumption, simp add: assms(2) data_fits_nth)

lemma deliver_blocks_fits: "fits c \<Longrightarrow> fits (deliver_blocks bs c)"
  by (induction bs c rule: deliver_blocks.induct) (auto simp: on_http_data_def fits_def Let_def)

lemma deliver_headers_fits: "fits (snd (deliver_headers te hs c)) = fits c"
proof (induction hs arbitrary: c)
  case (Cons h hs)
  have "fits (snd (on_http_header te h c)) = fits c"
    by (simp add: on_http_header_def fits_def split: option.split)
  then show ?case using Cons[of "snd (on_http_header te h c)"] by (auto split: prod.splits outcome.splits)
qed simp

lemma OnHttpResponse_data:
  "keeps (\<lambda>r. fits (resp_conn r)) (OnHttpResponse te cfg info)"
proof -
  let ?I = "\<lambda>r. fits (resp_conn r)"
  have tally: "keeps ?I (tally c)" "keeps ?I (assign_stat c v)" for c v
    unfolding tally_def assign_stat_def by (intro keeps_modify; simp)+
  have status: "keeps ?I (count_status code)" for code
    unfolding count_status_def by (intro keeps_intro tally)
  have clock: "keeps ?I (clock_offsets cfg info)"
    unfolding clock_offsets_def Let_def
    by (intro keeps_intro keeps_modify tally) (auto split: option.split intro!: keeps_intro tally simp: fits_def[of "_\<lparr>last_filetime := _\<rparr>"] fits_def[symmetric])
  have time: "keeps ?I (read_time te s upd)" if "\<And>f r. resp_conn (upd f r) = resp_conn r" for s upd
    unfolding read_time_def by (intro keeps_intro keeps_modify) (simp add: that)
  have stamp: "keeps ?I (parse_timestamp te line)" "keeps ?I (parse_columns line)" for line
    unfolding parse_timestamp_def parse_columns_def by (intro keeps_intro time keeps_modify; simp)+
  have lines: "keeps ?I (parse_lines te st ls)" for st ls
  proof (induction ls arbitrary: st)
    case Nil
    then show ?case by (cases st) (simp_all add: keeps_ret)
  next
    case (Cons line ls)
    then show ?case
      by (cases st) (auto intro!: keeps_intro keeps_modify stamp split: option.split)
  qed
  have tail: "keeps ?I (parse_table te)" "keeps ?I psych_offset"
    unfolding parse_table_def psych_offset_def
    by (intro keeps_intro lines) (auto split: option.split prod.split intro!: keeps_intro tally lines)
  show ?thesis
    unfolding OnHttpResponse_def
    by (intro keeps_intro tally status) (auto split: outcome.split intro!: keeps_intro clock tail)
qed

lemma keeps_data_fits: "keeps data_fits (query_loop ce env pe te cfg qv flags t0 k n s)"
proof -
  have prep: "keeps data_fits (prepare_connection ce cfg flags t0 k i)" for k i
    unfolding prepare_connection_def Let_def
    by (intro keeps_intro keeps_conn[where i = i and f = "\<lambda>c. c\<lparr>conn_handle := easy_init ce k i\<rparr>"]
        keeps_conn[where i = i and f = "\<lambda>c. c\<lparr>conn_data := []\<rparr>"]
        keeps_conn[where i = i and f = "\<lambda>c. c\<lparr>conn_capacity := max (conn_capacity c) (nat (atol (maximum_response_size cfg))),
          request_ptime := Some t0, httpd_ptime := None\<rparr>"]) (simp_all add: fits_def)
  have perf: "keeps data_fits (perform_round ce)"
    by (rule keeps_sub) (auto simp: perform_round_def data_fits_def split: option.splits)
  have tr: "keeps data_fits (run_transfer te m)" for m
  proof (rule keeps_sub)
    fix q out t
    assume q: "data_fits q" "run_transfer te m q = (out, t)"
    show "data_fits t"
    proof (cases m)
      case (MsgDone i tr)
      have "fits (q_conns q ! i) \<Longrightarrow> fits (snd (deliver_headers te (tr_headers tr) (q_conns q ! i)))"
        by (simp add: deliver_headers_fits)
      then show ?thesis
        using q MsgDone data_fits_nth[OF q(1), of i]
        by (auto simp: run_transfer_def split: prod.splits outcome.splits intro!: data_fits_update deliver_blocks_fits)
    qed (use q in \<open>simp add: run_transfer_def method_simps\<close>)
  qed
  have pub: "keeps data_fits (publish_response env pe cfg qv resp)" for resp
    by (rule keeps_sub) (auto simp: publish_response_def data_fits_def Let_def split: prod.splits)
  have rest: "keeps data_fits (erase_pending i)" "keeps data_fits (q_count c)" for i c
    unfolding erase_pending_def q_count_def by (intro keeps_intro keeps_modify; simp add: data_fits_def)+
  have msg: "keeps data_fits (process_message env pe te cfg qv m version)" for m version
  proof (cases m)
    case (MsgDone i tr)
    have resp: "keeps data_fits (\<lambda>q. let (out, resp) = OnHttpResponse te cfg (tr_info tr) (response_init (q_stats q) version (q_conns q ! i))
            in (case out of Done ok \<Rightarrow> Done (ok, resp) | Raise e \<Rightarrow> Raise e | Diverged \<Rightarrow> Diverged,
                q\<lparr>q_stats := resp_stats resp, q_conns := (q_conns q)[i := resp_conn resp]\<rparr>))"
    proof (rule keeps_sub)
      fix q out t
      assume q: "data_fits q" and e: "(let (out, resp) = OnHttpResponse te cfg (tr_info tr) (response_init (q_stats q) version (q_conns q ! i))
            in (case out of Done ok \<Rightarrow> Done (ok, resp) | Raise e \<Rightarrow> Raise e | Diverged \<Rightarrow> Diverged,
                q\<lparr>q_stats := resp_stats resp, q_conns := (q_conns q)[i := resp_conn resp]\<rparr>)) = (out, t)"
      obtain o' resp where r: "OnHttpResponse te cfg (tr_info tr) (response_init (q_stats q) version (q_conns q ! i)) = (o', resp)" by force
      have "fits (q_conns q ! i) \<Longrightarrow> fits (resp_conn resp)"
        using keepsD[OF OnHttpResponse_data[of te cfg "tr_info tr"], of "response_init (q_stats q) version (q_conns q ! i)"] r
        by (simp add: response_init_def)
      then have "data_fits (q\<lparr>q_conns := (q_conns q)[i := resp_conn resp]\<rparr>)"
        using q data_fits_nth[OF q, of i] by (intro data_fits_update) auto
      then show "data_fits t" using e r by (auto simp: data_fits_def)
    qed
    show ?thesis
      unfolding MsgDone process_message_def multi_msg.case
      by (intro keeps_bindm resp) (auto intro!: keeps_intro pub rest)
  qed (simp add: process_message_def keeps_ret)
  have msgs: "keeps data_fits (process_messages env pe te cfg qv ms version)" for ms version
    by (induction ms arbitrary: version) (auto intro!: keeps_intro msg)
  have round: "keeps data_fits (query_round ce env pe te cfg qv flags t0 k)" for k
    unfolding query_round_def by (intro keeps_intro prep perf tr msgs)
  have sleep: "keeps data_fits (Sleep s)" for s
    by (rule keeps_sub) (auto simp: Sleep_run data_fits_def)
  show ?thesis
  proof (induction "nat n" arbitrary: k n s)
    case 0
    then show ?case by (subst query_loop.simps) (auto intro!: keeps_intro round rest)
  next
    case (Suc d)
    then have "keeps data_fits (query_loop ce env pe te cfg qv flags t0 (k + 1) (n - 1) (next_sleep cfg s))" by simp
    then show ?case by (subst query_loop.simps) (auto intro!: keeps_intro round rest sleep)
  qed
qed

text \<open>
  C17. No response, however long the server makes it and in whatever blocks it arrives, grows a
  connection's buffer past the capacity that was reserved for it, over all rounds and whatever the
  outcome of the query.
\<close>

theorem downloads_fit:
  assumes "\<And>c. c \<in> set (q_conns q) \<Longrightarrow> length (conn_data c) \<le> conn_capacity c"
    and "c \<in> set (q_conns (snd (httpPsychQuery ce env pe te cfg qv flags t0 q)))"
  shows "length (conn_data c) \<le> conn_capacity c"
proof -
  have "keeps data_fits (httpPsychQuery ce env pe te cfg qv flags t0)"
    unfolding httpPsychQuery_def
    by (intro keeps_intro keeps_modify keeps_data_fits) (auto simp: data_fits_def fits_def)
  then have "data_fits (snd (httpPsychQuery ce env pe te cfg qv flags t0 q))"
    using assms(1) keepsD[of data_fits _ q] by (auto simp: data_fits_def fits_def)
  then show ?thesis using assms(2) by (auto simp: data_fits_def fits_def)
qed

theorem downloads_fit_witness:
  "list_all (\<lambda>c. length (conn_data c) \<le> conn_capacity c)
     (q_conns (snd (httpPsychQuery (demo_curl_env (\<lambda>_. [MsgDone 0 demo_not_modified])) demo_env demo_publish_env
      demo_text_env config_init [] \<lparr>QUERY_HTTP_KEEPALIVE = True, QUERY_IF_MODIFIED_SINCE = True\<rparr> 0
      (demo_query [connection_t (demo_resource []) ''http://h/eq'']))))"
  unfolding list_all_iff
  by (intro ballI, rule downloads_fit) (simp_all add: demo_query_def connection_t_def)

section \<open>From a response to the wire\<close>

text \<open>
  C14. An accepted response is published: the row check of the reader is what \<open>SendRefresh\<close> needs, so
  every row that has an item goes out on every session that may publish, with the version, the
  close time as the calendar of 32-bit seconds gives it and the columns that were read; then the
  connection is no longer pending.
\<close>

theorem accepted_response_published:
  assumes "process_message env pe te cfg qv (MsgDone i tr) version q = (Done v, q')"
    and "OnHttpResponse te cfg (tr_info tr) (response_init (q_stats q) version (q_conns q ! i)) = (Done True, resp)"
    and "r = conn_resource (resp_conn resp)" "map_of (res_fields r) (hd (columns resp)) = None"
    and "SendRefresh env pe cfg r (names_of qv r) (engine_version resp) (close_time resp) (columns resp) (rows resp) (q_provider q) =
      (Done b, p')"
  shows "wire (q_provider q') = wire (q_provider q) @
      concat (map (row_wire pe cfg r (names_of qv r) (engine_version resp) (time32 (the (close_time resp)))
        (columns resp) (q_provider q)) (rows resp)) \<and>
    q_pending q' = remove1 i (q_pending q) \<and> v = engine_version resp"
proof -
  note T = OnHttpResponse_True[OF assms(2)]
  obtain t where t: "close_time resp = Some t" "\<forall>(name, vs) \<in> set (rows resp). length vs + 1 = length (columns resp)"
    using T by (auto simp: table_ok_def rows_fit_def)
  have "send_rows env pe cfg r (names_of qv r) (engine_version resp) (time32 t) (columns resp) (rwf (q_provider q)) None
      (rows resp) (q_provider q) = (Done (), p')"
    using assms(5) t(1) by (auto simp: SendRefresh_def method_simps seq_Done)
  from send_rows_Done[OF this t(2) assms(4)] have "wire p' = wire (q_provider q) @
      concat (map (row_wire pe cfg r (names_of qv r) (engine_version resp) (time32 t) (columns resp) (q_provider q)) (rows resp))"
    by simp
  moreover have "q_provider q' = p'" "q_pending q' = remove1 i (q_pending q)" "v = engine_version resp"
    using assms(1,2,5) by (auto simp: process_message_def publish_response_def erase_pending_def bindm_def seq_def method_simps
        try_catch_def assms(3)[symmetric] Let_def split: if_splits)
  ultimately show ?thesis using t(1) by simp
qed

definition demo_names :: query_map where
  "demo_names = [(''/r'', [(''1679'', (''MI.topic'', 0))])]"

definition demo_processed :: "string outcome \<times> query" where
  "demo_processed = process_message demo_env demo_publish_env demo_text_env config_init demo_names
     (MsgDone 0 \<lparr>tr_headers = [], tr_blocks = [], tr_info = demo_info\<rparr>) [] ((demo_query [demo_connection])\<lparr>q_pending := [0]\<rparr>)"

theorem accepted_response_published_witness:
  "\<exists>m. wire (q_provider (snd demo_processed)) = wire demo_login @ [(0, Some 17, m)] \<and> attrib_name m = ''MI'' \<and>
    q_pending (snd demo_processed) = []"
proof -
  let ?q = "(demo_query [demo_connection])\<lparr>q_pending := [0]\<rparr>" and ?resp = "snd demo_response"
  let ?r = "conn_resource (resp_conn ?resp)"
  have R: "OnHttpResponse demo_text_env config_init demo_info (response_init (q_stats ?q) [] (q_conns ?q ! 0)) = (Done True, ?resp)"
    using demo_accepted(1) by (simp add: demo_response_def demo_query_def prod_eq_iff)
  have resp: "rows ?resp = [(''1679'', [0])]" "columns ?resp = [''Sector'', ''Buzz'']" "close_time ?resp = Some 5000000"
    "res_fields ?r = []" "res_path ?r = ''/r''"
    by code_simp+
  have n: "names_of demo_names ?r = [(''1679'', (''MI.topic'', 0))]" by (simp add: names_of_def demo_names_def resp)
  have cf: "column_fields pe [] vs i cols out = Done out" for pe vs i cols out
    by (induction cols arbitrary: i) auto
  have "\<exists>q. provider_Send demo_env 0 msg demo_login = (Done True, q)" for msg
    by (simp add: demo_login_def demo_open_def demo_start_def rfa_run demo_defs cong: bindm_weak)
  then have "provider_Send demo_env 0 msg demo_login = (Done True, snd (provider_Send demo_env 0 msg demo_login))" for msg
    by (metis prod.collapse fst_conv)
  then have P: "bindm (provider_Send demo_env 0 msg) k demo_login = k True (snd (provider_Send demo_env 0 msg demo_login))"
    for msg and k :: "bool \<Rightarrow> 'x operation"
    by (simp add: bindm_def[of "provider_Send demo_env 0 msg"]) (metis (no_types, lifting) case_prod_conv outcome.case(1))
  obtain p' where send: "SendRefresh demo_env demo_publish_env config_init ?r (names_of demo_names ?r) (engine_version ?resp)
      (close_time ?resp) (columns ?resp) (rows ?resp) demo_login = (Done True, p')"
    by (simp add: SendRefresh_def n resp cf Let_def run_simps_all P cong: bindm_weak)
  have "fst demo_processed = Done (engine_version ?resp)"
    using R send by (simp add: demo_processed_def process_message_def publish_response_def erase_pending_def bindm_def seq_def
        method_simps try_catch_def Let_def demo_query_def)
  then have p: "process_message demo_env demo_publish_env demo_text_env config_init demo_names
     (MsgDone 0 \<lparr>tr_headers = [], tr_blocks = [], tr_info = demo_info\<rparr>) [] ?q = (Done (engine_version ?resp), snd demo_processed)"
    by (simp add: demo_processed_def prod_eq_iff)
  have "length (sessions demo_login) = 1" "\<not> is_muted (sessions demo_login ! 0)"
    "streams demo_login 0 = Some \<lparr>stream_name = ''MI'', stream_tokens = [Some 17]\<rparr>"
    using demo_login_run by (auto simp: observe_def)
  moreover have "q_provider ?q = demo_login" "q_pending ?q = [0]" by (simp_all add: demo_query_def)
  ultimately show ?thesis
    using accepted_response_published[OF p _ refl, of ?resp True p'] R send
    by (simp add: n resp stream_token_def row_message_def refresh_message_def stream_rfa_name_def)
qed

end
