(* ===== verification/Rfa.thy ===== *)
theory Rfa
  imports Config
begin

text \<open>
  The RFA context of \<open>src/src/rfa.cc\<close>: the paths of its configuration database and the settings the
  adapter stages and merges into it. The database itself is RFA's; its answers are the record
  \<open>rfa_db_env\<close>.
\<close>

section \<open>Paths of the RFA configuration database\<close>

text \<open>
  \<open>str.compare (0, 2, "HK")\<close> compares a two-character piece; \<open>str.replace (2, 2, s)\<close> replaces two
  characters, whatever they are.
\<close>

definition replace_two :: "string \<Rightarrow> string \<Rightarrow> string" where
  "replace_two s x = take 2 s @ x @ drop 4 s"

definition fix_hive :: "string \<Rightarrow> string" where
  "fix_hive str =
     (if take 2 str = ''HK'' then
        if take 2 (drop 2 str) = ''LM'' then replace_two str ''EY_LOCAL_MACHINE''
        else if prefix ''HKCC'' str then replace_two str ''EY_CURRENT_CONFIG''
        else if prefix ''HKCR'' str then replace_two str ''EY_CLASSES_ROOT''
        else if prefix ''HKCU'' str then replace_two str ''EY_CURRENT_USER''
        else if prefix ''HKU'' str then replace_two str ''EY_USERS''
        else str
      else str)"

definition backslash :: char where
  "backslash = char_of (92 :: nat)"

function fix_slashes :: "string \<Rightarrow> nat \<Rightarrow> string" where
  "fix_slashes s pos =
     (case str_find s ''/'' pos of
        None \<Rightarrow> s
      | Some pos \<Rightarrow> fix_slashes (s[pos := backslash]) (pos + 1))"
  by pat_completeness auto
termination
  by (relation "measure (\<lambda>(s, pos). length s - pos)") (auto dest!: str_find_bounds)

declare fix_slashes.simps [simp del]

definition fix_rfa_string_path :: "string \<Rightarrow> string" where
  "fix_rfa_string_path s = fix_slashes (fix_hive s) 0"

definition unslash :: "char \<Rightarrow> char" where
  "unslash c = (if c = CHR ''/'' then backslash else c)"

lemma backslash_neq: "backslash \<noteq> CHR ''/''"
  by code_simp

lemma search_single: "search [c] s = find_index (\<lambda>x. x = c) s"
  by (induction s) (auto simp: prefix_Cons)

lemma str_find_single:
  "str_find s [c] pos = Some i \<longleftrightarrow> pos \<le> i \<and> i < length s \<and> s ! i = c \<and> (\<forall>j. pos \<le> j \<and> j < i \<longrightarrow> s ! j \<noteq> c)"
proof
  assume "str_find s [c] pos = Some i"
  then obtain k where k: "pos \<le> length s" "find_index (\<lambda>x. x = c) (drop pos s) = Some k" "i = pos + k"
    by (auto simp: str_find_def search_single split: if_splits)
  then have "s ! j \<noteq> c" if "pos \<le> j" "j < i" for j
    using that by (auto simp: find_index_Some dest!: spec[of _ "j - pos"])
  then show "pos \<le> i \<and> i < length s \<and> s ! i = c \<and> (\<forall>j. pos \<le> j \<and> j < i \<longrightarrow> s ! j \<noteq> c)"
    using k by (auto simp: find_index_Some)
next
  assume a: "pos \<le> i \<and> i < length s \<and> s ! i = c \<and> (\<forall>j. pos \<le> j \<and> j < i \<longrightarrow> s ! j \<noteq> c)"
  then have "find_index (\<lambda>x. x = c) (drop pos s) = Some (i - pos)" by (auto simp: find_index_Some)
  then show "str_find s [c] pos = Some i" using a by (simp add: str_find_def search_single)
qed

lemma str_find_single_None:
  "str_find s [c] pos = None \<longleftrightarrow> c \<notin> set (drop pos s)"
  by (auto simp: str_find_def search_single find_index_None)

lemma fix_slashes_map: "fix_slashes s pos = take pos s @ map unslash (drop pos s)"
proof (induction s pos rule: fix_slashes.induct)
  case (1 s pos)
  show ?case
  proof (cases "str_find s ''/'' pos")
    case None
    then have "map unslash (drop pos s) = drop pos s"
      by (intro map_idI) (auto simp: unslash_def str_find_single_None)
    then show ?thesis using None by (simp add: fix_slashes.simps[of s pos])
  next
    case (Some i)
    then have i: "pos \<le> i" "i < length s" "s ! i = CHR ''/''" "\<And>j. pos \<le> j \<Longrightarrow> j < i \<Longrightarrow> s ! j \<noteq> CHR ''/''"
      by (auto simp: str_find_single)
    have "fix_slashes s pos = take (i + 1) (s[i := backslash]) @ map unslash (drop (i + 1) (s[i := backslash]))"
      using Some "1.IH"[OF Some] by (simp add: fix_slashes.simps[of s pos])
    also have "\<dots> = take pos s @ map unslash (drop pos s)"
      using i by (intro nth_equalityI)
        (auto simp: nth_append nth_list_update unslash_def min_def not_less dest!: le_neq_implies_less)
    finally show ?thesis .
  qed
qed

section \<open>Building the database\<close>

datatype rfa_value = RfaBool bool | RfaString string

text \<open>
  A database of settings maps a path to a value: what is set at a path that is taken, or merged into
  one, replaces what was there.
\<close>

type_synonym settings = "string \<rightharpoonup> rfa_value"

definition set_all :: "(string \<times> rfa_value) list \<Rightarrow> settings \<Rightarrow> settings" where
  "set_all entries db = fold (\<lambda>(path, v) db. db(path \<mapsto> v)) entries db"

text \<open>The answers of RFA, and the context's database.\<close>

record rfa_db_env =
  create_staging :: "nat \<Rightarrow> bool outcome"
  acquire_database :: "bool outcome"
  merge_database :: "nat \<Rightarrow> bool outcome"
  load_registry :: "string \<Rightarrow> (string \<times> rfa_value) list outcome"

record rfa_state =
  rfa_initialized :: bool
  rfa_acquired :: bool
  rfa_database :: settings

definition kConnectionType :: string where "kConnectionType = ''RSSL_NIPROV''"

definition logger_settings :: "(string \<times> rfa_value) list" where
  "logger_settings =
     [(fix_rfa_string_path ''/Logger/AppLogger/windowsLoggerEnabled'', RfaBool False),
      (fix_rfa_string_path ''/Logger/AppLogger/fileLoggerEnabled'', RfaBool False)]"

text \<open>The text of the server list: the loop writes a separator before every server but the first.\<close>

fun server_list :: "bool \<Rightarrow> string list \<Rightarrow> string" where
  "server_list first [] = []"
| "server_list first (s # ss) = (if first then s else '', '' @ s) @ server_list False ss"

definition session_settings :: "session_config \<Rightarrow> (string \<times> rfa_value) list" where
  "session_settings it =
     [(fix_rfa_string_path (''/Sessions/'' @ session_name it @ ''/connectionList''), RfaString (connection_name it)),
      (fix_rfa_string_path (''/Connections/'' @ connection_name it @ ''/connectionType''), RfaString kConnectionType),
      (fix_rfa_string_path (''/Connections/'' @ connection_name it @ ''/serverList''),
       RfaString (server_list True (rssl_servers it)))] @
     (if rssl_default_port it \<noteq> [] then
        [(fix_rfa_string_path (''/Connections/'' @ connection_name it @ ''/rsslPort''), RfaString (rssl_default_port it))]
      else [])"

text \<open>A call into RFA of the context: its answer, or the exception it throws.\<close>

definition db_call :: "'a outcome \<Rightarrow> (rfa_state, 'a) method" where
  "db_call answer = (\<lambda>r. (answer, r))"

definition rfa_Init :: "rfa_db_env \<Rightarrow> config \<Rightarrow> (rfa_state, bool) method" where
  "rfa_Init env cfg =
     seq (modify (\<lambda>r. r\<lparr>rfa_initialized := True\<rparr>))
    (bindm (db_call (create_staging env 0)) (\<lambda>created.
     if \<not> created then ret False
     else
       bindm (db_call (acquire_database env)) (\<lambda>acquired.
       seq (modify (\<lambda>r. r\<lparr>rfa_acquired := acquired\<rparr>))
      (if \<not> acquired then ret False
       else
         bindm (db_call (merge_database env 0)) (\<lambda>merged.
         if \<not> merged then ret False
         else
           seq (modify (\<lambda>r. r\<lparr>rfa_database := rfa_database r ++
                  set_all (logger_settings @ concat (map session_settings (cfg_sessions cfg))) Map.empty\<rparr>))
          (if cfg_key cfg = [] then ret True
           else
             bindm (db_call (create_staging env 1)) (\<lambda>created.
             if \<not> created then ret False
             else
               bindm (db_call (load_registry env (fix_rfa_string_path (cfg_key cfg)))) (\<lambda>settings.
               bindm (db_call (merge_database env 1)) (\<lambda>merged.
               if \<not> merged then ret False
               else seq (modify (\<lambda>r. r\<lparr>rfa_database := rfa_database r ++ set_all settings Map.empty\<rparr>)) (ret True))))))))))"

section \<open>What the database holds\<close>

lemma server_list_tail: "server_list False ss = concat (map (\<lambda>s. '', '' @ s) ss)"
  by (induction ss) auto

lemma fix_rfa_string_path_map: "fix_rfa_string_path s = map unslash (fix_hive s)"
  by (simp add: fix_rfa_string_path_def fix_slashes_map)

lemma fix_hive_rooted: "fix_hive (CHR ''/'' # s) = CHR ''/'' # s"
  by (cases s) (simp_all add: fix_hive_def)

lemma set_all_lookup: "set_all entries db = db ++ map_of (rev entries)"
  unfolding set_all_def
  by (induction entries arbitrary: db) (auto simp: map_add_def fun_eq_iff split: option.split)

lemma server_list_servers:
  "server_list True ss = (case ss of [] \<Rightarrow> [] | s # rest \<Rightarrow> s @ concat (map (\<lambda>s. '', '' @ s) rest))"
  by (cases ss) (simp_all only: server_list.simps server_list_tail list.case if_True)

text \<open>The paths of a session's settings, with every slash turned into a backslash.\<close>

definition session_path :: "string \<Rightarrow> string" where
  "session_path name = map unslash (''/Sessions/'' @ name @ ''/connectionList'')"

definition connection_path :: "string \<Rightarrow> string \<Rightarrow> string" where
  "connection_path name setting = map unslash (''/Connections/'' @ name @ ''/'' @ setting)"

definition logger_path :: "string \<Rightarrow> string" where
  "logger_path setting = map unslash (''/Logger/AppLogger/'' @ setting)"

text \<open>
  What the configuration has at a path, read from the sessions: the last session with such a path
  counts, and for the port the last one that has a port.
\<close>

definition last_with :: "(session_config \<Rightarrow> bool) \<Rightarrow> session_config list \<Rightarrow> (session_config \<Rightarrow> string) \<Rightarrow> rfa_value option" where
  "last_with P ss value = map_option (\<lambda>s. RfaString (value s)) (find P (rev ss))"

definition configured :: "session_config list \<Rightarrow> string \<Rightarrow> rfa_value option" where
  "configured ss path =
     (if path \<in> {logger_path ''windowsLoggerEnabled'', logger_path ''fileLoggerEnabled''} then Some (RfaBool False)
      else if path \<in> (\<lambda>s. session_path (session_name s)) ` set ss then
        last_with (\<lambda>s. session_path (session_name s) = path) ss connection_name
      else if path \<in> (\<lambda>s. connection_path (connection_name s) ''connectionType'') ` set ss then
        Some (RfaString ''RSSL_NIPROV'')
      else if path \<in> (\<lambda>s. connection_path (connection_name s) ''serverList'') ` set ss then
        last_with (\<lambda>s. connection_path (connection_name s) ''serverList'' = path) ss
          (\<lambda>s. case rssl_servers s of [] \<Rightarrow> [] | first # rest \<Rightarrow> first @ concat (map (\<lambda>server. '', '' @ server) rest))
      else last_with (\<lambda>s. rssl_default_port s \<noteq> [] \<and> connection_path (connection_name s) ''rsslPort'' = path) ss
          rssl_default_port)"

lemma paths_differ:
  "session_path n \<noteq> connection_path m x" "logger_path y \<noteq> session_path n" "logger_path y \<noteq> connection_path m x"
  "connection_path n ''serverList'' \<noteq> connection_path m ''connectionType''"
  "connection_path n ''rsslPort'' \<noteq> connection_path m ''connectionType''"
  "connection_path n ''rsslPort'' \<noteq> connection_path m ''serverList''"
  by (simp_all add: session_path_def connection_path_def logger_path_def unslash_def backslash_def)

lemma session_settings_paths:
  "session_settings s =
     [(session_path (session_name s), RfaString (connection_name s)),
      (connection_path (connection_name s) ''connectionType'', RfaString ''RSSL_NIPROV''),
      (connection_path (connection_name s) ''serverList'', RfaString (server_list True (rssl_servers s)))] @
     (if rssl_default_port s \<noteq> [] then [(connection_path (connection_name s) ''rsslPort'', RfaString (rssl_default_port s))] else [])"
  by (simp add: session_settings_def fix_rfa_string_path_map fix_hive_rooted kConnectionType_def session_path_def connection_path_def
      del: list.map)

lemma logger_settings_paths:
  "logger_settings = [(logger_path ''windowsLoggerEnabled'', RfaBool False), (logger_path ''fileLoggerEnabled'', RfaBool False)]"
  by (simp add: logger_settings_def fix_rfa_string_path_map fix_hive_rooted logger_path_def del: list.map)

lemma last_with_snoc:
  "last_with P (ss @ [s]) value = (if P s then Some (RfaString (value s)) else last_with P ss value)"
  "(\<And>s. s \<in> set ss \<Longrightarrow> \<not> P s) \<Longrightarrow> last_with P ss value = None"
  by (auto simp: last_with_def find_None_iff)

lemma sessions_lookup:
  assumes "path \<notin> {logger_path ''windowsLoggerEnabled'', logger_path ''fileLoggerEnabled''}"
  shows "map_of (rev (concat (map session_settings ss))) path = configured ss path"
proof (induction ss rule: rev_induct)
  case Nil
  then show ?case using assms by (simp add: configured_def last_with_def)
next
  case (snoc s ss)
  note differ = paths_differ paths_differ[symmetric]
  have none: "last_with (\<lambda>s. session_path (session_name s) = path) ss v = None"
    if "path \<notin> (\<lambda>s. session_path (session_name s)) ` set ss" for v
    by (rule last_with_snoc(2)) (use that in auto)
  have own: "map_of (rev (session_settings s)) path =
      (if rssl_default_port s \<noteq> [] \<and> connection_path (connection_name s) ''rsslPort'' = path then Some (RfaString (rssl_default_port s))
       else if connection_path (connection_name s) ''serverList'' = path then Some (RfaString (server_list True (rssl_servers s)))
       else if connection_path (connection_name s) ''connectionType'' = path then Some (RfaString ''RSSL_NIPROV'')
       else if session_path (session_name s) = path then Some (RfaString (connection_name s)) else None)"
    by (auto simp: session_settings_paths)
  have "map_of (rev (concat (map session_settings (ss @ [s])))) path =
      (case map_of (rev (session_settings s)) path of Some v \<Rightarrow> Some v | None \<Rightarrow> configured ss path)"
    using snoc by (simp add: map_add_def split: option.split)
  also have "\<dots> = configured (ss @ [s]) path"
    unfolding own using assms none
    by (auto simp: configured_def last_with_snoc differ server_list_servers image_iff)
  finally show ?case .
qed

text \<open>What the registry adds, when the configuration names a key.\<close>

definition registry_settings :: "rfa_db_env \<Rightarrow> config \<Rightarrow> settings" where
  "registry_settings env cfg =
     (if cfg_key cfg = [] then Map.empty
      else case load_registry env (fix_rfa_string_path (cfg_key cfg)) of
             Done entries \<Rightarrow> map_of (rev entries)
           | _ \<Rightarrow> Map.empty)"

text \<open>
  C40. A successful RFA start-up leaves this in the database at every path: what the registry has there,
  when the configuration names a registry key; otherwise what the configuration has; otherwise what was
  there before. The configuration disables the two loggers and gives each session name its connection,
  and each connection name its type, its servers, with a comma in between, and its port, under paths with
  backslashes. Of several sessions with one name, or with one connection name, the last one counts; a
  port stays that of an earlier session when the last one has none.
\<close>

theorem rfa_Init_database:
  assumes "rfa_Init env cfg r = (Done True, r')"
  shows "rfa_database r' path =
    (case registry_settings env cfg path of
       Some v \<Rightarrow> Some v
     | None \<Rightarrow> (case configured (cfg_sessions cfg) path of Some v \<Rightarrow> Some v | None \<Rightarrow> rfa_database r path))"
proof -
  let ?all = "logger_settings @ concat (map session_settings (cfg_sessions cfg))"
  have "rfa_database r' = rfa_database r ++ map_of (rev ?all) ++ registry_settings env cfg"
    using assms by (auto simp: rfa_Init_def seq_Done bindm_Done method_simps db_call_def set_all_lookup registry_settings_def
        split: if_splits)
  moreover have "map_of (rev ?all) path = configured (cfg_sessions cfg) path"
  proof (cases "path \<in> {logger_path ''windowsLoggerEnabled'', logger_path ''fileLoggerEnabled''}")
    case True
    have "map_of (rev (concat (map session_settings ss))) path = None" for ss
      using True by (induction ss) (auto simp: map_add_def session_settings_paths paths_differ)
    then show ?thesis using True by (auto simp: map_add_def configured_def logger_settings_paths)
  next
    case False
    then show ?thesis using sessions_lookup[OF False, of "cfg_sessions cfg"]
      by (simp add: map_add_def logger_settings_paths split: option.split)
  qed
  ultimately show ?thesis by (simp add: map_add_def split: option.split)
qed

definition demo_db_env :: rfa_db_env where
  "demo_db_env = \<lparr>create_staging = \<lambda>_. Done True, acquire_database = Done True, merge_database = \<lambda>_. Done True,
    load_registry = \<lambda>_. Done [(connection_path ''C'' ''rsslPort'', RfaString ''14003'')]\<rparr>"

definition demo_db_sessions :: "session_config list" where
  "demo_db_sessions =
     [session_config_init\<lparr>session_name := ''S1'', connection_name := ''C'', rssl_servers := [''h1'', ''h2''], rssl_default_port := ''14002''\<rparr>,
      session_config_init\<lparr>session_name := ''S2'', connection_name := ''C'', rssl_servers := [''h3'', ''h4'']\<rparr>]"

definition demo_database :: "string \<Rightarrow> bool outcome \<times> rfa_state" where
  "demo_database key = rfa_Init demo_db_env (config_init\<lparr>cfg_key := key, cfg_sessions := demo_db_sessions\<rparr>)
     \<lparr>rfa_initialized = False, rfa_acquired = False, rfa_database = Map.empty\<rparr>"

text \<open>Two sessions with one connection name: its servers are those of the second, its port is that of the
  first unless the registry has one.\<close>

theorem rfa_Init_database_witness:
  "rfa_database (snd (demo_database [])) (connection_path ''C'' ''serverList'') = Some (RfaString ''h3, h4'') \<and>
   rfa_database (snd (demo_database [])) (connection_path ''C'' ''rsslPort'') = Some (RfaString ''14002'') \<and>
   rfa_database (snd (demo_database ''HKLM/psych'')) (connection_path ''C'' ''rsslPort'') = Some (RfaString ''14003'')"
proof -
  have "fst (demo_database key) = Done True" for key
    by (simp add: demo_database_def rfa_Init_def bindm_def seq_def method_simps db_call_def config_init_def demo_db_env_def)
  then have "rfa_Init demo_db_env (config_init\<lparr>cfg_key := key, cfg_sessions := demo_db_sessions\<rparr>)
     \<lparr>rfa_initialized = False, rfa_acquired = False, rfa_database = Map.empty\<rparr> = (Done True, snd (demo_database key))" for key
    unfolding demo_database_def by (metis prod.collapse)
  note D = rfa_Init_database[OF this]
  have s: "configured demo_db_sessions (connection_path ''C'' ''serverList'') = Some (RfaString ''h3, h4'')"
    "configured demo_db_sessions (connection_path ''C'' ''rsslPort'') = Some (RfaString ''14002'')"
    by code_simp+
  show ?thesis
    unfolding D using s by (simp add: registry_settings_def config_init_def demo_db_env_def)
qed

text \<open>
  The short name of the users hive loses the separator that follows it: three characters are
  matched but four are replaced.
\<close>

theorem users_hive_loses_separator:
  "fix_rfa_string_path (''HKU/'' @ s) = ''HKEY_USERS'' @ map unslash s \<and>
   fix_rfa_string_path (''HKCU/'' @ s) = ''HKEY_CURRENT_USER'' @ backslash # map unslash s"
proof -
  have "unslash c = c" if "c \<noteq> CHR ''/''" for c using that by (simp add: unslash_def)
  then show ?thesis
    by (simp add: fix_rfa_string_path_map fix_hive_def replace_two_def unslash_def)
qed

section \<open>The version and the end\<close>

text \<open>
  \<open>compare_case\<close> is the comparison of RFA's strings, true where they differ in as many characters;
  \<open>library_version\<close> is the version the build was made for.
\<close>

definition VerifyVersion :: "(string \<Rightarrow> string \<Rightarrow> nat \<Rightarrow> bool) \<Rightarrow> string \<Rightarrow> string \<Rightarrow> bool" where
  "VerifyVersion compare_case library_version runtime_version =
     (if compare_case (take (length library_version) runtime_version) library_version (length library_version)
      then False else True)"

definition rfa_destructor :: "rfa_state \<Rightarrow> rfa_state" where
  "rfa_destructor r = r\<lparr>rfa_acquired := False, rfa_initialized := False\<rparr>"

text \<open>A runtime of the same version, with anything behind it, is accepted.\<close>

lemma VerifyVersion_prefix:
  "(\<And>s. \<not> compare_case s s (length s)) \<Longrightarrow> VerifyVersion compare_case v (v @ build)"
  by (simp add: VerifyVersion_def)

end
