(* ===== verification/Psych.thy ===== *)
theory Psych
  imports Query Rfa "HOL-Library.Signed_Division"
begin

text \<open>
  The adapter itself, \<open>psych_t\<close> of \<open>src/src/psych.cc\<close>: start-up, shutdown, the timer and its callback.
  libcurl's process-wide state, RFA, SNMP, Boost's parser and the clock are the record
  \<open>start_env\<close>. The threads are the callers of the operations; joining and interrupting them is
  left out, as is the Tcl interface of the plugin build.
\<close>

section \<open>The environment and the state\<close>

text \<open>
  What start-up asks of libcurl, RFA, SNMP, Boost and the clock. A duration is in microseconds;
  the clock has whole seconds.
\<close>

record start_env =
  curl_global_init :: bool
  curl_multi_init :: bool
  db_env :: rfa_db_env
  event_queue_create :: "bool outcome"
  log_register :: "bool outcome"
  version_ok :: bool
  iterator_initialize :: "int \<Rightarrow> unit outcome"
  new_snmp_agent :: "unit outcome"
  duration_from_string :: "string \<Rightarrow> int outcome"
  universal_time :: int

text \<open>
  The adapter with the process-wide state of libcurl: \<open>curl_ref_count\<close> is the static counter and
  \<open>curl_ready\<close> says whether libcurl is initialised. The event queue is null or active or not. An
  item stream lives at an address; \<open>next_address\<close> is one no stream has had.
\<close>

record psych =
  psych_config :: config
  curl_ref_count :: "32 word"
  curl_ready :: bool
  multipass :: bool
  rfa_context :: "rfa_state option"
  event_queue :: "bool option"
  log_provider :: bool
  psych_provider :: "provider option"
  connections :: "(string, connection) omap"
  stream_vector :: "(string, nat) omap"
  query_vector :: query_map
  next_address :: nat
  snmp_agent :: bool
  timer :: "(int \<times> int) option"
  psych_counters :: psych_stats
  refresh_time :: refresh_times

type_synonym 'a adapter = "(psych, 'a) method"

text \<open>The constructor; the configuration is filled in later, the static counter is the process's.\<close>

definition psych_t :: "32 word \<Rightarrow> bool \<Rightarrow> psych" where
  "psych_t ref_count ready =
     \<lparr>psych_config = config_init, curl_ref_count = ref_count, curl_ready = ready, multipass = False,
      rfa_context = None, event_queue = None, log_provider = False, psych_provider = None,
      connections = [], stream_vector = [], query_vector = [], next_address = 0, snmp_agent = False,
      timer = None, psych_counters = (\<lambda>_. 0),
      refresh_time = \<lparr>min_refresh_time = None, max_refresh_time = None, total_refresh_time = 0\<rparr>\<rparr>"

text \<open>A method of the provider, run on the one the adapter owns.\<close>

definition on_provider :: "'a operation \<Rightarrow> 'a adapter" where
  "on_provider m = (\<lambda>s.
     case psych_provider s of
       None \<Rightarrow> (Raise Null_Deref, s)
     | Some p \<Rightarrow> (case m p of (r, p') \<Rightarrow> (r, s\<lparr>psych_provider := Some p'\<rparr>)))"

text \<open>\<open>if (!m) return false;\<close>\<close>

definition require :: "bool adapter \<Rightarrow> bool adapter \<Rightarrow> bool adapter" where
  "require m k = bindm m (\<lambda>ok. if ok then k else ret False)"

definition standard_exception :: "failure \<Rightarrow> bool" where
  "standard_exception e \<longleftrightarrow> e \<in> {Std_Exception, Out_Of_Range, Invalid_Argument}"

definition rfa_exception :: "failure \<Rightarrow> bool" where
  "rfa_exception e \<longleftrightarrow> e \<in> {Rfa_Invalid_Usage, Rfa_Invalid_Configuration}"

section \<open>The timer\<close>

text \<open>The loop that goes back to yesterday: its condition does not depend on the variable it changes.\<close>

partial_function (option) yesterday :: "bool \<Rightarrow> int \<Rightarrow> int option" where
  "yesterday later reference_ptime =
     (if later then yesterday later (reference_ptime - 86400000000) else Some reference_ptime)"

definition GetNextInterval :: "start_env \<Rightarrow> config \<Rightarrow> int outcome" where
  "GetNextInterval se cfg =
     bind_outcome (duration_from_string se (time_offset_constant cfg)) (\<lambda>reference_tod.
     bind_outcome (stoi (cfg_interval cfg)) (\<lambda>interval_seconds.
       let now_ptime = universal_time se * 1000000;
           now_tod = now_ptime mod 86400000000
       in case yesterday (reference_tod + interval_seconds * 1000000 > now_tod)
                 (now_ptime - now_tod + reference_tod) of
            None \<Rightarrow> Diverged
          | Some reference_ptime \<Rightarrow>
              if interval_seconds = 0 then Raise Undefined_Behaviour
              else
                let offset = now_ptime - reference_ptime;
                    end_ptime = reference_ptime +
                      (total_seconds offset sdiv interval_seconds) * interval_seconds * 1000000
                in Done (end_ptime + interval_seconds * 1000000)))"

text \<open>\<open>std::stoul\<close>: a negative number wraps around.\<close>

definition stoul :: "string \<Rightarrow> int outcome" where
  "stoul s =
     (if snd (c_number s) = [] then Raise Invalid_Argument
      else if 2 ^ 32 \<le> \<bar>c_integer s\<bar> then Raise Out_Of_Range
      else Done (c_integer s mod 2 ^ 32))"

text \<open>
  The pump: it waits for the due time, calls back and moves on by the interval, until the callback
  returns false. The argument lists what the calls return; the result, the times of the calls.
\<close>

fun time_pump_Run :: "int \<Rightarrow> int \<Rightarrow> bool list \<Rightarrow> int list" where
  "time_pump_Run due_time td [] = []"
| "time_pump_Run due_time td (ok # oks) =
     due_time # (if \<not> ok then [] else time_pump_Run (due_time + td) td oks)"

section \<open>Start-up\<close>

definition init_curl :: "start_env \<Rightarrow> bool adapter" where
  "init_curl se =
     bindm (gets curl_ref_count) (\<lambda>old.
     seq (modify (\<lambda>s. s\<lparr>curl_ref_count := old + 1\<rparr>))
    (require
       (if old = 0 then
          seq (modify (\<lambda>s. s\<lparr>curl_ready := curl_ready s \<or> curl_global_init se\<rparr>)) (ret (curl_global_init se))
        else ret True)
       (seq (modify (\<lambda>s. s\<lparr>multipass := curl_multi_init se\<rparr>)) (ret (curl_multi_init se)))))"

definition init_context :: "start_env \<Rightarrow> bool adapter" where
  "init_context se = (\<lambda>s.
     case rfa_Init (db_env se) (psych_config s)
       \<lparr>rfa_initialized = False, rfa_acquired = False, rfa_database = Map.empty\<rparr> of
       (r, c) \<Rightarrow> (r, s\<lparr>rfa_context := Some c\<rparr>))"

definition init_event_queue :: "start_env \<Rightarrow> bool adapter" where
  "init_event_queue se =
     bindm (\<lambda>s. (event_queue_create se, s)) (\<lambda>created.
       seq (modify (\<lambda>s. s\<lparr>event_queue := (if created then Some True else None)\<rparr>)) (ret created))"

definition init_log :: "start_env \<Rightarrow> bool adapter" where
  "init_log se =
     seq (modify (\<lambda>s. s\<lparr>log_provider := True\<rparr>)) (\<lambda>s. (log_register se, s))"

definition init_provider :: "start_env \<Rightarrow> rfa_env \<Rightarrow> bool adapter" where
  "init_provider se env =
     seq (modify (\<lambda>s. s\<lparr>psych_provider := Some (provider_init (psych_config s))\<rparr>))
    (seq (on_provider (provider_t env)) (on_provider (provider_Init env (version_ok se))))"

text \<open>
  The stream of one item. A stream whose creation fails or throws is released with the local pointer
  to it; one that exists for the name already is shared.
\<close>

definition create_stream :: "rfa_env \<Rightarrow> string \<Rightarrow> (nat option) adapter" where
  "create_stream env ric =
     bindm (gets (\<lambda>s. map_of (stream_vector s) ric)) (\<lambda>kt.
     case kt of
       Some a \<Rightarrow> ret (Some a)
     | None \<Rightarrow>
         bindm (gets next_address) (\<lambda>a.
         seq (modify (\<lambda>s. s\<lparr>next_address := a + 1\<rparr>))
        (seq (on_provider (make_stream a))
        (bindm (try_catch (on_provider (provider_CreateItemStream env ric a)) (\<lambda>_. True)
                 (\<lambda>e. seq (on_provider (drop_stream a)) (throw e))) (\<lambda>ok.
           if \<not> ok then seq (on_provider (drop_stream a)) (ret None)
           else seq (modify (\<lambda>s. s\<lparr>stream_vector := emplace ric a (stream_vector s)\<rparr>)) (ret (Some a)))))))"

fun create_items :: "rfa_env \<Rightarrow> (string \<times> string \<times> string) list \<Rightarrow> name_map \<Rightarrow> (name_map option) adapter" where
  "create_items env [] names = ret (Some names)"
| "create_items env ((name, ric, topic) # its) names =
     bindm (create_stream env ric) (\<lambda>stream.
       case stream of
         None \<Rightarrow> ret None
       | Some a \<Rightarrow> create_items env its (emplace name (topic, a) names))"

fun create_resources :: "rfa_env \<Rightarrow> resource list \<Rightarrow> bool adapter" where
  "create_resources env [] = ret True"
| "create_resources env (it # its) =
     seq (modify (\<lambda>s. s\<lparr>connections := emplace (res_path it)
            (connection_t it (base_url (psych_config s) @ res_path it)) (connections s)\<rparr>))
    (bindm (create_items env (res_items it) []) (\<lambda>names.
       case names of
         None \<Rightarrow> ret False
       | Some name_map \<Rightarrow>
           seq (modify (\<lambda>s. s\<lparr>query_vector := emplace (res_path it) name_map (query_vector s)\<rparr>))
               (create_resources env its)))"

text \<open>The two \<open>CHECK\<close>s, before and after, only log.\<close>

definition init_iterator :: "start_env \<Rightarrow> bool adapter" where
  "init_iterator se =
     seq (\<lambda>s. (iterator_initialize se (atol (maximum_data_size (psych_config s))), s)) (ret True)"

definition init_rfa :: "start_env \<Rightarrow> rfa_env \<Rightarrow> bool adapter" where
  "init_rfa se env =
     try_catch
       (require (init_context se)
       (require (init_event_queue se)
       (require (init_log se)
       (require (init_provider se env)
       (require (bindm (gets (\<lambda>s. resources (psych_config s))) (create_resources env))
         (init_iterator se))))))
       (\<lambda>e. rfa_exception e \<or> standard_exception e)
       (\<lambda>_. ret False)"

definition init_snmp :: "start_env \<Rightarrow> bool adapter" where
  "init_snmp se =
     try_catch
       (bindm (gets (\<lambda>s. is_snmp_enabled (psych_config s))) (\<lambda>enabled.
          if enabled then
            bindm (\<lambda>s. (new_snmp_agent se, s)) (\<lambda>_.
              seq (modify (\<lambda>s. s\<lparr>snmp_agent := True\<rparr>)) (ret True))
          else ret True))
       standard_exception
       (\<lambda>_. ret False)"

definition init_timer :: "start_env \<Rightarrow> bool adapter" where
  "init_timer se =
     try_catch
       (bindm (\<lambda>s. (GetNextInterval se (psych_config s), s)) (\<lambda>due_time.
        bindm (\<lambda>s. (stoul (cfg_interval (psych_config s)), s)) (\<lambda>td.
          seq (modify (\<lambda>s. s\<lparr>timer := Some (to_unix_epoch due_time, td)\<rparr>)) (ret True))))
       standard_exception
       (\<lambda>_. ret False)"

definition psych_Init :: "start_env \<Rightarrow> rfa_env \<Rightarrow> bool adapter" where
  "psych_Init se env =
     require (init_curl se) (require (init_rfa se env) (require (init_snmp se) (init_timer se)))"

section \<open>Shutdown\<close>

text \<open>The shared pointers of the two maps are the last ones to the streams.\<close>

definition psych_Clear :: "unit adapter" where
  "psych_Clear =
     seq (modify (\<lambda>s. s\<lparr>timer := None\<rparr>))
    (seq (modify (\<lambda>s. s\<lparr>snmp_agent := False\<rparr>))
    (seq (modify (\<lambda>s. s\<lparr>event_queue := map_option (\<lambda>_. False) (event_queue s)\<rparr>))
    (seq (modify (\<lambda>s. s\<lparr>stream_vector := [], query_vector := [],
            psych_provider := map_option (\<lambda>p. p\<lparr>streams := (\<lambda>_. None)\<rparr>) (psych_provider s)\<rparr>))
    (seq (modify (\<lambda>s. s\<lparr>psych_provider := None, log_provider := False, event_queue := None,
            rfa_context := None, multipass := False\<rparr>))
    (bindm (gets curl_ref_count) (\<lambda>old.
       modify (\<lambda>s. s\<lparr>curl_ref_count := old - 1, curl_ready := (curl_ready s \<and> old \<noteq> 1)\<rparr>)))))))"

definition psych_Destroy :: "unit adapter" where
  "psych_Destroy = psych_Clear"

definition psych_destructor :: "unit adapter" where
  "psych_destructor = psych_Clear"

section \<open>The timer callback\<close>

text \<open>
  The query runs on the adapter's own connections, in the order of the map. \<open>locked\<close> says whether
  another thread holds the query lock.
\<close>

definition run_query ::
    "curl_env \<Rightarrow> rfa_env \<Rightarrow> publish_env \<Rightarrow> text_env \<Rightarrow> query_flags \<Rightarrow> int \<Rightarrow> bool adapter" where
  "run_query ce env pe te flags t0 = (\<lambda>s.
     case psych_provider s of
       None \<Rightarrow> (Raise Null_Deref, s)
     | Some p \<Rightarrow>
         (case httpPsychQuery ce env pe te (psych_config s) (query_vector s) flags t0
            \<lparr>q_conns = map snd (connections s), q_pending = [], q_stats = psych_counters s,
             q_provider = p, q_performs = 0, q_options = [], q_slept = [], q_times = refresh_time s\<rparr> of
            (r, q) \<Rightarrow> (r, s\<lparr>connections := zip (map fst (connections s)) (q_conns q),
              psych_counters := q_stats q, psych_provider := Some (q_provider q),
              refresh_time := q_times q\<rparr>)))"

definition OnTimer ::
    "curl_env \<Rightarrow> rfa_env \<Rightarrow> publish_env \<Rightarrow> text_env \<Rightarrow> bool \<Rightarrow> int \<Rightarrow> bool adapter" where
  "OnTimer ce env pe te locked t0 =
     seq (modify (\<lambda>s. s\<lparr>psych_counters := count PSYCH_PC_TIMER_QUERY_RECEIVED (psych_counters s)\<rparr>))
    (if locked then ret True
     else
       try_catch
         (try_catch
            (bindm (run_query ce env pe te \<lparr>QUERY_HTTP_KEEPALIVE = True, QUERY_IF_MODIFIED_SINCE = True\<rparr> t0)
               (\<lambda>_. ret True))
            (\<lambda>e. e = Rfa_Invalid_Usage) (\<lambda>_. ret True))
         standard_exception (\<lambda>_. ret False))"

section \<open>The next timer event\<close>

lemma yesterday_True: "yesterday True t = None"
proof -
  have "\<not> later" if ret: "yesterday later t = Some r" for later r
    by (rule yesterday.raw_induct[where P = "\<lambda>later t r. \<not> later", OF _ ret]) (auto split: if_splits)
  then show ?thesis by (cases "yesterday True t") auto
qed

lemma yesterday_run: "yesterday later t = (if later then None else Some t)"
  using yesterday_True yesterday.simps[of False] by simp

lemma scale_bounds: 
  assumes "K \<le> Q" "Q < K + i" "Q * 1000000 \<le> d" "d < Q * 1000000 + (1000000::int)"
  shows "d < (K + i) * 1000000" "K * 1000000 \<le> d"
proof -
  have "Q + 1 \<le> K + i" using assms by simp
  then have "(Q + 1) * 1000000 \<le> (K + i) * 1000000" by simp
  moreover have "(Q + 1) * 1000000 = Q * 1000000 + 1000000" by simp
  ultimately show "d < (K + i) * 1000000" using assms by (simp only:)
  show "K * 1000000 \<le> d" using assms by (smt (verit) mult_right_mono)
qed
lemma next_boundary:
  assumes "0 < i" "r + i * 1000000 \<le> n"
  shows "let e = r + (total_seconds (n - r) sdiv i) * i * 1000000 + i * 1000000
    in n < e \<and> e \<le> n + i * 1000000 \<and> (e - r) mod (i * 1000000) = (0::int)"
proof -
  let ?q = "(n - r) div 1000000"
  have nonneg: "0 \<le> n - r" using assms by (smt (verit) mult_pos_pos)
  then have q: "total_seconds (n - r) = ?q" "0 \<le> ?q" by (simp_all add: total_seconds_def pos_imp_zdiv_nonneg_iff)
  have s: "?q sdiv i = ?q div i" using q(2) assms(1) by (cases "?q = 0") (auto simp: signed_divide_int_def sgn_if)
  let ?k = "?q div i"
  have k: "?k * i \<le> ?q" "?q < ?k * i + i"
    using assms(1) div_mult_mod_eq[of ?q i] pos_mod_bound[OF assms(1), of ?q] pos_mod_sign[OF assms(1), of ?q] by linarith+
  have m: "?q * 1000000 \<le> n - r" "n - r < ?q * 1000000 + 1000000"
    using div_mult_mod_eq[of "n - r" 1000000] pos_mod_bound[of 1000000 "n - r"] pos_mod_sign[of 1000000 "n - r"] by linarith+
  have "n - r < (?k * i + i) * 1000000" "?k * i * 1000000 \<le> n - r"
    by (rule scale_bounds[OF k m])+
  moreover have "(?k * i * 1000000 + i * 1000000) mod (i * 1000000) = 0"
    by (simp add: distrib_right[symmetric] mult.assoc)
  ultimately show ?thesis using q s by (auto simp: Let_def algebra_simps)
qed

text \<open>
  C18. The first timer event is after now, at most one interval later, and a whole number of intervals
  after the reference time of today; but when less than one interval of the day has passed since
  the reference time, start-up never comes back.
\<close>

theorem next_interval:
  assumes "duration_from_string se (time_offset_constant cfg) = Done tod" "stoi (cfg_interval cfg) = Done i" "0 < i"
    and now: "now = universal_time se * 1000000" and day: "reference = now - now mod 86400000000 + tod"
  shows "if reference + i * 1000000 \<le> now
    then \<exists>t. GetNextInterval se cfg = Done t \<and> now < t \<and> t \<le> now + i * 1000000 \<and>
      (t - reference) mod (i * 1000000) = 0
    else GetNextInterval se cfg = Diverged"
proof -
  have "tod + i * 1000000 > now mod 86400000000 \<longleftrightarrow> \<not> reference + i * 1000000 \<le> now" using day by linarith
  then have "GetNextInterval se cfg =
      (if reference + i * 1000000 \<le> now
       then Done (reference + (total_seconds (now - reference) sdiv i) * i * 1000000 + i * 1000000) else Diverged)"
    using assms(3) by (simp add: GetNextInterval_def assms(1,2) now[symmetric] day yesterday_run Let_def)
  then show ?thesis using next_boundary[OF assms(3), of reference now] by (simp add: Let_def)
qed

text \<open>The intervals of the configuration file: a minute, 16 seconds into the day.\<close>

definition demo_start_env :: "int \<Rightarrow> start_env" where
  "demo_start_env now = \<lparr>curl_global_init = True, curl_multi_init = True, db_env = demo_db_env, event_queue_create = Done True,
     log_register = Done True, version_ok = True, iterator_initialize = (\<lambda>n. Done ()), new_snmp_agent = Done (),
     duration_from_string = \<lambda>s. if s = ''00:00:16.000'' then Done 16000000 else Raise Std_Exception, universal_time = now\<rparr>"

definition demo_timed_config :: config where
  "demo_timed_config = config_init\<lparr>time_offset_constant := ''00:00:16.000'', cfg_interval := ''60''\<rparr>"

theorem next_interval_witness:
  "(\<exists>t. GetNextInterval (demo_start_env 1000) demo_timed_config = Done t \<and> 1000000000 < t \<and> t \<le> 1060000000) \<and>
   GetNextInterval (demo_start_env 30) demo_timed_config = Diverged"
proof -
  have "stoi ''60'' = Done 60" by code_simp
  then show ?thesis
    using next_interval[of "demo_start_env 1000" demo_timed_config 16000000 60 1000000000 16000000]
      next_interval[of "demo_start_env 30" demo_timed_config 16000000 60 30000000 16000000]
    by (auto simp: demo_start_env_def demo_timed_config_def config_init_def)
qed

text \<open>
  The pump calls back at the due time and then after each interval, until a call returns false.
\<close>

theorem time_pump_calls:
  "time_pump_Run due td oks = map (\<lambda>k. due + int k * td) [0..<min (length oks) (length (takeWhile (\<lambda>ok. ok) oks) + 1)]"
proof (induction due td oks rule: time_pump_Run.induct)
  case (1 due td)
  then show ?case by simp
next
  case (2 due td ok oks)
  let ?n = "min (length oks) (length (takeWhile (\<lambda>ok. ok) oks) + 1)"
  show ?case
  proof (cases ok)
    case True
    have "map (\<lambda>k. due + int k * td) [0..<Suc ?n] = due # map (\<lambda>k. due + td + int k * td) [0..<?n]"
      by (simp add: upt_conv_Cons map_Suc_upt[symmetric] algebra_simps del: upt_Suc)
    then show ?thesis using 2 True by (simp del: upt_Suc)
  qed simp
qed

section \<open>The reference count of libcurl\<close>

definition curl_is :: "32 word \<Rightarrow> bool \<Rightarrow> psych \<Rightarrow> bool" where
  "curl_is n ready s \<longleftrightarrow> curl_ref_count s = n \<and> curl_ready s = ready"

lemma keeps_on_provider:
  "(\<And>s p. I s \<Longrightarrow> I (s\<lparr>psych_provider := p\<rparr>)) \<Longrightarrow> keeps I (on_provider m)"
  by (auto simp: keeps_def on_provider_def split: option.split prod.split)

lemma keeps_require: "keeps I m \<Longrightarrow> keeps I k \<Longrightarrow> keeps I (require m k)"
  unfolding require_def by (intro keeps_intro)

lemma keeps_answer: "keeps I (\<lambda>s. (f s, s))"
  by (simp add: keeps_def)

lemmas keeps_stage = keeps_intro keeps_require keeps_answer keeps_modify

lemma keeps_curl_stages:
  "keeps (curl_is n ready) (init_rfa se env)" "keeps (curl_is n ready) (init_snmp se)" "keeps (curl_is n ready) (init_timer se)"
proof -
  have P: "keeps (curl_is n ready) (on_provider m)" for m :: "'x operation"
    by (intro keeps_on_provider) (simp add: curl_is_def)
  have st: "keeps (curl_is n ready) (create_stream env ric)" for env ric
    unfolding create_stream_def by (intro keeps_stage keeps_on_provider) (simp_all add: curl_is_def)
  have its: "keeps (curl_is n ready) (create_items env its names)" for env its names
    by (induction env its names rule: create_items.induct) (auto intro!: keeps_intro st)
  have rs: "keeps (curl_is n ready) (create_resources env rs)" for rs
  proof (induction rs)
    case (Cons r rs)
    have "keeps (curl_is n ready) (modify (\<lambda>s. s\<lparr>connections := f s\<rparr>))"
      "keeps (curl_is n ready) (modify (\<lambda>s. s\<lparr>query_vector := g s\<rparr>))" for f g
      by (intro keeps_modify, simp add: curl_is_def)+
    then show ?case using Cons by (auto intro!: keeps_intro its)
  qed (simp add: keeps_ret)
  have ctx: "keeps (curl_is n ready) (init_context se)"
    by (auto simp: keeps_def init_context_def curl_is_def split: prod.split)
  show "keeps (curl_is n ready) (init_rfa se env)"
    unfolding init_rfa_def init_event_queue_def init_log_def init_provider_def init_iterator_def
    by (intro keeps_stage keeps_on_provider ctx rs) (simp_all add: curl_is_def)
  show "keeps (curl_is n ready) (init_snmp se)"
    unfolding init_snmp_def by (intro keeps_stage) (simp_all add: curl_is_def)
  show "keeps (curl_is n ready) (init_timer se)"
    unfolding init_timer_def by (intro keeps_stage) (simp_all add: curl_is_def)
qed

lemma psych_Init_curl:
  assumes "curl_ref_count s = n" "n \<noteq> 0"
  shows "curl_is (n + 1) (curl_ready s) (snd (psych_Init se env s))"
proof -
  let ?rest = "require (init_rfa se env) (require (init_snmp se) (init_timer se))"
  obtain ok t where t: "init_curl se s = (Done ok, t)" "curl_is (n + 1) (curl_ready s) t"
    using assms by (auto simp: init_curl_def require_def curl_is_def run_simps_all)
  have "keeps (curl_is (n + 1) (curl_ready s)) ?rest"
    by (intro keeps_require keeps_curl_stages)
  from keepsD[OF this t(2)] t show ?thesis
    by (cases ok) (simp_all add: psych_Init_def require_def[of "init_curl se"] bindm_def[of "init_curl se"] method_simps)
qed

lemma psych_Init_first:
  assumes "psych_Init se env s = (Done True, t)" "curl_ref_count s = 0"
  shows "curl_ref_count t = 1 \<and> curl_ready t"
proof -
  let ?rest = "require (init_rfa se env) (require (init_snmp se) (init_timer se))"
  obtain u where u: "init_curl se s = (Done True, u)" "?rest u = (Done True, t)"
    using assms(1) by (auto simp: psych_Init_def require_def[of "init_curl se"] bindm_Done method_simps split: if_splits)
  then have "curl_is 1 True u"
    using assms(2) by (auto simp: init_curl_def require_def curl_is_def run_simps_all split: if_splits)
  moreover have "keeps (curl_is 1 True) ?rest" by (intro keeps_require keeps_curl_stages)
  ultimately show ?thesis using keepsD[of "curl_is 1 True" ?rest u] u(2) by (simp add: curl_is_def)
qed

lemma psych_Clear_run:
  "psych_Clear s = (Done (), snd (psych_Clear s))"
  "curl_ref_count (snd (psych_Clear s)) = curl_ref_count s - 1"
  "curl_ready (snd (psych_Clear s)) = (curl_ready s \<and> curl_ref_count s \<noteq> 1)"
  by (simp_all add: psych_Clear_def run_simps_all)

text \<open>
  The reference count of libcurl underflows: a shutdown clears the instance and its destructor
  clears it again, so one complete life cycle leaves the count at minus one, and no later instance
  initialises libcurl, however its start-up goes.
\<close>

theorem curl_count_underflows:
  assumes "psych_Init se env ((psych_t 0 False)\<lparr>psych_config := cfg\<rparr>) = (Done True, s)"
    and "seq psych_Destroy psych_destructor s = (Done (), s')"
  shows "curl_ref_count s' = - 1 \<and> \<not> curl_ready s' \<and>
    \<not> curl_ready (snd (psych_Init se2 env2 ((psych_t (curl_ref_count s') (curl_ready s'))\<lparr>psych_config := cfg2\<rparr>)))"
proof -
  have "curl_ref_count s = 1 \<and> curl_ready s"
    by (rule psych_Init_first[OF assms(1)]) (simp add: psych_t_def)
  moreover have "seq psych_Destroy psych_destructor s = psych_Clear (snd (psych_Clear s))"
    unfolding psych_Destroy_def psych_destructor_def by (rule seq_Done_run[OF psych_Clear_run(1)])
  then have "s' = snd (psych_Clear (snd (psych_Clear s)))" using assms(2) by (metis snd_conv)
  ultimately have s': "curl_ref_count s' = - 1" "\<not> curl_ready s'" by (simp_all add: psych_Clear_run(2,3))
  then have "curl_is 0 False (snd (psych_Init se2 env2 ((psych_t (curl_ref_count s') (curl_ready s'))\<lparr>psych_config := cfg2\<rparr>)))"
    using psych_Init_curl[of "(psych_t (curl_ref_count s') (curl_ready s'))\<lparr>psych_config := cfg2\<rparr>" "- 1" se2 env2]
    by (simp add: psych_t_def)
  then show ?thesis using s' by (simp add: curl_is_def)
qed

end
