(* ===== verification/Adapter.thy ===== *)
theory Adapter
  imports Psych
begin

text \<open>
  The adapter as a whole: the streams its start-up creates, the states it can reach through RFA
  events and timer calls, and what holds in all of them.
\<close>

section \<open>The names of the streams\<close>

text \<open>What the adapter relies on in the provider: its directory and the name of each live stream.\<close>

definition stream_names :: "provider \<Rightarrow> nat \<Rightarrow> string option" where
  "stream_names p a = map_option stream_name (streams p a)"

definition shape :: "provider \<Rightarrow> (string \<times> nat) list \<times> (nat \<Rightarrow> string option)" where
  "shape p = (directory p, stream_names p)"

definition steady :: "'a operation \<Rightarrow> bool" where
  "steady m \<longleftrightarrow> (\<forall>v. keeps (\<lambda>p. shape p = v) m)"

named_theorems steady_intro \<open>operations that leave directory and names alone\<close>

lemma steady_silent: "silent m \<Longrightarrow> steady m"
  unfolding steady_def
proof (intro allI silent_keeps_links, assumption)
  fix v p q
  assume "links p = links q" "shape p = v"
  then show "shape q = v" by (simp add: links_def shape_def stream_names_def[abs_def])
qed

lemma steady_bindm [steady_intro]: "steady m \<Longrightarrow> (\<And>x. steady (f x)) \<Longrightarrow> steady (bindm m f)"
  and steady_seq [steady_intro]: "steady m' \<Longrightarrow> steady k \<Longrightarrow> steady (seq m' k)"
  by (simp_all add: steady_def keeps_bindm keeps_seq)

lemma steady_for_each [steady_intro]: "(\<And>x. steady (f x)) \<Longrightarrow> steady (for_each xs f)"
  by (simp add: steady_def keeps_for_each)

lemma steady_try [steady_intro]: "steady m \<Longrightarrow> (\<And>e. steady (h e)) \<Longrightarrow> steady (try_catch m P h)"
  by (simp add: steady_def keeps_try)

lemma steady_if [steady_intro]: "(b \<Longrightarrow> steady m) \<Longrightarrow> (\<not> b \<Longrightarrow> steady k) \<Longrightarrow> steady (if b then m else k)"
  by simp

lemma steady_case_option [steady_intro]:
  "steady m \<Longrightarrow> (\<And>x. steady (f x)) \<Longrightarrow> steady (case v of None \<Rightarrow> m | Some x \<Rightarrow> f x)"
  by (cases v) auto

lemma steady_set_token [steady_intro]: "steady (set_token a i t)"
  unfolding steady_def set_token_def
  by (intro allI keeps_modify) (auto simp: shape_def stream_names_def fun_eq_iff option.map_comp comp_def)

lemma steady_on_session [steady_intro]: "steady (on_session i f)"
  unfolding steady_def on_session_def
  by (intro allI keeps_modify) (auto simp: shape_def stream_names_def[abs_def])

lemma steady_rfa [steady_intro]:
  "steady (ret x)" "steady (throw e)" "steady (gets g)" "steady (rfa_call answer)" "steady (bump i c)"
  "steady (touch_session env i)" "steady (touch_provider env)" "steady (generateItemToken env i)"
  "steady (GetServiceDirectory env)"
  by (intro steady_silent silent_basic silent_rfa_call silent_bump silent_touch_session silent_touch_provider
      silent_generateItemToken silent_GetServiceDirectory)+

lemma steady_Submit [steady_intro]: "steady (Submit env i msg t)"
proof -
  have "steady (modify (\<lambda>p. p\<lparr>wire := wire p @ [m]\<rparr>))" for m
    unfolding steady_def by (intro allI keeps_modify) (auto simp: shape_def stream_names_def[abs_def])
  then show ?thesis unfolding Submit_def by (intro steady_intro)
qed

lemma steady_provider_Send: "steady (provider_Send env a msg)"
proof -
  have "steady (modify (\<lambda>p. p\<lparr>provider_pc_msgs_sent := provider_pc_msgs_sent p + 1\<rparr>))"
    unfolding steady_def by (intro allI keeps_modify) (auto simp: shape_def stream_names_def[abs_def])
  then show ?thesis unfolding provider_Send_def session_Send_def by (intro steady_intro)
qed

lemma steady_processEvent: "steady (processEvent env i ev)"
proof -
  have dir: "steady (SendDirectoryResponse env i)"
    unfolding SendDirectoryResponse_def by (intro steady_intro)
  have reset: "steady (ResetTokens env i)"
    unfolding ResetTokens_def reset_token_def by (intro steady_intro) (auto split: prod.split intro!: steady_intro)
  have login: "steady (OnLoginSuccess env i)"
    unfolding OnLoginSuccess_def by (intro steady_intro dir reset)
  have resp: "steady (OnRespMsg env i m st d)" for m st d
    unfolding OnRespMsg_def OnLoginSuspect_def OnLoginClosed_def
    by (cases st; cases d) (auto intro!: steady_intro login)
  have item: "steady (OnOMMItemEvent env i msg)" for msg
    unfolding OnOMMItemEvent_def by (cases msg) (auto intro!: steady_intro resp)
  show ?thesis
    unfolding processEvent_def OnOMMCmdErrorEvent_def by (cases ev) (auto intro!: steady_intro item)
qed

lemma shape_step: "steady m \<Longrightarrow> shape (snd (m p)) = shape p"
  unfolding steady_def keeps_def by blast

lemma provider_CreateItemStream_shape:
  assumes "provider_CreateItemStream env name a p = (Done b, q)" "streams p a \<noteq> None"
  shows "b \<and> shape q = (emplace_back name a (directory p), (stream_names p)(a \<mapsto> name))"
proof -
  let ?n = "length (sessions p)"
  define p1 where "p1 = p\<lparr>streams := (streams p)(a := map_option
      (\<lambda>st. st\<lparr>stream_name := name, stream_tokens := resize ?n None (stream_tokens st)\<rparr>) (streams p a))\<rparr>"
  have p1: "shape p1 = (directory p, (stream_names p)(a \<mapsto> name))"
    using assms(2) by (auto simp: p1_def shape_def stream_names_def fun_eq_iff)
  let ?loop = "for_each [0..<?n] (\<lambda>i. bindm (session_CreateItemStream env i a) (\<lambda>_. ret ()))"
  have L: "steady ?loop"
    unfolding session_CreateItemStream_def by (intro steady_intro)
  obtain p2 where p2: "?loop p1 = (Done (), p2)"
    and rest: "seq (modify (\<lambda>p. p\<lparr>directory := emplace_back name a (directory p)\<rparr>))
      (seq (touch_provider env) (ret True)) p2 = (Done b, q)"
    using assms(1) by (auto simp: provider_CreateItemStream_def method_simps seq_Done p1_def)
  have s2: "shape p2 = shape p1" using shape_step[OF L, of p1] p2 by simp
  let ?p3 = "p2\<lparr>directory := emplace_back name a (directory p2)\<rparr>"
  obtain p4 where p4: "touch_provider env ?p3 = (Done (), p4)" "b" "q = p4"
    using rest by (auto simp: method_simps seq_Done)
  have "shape p4 = shape ?p3" using shape_step[OF steady_rfa(7), of env ?p3] p4 by simp
  then show ?thesis
    using p4 s2 p1 by (simp add: shape_def stream_names_def[abs_def])
qed

section \<open>The streams of the adapter\<close>

text \<open>
  The provider is one the connection logic can reach, its directory and the stream vector name the
  same streams, each alive and named after its entry, and no address was used that is not below
  the next one.
\<close>

definition adapter_inv :: "rfa_env \<Rightarrow> psych \<Rightarrow> bool" where
  "adapter_inv env s \<longleftrightarrow> omap_ok (stream_vector s) \<and>
     (\<exists>p. psych_provider s = Some p \<and> link_reach env (psych_config s) p \<and>
       (\<forall>ric a. (ric, a) \<in> set (directory p) \<longleftrightarrow> map_of (stream_vector s) ric = Some a) \<and>
       (\<forall>ric a. (ric, a) \<in> set (directory p) \<longrightarrow> stream_names p a = Some ric) \<and>
       (\<forall>a \<ge> next_address s. stream_names p a = None))"

text \<open>What building the streams leaves alone.\<close>

definition others :: "psych \<Rightarrow> config \<times> (string, connection) omap \<times> query_map" where
  "others s = (psych_config s, connections s, query_vector s)"

lemma on_provider_run:
  assumes "psych_provider s = Some p" "m p = (r, q)"
  shows "on_provider m s = (r, s\<lparr>psych_provider := Some q\<rparr>)"
    and "bindm (on_provider m) k s = (case r of
        Done x \<Rightarrow> k x (s\<lparr>psych_provider := Some q\<rparr>)
      | Raise e \<Rightarrow> (Raise e, s\<lparr>psych_provider := Some q\<rparr>)
      | Diverged \<Rightarrow> (Diverged, s\<lparr>psych_provider := Some q\<rparr>))"
  using assms by (simp_all add: on_provider_def bindm_def split: outcome.split)

lemma create_stream_new:
  assumes "map_of (stream_vector s) ric = None" "psych_provider s = Some p"
    and "make_stream (next_address s) p = (Done (), p1)"
    and "provider_CreateItemStream env ric (next_address s) p1 = (r, q)"
  shows "\<exists>t. create_stream env ric s = (case r of Done b \<Rightarrow> Done (if b then Some (next_address s) else None) | Raise e \<Rightarrow> Raise e
      | Diverged \<Rightarrow> Diverged, t) \<and> (r = Done True \<longrightarrow> t = s\<lparr>next_address := next_address s + 1, psych_provider := Some q,
      stream_vector := emplace ric (next_address s) (stream_vector s)\<rparr>)"
proof -
  let ?s1 = "s\<lparr>next_address := Suc (next_address s)\<rparr>" and ?a = "next_address s"
  let ?s2 = "?s1\<lparr>psych_provider := Some p1\<rparr>"
  have m: "bindm (on_provider (make_stream ?a)) k ?s1 = k () ?s2" for k :: "unit \<Rightarrow> 'x adapter"
    using on_provider_run(2)[of ?s1 p "make_stream ?a", OF _ assms(3)] assms(2) by simp
  have c: "on_provider (provider_CreateItemStream env ric ?a) ?s2 = (r, ?s2\<lparr>psych_provider := Some q\<rparr>)"
    using on_provider_run(1)[of ?s2 p1 "provider_CreateItemStream env ric ?a", OF _ assms(4)] by simp
  have d: "bindm (on_provider (drop_stream ?a)) k (u\<lparr>psych_provider := Some q\<rparr>) =
      k () (u\<lparr>psych_provider := Some (snd (drop_stream ?a q))\<rparr>)" for u and k :: "unit \<Rightarrow> 'x adapter"
    using on_provider_run(2)[where s = "u\<lparr>psych_provider := Some q\<rparr>" and p = q and m = "drop_stream ?a" and r = "Done ()"
        and q = "snd (drop_stream ?a q)" and k = k] by (simp add: drop_stream_def method_simps)
  show ?thesis
    by (cases r) (simp_all add: create_stream_def assms(1) run_simps_all m c d cong: bindm_weak)
qed

lemma create_stream_Done:
  assumes "create_stream env ric s = (Done r, t)" "adapter_inv env s"
  shows "adapter_inv env t \<and> others t = others s \<and> map_of (stream_vector s) \<subseteq>\<^sub>m map_of (stream_vector t) \<and>
    (\<exists>a. r = Some a \<and> map_of (stream_vector t) ric = Some a)"
proof (cases "map_of (stream_vector s) ric")
  case (Some a)
  then have "t = s" "r = Some a" using assms(1) by (simp_all add: create_stream_def method_simps)
  then show ?thesis using assms(2) Some by simp
next
  case None
  let ?a = "next_address s"
  obtain p where p: "psych_provider s = Some p" "link_reach env (psych_config s) p"
    "\<And>ric a. (ric, a) \<in> set (directory p) \<longleftrightarrow> map_of (stream_vector s) ric = Some a"
    "\<And>ric a. (ric, a) \<in> set (directory p) \<Longrightarrow> stream_names p a = Some ric"
    "\<And>a. a \<ge> next_address s \<Longrightarrow> stream_names p a = None" and ok: "omap_ok (stream_vector s)"
    using assms(2) by (auto simp: adapter_inv_def)
  obtain p1 where p1: "make_stream ?a p = (Done (), p1)" "shape p1 = (directory p, (stream_names p)(?a \<mapsto> []))"
    "streams p1 ?a \<noteq> None"
    by (auto simp: make_stream_def method_simps shape_def stream_names_def fun_eq_iff)
  obtain o2 q where q: "provider_CreateItemStream env ric ?a p1 = (o2, q)" by force
  note N = create_stream_new[OF None p(1) p1(1) q]
  obtain b where b: "o2 = Done b" using N assms(1) by (cases o2) auto
  note Q = provider_CreateItemStream_shape[OF q[unfolded b] p1(3)]
  have "map_of (directory p) ric = None"
    using None p(3) by (cases "map_of (directory p) ric") (auto dest: map_of_SomeD)
  then have d: "emplace_back ric ?a (directory p) = directory p @ [(ric, ?a)]" by (simp add: emplace_back_def)
  have sh: "directory q = directory p @ [(ric, ?a)]" "stream_names q = (stream_names p)(?a \<mapsto> ric)"
    using Q p1(2) d by (auto simp: shape_def)
  have fresh: "streams p ?a = None" "?a \<notin> snd ` set (directory p)"
    using p(4,5) by (force simp: stream_names_def)+
  have "link_reach env (psych_config s) q"
    using link_reach.step[OF p(2) link_step.create[OF fresh, of env ric]] p1(1) q by (simp add: seq_Done_run[of "make_stream ?a", OF p1(1)])
  moreover have t: "t = s\<lparr>next_address := ?a + 1, psych_provider := Some q, stream_vector := emplace ric ?a (stream_vector s)\<rparr>" "r = Some ?a"
    using N assms(1) b Q by auto
  moreover have "map_of (emplace ric ?a (stream_vector s)) = (map_of (stream_vector s))(ric \<mapsto> ?a)"
    using ok None by (simp add: map_of_emplace)
  moreover have "map_of (stream_vector s) x \<noteq> Some ?a" for x
    using p(3)[of x ?a] p(4)[of x ?a] p(5)[of ?a] by auto
  ultimately show ?thesis
    using p sh ok None by (auto simp: adapter_inv_def others_def map_le_def)
qed

text \<open>What the name map of a resource says once the streams exist.\<close>

definition names_for :: "(string, nat) omap \<Rightarrow> (string \<times> string \<times> string) list \<Rightarrow> string \<Rightarrow> (string \<times> nat) option" where
  "names_for sv its name =
     (case map_of its name of
        None \<Rightarrow> None
      | Some (ric, topic) \<Rightarrow> (case map_of sv ric of None \<Rightarrow> None | Some a \<Rightarrow> Some (topic, a)))"

definition covered :: "(string, nat) omap \<Rightarrow> (string \<times> string \<times> string) list \<Rightarrow> bool" where
  "covered sv its \<longleftrightarrow> (\<forall>(name, ric, topic) \<in> set its. map_of sv ric \<noteq> None)"

lemma names_for_mono:
  assumes "covered sv its" "map_of sv \<subseteq>\<^sub>m map_of sv'"
  shows "names_for sv' its = names_for sv its"
proof
  fix name
  show "names_for sv' its name = names_for sv its name"
  proof (cases "map_of its name")
    case (Some v)
    obtain ric topic where v: "v = (ric, topic)" by (cases v)
    then obtain a where "map_of sv ric = Some a"
      using assms(1) Some by (fastforce simp: covered_def dest!: map_of_SomeD)
    moreover from this have "map_of sv' ric = Some a" using assms(2) by (metis map_le_def domI)
    ultimately show ?thesis using Some v by (simp add: names_for_def)
  qed (simp add: names_for_def)
qed

lemma covered_mono: "covered sv its \<Longrightarrow> map_of sv \<subseteq>\<^sub>m map_of sv' \<Longrightarrow> covered sv' its"
  by (fastforce simp: covered_def map_le_def dom_def)

lemma create_items_Done:
  assumes "create_items env its names s = (Done r, t)" "adapter_inv env s" "omap_ok names"
  shows "adapter_inv env t \<and> others t = others s \<and> map_of (stream_vector s) \<subseteq>\<^sub>m map_of (stream_vector t) \<and>
    covered (stream_vector t) its \<and>
    (\<exists>nm. r = Some nm \<and> map_of nm = names_for (stream_vector t) its ++ map_of names)"
  using assms
proof (induction its arbitrary: names s)
  case Nil
  then show ?case by (auto simp: method_simps covered_def names_for_def fun_eq_iff map_add_def)
next
  case (Cons it its)
  obtain name ric topic where it: "it = (name, ric, topic)" by (cases it)
  obtain v u where u: "create_stream env ric s = (Done v, u)" and
    rest: "(case v of None \<Rightarrow> ret None | Some a \<Rightarrow> create_items env its (emplace name (topic, a) names)) u = (Done r, t)"
    using Cons.prems(1) by (auto simp: it bindm_Done)
  obtain a where a: "v = Some a" "map_of (stream_vector u) ric = Some a" "adapter_inv env u" "others u = others s"
      "map_of (stream_vector s) \<subseteq>\<^sub>m map_of (stream_vector u)"
    using create_stream_Done[OF u Cons.prems(2)] by blast
  have ok: "omap_ok (emplace name (topic, a) names)" using Cons.prems(3) by simp
  obtain nm where nm: "adapter_inv env t" "others t = others u" "map_of (stream_vector u) \<subseteq>\<^sub>m map_of (stream_vector t)"
      "covered (stream_vector t) its" "r = Some nm"
      "map_of nm = names_for (stream_vector t) its ++ map_of (emplace name (topic, a) names)"
    using Cons.IH[OF _ a(3) ok] rest a(1) by auto
  have ric: "map_of (stream_vector t) ric = Some a" using a(2) nm(3) by (auto simp: map_le_def dom_def)
  have "map_of nm = names_for (stream_vector t) (it # its) ++ map_of names"
    using Cons.prems(3) ric by (auto simp: nm(6) it map_of_emplace names_for_def map_add_def fun_eq_iff split: option.split)
  then show ?case using a nm ric by (auto simp: it covered_def intro: map_le_trans)
qed

definition at_path :: "string \<Rightarrow> resource list \<Rightarrow> resource option" where
  "at_path path rs = find (\<lambda>r. res_path r = path) rs"

lemma create_resources_Done:
  assumes "create_resources env rs s = (Done True, t)" "adapter_inv env s"
    and "omap_ok (connections s)" "omap_ok (query_vector s)"
  shows "adapter_inv env t \<and> psych_config t = psych_config s \<and> map_of (stream_vector s) \<subseteq>\<^sub>m map_of (stream_vector t) \<and>
    (\<forall>r \<in> set rs. covered (stream_vector t) (res_items r)) \<and> omap_ok (connections t) \<and> omap_ok (query_vector t) \<and>
    map_of (connections t) path = (case map_of (connections s) path of
        Some c \<Rightarrow> Some c
      | None \<Rightarrow> map_option (\<lambda>r. connection_t r (base_url (psych_config s) @ path)) (at_path path rs)) \<and>
    map_option map_of (map_of (query_vector t) path) = (case map_of (query_vector s) path of
        Some nm \<Rightarrow> Some (map_of nm)
      | None \<Rightarrow> map_option (\<lambda>r. names_for (stream_vector t) (res_items r)) (at_path path rs))"
  using assms
proof (induction rs arbitrary: s)
  case Nil
  then show ?case by (auto simp: method_simps at_path_def split: option.split)
next
  case (Cons r rs)
  let ?s1 = "s\<lparr>connections := emplace (res_path r) (connection_t r (base_url (psych_config s) @ res_path r)) (connections s)\<rparr>"
  have I1: "adapter_inv env ?s1" using Cons.prems(2) by (simp add: adapter_inv_def)
  obtain v u where u: "create_items env (res_items r) [] ?s1 = (Done v, u)" and
    rest: "(case v of None \<Rightarrow> ret False | Some nm \<Rightarrow> seq (modify (\<lambda>s. s\<lparr>query_vector := emplace (res_path r) nm (query_vector s)\<rparr>))
      (create_resources env rs)) u = (Done True, t)"
    using Cons.prems(1) by (auto simp: bindm_Done method_simps)
  obtain nm where nm: "adapter_inv env u" "others u = others ?s1" "map_of (stream_vector s) \<subseteq>\<^sub>m map_of (stream_vector u)"
      "covered (stream_vector u) (res_items r)" "v = Some nm" "map_of nm = names_for (stream_vector u) (res_items r)"
    using create_items_Done[OF u I1] by auto
  let ?u = "u\<lparr>query_vector := emplace (res_path r) nm (query_vector u)\<rparr>"
  have u': "create_resources env rs ?u = (Done True, t)" "adapter_inv env ?u" "omap_ok (connections ?u)" "omap_ok (query_vector ?u)"
    using rest nm Cons.prems(3,4) by (auto simp: method_simps adapter_inv_def others_def)
  note IH = Cons.IH[OF u']
  have m: "map_of (stream_vector u) \<subseteq>\<^sub>m map_of (stream_vector t)" using IH by simp
  have cov: "covered (stream_vector t) (res_items r)" "names_for (stream_vector u) (res_items r) = names_for (stream_vector t) (res_items r)"
    using covered_mono[OF nm(4) m] names_for_mono[OF nm(4) m] by simp_all
  have c: "map_of (connections ?u) path = (case map_of (connections s) path of Some c \<Rightarrow> Some c
      | None \<Rightarrow> if path = res_path r then Some (connection_t r (base_url (psych_config s) @ path)) else None)"
    using nm(2) Cons.prems(3) by (auto simp: others_def map_of_emplace split: option.split)
  have qv: "map_option map_of (map_of (query_vector ?u) path) = (case map_of (query_vector s) path of Some nm \<Rightarrow> Some (map_of nm)
      | None \<Rightarrow> if path = res_path r then Some (names_for (stream_vector t) (res_items r)) else None)"
    using nm(2,6) Cons.prems(4) cov(2) by (auto simp: others_def map_of_emplace split: option.split)
  have cfg: "psych_config ?u = psych_config s" using nm(2) by (simp add: others_def)
  show ?case
    using IH c qv nm(3) m cov cfg by (auto simp: at_path_def intro: map_le_trans split: option.splits if_splits)
qed

section \<open>Start-up\<close>

text \<open>The part of the adapter the stages of start-up around the streams leave alone.\<close>

definition body :: "psych \<Rightarrow> config \<times> provider option \<times> (string, connection) omap \<times> (string, nat) omap \<times> query_map \<times> nat" where
  "body s = (psych_config s, psych_provider s, connections s, stream_vector s, query_vector s, next_address s)"

lemma keeps_body:
  "keeps (\<lambda>s. body s = v) (init_curl se)" "keeps (\<lambda>s. body s = v) (init_context se)"
  "keeps (\<lambda>s. body s = v) (init_event_queue se)" "keeps (\<lambda>s. body s = v) (init_log se)"
  "keeps (\<lambda>s. body s = v) (init_iterator se)" "keeps (\<lambda>s. body s = v) (init_snmp se)" "keeps (\<lambda>s. body s = v) (init_timer se)"
proof -
  show "keeps (\<lambda>s. body s = v) (init_context se)"
    by (auto simp: keeps_def init_context_def body_def split: prod.split)
  show "keeps (\<lambda>s. body s = v) (init_curl se)"
    unfolding init_curl_def by (intro keeps_stage) (simp_all add: body_def)
  show "keeps (\<lambda>s. body s = v) (init_event_queue se)"
    unfolding init_event_queue_def by (intro keeps_stage) (simp_all add: body_def)
  show "keeps (\<lambda>s. body s = v) (init_log se)"
    unfolding init_log_def by (intro keeps_stage) (simp_all add: body_def)
  show "keeps (\<lambda>s. body s = v) (init_iterator se)"
    unfolding init_iterator_def by (intro keeps_stage)
  show "keeps (\<lambda>s. body s = v) (init_snmp se)"
    unfolding init_snmp_def by (intro keeps_stage) (simp_all add: body_def)
  show "keeps (\<lambda>s. body s = v) (init_timer se)"
    unfolding init_timer_def by (intro keeps_stage) (simp_all add: body_def)
qed

lemma steady_modify: "(\<And>p. shape (f p) = shape p) \<Longrightarrow> steady (modify f)"
  unfolding steady_def by (intro allI keeps_modify) simp

lemma steady_provider_start: "steady (provider_t env)" "steady (provider_Init env ok)"
proof -
  have s: "steady (modify (\<lambda>p. p\<lparr>sessions := sessions p @ [x]\<rparr>))" for x
    by (intro steady_modify) (simp add: shape_def stream_names_def[abs_def])
  have sessions: "steady (sessions_init env i cs)" for i cs
    by (induction cs arbitrary: i) (auto simp: clock_call_def intro!: steady_intro s)
  show "steady (provider_t env)"
    unfolding provider_t_def by (intro steady_intro sessions)
  have login: "steady (SendLoginRequest env i)" for i
    unfolding SendLoginRequest_def store_version_def
    by (intro steady_intro steady_modify) (simp_all add: shape_def stream_names_def[abs_def])
  have create: "steady (CreateOMMProvider env i)" for i
    unfolding CreateOMMProvider_def by (intro steady_intro login)
  have init: "steady (session_Init env i)" for i
    unfolding session_Init_def by (intro steady_intro)
  show "steady (provider_Init env ok)"
    unfolding provider_Init_def by (intro steady_intro create init)
qed

lemma init_provider_inv:
  assumes "init_provider se env s = (Done r, t)" "stream_vector s = []"
  shows "adapter_inv env t \<and> psych_config t = psych_config s \<and> connections t = connections s \<and> query_vector t = query_vector s"
proof -
  let ?p0 = "provider_init (psych_config s)" and ?s1 = "s\<lparr>psych_provider := Some (provider_init (psych_config s))\<rparr>"
  obtain o1 p1 where p1: "provider_t env ?p0 = (o1, p1)" by force
  obtain o2 p2 where p2: "provider_Init env (version_ok se) p1 = (o2, p2)" by force
  have o1: "on_provider (provider_t env) ?s1 = (o1, s\<lparr>psych_provider := Some p1\<rparr>)"
    using on_provider_run(1)[of ?s1 ?p0 "provider_t env", OF _ p1] by simp
  then obtain u where "o1 = Done u"
    using assms(1) by (cases o1) (auto simp: init_provider_def method_simps seq_Done)
  then have d: "o1 = Done ()" by simp
  have o2: "on_provider (provider_Init env (version_ok se)) (s\<lparr>psych_provider := Some p1\<rparr>) = (o2, s\<lparr>psych_provider := Some p2\<rparr>)"
    using on_provider_run(1)[of "s\<lparr>psych_provider := Some p1\<rparr>" p1 "provider_Init env (version_ok se)", OF _ p2] by simp
  have t: "t = s\<lparr>psych_provider := Some p2\<rparr>"
    using assms(1) by (simp add: init_provider_def method_simps seq_Done_run[of "on_provider (provider_t env)", OF o1[unfolded d]] o2)
  have "link_reach env (psych_config s) (snd (seq (provider_t env) (provider_Init env (version_ok se)) ?p0))"
    by (rule link_reach.start)
  then have reach: "link_reach env (psych_config s) p2"
    by (simp add: seq_Done_run[of "provider_t env", OF p1[unfolded d]] p2)
  have "shape p2 = shape ?p0"
    using shape_step[OF steady_provider_start(1), of env ?p0] shape_step[OF steady_provider_start(2), of env "version_ok se" p1] p1 p2
    by simp
  then have "directory p2 = []" "stream_names p2 = (\<lambda>_. None)"
    by (simp_all add: shape_def stream_names_def[abs_def] provider_init_def)
  then show ?thesis using t reach assms(2) by (simp add: adapter_inv_def)
qed

lemma require_Done: "require m k s = (Done True, t) \<longleftrightarrow> (\<exists>u. m s = (Done True, u) \<and> k u = (Done True, t))"
  by (auto simp: require_def bindm_Done method_simps split: if_splits)

lemma keeps_run: "keeps (\<lambda>s. f s = v) m \<Longrightarrow> m s = (r, t) \<Longrightarrow> f s = v \<Longrightarrow> f t = v"
  unfolding keeps_def by (metis snd_conv)

lemma try_true:
  assumes "try_catch m P (\<lambda>_. ret False) s = (Done True, t)"
  shows "m s = (Done True, t)"
  using assms by (auto simp: try_catch_def method_simps split: prod.splits outcome.splits if_splits)

text \<open>The configuration in a fresh object.\<close>

definition fresh_psych :: "32 word \<Rightarrow> bool \<Rightarrow> config \<Rightarrow> psych" where
  "fresh_psych n ready cfg = (psych_t n ready)\<lparr>psych_config := cfg\<rparr>"

lemma psych_Init_Done:
  assumes "psych_Init se env (fresh_psych n rdy cfg) = (Done True, t)"
  shows "adapter_inv env t \<and> psych_config t = cfg \<and> (\<forall>r \<in> set (resources cfg). covered (stream_vector t) (res_items r)) \<and>
    omap_ok (connections t) \<and> omap_ok (query_vector t) \<and>
    map_of (connections t) path = map_option (\<lambda>r. connection_t r (base_url cfg @ path)) (at_path path (resources cfg)) \<and>
    map_option map_of (map_of (query_vector t) path) =
      map_option (\<lambda>r. names_for (stream_vector t) (res_items r)) (at_path path (resources cfg))"
proof -
  let ?s = "fresh_psych n rdy cfg"
  obtain s1 s2 s3 where s: "init_curl se ?s = (Done True, s1)" "init_rfa se env s1 = (Done True, s2)"
      "init_snmp se s2 = (Done True, s3)" "init_timer se s3 = (Done True, t)"
    using assms by (auto simp: psych_Init_def require_Done)
  obtain u1 u2 u3 u4 u5 where u: "init_context se s1 = (Done True, u1)" "init_event_queue se u1 = (Done True, u2)"
      "init_log se u2 = (Done True, u3)" "init_provider se env u3 = (Done True, u4)"
      "create_resources env (resources (psych_config u4)) u4 = (Done True, u5)" "init_iterator se u5 = (Done True, s2)"
    using try_true[OF s(2)[unfolded init_rfa_def]] by (auto simp: require_Done bindm_Done method_simps)
  have "body u3 = body ?s"
    using keeps_run[OF keeps_body(1) s(1)] keeps_run[OF keeps_body(2) u(1)] keeps_run[OF keeps_body(3) u(2)]
      keeps_run[OF keeps_body(4) u(3)] by metis
  then have u3: "stream_vector u3 = []" "connections u3 = []" "query_vector u3 = []" "psych_config u3 = cfg"
    by (simp_all add: body_def fresh_psych_def psych_t_def)
  note u4 = init_provider_inv[OF u(4) u3(1)]
  have "resources (psych_config u4) = resources cfg" using u4 u3 by simp
  note R = create_resources_Done[OF u(5)[unfolded this], of path]
  have b: "body t = body u5"
    using keeps_run[OF keeps_body(5) u(6)] keeps_run[OF keeps_body(6) s(3)] keeps_run[OF keeps_body(7) s(4)] by metis
  have "adapter_inv env u5 \<Longrightarrow> adapter_inv env t" using b by (simp add: adapter_inv_def body_def)
  then show ?thesis using R u4 u3 b by (simp add: body_def)
qed

section \<open>A query and its provider\<close>

text \<open>Only publishing changes the provider, so a query preserves what every \<open>SendRefresh\<close> preserves.\<close>

lemma keeps_query_provider:
  assumes "\<And>r version close cols rs. keeps J (SendRefresh env pe cfg r (names_of qv r) version close cols rs)"
  shows "keeps (\<lambda>q. J (q_provider q)) (httpPsychQuery ce env pe te cfg qv flags t0)"
proof -
  let ?I = "\<lambda>q. J (q_provider q)"
  have prep: "keeps ?I (prepare_connection ce cfg flags t0 k i)" for k i
    unfolding prepare_connection_def Let_def by (intro keeps_intro keeps_modify) simp_all
  have perf: "keeps ?I (perform_round ce)"
    by (rule keeps_sub) (auto simp: perform_round_def split: option.splits)
  have tr: "keeps ?I (run_transfer te m)" for m
    by (rule keeps_sub) (auto simp: run_transfer_def method_simps split: multi_msg.splits prod.splits outcome.splits)
  have pub: "keeps ?I (publish_response env pe cfg qv resp)" for resp
  proof (rule keeps_sub)
    fix q out t
    assume q: "J (q_provider q)" "publish_response env pe cfg qv resp q = (out, t)"
    let ?m = "try_catch (SendRefresh env pe cfg (conn_resource (resp_conn resp)) (names_of qv (conn_resource (resp_conn resp)))
      (engine_version resp) (close_time resp) (columns resp) (rows resp))
      (\<lambda>e. e \<in> {Rfa_Invalid_Usage, Std_Exception, Out_Of_Range, Invalid_Argument}) (\<lambda>_. ret True)"
    have "q_provider t = snd (?m (q_provider q))"
      using q(2) by (auto simp: publish_response_def Let_def split: prod.splits)
    moreover have "keeps J ?m" by (intro keeps_try assms keeps_ret)
    ultimately show "J (q_provider t)" using q(1) keepsD[of J ?m] by simp
  qed
  have rest: "keeps ?I (erase_pending i)" "keeps ?I (q_count c)" for i c
    unfolding erase_pending_def q_count_def by (intro keeps_intro keeps_modify; simp)+
  have msg: "keeps ?I (process_message env pe te cfg qv m version)" for m version
  proof (cases m)
    case (MsgDone i tr)
    have resp: "keeps ?I (\<lambda>q. let (out, resp) = OnHttpResponse te cfg (tr_info tr) (response_init (q_stats q) version (q_conns q ! i))
            in (case out of Done ok \<Rightarrow> Done (ok, resp) | Raise e \<Rightarrow> Raise e | Diverged \<Rightarrow> Diverged,
                q\<lparr>q_stats := resp_stats resp, q_conns := (q_conns q)[i := resp_conn resp]\<rparr>))"
      by (rule keeps_sub) (auto split: prod.splits)
    show ?thesis
      unfolding MsgDone process_message_def multi_msg.case
      by (intro keeps_bindm resp) (auto intro!: keeps_intro pub rest)
  qed (simp add: process_message_def keeps_ret)
  have msgs: "keeps ?I (process_messages env pe te cfg qv ms version)" for ms version
    by (induction ms arbitrary: version) (auto intro!: keeps_intro msg)
  have round: "keeps ?I (query_round ce env pe te cfg qv flags t0 k)" for k
    unfolding query_round_def by (intro keeps_intro prep perf tr msgs)
  have upd: "keeps ?I (modify (\<lambda>q. q\<lparr>q_pending := g q\<rparr>))"
    "keeps ?I (modify (\<lambda>q. q\<lparr>q_conns := h q\<rparr>))" "keeps ?I (modify (\<lambda>q. q\<lparr>q_times := d q\<rparr>))" for g h d
    by (intro keeps_modify, simp)+
  have sleep: "keeps ?I (Sleep s)" for s by (rule keeps_sub) (auto simp: Sleep_run)
  have loop: "keeps ?I (query_loop ce env pe te cfg qv flags t0 k n s)" for k n s
  proof (induction "nat n" arbitrary: k n s)
    case 0
    then show ?case by (subst query_loop.simps) (auto intro!: keeps_intro round rest)
  next
    case (Suc d)
    then have "keeps ?I (query_loop ce env pe te cfg qv flags t0 (k + 1) (n - 1) (next_sleep cfg s))" by simp
    then show ?case by (subst query_loop.simps) (auto intro!: keeps_intro round rest sleep)
  qed
  show ?thesis unfolding httpPsychQuery_def by (intro keeps_intro upd loop)
qed

text \<open>Publishing through streams of the directory are steps of the connection logic.\<close>

definition linked :: "rfa_env \<Rightarrow> config \<Rightarrow> (string \<times> nat) list \<times> (nat \<Rightarrow> string option) \<Rightarrow> provider \<Rightarrow> bool" where
  "linked env cfg sh p \<longleftrightarrow> link_reach env cfg p \<and> shape p = sh"

lemma keeps_linked_Send:
  assumes "(ric, a) \<in> set (fst sh)" "snd sh a \<noteq> None"
  shows "keeps (linked env cfg sh) (provider_Send env a msg)"
  unfolding keeps_def
proof (intro allI impI)
  fix p
  assume p: "linked env cfg sh p"
  then have "(ric, a) \<in> set (directory p)" "streams p a \<noteq> None"
    using assms by (auto simp: linked_def shape_def stream_names_def)
  then have "link_reach env cfg (snd (provider_Send env a msg p))"
    using p link_reach.step[OF _ link_step.send] by (auto simp: linked_def)
  then show "linked env cfg sh (snd (provider_Send env a msg p))"
    using p shape_step[OF steady_provider_Send] by (simp add: linked_def)
qed

lemma keeps_linked_SendRefresh:
  assumes "\<And>name topic a. map_of names name = Some (topic, a) \<Longrightarrow> (\<exists>ric. (ric, a) \<in> set (fst sh)) \<and> snd sh a \<noteq> None"
  shows "keeps (linked env cfg sh) (SendRefresh env pe cfg' r names version close cols rs)"
proof -
  have "keeps (linked env cfg sh) (send_rows env pe cfg' r names version t cols v perm rs)" for t v perm
  proof (induction rs arbitrary: perm)
    case (Cons row rs)
    obtain name vs where row: "row = (name, vs)" by (cases row)
    show ?case
    proof (cases "map_of names name")
      case (Some x)
      obtain topic a where x: "x = (topic, a)" by (cases x)
      then obtain ric where "(ric, a) \<in> set (fst sh)" "snd sh a \<noteq> None" using assms[of name topic a] Some by auto
      note S = keeps_linked_Send[OF this]
      show ?thesis
        using Some by (auto simp: row x Let_def split: outcome.split intro!: keeps_intro S Cons)
    qed (simp add: row Cons)
  qed (simp add: keeps_ret)
  then show ?thesis unfolding SendRefresh_def by (intro keeps_intro)
qed

section \<open>The reachable states\<close>

text \<open>
  Start-up on a fresh object, then RFA events for the registered sessions and calls of the timer, in
  any order and with any answers of libcurl.
\<close>

inductive adapter_reach :: "rfa_env \<Rightarrow> config \<Rightarrow> psych \<Rightarrow> bool" for env :: rfa_env and cfg :: config where
  start: "psych_Init se env (fresh_psych n ready cfg) = (Done True, s) \<Longrightarrow> adapter_reach env cfg s"
| event: "adapter_reach env cfg s \<Longrightarrow> psych_provider s = Some p \<Longrightarrow> i < length (sessions p) \<Longrightarrow>
    item_handle (sessions p ! i) \<or> error_item_handle (sessions p ! i) \<Longrightarrow>
    adapter_reach env cfg (s\<lparr>psych_provider := Some (snd (processEvent env i ev p))\<rparr>)"
| timer_event: "adapter_reach env cfg s \<Longrightarrow> adapter_reach env cfg (snd (OnTimer ce env pe te locked t0 s))"

text \<open>What every one of them satisfies: the maps are those of start-up.\<close>

definition item_stream_of :: "psych \<Rightarrow> string \<Rightarrow> string \<Rightarrow> (string \<times> nat) option" where
  "item_stream_of s path name = Option.bind (map_of (query_vector s) path) (\<lambda>nm. map_of nm name)"

definition reach_inv :: "rfa_env \<Rightarrow> config \<Rightarrow> psych \<Rightarrow> bool" where
  "reach_inv env cfg s \<longleftrightarrow> adapter_inv env s \<and> psych_config s = cfg \<and>
     (\<forall>path name. item_stream_of s path name =
        Option.bind (at_path path (resources cfg)) (\<lambda>r. names_for (stream_vector s) (res_items r) name)) \<and>
     (\<forall>r \<in> set (resources cfg). covered (stream_vector s) (res_items r))"

lemma reach_inv_provider:
  assumes "reach_inv env cfg s" "psych_provider s = Some p" "link_reach env cfg q" "shape q = shape p"
    and "body t = body (s\<lparr>psych_provider := Some q, connections := cs\<rparr>)"
  shows "reach_inv env cfg t"
proof -
  have t: "stream_vector t = stream_vector s" "psych_provider t = Some q" "query_vector t = query_vector s"
    "psych_config t = psych_config s" "next_address t = next_address s"
    using assms(5) by (simp_all add: body_def)
  have q: "directory q = directory p" "stream_names q = stream_names p" using assms(4) by (simp_all add: shape_def)
  show ?thesis
    using assms(1,2,3) unfolding reach_inv_def adapter_inv_def item_stream_of_def t by (simp add: q)
qed

lemma run_query_step:
  assumes "reach_inv env cfg s"
  shows "reach_inv env cfg (snd (run_query ce env pe te flags t0 s))"
proof -
  obtain p where p: "psych_provider s = Some p" "link_reach env cfg p"
    "\<And>ric a. (ric, a) \<in> set (directory p) \<longleftrightarrow> map_of (stream_vector s) ric = Some a"
    "\<And>ric a. (ric, a) \<in> set (directory p) \<Longrightarrow> stream_names p a = Some ric"
    using assms by (auto simp: reach_inv_def adapter_inv_def)
  have names: "(\<exists>ric. (ric, a) \<in> set (fst (shape p))) \<and> snd (shape p) a \<noteq> None"
    if "map_of (names_of (query_vector s) r) name = Some (topic, a)" for r name topic a
  proof -
    have "item_stream_of s (res_path r) name = Some (topic, a)"
      using that by (auto simp: names_of_def item_stream_of_def the_default_def split: option.splits)
    moreover have "item_stream_of s (res_path r) name = Option.bind (at_path (res_path r) (resources cfg))
        (\<lambda>r. names_for (stream_vector s) (res_items r) name)"
      using assms by (simp add: reach_inv_def)
    ultimately obtain r' :: resource where "names_for (stream_vector s) (res_items r') name = Some (topic, a)"
      by (auto simp: bind_eq_Some_conv)
    then obtain ric where "map_of (stream_vector s) ric = Some a"
      by (auto simp: names_for_def split: option.splits)
    then show ?thesis using p(3,4) by (auto simp: shape_def)
  qed
  let ?q0 = "\<lparr>q_conns = map snd (connections s), q_pending = [], q_stats = psych_counters s,
      q_provider = p, q_performs = 0, q_options = [], q_slept = [], q_times = refresh_time s\<rparr>"
  obtain r q where q: "httpPsychQuery ce env pe te (psych_config s) (query_vector s) flags t0 ?q0 = (r, q)" by force
  have "keeps (\<lambda>q. linked env cfg (shape p) (q_provider q))
      (httpPsychQuery ce env pe te (psych_config s) (query_vector s) flags t0)"
    by (intro keeps_query_provider keeps_linked_SendRefresh names)
  from keepsD[OF this, of ?q0] have "link_reach env cfg (q_provider q)" "shape (q_provider q) = shape p"
    using p(2) q by (simp_all add: linked_def)
  then show ?thesis
    by (rule reach_inv_provider[OF assms p(1)]) (simp add: run_query_def p(1) q body_def)
qed

lemma OnTimer_step:
  assumes "reach_inv env cfg s"
  shows "reach_inv env cfg (snd (OnTimer ce env pe te locked t0 s))"
proof -
  have "keeps (reach_inv env cfg) (run_query ce env pe te flags t0)" for flags
    using run_query_step by (auto simp: keeps_def)
  moreover have "keeps (reach_inv env cfg) (modify (\<lambda>s. s\<lparr>psych_counters := count c (psych_counters s)\<rparr>))" for c
    by (intro keeps_modify) (auto simp: reach_inv_def adapter_inv_def item_stream_of_def)
  ultimately have "keeps (reach_inv env cfg) (OnTimer ce env pe te locked t0)"
    unfolding OnTimer_def by (intro keeps_intro)
  then show ?thesis using assms by (rule keepsD)
qed

lemma adapter_reach_inv: "adapter_reach env cfg s \<Longrightarrow> reach_inv env cfg s"
proof (induction rule: adapter_reach.induct)
  case (start se n ready s)
  have "item_stream_of s path name = Option.bind (at_path path (resources cfg)) (\<lambda>r. names_for (stream_vector s) (res_items r) name)" for path name
    using psych_Init_Done[OF start, of path]
    by (cases "map_of (query_vector s) path"; cases "at_path path (resources cfg)") (auto simp: item_stream_of_def)
  then show ?case using psych_Init_Done[OF start] by (simp add: reach_inv_def)
next
  case (event s p i ev)
  have "link_reach env cfg p" using event.IH event.hyps(2) by (auto simp: reach_inv_def adapter_inv_def)
  then have "link_reach env cfg (snd (processEvent env i ev p))"
    using event.hyps by (blast intro: link_reach.step link_step.event)
  then show ?case
    by (rule reach_inv_provider[OF event.IH event.hyps(2) _ shape_step[OF steady_processEvent]]) (simp add: body_def)
next
  case (timer_event s ce pe te locked t0)
  then show ?case by (intro OnTimer_step)
qed

definition demo_adapter_config :: config where
  "demo_adapter_config = config_init\<lparr>service_name := ''NI_VTA'', monitor_name := ''Monitor'', event_queue_name := ''Queue'',
     vendor_name := ''Vendor'',
     cfg_sessions := [\<lparr>session_name = ''Session'', connection_name = ''Connection'', publisher_name = ''Publisher'',
       rssl_servers = [''adh''], rssl_default_port = [], application_id = ''256'', cfg_instance_id = ''1'',
       user_name = ''user1'', cfg_position = []\<rparr>],
     resources := [demo_resource [(''Buzz'', 7)]], maximum_data_size := ''1000'', maximum_response_size := ''1000'',
     time_offset_constant := ''00:00:16.000'', cfg_interval := ''60''\<rparr>"

definition demo_adapter :: "bool outcome \<times> psych" where
  "demo_adapter = psych_Init (demo_start_env 1000) demo_env (fresh_psych 0 False demo_adapter_config)"

lemma demo_interval:
  "GetNextInterval (demo_start_env 1000) demo_adapter_config = Done 1036000000"
  "stoul (cfg_interval demo_adapter_config) = Done 60" "atol (maximum_data_size demo_adapter_config) = 1000"
proof -
  have "stoi ''60'' = Done 60" "stoul ''60'' = Done 60" "atol ''1000'' = 1000" by code_simp+
  then show "GetNextInterval (demo_start_env 1000) demo_adapter_config = Done 1036000000"
    "stoul (cfg_interval demo_adapter_config) = Done 60" "atol (maximum_data_size demo_adapter_config) = 1000"
    by (simp_all add: GetNextInterval_def demo_adapter_config_def demo_start_env_def demo_config_def config_init_def
        yesterday_run total_seconds_def signed_divide_int_def)
qed

lemma muted_create:
  assumes "\<forall>s \<in> set (sessions p). is_muted s"
  shows "\<exists>q. provider_CreateItemStream env name a p = (Done True, q)"
proof -
  let ?I = "\<lambda>p q. length (sessions q) = length (sessions p) \<and> (\<forall>s \<in> set (sessions q). is_muted s)"
  let ?f = "\<lambda>i. bindm (session_CreateItemStream env i a) (\<lambda>_. ret ())"
  have step: "\<exists>r. ?f i q = (Done (), r) \<and> ?I p r" if "?I p q" "i < length (sessions p)" for i q
    using that by (auto simp: session_CreateItemStream_def bindm_def method_simps)
  have loop: "\<exists>r. for_each [0..<length (sessions p)] ?f q = (Done (), r) \<and> ?I p r" if "?I p q" for q
    by (rule for_each_Done[of _ "?I p" ?f]) (use step that in auto)
  define p1 where "p1 = p\<lparr>streams := (streams p)(a := map_option
      (\<lambda>st. st\<lparr>stream_name := name, stream_tokens := resize (length (sessions p)) None (stream_tokens st)\<rparr>)
      (streams p a))\<rparr>"
  obtain r where r: "for_each [0..<length (sessions p)] ?f p1 = (Done (), r)"
    using loop[of p1] assms by (auto simp: p1_def)
  have touch: "touch_provider env q = (Done (), snd (touch_provider env q))" for q
    by (simp add: rfa_run cong: bindm_weak)
  show ?thesis
    by (simp add: provider_CreateItemStream_def method_simps p1_def[symmetric] seq_Done_run[of "for_each [0..<length (sessions p)] ?f", OF r]
        seq_Done_run[of "touch_provider env", OF touch])
qed

lemma demo_provider:
  assumes "psych_config s = demo_adapter_config"
  shows "\<exists>p t. init_provider (demo_start_env 1000) demo_env s = (Done True, t) \<and> psych_provider t = Some p \<and>
    (\<forall>s \<in> set (sessions p). is_muted s)"
proof -
  let ?p0 = "provider_init demo_adapter_config"
  obtain p1 where p1: "provider_t demo_env ?p0 = (Done (), p1)" "provider_Init demo_env True p1 = (Done True, snd (provider_Init demo_env True p1))"
    "map is_muted (sessions (snd (provider_Init demo_env True p1))) = [True]"
    by (simp add: rfa_run demo_defs demo_adapter_config_def cong: bindm_weak)
  show ?thesis
    using p1 assms by (auto simp: init_provider_def run_simps_all on_provider_def bindm_def demo_start_env_def Cons_eq_map_conv map_eq_Cons_conv split: prod.splits)
qed

lemma demo_resources:
  assumes "psych_provider s = Some p" "\<forall>s \<in> set (sessions p). is_muted s" "stream_vector s = []"
  shows "\<exists>t. create_resources demo_env [demo_resource fs] s = (Done True, t)"
proof -
  let ?a = "next_address s"
  have m: "make_stream ?a p = (Done (), snd (make_stream ?a p))" "\<forall>s \<in> set (sessions (snd (make_stream ?a p))). is_muted s"
    using assms(2) by (simp_all add: make_stream_def method_simps)
  obtain q where q: "provider_CreateItemStream demo_env ''MI'' ?a (snd (make_stream ?a p)) = (Done True, q)"
    using muted_create[OF m(2)] by blast
  have "\<exists>t. create_stream demo_env ''MI'' (s\<lparr>connections := c\<rparr>) = (Done (Some ?a), t)" for c
    using create_stream_new[of "s\<lparr>connections := c\<rparr>" "''MI''" p "snd (make_stream ?a p)" demo_env "Done True" q] assms(1,3) m(1) q by auto
  from this[of "emplace ''/eq'' (connection_t (demo_resource fs) (base_url (psych_config s) @ ''/eq'')) (connections s)"]
  show ?thesis by (auto simp: demo_resource_def bindm_def seq_def method_simps)
qed

lemma demo_adapter_run: "fst demo_adapter = Done True"
proof -
  let ?se = "demo_start_env 1000" and ?s = "fresh_psych 0 False demo_adapter_config"
  obtain s1 where s1: "init_curl ?se ?s = (Done True, s1)"
    by (simp add: init_curl_def require_def run_simps_all fresh_psych_def psych_t_def demo_start_env_def)
  have b1: "body s1 = body ?s" by (rule keeps_run[OF keeps_body(1) s1]) simp
  have c1: "psych_config s1 = demo_adapter_config" using b1 by (simp add: body_def fresh_psych_def)
  have "fst (init_context ?se s1) = Done True"
    by (simp add: init_context_def c1 rfa_Init_def db_call_def demo_start_env_def demo_db_env_def demo_adapter_config_def
        demo_config_def config_init_def bindm_def seq_def method_simps split: prod.split)
  then obtain u1 where u1: "init_context ?se s1 = (Done True, u1)" by (metis prod.collapse)
  obtain u2 where u2: "init_event_queue ?se u1 = (Done True, u2)"
    by (simp add: init_event_queue_def bindm_def seq_def method_simps demo_start_env_def)
  obtain u3 where u3: "init_log ?se u2 = (Done True, u3)"
    by (simp add: init_log_def seq_def bindm_def method_simps demo_start_env_def)
  have "body u3 = body s1"
    using keeps_run[OF keeps_body(2) u1] keeps_run[OF keeps_body(3) u2] keeps_run[OF keeps_body(4) u3] by metis
  then have b3: "psych_config u3 = demo_adapter_config" "stream_vector u3 = []" "connections u3 = []" "query_vector u3 = []"
    using b1 by (simp_all add: body_def fresh_psych_def psych_t_def)
  obtain p u4 where u4: "init_provider ?se demo_env u3 = (Done True, u4)" "psych_provider u4 = Some p"
    "\<forall>s \<in> set (sessions p). is_muted s" using demo_provider[OF b3(1)] by blast
  have b4: "psych_config u4 = demo_adapter_config" using init_provider_inv[OF u4(1) b3(2)] b3 by simp
  have sv: "stream_vector u4 = []"
    using u4(1) b3(2) by (auto simp: init_provider_def on_provider_def seq_def bindm_def method_simps split: prod.splits outcome.splits)
  obtain u5 where u5: "create_resources demo_env [demo_resource [(''Buzz'', 7)]] u4 = (Done True, u5)"
    using demo_resources[OF u4(2,3) sv] by blast
  have c5: "psych_config u5 = demo_adapter_config"
    using create_resources_Done[OF u5] init_provider_inv[OF u4(1) b3(2)] b3 by simp
  obtain s2 where s2: "init_iterator ?se u5 = (Done True, s2)"
    by (simp add: init_iterator_def demo_start_env_def run_simps_all)
  have c2: "psych_config s2 = demo_adapter_config"
    using keeps_run[OF keeps_body(5) s2] c5 by (simp add: body_def)
  have rs: "resources (psych_config u4) = [demo_resource [(''Buzz'', 7)]]" by (simp add: b4 demo_adapter_config_def)
  have rfa: "init_rfa ?se demo_env s1 = (Done True, s2)"
    using u1 u2 u3 u4(1) u5 s2 rs
    by (simp add: init_rfa_def try_catch_def require_def bindm_def method_simps)
  obtain s3 where s3: "init_snmp ?se s2 = (Done True, s3)" "psych_config s3 = demo_adapter_config"
    by (simp add: init_snmp_def run_simps_all c2) (simp add: demo_adapter_config_def demo_config_def config_init_def run_simps_all c2)
  obtain s4 where s4: "init_timer ?se s3 = (Done True, s4)"
    by (simp add: init_timer_def try_catch_def bindm_def seq_def method_simps s3(2) demo_interval)
  show ?thesis
    using s1 rfa s3(1) s4 by (simp add: demo_adapter_def psych_Init_def require_def bindm_def method_simps)
qed

lemma demo_adapter_reach: "adapter_reach demo_env demo_adapter_config (snd demo_adapter)"
  using demo_adapter_run unfolding demo_adapter_def
  by (intro adapter_reach.start[of "demo_start_env 1000" demo_env 0 False]) (simp add: prod_eq_iff)

section \<open>The adapter's properties\<close>

text \<open>
  C1. Every item of the configuration has its stream: in every reachable state, the row name of an
  item leads to the item's topic and to a live stream that is named after the item's RIC and
  registered under it in the provider's directory. Of several resources with one path, the first
  one counts.
\<close>

theorem item_has_stream:
  assumes "adapter_reach env cfg s" "at_path path (resources cfg) = Some r" "map_of (res_items r) name = Some (ric, topic)"
  shows "\<exists>p a st. psych_provider s = Some p \<and> item_stream_of s path name = Some (topic, a) \<and>
    (ric, a) \<in> set (directory p) \<and> streams p a = Some st \<and> stream_name st = ric"
proof -
  note I = adapter_reach_inv[OF assms(1)]
  have "r \<in> set (resources cfg)" using assms(2) by (auto simp: at_path_def find_Some_iff)
  then have "covered (stream_vector s) (res_items r)" using I by (simp add: reach_inv_def)
  then obtain a where a: "map_of (stream_vector s) ric = Some a"
    using assms(3) by (fastforce simp: covered_def dest!: map_of_SomeD)
  have n: "item_stream_of s path name = Some (topic, a)"
    using I assms(2,3) a by (simp add: reach_inv_def names_for_def)
  obtain p where "psych_provider s = Some p" "(ric, a) \<in> set (directory p)" "stream_names p a = Some ric"
    using I a by (auto simp: reach_inv_def adapter_inv_def)
  then show ?thesis using n by (auto simp: stream_names_def)
qed

theorem item_has_stream_witness:
  "\<exists>p a st. psych_provider (snd demo_adapter) = Some p \<and> item_stream_of (snd demo_adapter) ''/eq'' ''1679'' = Some (''topic'', a) \<and>
    (''MI'', a) \<in> set (directory p) \<and> streams p a = Some st \<and> stream_name st = ''MI''"
  by (rule item_has_stream[OF demo_adapter_reach, where r = "demo_resource [(''Buzz'', 7)]"])
    (simp_all add: demo_adapter_config_def at_path_def demo_resource_def)

theorem curl_count_underflows_witness:
  "\<exists>s'. curl_ref_count s' = - 1 \<and> seq psych_Destroy psych_destructor (snd demo_adapter) = (Done (), s')"
proof -
  have i: "psych_Init (demo_start_env 1000) demo_env ((psych_t 0 False)\<lparr>psych_config := demo_adapter_config\<rparr>) = (Done True, snd demo_adapter)"
    using demo_adapter_run by (simp add: demo_adapter_def fresh_psych_def prod_eq_iff)
  let ?t = "snd (psych_Clear (snd (psych_Clear (snd demo_adapter))))"
  have s': "seq psych_Destroy psych_destructor (snd demo_adapter) = (Done (), ?t)"
    unfolding psych_Destroy_def psych_destructor_def by (rule trans[OF seq_Done_run[OF psych_Clear_run(1)] psych_Clear_run(1)])
  from curl_count_underflows[OF i s'] s' show ?thesis by blast
qed

end
