(* ===== verification/Json.thy ===== *)
theory Json
  imports Values Effects
begin

text \<open>
  The JSON reader of \<open>src/src/chromium/json/json_reader.cc\<close>, which turns the configuration file into
  a value tree. A pointer into the text is the text from there to the end, so that \<open>deref p\<close> is
  \<open>*p\<close> (the terminating NUL of the string at the end), \<open>drop n p\<close> is \<open>p + n\<close> and \<open>p = []\<close> is
  \<open>p == end_pos_\<close>. That no pointer leaves the text is part of what is proved: a token is never
  longer than what is left. Lengths, lines and columns, which are \<open>int\<close> in the code, are unbounded
  here: the text is shorter than \<open>2 ^ 31\<close>.
\<close>

section \<open>Tokens\<close>

datatype token_type =
    OBJECT_BEGIN | OBJECT_END | ARRAY_BEGIN | ARRAY_END | STRING | NUMBER | BOOL_TRUE | BOOL_FALSE
  | NULL_TOKEN | LIST_SEPARATOR | OBJECT_PAIR_SEPARATOR | END_OF_INPUT | INVALID_TOKEN

record json_token =
  tok_type :: token_type
  tok_begin :: string
  tok_length :: nat

definition json_token :: "token_type \<Rightarrow> string \<Rightarrow> nat \<Rightarrow> json_token" where
  "json_token t b len = \<lparr>tok_type = t, tok_begin = b, tok_length = len\<rparr>"

definition CreateInvalidToken :: json_token where
  "CreateInvalidToken = json_token INVALID_TOKEN [] 0"

fun deref :: "string \<Rightarrow> char" where
  "deref [] = CHR 0x00"
| "deref (c # cs) = c"

definition NextChar :: "json_token \<Rightarrow> char" where
  "NextChar token = deref (drop (tok_length token) (tok_begin token))"

datatype json_error =
    JSON_NO_ERROR | JSON_BAD_ROOT_ELEMENT_TYPE | JSON_INVALID_ESCAPE | JSON_SYNTAX_ERROR
  | JSON_TRAILING_COMMA | JSON_TOO_MUCH_NESTING | JSON_UNEXPECTED_DATA_AFTER_ROOT
  | JSON_UNSUPPORTED_ENCODING | JSON_UNQUOTED_DICTIONARY_KEY

record json_reader =
  start_pos :: string
  json_pos :: string
  stack_depth :: int
  allow_trailing_comma :: bool
  error_code :: json_error
  error_line :: int
  error_col :: int

type_synonym 'a parser = "(json_reader, 'a) method"

definition kStackLimit :: int where "kStackLimit = 100"

text \<open>A new reader; its pointers are null until a text is read.\<close>

definition JSONReader :: json_reader where
  "JSONReader = \<lparr>start_pos = [], json_pos = [], stack_depth = 0, allow_trailing_comma = False,
     error_code = JSON_NO_ERROR, error_line = 0, error_col = 0\<rparr>"

section \<open>White space and comments\<close>

fun skip_line :: "string \<Rightarrow> string" where
  "skip_line [] = []"
| "skip_line (c # cs) = (if c = CHR 0x0A \<or> c = CHR 0x0D then cs else skip_line cs)"

fun skip_block :: "string \<Rightarrow> string" where
  "skip_block [] = []"
| "skip_block (c # cs) = (if c = CHR ''*'' \<and> deref cs = CHR ''/'' then drop 1 cs else skip_block cs)"

text \<open>A comment that is not closed ends with the text.\<close>

definition EatComment :: "string \<Rightarrow> bool \<times> string" where
  "EatComment p =
     (if deref p \<noteq> CHR ''/'' then (False, p)
      else if deref (drop 1 p) = CHR ''/'' then (True, skip_line (drop 2 p))
      else if deref (drop 1 p) = CHR ''*'' then (True, skip_block (drop 2 p))
      else (False, p))"

lemma length_skip: "length (skip_line p) \<le> length p" "length (skip_block p) \<le> length p"
  by (induction p) auto

lemma EatComment_decreases:
  assumes "EatComment p = (True, q)"
  shows "length q < length p"
proof -
  have "p \<noteq> []" using assms by (auto simp: EatComment_def)
  then have "length (drop 2 p) < length p" by (cases p) auto
  then show ?thesis
    using assms length_skip[of "drop 2 p"] by (auto simp: EatComment_def split: if_splits)
qed

function eat_whitespace :: "string \<Rightarrow> string" where
  "eat_whitespace [] = []"
| "eat_whitespace (c # cs) =
     (if c \<in> {CHR '' '', CHR 0x0A, CHR 0x0D, CHR 0x09} then eat_whitespace cs
      else if c = CHR ''/'' then
        (case EatComment (c # cs) of
           (True, q) \<Rightarrow> eat_whitespace q
         | (False, q) \<Rightarrow> c # cs)
      else c # cs)"
  by pat_completeness auto
termination
  by (relation "measure length") (auto dest!: EatComment_decreases[OF sym])

definition EatWhitespaceAndComments :: "unit parser" where
  "EatWhitespaceAndComments = modify (\<lambda>r. r\<lparr>json_pos := eat_whitespace (json_pos r)\<rparr>)"

section \<open>Errors\<close>

text \<open>The line and column of a position: what has been read counts.\<close>

fun line_column :: "string \<Rightarrow> int \<times> int \<Rightarrow> int \<times> int" where
  "line_column [] lc = lc"
| "line_column (c # cs) (line_number, column_number) =
     line_column cs
       (if c = CHR 0x0A then (line_number + 1, 1) else (line_number, column_number + 1))"

definition SetErrorCode :: "json_error \<Rightarrow> string \<Rightarrow> unit parser" where
  "SetErrorCode error error_pos =
     modify (\<lambda>r. let (l, c) = line_column (take (length (start_pos r) - length error_pos) (start_pos r)) (1, 1)
                 in r\<lparr>error_line := l, error_col := c, error_code := error\<rparr>)"

fun ErrorCodeToString :: "json_error \<Rightarrow> string" where
  "ErrorCodeToString JSON_NO_ERROR = []"
| "ErrorCodeToString JSON_BAD_ROOT_ELEMENT_TYPE = ''Root value must be an array or object.''"
| "ErrorCodeToString JSON_INVALID_ESCAPE = ''Invalid escape sequence.''"
| "ErrorCodeToString JSON_SYNTAX_ERROR = ''Syntax error.''"
| "ErrorCodeToString JSON_TRAILING_COMMA = ''Trailing comma not allowed.''"
| "ErrorCodeToString JSON_TOO_MUCH_NESTING = ''Too much nesting.''"
| "ErrorCodeToString JSON_UNEXPECTED_DATA_AFTER_ROOT = ''Unexpected data after root element.''"
| "ErrorCodeToString JSON_UNSUPPORTED_ENCODING = ''Unsupported encoding. JSON must be UTF-8.''"
| "ErrorCodeToString JSON_UNQUOTED_DICTIONARY_KEY = ''Dictionary keys must be quoted.''"

text \<open>\<open>StringPrintf\<close> of two \<open>%i\<close> and a \<open>%s\<close>.\<close>

definition FormatErrorMessage :: "int \<Rightarrow> int \<Rightarrow> string \<Rightarrow> string" where
  "FormatErrorMessage line column description =
     (if line \<noteq> 0 \<or> column \<noteq> 0 then
        ''Line: '' @ IntToString line @ '', column: '' @ IntToString column @ '', '' @ description
      else description)"

definition GetErrorMessage :: "json_reader \<Rightarrow> string" where
  "GetErrorMessage r = FormatErrorMessage (error_line r) (error_col r) (ErrorCodeToString (error_code r))"

section \<open>Numbers\<close>

definition IsAsciiDigit :: "char \<Rightarrow> bool" where
  "IsAsciiDigit c \<longleftrightarrow> CHR ''0'' \<le> c \<and> c \<le> CHR ''9''"

definition IsHexDigit :: "char \<Rightarrow> bool" where
  "IsHexDigit c \<longleftrightarrow> (CHR ''0'' \<le> c \<and> c \<le> CHR ''9'') \<or> (CHR ''A'' \<le> c \<and> c \<le> CHR ''F'') \<or>
     (CHR ''a'' \<le> c \<and> c \<le> CHR ''f'')"

fun count_digits :: "string \<Rightarrow> nat" where
  "count_digits [] = 0"
| "count_digits (c # cs) = (if c \<noteq> CHR 0x00 \<and> IsAsciiDigit c then Suc (count_digits cs) else 0)"

definition ReadInt :: "json_token \<Rightarrow> bool \<Rightarrow> bool \<times> json_token" where
  "ReadInt token can_have_leading_zeros =
     (let first = NextChar token;
          len = count_digits (drop (tok_length token) (tok_begin token));
          token' = token\<lparr>tok_length := tok_length token + len\<rparr>
      in if len = 0 then (False, token')
         else if \<not> can_have_leading_zeros \<and> len > 1 \<and> CHR ''0'' = first then (False, token')
         else (True, token'))"

definition longer :: "json_token \<Rightarrow> json_token" where
  "longer token = token\<lparr>tok_length := tok_length token + 1\<rparr>"

definition read_exponent :: "json_token \<Rightarrow> json_token" where
  "read_exponent token =
     (if NextChar token = CHR ''e'' \<or> NextChar token = CHR ''E'' then
        let token = longer token;
            token = (if NextChar token = CHR ''-'' \<or> NextChar token = CHR ''+'' then longer token else token)
        in case ReadInt token True of (True, t) \<Rightarrow> t | (False, t) \<Rightarrow> CreateInvalidToken
      else token)"

definition ParseNumberToken :: "string \<Rightarrow> json_token" where
  "ParseNumberToken p =
     (let token = json_token NUMBER p 0;
          token = (if CHR ''-'' = deref p then longer token else token)
      in case ReadInt token False of
           (False, t) \<Rightarrow> CreateInvalidToken
         | (True, token) \<Rightarrow>
             if NextChar token = CHR ''.'' then
               (case ReadInt (longer token) True of
                  (False, t) \<Rightarrow> CreateInvalidToken
                | (True, token) \<Rightarrow> read_exponent token)
             else read_exponent token)"

definition DecodeNumber :: "(string \<Rightarrow> stod_result) \<Rightarrow> json_token \<Rightarrow> Value option outcome" where
  "DecodeNumber stod token =
     (let num_string = take (tok_length token) (tok_begin token)
      in case StringToInt num_string of
           (True, num_int) \<Rightarrow> Done (Some (IntegerValue num_int))
         | (False, _) \<Rightarrow>
             bind_outcome (StringToDouble stod num_string) (\<lambda>(ok, num_double).
               Done (if ok \<and> IsFinite num_double then Some (CreateDoubleValue num_double) else None)))"

section \<open>Strings\<close>

text \<open>\<open>read_hex digits p\<close>: the next digits are hexadecimal; \<open>p\<close> is one past the letter of the escape.\<close>

fun read_hex :: "nat \<Rightarrow> string \<Rightarrow> bool" where
  "read_hex 0 p = True"
| "read_hex (Suc digits) p =
     (if deref p = CHR 0x00 \<or> \<not> IsHexDigit (deref p) then False else read_hex digits (drop 1 p))"

text \<open>
  The loop of \<open>ParseStringToken\<close>: the length read so far, and what follows it. It ends with the
  length of the token, at the escape that is not valid, or at the end of the text.
\<close>

datatype string_scan = Closed nat | Bad_Escape nat | Unclosed

fun scan_string :: "nat \<Rightarrow> string \<Rightarrow> string_scan" where
  "scan_string len [] = Unclosed"
| "scan_string len (c # cs) =
     (if c = CHR 0x5C then
        let e = deref cs
        in if e = CHR ''x'' then
             (if \<not> read_hex 2 (drop 1 cs) then Bad_Escape (len + 1) else scan_string (len + 4) (drop 3 cs))
           else if e = CHR ''u'' then
             (if \<not> read_hex 4 (drop 1 cs) then Bad_Escape (len + 1) else scan_string (len + 6) (drop 5 cs))
           else if e \<in> {CHR 0x5C, CHR ''/'', CHR ''b'', CHR ''f'', CHR ''n'', CHR ''r'', CHR ''t'', CHR ''v'', CHR 0x22}
             then scan_string (len + 2) (drop 1 cs)
           else Bad_Escape (len + 1)
      else if c = CHR 0x22 then Closed (len + 1)
      else scan_string (len + 1) cs)"

definition ParseStringToken :: "json_token parser" where
  "ParseStringToken =
     bindm (gets json_pos) (\<lambda>p.
       case scan_string 1 (drop 1 p) of
         Closed len \<Rightarrow> ret (json_token STRING p len)
       | Bad_Escape len \<Rightarrow> seq (SetErrorCode JSON_INVALID_ESCAPE (drop len p)) (ret CreateInvalidToken)
       | Unclosed \<Rightarrow> ret CreateInvalidToken)"

text \<open>What a simple escape stands for.\<close>

definition unescape :: "char \<Rightarrow> char option" where
  "unescape c =
     (if c \<in> {CHR 0x22, CHR ''/'', CHR 0x5C} then Some c
      else if c = CHR ''b'' then Some (CHR 0x08)
      else if c = CHR ''f'' then Some (CHR 0x0C)
      else if c = CHR ''n'' then Some (CHR 0x0A)
      else if c = CHR ''r'' then Some (CHR 0x0D)
      else if c = CHR ''t'' then Some (CHR 0x09)
      else if c = CHR ''v'' then Some (CHR 0x0B)
      else None)"

text \<open>
  The loop of \<open>DecodeString\<close> at \<open>token.begin + i\<close>, with \<open>n = token.length - 1 - i\<close> rounds left. An
  escape that is not known is \<open>NOTREACHED\<close>, which does nothing in a release build, and null.
\<close>

function decode_loop :: "nat \<Rightarrow> string \<Rightarrow> string \<Rightarrow> string option" where
  "decode_loop n p decoded_str =
     (if n = 0 then Some decoded_str
      else if deref p = CHR 0x5C then
        let c = deref (drop 1 p)
        in if c = CHR ''x'' then
             (if n \<le> 2 then None
              else case HexStringToInt (take 2 (drop 2 p)) of
                     (False, _) \<Rightarrow> None
                   | (True, hex_digit) \<Rightarrow>
                       decode_loop (n - 4) (drop 4 p) (decoded_str @ [char_of (nat (hex_digit mod 256))]))
           else case unescape c of
                  None \<Rightarrow> None
                | Some d \<Rightarrow> decode_loop (n - 2) (drop 2 p) (decoded_str @ [d])
      else decode_loop (n - 1) (drop 1 p) (decoded_str @ [deref p]))"
  by pat_completeness auto
termination
  by (relation "measure fst") auto

declare decode_loop.simps [simp del]

definition DecodeString :: "json_token \<Rightarrow> Value option" where
  "DecodeString token =
     map_option StringValue (decode_loop (tok_length token - 2) (drop 1 (tok_begin token)) [])"

section \<open>The next token\<close>

definition NextStringMatch :: "string \<Rightarrow> string \<Rightarrow> bool" where
  "NextStringMatch p str \<longleftrightarrow> take (length str) p = str"

definition plain_token :: "string \<Rightarrow> json_token" where
  "plain_token p =
     (let c = deref p
      in if c = CHR 0x00 then json_token END_OF_INPUT [] 0
         else if c = CHR ''n'' then
           (if NextStringMatch p ''null'' then json_token NULL_TOKEN p 4 else CreateInvalidToken)
         else if c = CHR ''t'' then
           (if NextStringMatch p ''true'' then json_token BOOL_TRUE p 4 else CreateInvalidToken)
         else if c = CHR ''f'' then
           (if NextStringMatch p ''false'' then json_token BOOL_FALSE p 5 else CreateInvalidToken)
         else if c = CHR ''['' then json_token ARRAY_BEGIN p 1
         else if c = CHR '']'' then json_token ARRAY_END p 1
         else if c = CHR '','' then json_token LIST_SEPARATOR p 1
         else if c = CHR ''{'' then json_token OBJECT_BEGIN p 1
         else if c = CHR ''}'' then json_token OBJECT_END p 1
         else if c = CHR '':'' then json_token OBJECT_PAIR_SEPARATOR p 1
         else if IsAsciiDigit c \<or> c = CHR ''-'' then ParseNumberToken p
         else CreateInvalidToken)"

definition ParseToken :: "json_token parser" where
  "ParseToken =
     seq EatWhitespaceAndComments
    (bindm (gets json_pos) (\<lambda>p.
       if deref p = CHR 0x22 then ParseStringToken else ret (plain_token p)))"

section \<open>Values\<close>

text \<open>\<open>json_pos_ += token.length\<close>\<close>

definition advance :: "json_token \<Rightarrow> unit parser" where
  "advance token = modify (\<lambda>r. r\<lparr>json_pos := drop (tok_length token) (json_pos r)\<rparr>)"

definition fail_at :: "json_error \<Rightarrow> 'a option parser" where
  "fail_at error = bindm (gets json_pos) (\<lambda>p. seq (SetErrorCode error p) (ret None))"

definition decoded :: "json_token \<Rightarrow> Value option \<Rightarrow> (Value \<times> json_token) option parser" where
  "decoded token node = ret (map_option (\<lambda>v. (v, token)) node)"

text \<open>
  \<open>after_element\<close> is what follows an element of an array or an object: the end, or a comma and the next
  token, which may be the end if a trailing comma is allowed. The result says whether the loop
  goes on and the last token.
\<close>

definition after_element :: "token_type \<Rightarrow> (bool \<times> json_token) option parser" where
  "after_element closing =
     bindm ParseToken (\<lambda>token.
       if tok_type token = LIST_SEPARATOR then
         seq (advance token)
        (bindm ParseToken (\<lambda>token.
           if tok_type token = closing then
             bindm (gets allow_trailing_comma) (\<lambda>allowed.
               if \<not> allowed then fail_at JSON_TRAILING_COMMA else ret (Some (False, token)))
           else ret (Some (True, token))))
       else if tok_type token \<noteq> closing then ret None
       else ret (Some (False, token)))"

text \<open>The end of \<open>BuildValue\<close>: step over the last token and leave the level.\<close>

definition finish :: "(Value \<times> json_token) option \<Rightarrow> Value option parser" where
  "finish node = (case node of
      None \<Rightarrow> ret None
    | Some (v, token) \<Rightarrow>
        seq (advance token) (seq (modify (\<lambda>r. r\<lparr>stack_depth := stack_depth r - 1\<rparr>)) (ret (Some v))))"

text \<open>
  \<open>BuildValue\<close> and its two loops, which return the node and the token that ends it. A call that
  comes back with null leaves the depth raised, as in the code. \<open>fuel\<close> bounds the calls; twice
  the length of the text is enough.
\<close>

fun BuildValue :: "(string \<Rightarrow> stod_result) \<Rightarrow> nat \<Rightarrow> bool \<Rightarrow> Value option parser"
  and array_loop :: "(string \<Rightarrow> stod_result) \<Rightarrow> nat \<Rightarrow> Value list \<Rightarrow> json_token \<Rightarrow> (Value \<times> json_token) option parser"
  and object_loop :: "(string \<Rightarrow> stod_result) \<Rightarrow> nat \<Rightarrow> dictionary \<Rightarrow> json_token \<Rightarrow> (Value \<times> json_token) option parser" where
  "BuildValue stod 0 is_root = Pair Diverged"
| "BuildValue stod (Suc fuel) is_root =
     seq (modify (\<lambda>r. r\<lparr>stack_depth := stack_depth r + 1\<rparr>))
    (bindm (gets stack_depth) (\<lambda>depth.
     if depth > kStackLimit then fail_at JSON_TOO_MUCH_NESTING
     else bindm ParseToken (\<lambda>token.
       if is_root \<and> tok_type token \<noteq> OBJECT_BEGIN \<and> tok_type token \<noteq> ARRAY_BEGIN
       then fail_at JSON_BAD_ROOT_ELEMENT_TYPE
       else
         bindm
           (case tok_type token of
              NULL_TOKEN \<Rightarrow> decoded token (Some NullValue)
            | BOOL_TRUE \<Rightarrow> decoded token (Some (BooleanValue True))
            | BOOL_FALSE \<Rightarrow> decoded token (Some (BooleanValue False))
            | NUMBER \<Rightarrow> bindm (Pair (DecodeNumber stod token)) (decoded token)
            | STRING \<Rightarrow> decoded token (DecodeString token)
            | ARRAY_BEGIN \<Rightarrow> seq (advance token) (bindm ParseToken (array_loop stod fuel []))
            | OBJECT_BEGIN \<Rightarrow> seq (advance token) (bindm ParseToken (object_loop stod fuel []))
            | _ \<Rightarrow> ret None)
           finish)))"
| "array_loop stod 0 vs token = Pair Diverged"
| "array_loop stod (Suc fuel) vs token =
     (if tok_type token = ARRAY_END then ret (Some (ListValue vs, token))
      else bindm (BuildValue stod fuel False) (\<lambda>array_node. case array_node of
             None \<Rightarrow> ret None
           | Some v \<Rightarrow>
               bindm (after_element ARRAY_END) (\<lambda>next_token. case next_token of
                   None \<Rightarrow> ret None
                 | Some (False, token) \<Rightarrow> ret (Some (ListValue (list_Append vs v), token))
                 | Some (True, token) \<Rightarrow> array_loop stod fuel (list_Append vs v) token)))"
| "object_loop stod 0 d token = Pair Diverged"
| "object_loop stod (Suc fuel) d token =
     (if tok_type token = OBJECT_END then ret (Some (DictionaryValue d, token))
      else if tok_type token \<noteq> STRING then fail_at JSON_UNQUOTED_DICTIONARY_KEY
      else case DecodeString token of
             None \<Rightarrow> ret None
           | Some dict_key_value \<Rightarrow>
               let dict_key = the_default [] (GetAsString dict_key_value)
               in seq (advance token)
                 (bindm ParseToken (\<lambda>token.
                  if tok_type token \<noteq> OBJECT_PAIR_SEPARATOR then ret None
                  else seq (advance token)
                      (bindm ParseToken (\<lambda>_.
                       bindm (BuildValue stod fuel False) (\<lambda>dict_value. case dict_value of
                           None \<Rightarrow> ret None
                         | Some v \<Rightarrow>
                             bindm (after_element OBJECT_END) (\<lambda>next_token. case next_token of
                                 None \<Rightarrow> ret None
                               | Some (False, token) \<Rightarrow>
                                   ret (Some (DictionaryValue (SetWithoutPathExpansion dict_key v d), token))
                               | Some (True, token) \<Rightarrow>
                                   object_loop stod fuel (SetWithoutPathExpansion dict_key v d) token)))))))"

section \<open>Texts\<close>

text \<open>A UTF-8 byte order mark is skipped.\<close>

definition skip_bom :: "string \<Rightarrow> string" where
  "skip_bom json = (if take 3 json = [CHR 0xEF, CHR 0xBB, CHR 0xBF] then drop 3 json else json)"

definition JsonToValue :: "(string \<Rightarrow> stod_result) \<Rightarrow> string \<Rightarrow> bool \<Rightarrow> bool \<Rightarrow> Value option parser" where
  "JsonToValue stod json check_root allow =
     seq (modify (\<lambda>r. r\<lparr>start_pos := skip_bom json, json_pos := skip_bom json, allow_trailing_comma := allow,
            stack_depth := 0, error_code := JSON_NO_ERROR\<rparr>))
    (bindm (BuildValue stod (2 * length json + 2) check_root) (\<lambda>root.
     bindm
       (case root of
          None \<Rightarrow> ret None
        | Some v \<Rightarrow>
            bindm ParseToken (\<lambda>token.
              if tok_type token = END_OF_INPUT then ret (Some v)
              else fail_at JSON_UNEXPECTED_DATA_AFTER_ROOT))
       (\<lambda>result. case result of
          Some v \<Rightarrow> ret (Some v)
        | None \<Rightarrow>
            bindm (gets error_code) (\<lambda>code.
              if code = JSON_NO_ERROR then fail_at JSON_SYNTAX_ERROR else ret None))))"

text \<open>The result, or the error code and message that are written to the output arguments.\<close>

definition ReadAndReturnError :: "(string \<Rightarrow> stod_result) \<Rightarrow> string \<Rightarrow> bool \<Rightarrow> (json_error \<times> string + Value) outcome" where
  "ReadAndReturnError stod json allow =
     (case JsonToValue stod json True allow JSONReader of
        (Done (Some root), r) \<Rightarrow> Done (Inr root)
      | (Done None, r) \<Rightarrow> Done (Inl (error_code r, GetErrorMessage r))
      | (Raise e, r) \<Rightarrow> Raise e
      | (Diverged, r) \<Rightarrow> Diverged)"

definition Read :: "(string \<Rightarrow> stod_result) \<Rightarrow> string \<Rightarrow> bool \<Rightarrow> Value option outcome" where
  "Read stod json allow =
     bind_outcome (ReadAndReturnError stod json allow)
       (\<lambda>result. case result of Inl _ \<Rightarrow> Done None | Inr root \<Rightarrow> Done (Some root))"

section \<open>Tokens lie in the text\<close>

text \<open>The token at a position without the reader's state.\<close>

definition token_at :: "string \<Rightarrow> json_token" where
  "token_at p =
     (if deref p = CHR 0x22 then
        (case scan_string 1 (drop 1 p) of Closed len \<Rightarrow> json_token STRING p len | _ \<Rightarrow> CreateInvalidToken)
      else plain_token p)"

definition token_ok :: "string \<Rightarrow> json_token \<Rightarrow> bool" where
  "token_ok p token \<longleftrightarrow>
     (tok_type token = END_OF_INPUT \<longrightarrow> deref p = CHR 0x00) \<and>
     (tok_type token \<notin> {END_OF_INPUT, INVALID_TOKEN} \<longrightarrow>
        tok_begin token = p \<and> 0 < tok_length token \<and> tok_length token \<le> length p)"

lemma deref_nonempty: "deref p \<noteq> CHR 0x00 \<Longrightarrow> p \<noteq> []"
  by (cases p) auto

lemma deref_drop: "deref (drop n p) \<noteq> CHR 0x00 \<Longrightarrow> n < length p"
  by (rule ccontr) simp

lemma read_hex_fits: "read_hex n p \<Longrightarrow> n \<le> length p"
proof (induction n arbitrary: p)
  case (Suc n)
  then show ?case by (cases p) (auto split: if_splits)
qed simp

lemma scan_string_fits: "scan_string len p = Closed n \<Longrightarrow> len < n \<and> n \<le> len + length p"
proof (induction len p rule: scan_string.induct)
  case (2 len c cs)
  have d: "cs \<noteq> []" if "deref cs \<noteq> CHR 0x00" using that by (rule deref_nonempty)
  show ?case
    using 2 d read_hex_fits[of 2 "drop 1 cs"] read_hex_fits[of 4 "drop 1 cs"]
    by (cases cs) (auto simp: Let_def split: if_splits)
qed simp

lemma count_digits_fits: "count_digits p \<le> length p"
  by (induction p) auto

lemma ReadInt_True:
  assumes "ReadInt token lz = (True, t)" "tok_length token \<le> length (tok_begin token)"
  shows "tok_type t = tok_type token \<and> tok_begin t = tok_begin token \<and> tok_length token < tok_length t \<and>
    tok_length t \<le> length (tok_begin t)"
  using assms count_digits_fits[of "drop (tok_length token) (tok_begin token)"]
  by (auto simp: ReadInt_def Let_def split: if_splits)

lemma longer_fits:
  assumes "NextChar token = c" "c \<noteq> CHR 0x00"
  shows "tok_type (longer token) = tok_type token \<and> tok_begin (longer token) = tok_begin token \<and>
    tok_length (longer token) = tok_length token + 1 \<and> tok_length (longer token) \<le> length (tok_begin token)"
  using assms deref_drop[of "tok_length token" "tok_begin token"] by (auto simp: longer_def NextChar_def)

lemma read_exponent_fits:
  assumes "tok_length token \<le> length (tok_begin token)"
  shows "read_exponent token = CreateInvalidToken \<or>
    tok_type (read_exponent token) = tok_type token \<and> tok_begin (read_exponent token) = tok_begin token \<and>
    tok_length token \<le> tok_length (read_exponent token) \<and> tok_length (read_exponent token) \<le> length (tok_begin token)"
proof (cases "NextChar token = CHR ''e'' \<or> NextChar token = CHR ''E''")
  case True
  have l: "tok_type (longer token) = tok_type token" "tok_begin (longer token) = tok_begin token"
    "tok_length (longer token) = tok_length token + 1" "tok_length (longer token) \<le> length (tok_begin token)"
    using longer_fits[of token] True by auto
  define t where "t = (if NextChar (longer token) = CHR ''-'' \<or> NextChar (longer token) = CHR ''+'' then longer (longer token) else longer token)"
  have t: "tok_type t = tok_type token" "tok_begin t = tok_begin token" "tok_length token < tok_length t"
    "tok_length t \<le> length (tok_begin t)"
    using longer_fits[of "longer token"] l by (auto simp: t_def)
  have e: "read_exponent token = (case ReadInt t True of (True, t) \<Rightarrow> t | (False, t) \<Rightarrow> CreateInvalidToken)"
    by (simp only: read_exponent_def True if_True Let_def t_def)
  obtain ok u where u: "ReadInt t True = (ok, u)" by (cases "ReadInt t True")
  show ?thesis
    using ReadInt_True[OF _ t(4), of True u] t by (cases ok) (auto simp: e u)
qed (use assms in \<open>simp add: read_exponent_def\<close>)

lemma json_token_simps [simp]:
  "tok_type (json_token t b n) = t" "tok_begin (json_token t b n) = b" "tok_length (json_token t b n) = n"
  "tok_type CreateInvalidToken = INVALID_TOKEN"
  by (simp_all add: json_token_def CreateInvalidToken_def)

lemma ParseNumberToken_ok: "ParseNumberToken p = CreateInvalidToken \<or>
   tok_type (ParseNumberToken p) = NUMBER \<and> tok_begin (ParseNumberToken p) = p \<and>
   0 < tok_length (ParseNumberToken p) \<and> tok_length (ParseNumberToken p) \<le> length p"
proof -
  let ?a = "if CHR ''-'' = deref p then longer (json_token NUMBER p 0) else json_token NUMBER p 0"
  have a: "tok_type ?a = NUMBER" "tok_begin ?a = p" "tok_length ?a \<le> length p"
    using longer_fits[of "json_token NUMBER p 0" "CHR ''-''"] by (auto simp: NextChar_def)
  show ?thesis
  proof (cases "ReadInt ?a False")
    case (Pair ok b)
    show ?thesis
    proof (cases ok)
      case False
      then show ?thesis using Pair by (simp add: ParseNumberToken_def Let_def)
    next
      case True
      then have b: "tok_type b = NUMBER" "tok_begin b = p" "0 < tok_length b" "tok_length b \<le> length p"
        using ReadInt_True[of ?a False b] Pair a by auto
      show ?thesis
      proof (cases "NextChar b = CHR ''.''")
        case dot: True
        then have l: "tok_type (longer b) = NUMBER" "tok_begin (longer b) = p" "tok_length (longer b) \<le> length p"
          using longer_fits[OF dot] b by auto
        show ?thesis
        proof (cases "ReadInt (longer b) True")
          case c: (Pair ok' c)
          show ?thesis
            using Pair True dot c l ReadInt_True[of "longer b" True c] read_exponent_fits[of c]
            by (cases ok') (auto simp: ParseNumberToken_def Let_def)
        qed
      next
        case False
        then show ?thesis
          using Pair True b read_exponent_fits[of b] by (auto simp: ParseNumberToken_def Let_def)
      qed
    qed
  qed
qed

lemma NextStringMatch_fits: "NextStringMatch p str \<Longrightarrow> length str \<le> length p"
  unfolding NextStringMatch_def by (metis length_take min.cobounded1)

lemma plain_token_ok: "token_ok p (plain_token p)"
proof -
  have ne: "0 < length p" if "deref p \<noteq> CHR 0x00"
    using deref_nonempty[OF that] by simp
  show ?thesis
    using ParseNumberToken_ok[of p] ne NextStringMatch_fits[of p "''null''"] NextStringMatch_fits[of p "''true''"]
      NextStringMatch_fits[of p "''false''"]
    by (auto simp: token_ok_def plain_token_def Let_def Suc_le_eq)
qed

lemma token_at_ok: "token_ok p (token_at p)"
proof (cases "deref p = CHR 0x22")
  case True
  then have "p \<noteq> []" using deref_nonempty by force
  then show ?thesis
    using True scan_string_fits[of 1 "drop 1 p"]
    by (cases p) (auto simp: token_at_def token_ok_def split: string_scan.split)
qed (simp add: token_at_def plain_token_ok)

text \<open>What the reader is looking at, and what a call of \<open>ParseToken\<close> does to it.\<close>

lemma length_eat_whitespace: "length (eat_whitespace p) \<le> length p"
proof (induction p rule: eat_whitespace.induct)
  case (2 c cs)
  show ?case
  proof (cases "EatComment (c # cs)")
    case (Pair ok q)
    then show ?thesis
      using 2 EatComment_decreases[of "c # cs" q] by (cases ok) (auto dest: meta_spec[of _ True])
  qed
qed simp

definition same_settings :: "json_reader \<Rightarrow> json_reader \<Rightarrow> bool" where
  "same_settings r r' \<longleftrightarrow> stack_depth r' = stack_depth r \<and> allow_trailing_comma r' = allow_trailing_comma r \<and>
     start_pos r' = start_pos r"

lemma wp_SetErrorCode [wp_simps]:
  "wp (SetErrorCode error p) Q r = (let (l, c) = line_column (take (length (start_pos r) - length p) (start_pos r)) (1, 1)
     in Q () (r\<lparr>error_line := l, error_col := c, error_code := error\<rparr>))"
  by (simp add: SetErrorCode_def wp_simps Let_def case_prod_beta)

lemma ParseToken_run:
  obtains r' where "ParseToken r = (Done (token_at (json_pos r')), r')" "same_settings r r'"
    "json_pos r' = eat_whitespace (json_pos r)"
    "tok_type (token_at (json_pos r')) \<noteq> INVALID_TOKEN \<Longrightarrow> r' = r\<lparr>json_pos := eat_whitespace (json_pos r)\<rparr>"
proof -
  let ?p = "eat_whitespace (json_pos r)"
  let ?r = "r\<lparr>json_pos := ?p\<rparr>"
  have start: "ParseToken r = (if deref ?p = CHR 0x22 then ParseStringToken ?r else (Done (plain_token ?p), ?r))"
    by (simp add: ParseToken_def EatWhitespaceAndComments_def method_simps)
  have s: "same_settings r ?r" by (simp add: same_settings_def)
  show thesis
  proof (cases "deref ?p = CHR 0x22")
    case False
    then show thesis using that[of ?r] start s by (simp add: token_at_def)
  next
    case quoted: True
    show thesis
    proof (cases "scan_string 1 (drop 1 ?p)")
      case (Closed len)
      then show thesis
        using that[of ?r] start s quoted by (simp add: token_at_def ParseStringToken_def method_simps)
    next
      case (Bad_Escape len)
      obtain l c where lc: "line_column (take (length (start_pos r) - length (drop len ?p)) (start_pos r)) (1, 1) = (l, c)"
        by (cases "line_column (take (length (start_pos r) - length (drop len ?p)) (start_pos r)) (1, 1)")
      show thesis
        using that[of "?r\<lparr>error_line := l, error_col := c, error_code := JSON_INVALID_ESCAPE\<rparr>"] start quoted Bad_Escape lc
        by (simp add: token_at_def ParseStringToken_def SetErrorCode_def method_simps same_settings_def)
    next
      case Unclosed
      then show thesis
        using that[of ?r] start s quoted by (simp add: token_at_def ParseStringToken_def method_simps)
    qed
  qed
qed

lemma wp_ParseToken:
  assumes "\<And>r'. same_settings r r' \<Longrightarrow> json_pos r' = eat_whitespace (json_pos r) \<Longrightarrow>
      (tok_type (token_at (json_pos r')) \<noteq> INVALID_TOKEN \<Longrightarrow> r' = r\<lparr>json_pos := eat_whitespace (json_pos r)\<rparr>) \<Longrightarrow>
      Q (token_at (json_pos r')) r'"
  shows "wp ParseToken Q r"
proof (rule ParseToken_run[of r])
  fix r'
  assume "ParseToken r = (Done (token_at (json_pos r')), r')" "same_settings r r'"
    "json_pos r' = eat_whitespace (json_pos r)"
    "tok_type (token_at (json_pos r')) \<noteq> INVALID_TOKEN \<Longrightarrow> r' = r\<lparr>json_pos := eat_whitespace (json_pos r)\<rparr>"
  then show ?thesis using assms[of r'] by (simp add: wp_def)
qed

text \<open>
  \<open>json_tree n v\<close>: a tree a reader can build, with at most \<open>n\<close> levels: integers of 32 bits, finite
  doubles, no binary values, and dictionaries in the order of their keys.
\<close>

fun json_tree :: "nat \<Rightarrow> Value \<Rightarrow> bool" where
  "json_tree 0 v = False"
| "json_tree (Suc n) (IntegerValue i) = (- (2 ^ 31) \<le> i \<and> i < 2 ^ 31)"
| "json_tree (Suc n) (DoubleValue d) = IsFinite d"
| "json_tree (Suc n) (BinaryValue b) = False"
| "json_tree (Suc n) (DictionaryValue d) = (omap_ok d \<and> list_all (\<lambda>(k, v). json_tree n v) d)"
| "json_tree (Suc n) (ListValue vs) = list_all (json_tree n) vs"
| "json_tree (Suc n) v = True"

lemma wrap_signed_range: "0 < w \<Longrightarrow> - (2 ^ (w - 1)) \<le> wrap_signed w v \<and> wrap_signed w v < 2 ^ (w - 1)"
  by (cases w) (auto simp: wrap_signed_def)

lemma number_loop_range:
  assumes "0 < w" "- (2 ^ (w - 1)) \<le> n \<and> n < 2 ^ (w - 1)" "number_loop (signed_traits w) neg first s n = (ok, v)"
  shows "- (2 ^ (w - 1)) \<le> v \<and> v < 2 ^ (w - 1)"
  using assms
proof (induction "signed_traits w" neg first s n rule: number_loop.induct)
  case (2 neg first c cs n)
  show ?case
    using 2(2-4) 2(1)[OF _ refl] wrap_signed_range[OF 2(2)]
    by (auto simp: signed_traits_def Negative_CheckBounds_def Positive_CheckBounds_def Let_def split: option.splits if_splits)
qed simp

lemma StringToInt_range:
  assumes "StringToInt s = (True, v)"
  shows "- (2 ^ 31) \<le> v \<and> v < 2 ^ 31"
proof -
  have "- (2 ^ 31) \<le> v \<and> v < 2 ^ 31" if "Base_Invoke (signed_traits 32) neg t = (ok, v)" for neg t ok
    using that number_loop_range[of 32 0 neg True _ ok v]
    by (auto simp: Base_Invoke_def Let_def split: if_splits)
  then show ?thesis using assms
    by (auto simp: StringToInt_def IteratorRangeToNumber_def Let_def split: prod.splits if_splits)
qed

section \<open>What is built\<close>

definition built :: "json_reader \<Rightarrow> Value \<Rightarrow> json_reader \<Rightarrow> bool" where
  "built r v r' \<longleftrightarrow> same_settings r r' \<and> length (json_pos r') < length (json_pos r) \<and>
     json_tree (nat (100 - stack_depth r)) v"

text \<open>The same for an array or an object, up to its closing token \<open>t\<close>.\<close>

definition closed :: "json_reader \<Rightarrow> Value \<times> json_token \<Rightarrow> json_reader \<Rightarrow> bool" where
  "closed r vt r' \<longleftrightarrow> same_settings r r' \<and> length (json_pos r') \<le> length (json_pos r) \<and>
     0 < tok_length (snd vt) \<and> tok_length (snd vt) \<le> length (json_pos r') \<and>
     json_tree (Suc (nat (100 - stack_depth r))) (fst vt)"

lemma same_settings_simps [simp]:
  "same_settings r r" "same_settings r (r'\<lparr>json_pos := p\<rparr>) = same_settings r r'"
  "same_settings (r\<lparr>json_pos := p\<rparr>) r' = same_settings r r'"
  by (simp_all add: same_settings_def)

lemma same_settings_trans: "same_settings r r' \<Longrightarrow> same_settings r' r'' \<Longrightarrow> same_settings r r''"
  by (simp add: same_settings_def)

lemma wp_fail_at [wp_simps]:
  "wp (fail_at error) (\<lambda>x r'. \<forall>v. x = Some v \<longrightarrow> Q v r') r"
  by (simp add: fail_at_def wp_simps split: prod.split)

lemma wp_advance [wp_simps]:
  "wp (advance token) Q r = Q () (r\<lparr>json_pos := drop (tok_length token) (json_pos r)\<rparr>)"
  by (simp add: advance_def wp_simps)

lemma wp_after_element:
  assumes "closing \<in> {ARRAY_END, OBJECT_END}"
  shows "wp (after_element closing) (\<lambda>x r'. \<forall>b t. x = Some (b, t) \<longrightarrow>
    same_settings r r' \<and> length (json_pos r') \<le> length (json_pos r) \<and> t = token_at (json_pos r') \<and>
    (\<not> b \<longrightarrow> tok_type t = closing)) r"
  unfolding after_element_def
proof (simp only: wp_simps, rule wp_ParseToken, goal_cases)
  case (1 r1)
  have l1: "length (json_pos r1) \<le> length (json_pos r)" using 1(2) length_eat_whitespace by simp
  show ?case
  proof (cases "tok_type (token_at (json_pos r1)) = LIST_SEPARATOR")
    case False
    then show ?thesis using 1 l1 by (simp add: wp_simps)
  next
    case True
    let ?r2 = "r1\<lparr>json_pos := drop (tok_length (token_at (json_pos r1))) (json_pos r1)\<rparr>"
    have "wp ParseToken (\<lambda>token. wp (if tok_type token = closing
         then bindm (gets allow_trailing_comma) (\<lambda>allowed. if \<not> allowed then fail_at JSON_TRAILING_COMMA else ret (Some (False, token)))
         else ret (Some (True, token))) (\<lambda>x r'. \<forall>b t. x = Some (b, t) \<longrightarrow>
    same_settings r r' \<and> length (json_pos r') \<le> length (json_pos r) \<and> t = token_at (json_pos r') \<and>
    (\<not> b \<longrightarrow> tok_type t = closing))) ?r2"
    proof (rule wp_ParseToken, goal_cases)
      case (1 r3)
      have "length (json_pos r3) \<le> length (json_pos r)"
        using 1(2) l1 length_eat_whitespace[of "json_pos ?r2"] by simp
      moreover have "same_settings r r3" using \<open>same_settings r r1\<close> 1(1) by (simp add: same_settings_def)
      ultimately show ?case by (simp add: wp_simps fail_at_def SetErrorCode_def split: prod.split)
    qed
    then show ?thesis using True by (simp add: wp_simps)
  qed
qed

definition closes :: "json_reader \<Rightarrow> value_type \<Rightarrow> (Value \<times> json_token) option \<Rightarrow> json_reader \<Rightarrow> bool" where
  "closes r ty x r' \<longleftrightarrow> (\<forall>vt. x = Some vt \<longrightarrow> closed r vt r' \<and> GetType (fst vt) = ty)"

definition builds :: "json_reader \<Rightarrow> bool \<Rightarrow> Value option \<Rightarrow> json_reader \<Rightarrow> bool" where
  "builds r root x r' \<longleftrightarrow> (\<forall>v. x = Some v \<longrightarrow> built r v r' \<and> (root \<longrightarrow> GetType v \<in> {TYPE_LIST, TYPE_DICTIONARY}))"

definition build_ok :: "(string \<Rightarrow> stod_result) \<Rightarrow> nat \<Rightarrow> bool" where
  "build_ok stod fuel \<longleftrightarrow> (\<forall>root r. 2 * length (json_pos r) + 1 \<le> fuel \<longrightarrow> 0 \<le> stack_depth r \<longrightarrow>
     wp (BuildValue stod fuel root) (builds r root) r)"

lemma build_okD:
  assumes "build_ok stod fuel" "2 * length (json_pos r) + 1 \<le> fuel" "0 \<le> stack_depth r"
    and "\<And>r'. Q None r'" "\<And>v r'. built r v r' \<Longrightarrow> Q (Some v) r'"
  shows "wp (BuildValue stod fuel root) Q r"
proof (rule wp_mono)
  show "wp (BuildValue stod fuel root) (builds r root) r" using assms(1-3) by (simp add: build_ok_def)
  show "Q x r'" if "builds r root x r'" for x r'
    using that assms(4,5) by (cases x) (auto simp: builds_def)
qed

lemma closes_None [simp]: "closes r ty None r'"
  by (simp add: closes_def)

lemma closes_further:
  assumes "closes r1 ty x r2" "same_settings r r1" "length (json_pos r1) \<le> length (json_pos r)"
  shows "closes r ty x r2"
  using assms by (auto simp: closes_def closed_def same_settings_def)

text \<open>What both loops do after an element.\<close>

lemma wp_element:
  assumes "closing \<in> {ARRAY_END, OBJECT_END}" "same_settings r r1" "length (json_pos r1) < length (json_pos r)"
    and "json_tree (Suc (nat (100 - stack_depth r))) v" "GetType v = ty"
    and "\<And>t r2. same_settings r r2 \<Longrightarrow> length (json_pos r2) < length (json_pos r) \<Longrightarrow> token_ok (json_pos r2) t \<Longrightarrow>
      wp (loop t) (closes r2 ty) r2"
  shows "wp (bindm (after_element closing) (\<lambda>next_token. case next_token of
              None \<Rightarrow> ret None
            | Some (False, token) \<Rightarrow> ret (Some (v, token))
            | Some (True, token) \<Rightarrow> loop token)) (closes r ty) r1"
proof (simp only: wp_bindm, rule wp_mono[OF wp_after_element[OF assms(1)]], goal_cases)
  case (1 x r2)
  show ?case
  proof (cases x)
    case None
    then show ?thesis by (simp add: wp_simps)
  next
    case (Some bt)
    obtain b t where x: "x = Some (b, t)" using Some by (cases bt) auto
    have s: "same_settings r r2" "length (json_pos r2) < length (json_pos r)" "token_ok (json_pos r2) t"
      "\<not> b \<longrightarrow> tok_type t = closing"
      using 1 x assms(2,3) token_at_ok[of "json_pos r2"] by (auto simp: same_settings_def)
    show ?thesis
    proof (cases b)
      case False
      then have "0 < tok_length t" "tok_length t \<le> length (json_pos r2)"
        using s(3,4) assms(1) by (auto simp: token_ok_def)
      then have "closes r ty (Some (v, t)) r2"
        using s assms(4,5) by (simp add: closes_def closed_def)
      then show ?thesis using x False by (simp add: wp_simps)
    next
      case True
      have "wp (loop t) (closes r ty) r2"
        by (rule wp_mono[OF assms(6)[OF s(1-3)]]) (rule closes_further[OF _ s(1)], use s(2) in simp_all)
      then show ?thesis using x True by simp
    qed
  qed
qed

lemma wp_array_loop:
  assumes "\<And>n. n < fuel \<Longrightarrow> build_ok stod n"
    and "2 * length (json_pos r) + 2 \<le> fuel" "0 \<le> stack_depth r" "token_ok (json_pos r) token"
    and "list_all (json_tree (nat (100 - stack_depth r))) vs"
  shows "wp (array_loop stod fuel vs token) (closes r TYPE_LIST) r"
  using assms
proof (induction fuel arbitrary: r token vs)
  case (Suc fuel)
  show ?case
  proof (cases "tok_type token = ARRAY_END")
    case True
    then show ?thesis
      using Suc.prems by (simp add: wp_simps closes_def closed_def token_ok_def)
  next
    case False
    show ?thesis
    proof (simp only: array_loop.simps False if_False wp_bindm, rule build_okD, goal_cases)
      case (5 v r1)
      have vs: "list_all (json_tree (nat (100 - stack_depth r))) (list_Append vs v)"
        using Suc.prems(5) 5 by (simp add: built_def list_Append_def)
      show ?case
        unfolding option.case
      proof (rule wp_element)
        show "same_settings r r1" "length (json_pos r1) < length (json_pos r)" using 5 by (simp_all add: built_def)
        show "json_tree (Suc (nat (100 - stack_depth r))) (ListValue (list_Append vs v))" using vs by simp
        fix t r2 assume r2: "same_settings r r2" "length (json_pos r2) < length (json_pos r)" "token_ok (json_pos r2) t"
        show "wp (array_loop stod fuel (list_Append vs v) t) (closes r2 TYPE_LIST) r2"
          by (rule Suc.IH) (use Suc.prems(1-3) r2 vs in \<open>simp_all add: same_settings_def\<close>)
      qed simp_all
    qed (use Suc.prems in \<open>simp_all add: wp_simps\<close>)
  qed
qed simp

lemma json_tree_assign:
  "json_tree (Suc n) (DictionaryValue d) \<Longrightarrow> json_tree n v \<Longrightarrow>
   json_tree (Suc n) (DictionaryValue (SetWithoutPathExpansion k v d))"
  using set_assign_subset[of k v d] by (auto simp: SetWithoutPathExpansion_def list_all_iff)

lemma wp_object_loop:
  assumes "\<And>n. n < fuel \<Longrightarrow> build_ok stod n"
    and "2 * length (json_pos r) + 2 \<le> fuel" "0 \<le> stack_depth r" "token_ok (json_pos r) token"
    and "json_tree (Suc (nat (100 - stack_depth r))) (DictionaryValue d)"
  shows "wp (object_loop stod fuel d token) (closes r TYPE_DICTIONARY) r"
  using assms
proof (induction fuel arbitrary: r token d)
  case (Suc fuel)
  show ?case
  proof (cases "tok_type token = OBJECT_END")
    case True
    then show ?thesis
      using Suc.prems by (simp add: wp_simps closes_def closed_def token_ok_def)
  next
    case open_object: False
    show ?thesis
    proof (cases "tok_type token = STRING")
      case False
      then show ?thesis
        using open_object by (simp add: fail_at_def SetErrorCode_def wp_simps Let_def split: prod.split)
    next
      case True
      have less: "length (json_pos r') < length (json_pos r)"
        if "length (json_pos r') \<le> length (json_pos r) - tok_length token" for r' :: json_reader
        using that Suc.prems(4) True by (auto simp: token_ok_def)
      show ?thesis
      proof (cases "DecodeString token")
        case None
        then show ?thesis using open_object True by (simp add: wp_simps)
      next
        case (Some key)
        show ?thesis
        proof (simp only: object_loop.simps True token_type.distinct Some option.case if_False if_True Let_def wp_seq wp_bindm
            wp_advance simp_thms, rule wp_ParseToken, goal_cases)
          case (1 r1)
          have l1: "length (json_pos r1) < length (json_pos r)"
            by (rule less) (use 1(2) length_eat_whitespace[of "drop (tok_length token) (json_pos r)"] in simp)
          show ?case
          proof (cases "tok_type (token_at (json_pos r1)) = OBJECT_PAIR_SEPARATOR")
            case False
            then show ?thesis by (simp add: wp_simps)
          next
            case sep: True
            show ?thesis
            proof (simp only: sep if_True if_False simp_thms wp_seq wp_bindm wp_advance, rule wp_ParseToken, subst wp_bindm, rule build_okD, goal_cases)
              case (5 r2 v r3)
              have r3: "same_settings r r3" "length (json_pos r3) < length (json_pos r)"
                using 5 1(1) l1 length_eat_whitespace[of "drop (tok_length (token_at (json_pos r1))) (json_pos r1)"]
                by (auto simp: built_def same_settings_def)
              have d: "json_tree (Suc (nat (100 - stack_depth r)))
                  (DictionaryValue (SetWithoutPathExpansion (the_default [] (GetAsString key)) v d))"
                by (rule json_tree_assign[OF Suc.prems(5)]) (use 5 1(1) in \<open>simp add: built_def same_settings_def\<close>)
              show ?case
                unfolding option.case
              proof (rule wp_element[OF _ r3 d])
                fix t r4 assume r4: "same_settings r r4" "length (json_pos r4) < length (json_pos r)" "token_ok (json_pos r4) t"
                show "wp (object_loop stod fuel (SetWithoutPathExpansion (the_default [] (GetAsString key)) v d) t)
                    (closes r4 TYPE_DICTIONARY) r4"
                  by (rule Suc.IH) (use Suc.prems(1-3) r4 d in \<open>simp_all add: same_settings_def\<close>)
              qed simp_all
            next
              case (1 r2)
              show ?case using Suc.prems(1)[of fuel] by simp
            next
              case (2 r2)
              then show ?case
                using Suc.prems(2) l1 length_eat_whitespace[of "drop (tok_length (token_at (json_pos r1))) (json_pos r1)"] by simp
            next
              case (3 r2)
              then show ?case using Suc.prems(3) 1(1) by (simp add: same_settings_def)
            next
              case (4 r2 r3)
              then show ?case by (simp add: wp_simps)
            qed
          qed
        qed
      qed
    qed
  qed
qed simp

lemma wp_finish:
  assumes "stack_depth r1 = stack_depth r + 1" "stack_depth r1 \<le> 100" "0 \<le> stack_depth r"
    and "allow_trailing_comma r1 = allow_trailing_comma r" "start_pos r1 = start_pos r"
    and "length (json_pos r2) \<le> length (json_pos r)" "same_settings r1 r2"
    and "0 < tok_length t" "tok_length t \<le> length (json_pos r2)" "json_tree (nat (100 - stack_depth r)) v"
    and "root \<longrightarrow> GetType v \<in> {TYPE_LIST, TYPE_DICTIONARY}"
  shows "wp (finish (Some (v, t))) (builds r root) r2"
  using assms by (auto simp: finish_def wp_simps builds_def built_def same_settings_def)

lemma wp_finish_None: "wp (finish None) (builds r root) r2"
  by (simp add: finish_def wp_simps builds_def)

lemma wp_finish_closes:
  assumes "closes r1 ty x r2" "ty \<in> {TYPE_LIST, TYPE_DICTIONARY}"
    and "stack_depth r1 = stack_depth r + 1" "stack_depth r1 \<le> 100" "0 \<le> stack_depth r"
    and "allow_trailing_comma r1 = allow_trailing_comma r" "start_pos r1 = start_pos r"
    and "length (json_pos r1) \<le> length (json_pos r)"
  shows "wp (finish x) (builds r root) r2"
proof (cases x)
  case None
  then show ?thesis by (simp add: wp_finish_None)
next
  case (Some vt)
  obtain v t where vt: "vt = (v, t)" by (cases vt)
  have "nat (100 - stack_depth r) = Suc (nat (100 - stack_depth r1))" using assms(3-5) by simp
  then show ?thesis
    unfolding Some vt
    by (intro wp_finish[of r1]) (use assms Some vt in \<open>auto simp: closes_def closed_def same_settings_def\<close>)
qed

lemma wp_decoded:
  assumes "\<And>v. node = Some v \<Longrightarrow> wp (finish (Some (v, token))) Q r" "wp (finish None) Q r"
  shows "wp (decoded token node) (\<lambda>x. wp (finish x) Q) r"
  using assms by (cases node) (auto simp: decoded_def wp_simps)

lemma DecodeNumber_tree:
  assumes "DecodeNumber stod token = Done (Some v)"
  shows "json_tree (Suc n) v"
  using assms StringToInt_range
  by (auto simp: DecodeNumber_def Let_def outcome_simps CreateDoubleValue_def split: prod.splits bool.splits if_splits)

lemma DecodeString_tree: "DecodeString token = Some v \<Longrightarrow> json_tree (Suc n) v"
  by (auto simp: DecodeString_def)

lemma DecodeNumber_returns: "DecodeNumber stod token \<noteq> Diverged"
  by (auto simp: DecodeNumber_def Let_def outcome_simps StringToDouble_def split: prod.split bool.split stod_result.split)

lemma wp_fail_at_None: "(\<And>r'. Q None r') \<Longrightarrow> wp (fail_at error) Q r"
  by (simp add: fail_at_def wp_simps split: prod.split)

text \<open>The state in which \<open>BuildValue\<close> has read its token, one level below the state \<open>r\<close> it started in.\<close>

definition entered :: "json_reader \<Rightarrow> json_reader \<Rightarrow> bool" where
  "entered r r1 \<longleftrightarrow> stack_depth r1 = stack_depth r + 1 \<and> stack_depth r1 \<le> 100 \<and> 0 \<le> stack_depth r \<and>
     allow_trailing_comma r1 = allow_trailing_comma r \<and> start_pos r1 = start_pos r \<and>
     length (json_pos r1) \<le> length (json_pos r)"

lemma wp_scalar:
  assumes "entered r r1" "tok_type (token_at (json_pos r1)) \<notin> {END_OF_INPUT, INVALID_TOKEN}" "\<not> root"
    and "\<forall>v \<in> set_option node. \<forall>n. json_tree (Suc n) v"
  shows "wp (decoded (token_at (json_pos r1)) node) (\<lambda>x. wp (finish x) (builds r root)) r1"
proof (rule wp_decoded)
  fix v assume v: "node = Some v"
  have lev: "nat (100 - stack_depth r) = Suc (nat (100 - stack_depth r1))"
    using assms(1) unfolding entered_def by linarith
  show "wp (finish (Some (v, token_at (json_pos r1)))) (builds r root) r1"
    by (rule wp_finish[of r1])
      (use assms v token_at_ok[of "json_pos r1"] lev in \<open>simp_all add: entered_def token_ok_def\<close>)
qed (rule wp_finish_None)

lemma wp_compound:
  assumes "entered r r1" "tok_type (token_at (json_pos r1)) \<in> {ARRAY_BEGIN, OBJECT_BEGIN}"
    and "ty \<in> {TYPE_LIST, TYPE_DICTIONARY}" "2 * length (json_pos r) \<le> fuel"
    and loop: "\<And>r2. 2 * length (json_pos r2) + 2 \<le> fuel \<Longrightarrow> 0 \<le> stack_depth r2 \<Longrightarrow>
      wp (loop (token_at (json_pos r2))) (closes r2 ty) r2"
  shows "wp (seq (advance (token_at (json_pos r1))) (bindm ParseToken loop)) (\<lambda>x. wp (finish x) (builds r root)) r1"
  unfolding wp_seq wp_advance wp_bindm
proof (rule wp_ParseToken, goal_cases)
  case (1 r2)
  let ?t = "token_at (json_pos r1)"
  have "0 < tok_length ?t" "tok_length ?t \<le> length (json_pos r1)"
    using assms(2) token_at_ok[of "json_pos r1"] by (auto simp: token_ok_def)
  then have "length (drop (tok_length ?t) (json_pos r1)) < length (json_pos r)"
    using assms(1) unfolding entered_def length_drop by linarith
  then have l: "length (json_pos r2) < length (json_pos r)"
    using 1(2) length_eat_whitespace[of "drop (tok_length ?t) (json_pos r1)"] by simp
  have "wp (loop (token_at (json_pos r2))) (closes r2 ty) r2"
    by (rule loop) (use l assms(1,4) 1(1) in \<open>simp_all add: same_settings_def entered_def\<close>)
  then show ?case
    by (rule wp_mono)
      (rule wp_finish_closes[OF _ assms(3)], assumption, use assms(1) l 1(1) in \<open>auto simp: same_settings_def entered_def\<close>)
qed

lemma wp_number:
  assumes "entered r r1" "tok_type (token_at (json_pos r1)) = NUMBER" "\<not> root"
  shows "wp (bindm (Pair (DecodeNumber stod (token_at (json_pos r1)))) (decoded (token_at (json_pos r1))))
    (\<lambda>x. wp (finish x) (builds r root)) r1"
proof (cases "DecodeNumber stod (token_at (json_pos r1))")
  case (Done node)
  then show ?thesis
    using wp_scalar[OF assms(1) _ assms(3), of node] assms(2) DecodeNumber_tree[of stod "token_at (json_pos r1)"]
    by (simp add: wp_simps)
qed (use DecodeNumber_returns in \<open>auto simp: wp_simps\<close>)

lemma build_ok: "build_ok stod fuel"
proof (induction fuel rule: less_induct)
  case (less n)
  show ?case
  proof (cases n)
    case (Suc fuel)
    show ?thesis
      unfolding build_ok_def Suc
    proof (intro allI impI)
      fix root and r :: json_reader assume fuel: "2 * length (json_pos r) + 1 \<le> Suc fuel" and depth: "0 \<le> stack_depth r"
      let ?r = "r\<lparr>stack_depth := stack_depth r + 1\<rparr>"
      show "wp (BuildValue stod (Suc fuel) root) (builds r root) r"
      proof (cases "stack_depth r + 1 > 100")
        case True
        then show ?thesis
          by (simp add: wp_simps kStackLimit_def) (simp add: wp_fail_at_None builds_def)
      next
        case shallow: False
        then have lim: "\<not> stack_depth ?r > kStackLimit" by (simp add: kStackLimit_def)
        have lev: "nat (100 - stack_depth r) = Suc (nat (100 - (stack_depth r + 1)))"
          using depth shallow by simp
        show ?thesis
          unfolding BuildValue.simps wp_seq wp_bindm wp_basic
        proof (simp only: lim if_False, subst wp_bindm, rule wp_ParseToken, goal_cases)
          case (1 r1)
          let ?t = "token_at (json_pos r1)"
          have r1: "entered r r1"
            using 1 shallow depth length_eat_whitespace[of "json_pos r"] by (simp add: entered_def same_settings_def)
          have arr: "wp (array_loop stod fuel [] (token_at (json_pos r2))) (closes r2 TYPE_LIST) r2"
            if "2 * length (json_pos r2) + 2 \<le> fuel" "0 \<le> stack_depth r2" for r2
            by (rule wp_array_loop) (use that less Suc token_at_ok in simp_all)
          have obj: "wp (object_loop stod fuel [] (token_at (json_pos r2))) (closes r2 TYPE_DICTIONARY) r2"
            if "2 * length (json_pos r2) + 2 \<le> fuel" "0 \<le> stack_depth r2" for r2
            by (rule wp_object_loop) (use that less Suc token_at_ok in simp_all)
          have f: "2 * length (json_pos r) \<le> fuel" using fuel by simp
          show ?case
          proof (cases "root \<and> tok_type ?t \<noteq> OBJECT_BEGIN \<and> tok_type ?t \<noteq> ARRAY_BEGIN")
            case True
            then show ?thesis by (simp add: wp_fail_at_None builds_def)
          next
            case ok: False
            have none: "wp (ret None) (\<lambda>x. wp (finish x) (builds r root)) r1"
              by (simp add: wp_simps wp_finish_None)
            show ?thesis
            proof (cases "tok_type ?t")
              case ARRAY_BEGIN
              then show ?thesis using wp_compound[OF r1 _ _ f arr, of root] by (simp add: wp_bindm)
            next
              case OBJECT_BEGIN
              then show ?thesis using wp_compound[OF r1 _ _ f obj, of root] by (simp add: wp_bindm)
            next
              case NUMBER
              then show ?thesis using wp_number[OF r1] ok by (simp add: wp_bindm)
            next
              case STRING
              then show ?thesis using wp_scalar[OF r1, of root] ok DecodeString_tree by (simp add: wp_bindm)
            qed (use wp_scalar[OF r1, of root] ok none in \<open>simp_all add: wp_bindm\<close>)
          qed
        qed
      qed
    qed
  qed (simp add: build_ok_def)
qed

section \<open>Reading a text\<close>

lemma wp_build:
  assumes "2 * length (json_pos r) + 1 \<le> fuel" "0 \<le> stack_depth r" "\<And>x r'. builds r root x r' \<Longrightarrow> Q x r'"
  shows "wp (BuildValue stod fuel root) Q r"
proof (rule wp_mono)
  show "wp (BuildValue stod fuel root) (builds r root) r"
    using build_ok[of stod fuel] assms(1,2) by (simp add: build_ok_def)
qed (rule assms(3))

lemma length_skip_bom: "length (skip_bom json) \<le> length json"
  by (simp add: skip_bom_def)

lemma wp_report: 
  "wp (bindm (gets error_code) (\<lambda>code. if code = JSON_NO_ERROR then fail_at JSON_SYNTAX_ERROR else ret None))
    (\<lambda>x r'. x = None \<and> error_code r' \<noteq> JSON_NO_ERROR) r"
  by (simp add: wp_simps fail_at_def split: prod.split)

lemma wp_JsonToValue:
  "wp (JsonToValue stod json check_root allow) (\<lambda>x r'. case x of
       None \<Rightarrow> error_code r' \<noteq> JSON_NO_ERROR
     | Some v \<Rightarrow> json_tree 100 v \<and> (check_root \<longrightarrow> GetType v \<in> {TYPE_LIST, TYPE_DICTIONARY})) r"
  (is "wp _ ?Q r")
proof -
  let ?r = "r\<lparr>start_pos := skip_bom json, json_pos := skip_bom json, allow_trailing_comma := allow, stack_depth := 0,
    error_code := JSON_NO_ERROR\<rparr>"
  have none: "wp (bindm (gets error_code) (\<lambda>code. if code = JSON_NO_ERROR then fail_at JSON_SYNTAX_ERROR else ret None)) ?Q r'"
    for r' by (rule wp_mono[OF wp_report]) simp
  show ?thesis
    unfolding JsonToValue_def wp_seq wp_bindm wp_basic
  proof (rule wp_build, goal_cases)
    case 1
    show ?case using length_skip_bom[of json] by simp
  next
    case 2
    show ?case by simp
  next
    case (3 x r1)
    show ?case
    proof (cases x)
      case None
      then show ?thesis using none by (simp add: wp_bindm wp_basic)
    next
      case (Some v)
      then have v: "json_tree 100 v" "check_root \<longrightarrow> GetType v \<in> {TYPE_LIST, TYPE_DICTIONARY}"
        using 3 by (simp_all add: builds_def built_def)
      show ?thesis
        unfolding Some option.case
      proof (subst wp_bindm, rule wp_ParseToken, goal_cases)
        case (1 r2)
        show ?case
          using v none by (auto simp: wp_if wp_bindm wp_basic wp_fail_at_None)
      qed
    qed
  qed
qed

text \<open>The position of an error is a position of the text.\<close>

definition error_at :: "string \<Rightarrow> json_reader \<Rightarrow> bool" where
  "error_at s r \<longleftrightarrow> start_pos r = s \<and>
     (error_code r \<noteq> JSON_NO_ERROR \<longrightarrow> (\<exists>p. prefix p s \<and> line_column p (1, 1) = (error_line r, error_col r)))"

lemma keeps_SetErrorCode [keeps_intro]: "keeps (error_at s) (SetErrorCode error p)"
proof -
  have "prefix (take n (start_pos r)) (start_pos r)" for n r by (rule take_is_prefix)
  then show ?thesis
    unfolding SetErrorCode_def by (intro keeps_modify) (auto simp: error_at_def Let_def split: prod.split)
qed

lemma keeps_fail_at [keeps_intro]: "keeps (error_at s) (fail_at error)"
  unfolding fail_at_def by (intro keeps_intro)

lemma keeps_advance [keeps_intro]: "keeps (error_at s) (advance token)"
  unfolding advance_def by (intro keeps_modify) (simp add: error_at_def)

lemma keeps_string_scan [keeps_intro]:
  "(\<And>n. keeps I (f n)) \<Longrightarrow> (\<And>n. keeps I (g n)) \<Longrightarrow> keeps I h \<Longrightarrow>
   keeps I (case v of Closed n \<Rightarrow> f n | Bad_Escape n \<Rightarrow> g n | Unclosed \<Rightarrow> h)"
  by (cases v) auto

lemma keeps_ParseToken [keeps_intro]: "keeps (error_at s) ParseToken"
  unfolding ParseToken_def ParseStringToken_def EatWhitespaceAndComments_def
  by (intro keeps_intro keeps_modify) (simp add: error_at_def)

lemma keeps_after_element [keeps_intro]: "keeps (error_at s) (after_element closing)"
  unfolding after_element_def by (intro keeps_intro)

lemma keeps_finish [keeps_intro]: "keeps (error_at s) (finish node)"
  unfolding finish_def
  by (cases node) (auto intro!: keeps_intro keeps_modify simp: error_at_def)

lemma keeps_next_token [keeps_intro]:
  "keeps I m \<Longrightarrow> (\<And>t. keeps I (f t)) \<Longrightarrow> (\<And>t. keeps I (g t)) \<Longrightarrow>
   keeps I (case x of None \<Rightarrow> m | Some (False, t) \<Rightarrow> f t | Some (True, t) \<Rightarrow> g t)"
  by (auto split: option.split bool.split)

lemma keeps_decoded [keeps_intro]: "keeps I (decoded token node)"
  by (simp add: decoded_def keeps_ret)

lemma keeps_node:
  assumes "keeps I a" "keeps I b" "keeps I c" "keeps I d" "keeps I e" "keeps I f" "keeps I g" "keeps I h"
  shows "keeps I (case ty of NULL_TOKEN \<Rightarrow> a | BOOL_TRUE \<Rightarrow> b | BOOL_FALSE \<Rightarrow> c | NUMBER \<Rightarrow> d | STRING \<Rightarrow> e
    | ARRAY_BEGIN \<Rightarrow> f | OBJECT_BEGIN \<Rightarrow> g | _ \<Rightarrow> h)"
  using assms by (cases ty) simp_all

lemma keeps_BuildValue:
  "keeps (error_at s) (BuildValue stod fuel root)"
  "keeps (error_at s) (array_loop stod fuel vs token)"
  "keeps (error_at s) (object_loop stod fuel d token)"
proof (induction fuel arbitrary: root vs token d)
  case (Suc fuel)
  {
    case (1 root)
    show ?case
      unfolding BuildValue.simps
      by (rule keeps_seq, rule keeps_modify, simp add: error_at_def) (intro keeps_intro keeps_node Suc)
  next
    case (2 vs token)
    show ?case
      unfolding array_loop.simps by (intro keeps_intro Suc)
  next
    case (3 d token)
    show ?case
      unfolding object_loop.simps Let_def by (intro keeps_intro Suc)
  }
qed (simp_all add: keeps_Pair)

section \<open>Results\<close>

text \<open>
  C11. A document that the reader accepts is an array or an object with at most a hundred levels, in
  which every integer has 32 bits, every double is finite, and every object lists its keys in
  order, each once; there are no binary values.
\<close>

theorem document_shape:
  assumes "ReadAndReturnError stod json allow = Done (Inr v)"
  shows "json_tree 100 v \<and> GetType v \<in> {TYPE_LIST, TYPE_DICTIONARY}"
proof -
  obtain r where "JsonToValue stod json True allow JSONReader = (Done (Some v), r)"
    using assms by (auto simp: ReadAndReturnError_def split: prod.splits outcome.splits option.splits)
  from wpD(1)[OF wp_JsonToValue this] show ?thesis by simp
qed

text \<open>
  C16. Reading comes back for every text, with a value, an error or the exception of a number: the fuel
  that bounds the recursion is never used up.
\<close>

theorem reading_returns: "ReadAndReturnError stod json allow \<noteq> Diverged"
  using wpD(2)[OF wp_JsonToValue[of stod json True allow JSONReader]]
  by (auto simp: ReadAndReturnError_def split: prod.split outcome.split option.split)

text \<open>The characters since the last newline.\<close>

abbreviation last_line :: "string \<Rightarrow> string" where
  "last_line s \<equiv> takeWhile (\<lambda>x. x \<noteq> CHR 0x0A) (rev s)"

lemma last_line_Cons:
  "takeWhile (\<lambda>x. x \<noteq> CHR 0x0A) (rev s @ [x]) =
     (if CHR 0x0A \<in> set s then last_line s else if x = CHR 0x0A then rev s else rev s @ [x])"
proof (cases "CHR 0x0A \<in> set s")
  case True
  then show ?thesis by (simp add: takeWhile_append1)
next
  case False
  have "takeWhile (\<lambda>x. x \<noteq> CHR 0x0A) (rev s @ [x]) = rev s @ takeWhile (\<lambda>x. x \<noteq> CHR 0x0A) [x]"
    by (rule takeWhile_append2) (use False in auto)
  then show ?thesis using False by simp
qed

lemma line_column_spec:
  "line_column s (l, c) =
     (l + int (count_list s (CHR 0x0A)),
      if CHR 0x0A \<in> set s then 1 + int (length (last_line s)) else c + int (length s))"
proof (induction s arbitrary: l c)
  case (Cons x s)
  show ?case by (simp add: Cons last_line_Cons)
qed simp

lemma prefix_position:
  "line_column p (1, 1) = (1 + int (count_list p (CHR 0x0A)), 1 + int (length (last_line p)))"
proof -
  have "length (last_line p) = length p" if "CHR 0x0A \<notin> set p"
    using that by (induction p) (auto simp: last_line_Cons)
  then show ?thesis by (simp add: line_column_spec)
qed

text \<open>
  C19. When a text is refused, an error is reported, and its message names the line and the column of a
  position of the text: the number of newlines before it and the characters since the last one.
\<close>

theorem error_message:
  assumes "ReadAndReturnError stod json allow = Done (Inl (code, msg))"
  shows "code \<noteq> JSON_NO_ERROR \<and> (\<exists>p. prefix p (skip_bom json) \<and>
    msg = ''Line: '' @ IntToString (1 + int (count_list p (CHR 0x0A))) @ '', column: '' @
      IntToString (1 + int (length (last_line p))) @ '', '' @ ErrorCodeToString code)"
proof -
  obtain r where r: "JsonToValue stod json True allow JSONReader = (Done None, r)" "code = error_code r" "msg = GetErrorMessage r"
    using assms by (auto simp: ReadAndReturnError_def split: prod.splits outcome.splits option.splits)
  have code: "code \<noteq> JSON_NO_ERROR" using wpD(1)[OF wp_JsonToValue r(1)] r(2) by simp
  let ?r = "JSONReader\<lparr>start_pos := skip_bom json, json_pos := skip_bom json, allow_trailing_comma := allow, stack_depth := 0,
    error_code := JSON_NO_ERROR\<rparr>"
  have "error_at (skip_bom json) (snd (JsonToValue stod json True allow JSONReader))"
    unfolding JsonToValue_def
    by (simp only: bindm_run, rule keepsD, intro keeps_intro keeps_BuildValue) (simp add: error_at_def)
  then obtain p where p: "prefix p (skip_bom json)" "line_column p (1, 1) = (error_line r, error_col r)"
    using code r(1,2) by (auto simp: error_at_def)
  then have "error_line r = 1 + int (count_list p (CHR 0x0A))"
      "error_col r = 1 + int (length (last_line p))"
    by (simp_all add: prefix_position)
  then have "msg = ''Line: '' @ IntToString (1 + int (count_list p (CHR 0x0A))) @ '', column: '' @
      IntToString (1 + int (length (last_line p))) @ '', '' @ ErrorCodeToString code"
    by (simp add: r(2,3) GetErrorMessage_def FormatErrorMessage_def)
  then show ?thesis using code p(1) by blast
qed

text \<open>A conversion that refuses everything: the texts below need none.\<close>

definition no_stod :: "string \<Rightarrow> stod_result" where
  "no_stod s = Stod_Throws Invalid_Argument"

definition quote :: string where "quote = [CHR 0x22]"

lemma demo_document:
  "ReadAndReturnError no_stod (''[1, {'' @ quote @ ''a'' @ quote @ '': null}]'') False =
     Done (Inr (ListValue [IntegerValue 1, DictionaryValue [(''a'', NullValue)]]))"
  by code_simp

lemma demo_refused:
  "ReadAndReturnError no_stod (''[1,'' @ [CHR 0x0A] @ '' x]'') False = Done (Inl (JSON_SYNTAX_ERROR, ''Line: 2, column: 2, Syntax error.''))"
  by code_simp

theorem document_shape_witness:
  "json_tree 100 (ListValue [IntegerValue 1, DictionaryValue [(''a'', NullValue)]]) \<and>
   GetType (ListValue [IntegerValue 1, DictionaryValue [(''a'', NullValue)]]) \<in> {TYPE_LIST, TYPE_DICTIONARY}"
  by (rule document_shape[OF demo_document])

theorem error_message_witness:
  "\<exists>p. prefix p (skip_bom (''[1,'' @ [CHR 0x0A] @ '' x]'')) \<and> ''Line: 2, column: 2, Syntax error.'' =
     ''Line: '' @ IntToString (1 + int (count_list p (CHR 0x0A))) @ '', column: '' @
      IntToString (1 + int (length (last_line p))) @ '', '' @ ErrorCodeToString JSON_SYNTAX_ERROR"
  using error_message[OF demo_refused] by simp

end
