(* ===== verification/Json_Docs.thy ===== *)
theory Json_Docs
  imports Json "HOL-Library.Sublist"
begin

text \<open>
  The documents that the reader of \<open>Json\<close> reads, as trees of their concrete syntax: white space and
  comments, the way each character of a string is written, numbers in digits, repeated keys,
  trailing commas. \<open>document_text\<close> is the text of a document, \<open>doc_value\<close> what it stands for; the
  reader gives the value for every text.
\<close>

section \<open>Concrete syntax\<close>

subsection \<open>Blanks\<close>

datatype json_blank = Space char | Line_Comment string char | Block_Comment string

fun blank_text :: "json_blank \<Rightarrow> string" where
  "blank_text (Space c) = [c]"
| "blank_text (Line_Comment s c) = ''//'' @ s @ [c]"
| "blank_text (Block_Comment s) = ''/*'' @ s @ ''*/''"

definition one_line :: "string \<Rightarrow> bool" where
  "one_line s \<longleftrightarrow> CHR 0x0A \<notin> set s \<and> CHR 0x0D \<notin> set s"

fun blank_ok :: "json_blank \<Rightarrow> bool" where
  "blank_ok (Space c) = (c \<in> {CHR '' '', CHR 0x0A, CHR 0x0D, CHR 0x09})"
| "blank_ok (Line_Comment s c) = (one_line s \<and> c \<in> {CHR 0x0A, CHR 0x0D})"
| "blank_ok (Block_Comment s) = (\<not> sublist ''*/'' s)"

type_synonym blanks = "json_blank list"

definition blanks_text :: "blanks \<Rightarrow> string" where
  "blanks_text bs = concat (map blank_text bs)"

abbreviation blanks_ok :: "blanks \<Rightarrow> bool" where
  "blanks_ok \<equiv> list_all blank_ok"

subsection \<open>Strings\<close>

text \<open>The characters that have an escape of their own: its letter after the backslash, and what it means.\<close>

datatype json_escape =
    Quotation_Mark | Reverse_Solidus | Solidus | Backspace | Form_Feed | Line_Feed | Carriage_Return
  | Horizontal_Tab | Vertical_Tab

fun escape_letter :: "json_escape \<Rightarrow> char" where
  "escape_letter Quotation_Mark = CHR 0x22"
| "escape_letter Reverse_Solidus = CHR 0x5C"
| "escape_letter Solidus = CHR ''/''"
| "escape_letter Backspace = CHR ''b''"
| "escape_letter Form_Feed = CHR ''f''"
| "escape_letter Line_Feed = CHR ''n''"
| "escape_letter Carriage_Return = CHR ''r''"
| "escape_letter Horizontal_Tab = CHR ''t''"
| "escape_letter Vertical_Tab = CHR ''v''"

fun escape_char :: "json_escape \<Rightarrow> char" where
  "escape_char Quotation_Mark = CHR 0x22"
| "escape_char Reverse_Solidus = CHR 0x5C"
| "escape_char Solidus = CHR 0x2F"
| "escape_char Backspace = CHR 0x08"
| "escape_char Form_Feed = CHR 0x0C"
| "escape_char Line_Feed = CHR 0x0A"
| "escape_char Carriage_Return = CHR 0x0D"
| "escape_char Horizontal_Tab = CHR 0x09"
| "escape_char Vertical_Tab = CHR 0x0B"

text \<open>A character as it is, by its escape, or by the two hexadecimal digits of its code.\<close>

datatype json_literal = Plain char | Escaped json_escape | Hexadecimal char char

fun literal_text :: "json_literal \<Rightarrow> string" where
  "literal_text (Plain c) = [c]"
| "literal_text (Escaped e) = [CHR 0x5C, escape_letter e]"
| "literal_text (Hexadecimal a b) = [CHR 0x5C, CHR ''x'', a, b]"

definition hex_values :: "(char \<times> nat) list" where
  "hex_values = zip ''0123456789abcdefABCDEF'' ([0..<16] @ [10..<16])"

definition hex_value :: "char \<Rightarrow> nat option" where
  "hex_value c = map_of hex_values c"

fun literal_ok :: "json_literal \<Rightarrow> bool" where
  "literal_ok (Plain c) = (c \<noteq> CHR 0x22 \<and> c \<noteq> CHR 0x5C)"
| "literal_ok (Escaped e) = True"
| "literal_ok (Hexadecimal a b) = (hex_value a \<noteq> None \<and> hex_value b \<noteq> None)"

fun literal_char :: "json_literal \<Rightarrow> char" where
  "literal_char (Plain c) = c"
| "literal_char (Escaped e) = escape_char e"
| "literal_char (Hexadecimal a b) = char_of (16 * the (hex_value a) + the (hex_value b))"

definition literals_text :: "json_literal list \<Rightarrow> string" where
  "literals_text ls = quote @ concat (map literal_text ls) @ quote"

abbreviation literals_value :: "json_literal list \<Rightarrow> string" where
  "literals_value ls \<equiv> map literal_char ls"

subsection \<open>Numbers\<close>

text \<open>
  A minus sign, digits, the digits after a point, and an exponent: its letter, its sign (or nothing)
  and its digits.
\<close>

record json_number =
  negative :: bool
  whole :: string
  fraction :: "string option"
  exponent :: "(char \<times> string \<times> string) option"

definition fraction_text :: "string option \<Rightarrow> string" where
  "fraction_text f = (case f of None \<Rightarrow> [] | Some ds \<Rightarrow> CHR ''.'' # ds)"

definition exponent_text :: "(char \<times> string \<times> string) option \<Rightarrow> string" where
  "exponent_text x = (case x of None \<Rightarrow> [] | Some (e, sign, ds) \<Rightarrow> e # sign @ ds)"

definition number_text :: "json_number \<Rightarrow> string" where
  "number_text m = (if negative m then ''-'' else []) @ whole m @ fraction_text (fraction m) @ exponent_text (exponent m)"

definition digits :: "string \<Rightarrow> bool" where
  "digits ds \<longleftrightarrow> ds \<noteq> [] \<and> list_all is_digit ds"

definition number_ok :: "json_number \<Rightarrow> bool" where
  "number_ok m \<longleftrightarrow> digits (whole m) \<and> (hd (whole m) = CHR ''0'' \<longrightarrow> length (whole m) = 1) \<and>
     (case fraction m of None \<Rightarrow> True | Some ds \<Rightarrow> digits ds) \<and>
     (case exponent m of None \<Rightarrow> True
      | Some (e, sign, ds) \<Rightarrow> e \<in> {CHR ''e'', CHR ''E''} \<and> sign \<in> {[], ''+'', ''-''} \<and> digits ds)"

text \<open>
  A number without fraction and exponent is an integer if it has 32 bits; any other is what the C library
  makes of the whole text.
\<close>

definition number_integer :: "json_number \<Rightarrow> int option" where
  "number_integer m =
     (if fraction m = None \<and> exponent m = None
      then Some (if negative m then - dec_from 0 (whole m) else dec_from 0 (whole m)) else None)"

definition number_double :: "(string \<Rightarrow> stod_result) \<Rightarrow> json_number \<Rightarrow> Value option" where
  "number_double stod m =
     (case stod (number_text m) of
        Stod_Value x pos errno_set \<Rightarrow>
          if \<not> errno_set \<and> pos = length (number_text m) \<and> IsFinite x then Some (DoubleValue x) else None
      | Stod_Throws e \<Rightarrow> None)"

definition number_value :: "(string \<Rightarrow> stod_result) \<Rightarrow> json_number \<Rightarrow> Value option" where
  "number_value stod m =
     (case number_integer m of
        Some i \<Rightarrow> if - (2 ^ 31) \<le> i \<and> i < 2 ^ 31 then Some (IntegerValue i) else number_double stod m
      | None \<Rightarrow> number_double stod m)"

subsection \<open>Values\<close>

text \<open>
  The elements of an array and the entries of an object carry the blanks around them: after the
  element and, if a comma follows, after the comma; an entry also those on the two sides of the colon. The
  first blanks of an array or an object are those after its bracket, the flag is a trailing comma.
\<close>

datatype json_doc =
    Null_Doc
  | Bool_Doc bool
  | Number_Doc json_number
  | String_Doc "json_literal list"
  | Array_Doc blanks "json_item list" bool
  | Object_Doc blanks "json_entry list" bool
and json_item = Item json_doc blanks blanks
and json_entry = Entry "json_literal list" blanks blanks json_doc blanks blanks

definition comma :: "bool \<Rightarrow> blanks \<Rightarrow> string" where
  "comma present after = (if present then CHR '','' # blanks_text after else [])"

fun doc_text :: "json_doc \<Rightarrow> string"
  and items_text :: "bool \<Rightarrow> json_item list \<Rightarrow> string"
  and entries_text :: "bool \<Rightarrow> json_entry list \<Rightarrow> string" where
  "doc_text Null_Doc = ''null''"
| "doc_text (Bool_Doc b) = (if b then ''true'' else ''false'')"
| "doc_text (Number_Doc m) = number_text m"
| "doc_text (String_Doc ls) = literals_text ls"
| "doc_text (Array_Doc b is trailing) = ''['' @ blanks_text b @ items_text trailing is @ '']''"
| "doc_text (Object_Doc b es trailing) = ''{'' @ blanks_text b @ entries_text trailing es @ ''}''"
| "items_text trailing [] = []"
| "items_text trailing (Item d b c # is) =
     doc_text d @ blanks_text b @ comma (is \<noteq> [] \<or> trailing) c @ items_text trailing is"
| "entries_text trailing [] = []"
| "entries_text trailing (Entry k u v d b c # es) =
     literals_text k @ blanks_text u @ '':'' @ blanks_text v @
     doc_text d @ blanks_text b @ comma (es \<noteq> [] \<or> trailing) c @ entries_text trailing es"

text \<open>A document of at most \<open>n\<close> levels that is read with or without trailing commas allowed.\<close>

fun doc_ok :: "(string \<Rightarrow> stod_result) \<Rightarrow> bool \<Rightarrow> nat \<Rightarrow> json_doc \<Rightarrow> bool" where
  "doc_ok stod allow 0 d = False"
| "doc_ok stod allow (Suc n) (Number_Doc m) = (number_ok m \<and> number_value stod m \<noteq> None)"
| "doc_ok stod allow (Suc n) (String_Doc ls) = list_all literal_ok ls"
| "doc_ok stod allow (Suc n) (Array_Doc b is trailing) = (blanks_ok b \<and> (trailing \<longrightarrow> allow) \<and>
     list_all (\<lambda>i. case i of Item d b c \<Rightarrow> doc_ok stod allow n d \<and> blanks_ok b \<and> blanks_ok c) is)"
| "doc_ok stod allow (Suc n) (Object_Doc b es trailing) = (blanks_ok b \<and> (trailing \<longrightarrow> allow) \<and>
     list_all (\<lambda>e. case e of Entry k u v d b c \<Rightarrow> list_all literal_ok k \<and> blanks_ok u \<and> blanks_ok v \<and>
       doc_ok stod allow n d \<and> blanks_ok b \<and> blanks_ok c) es)"
| "doc_ok stod allow (Suc n) d = True"

text \<open>What a document stands for: of the entries with the same key, the last one.\<close>

fun doc_value :: "(string \<Rightarrow> stod_result) \<Rightarrow> json_doc \<Rightarrow> Value"
  and items_value :: "(string \<Rightarrow> stod_result) \<Rightarrow> json_item list \<Rightarrow> Value list"
  and entries_value :: "(string \<Rightarrow> stod_result) \<Rightarrow> json_entry list \<Rightarrow> dictionary \<Rightarrow> dictionary" where
  "doc_value stod Null_Doc = NullValue"
| "doc_value stod (Bool_Doc b) = BooleanValue b"
| "doc_value stod (Number_Doc m) = the_default NullValue (number_value stod m)"
| "doc_value stod (String_Doc ls) = StringValue (literals_value ls)"
| "doc_value stod (Array_Doc b is trailing) = ListValue (items_value stod is)"
| "doc_value stod (Object_Doc b es trailing) = DictionaryValue (entries_value stod es [])"
| "items_value stod [] = []"
| "items_value stod (Item d b c # is) = doc_value stod d # items_value stod is"
| "entries_value stod [] dict = dict"
| "entries_value stod (Entry k u v d b c # es) dict =
     entries_value stod es (SetWithoutPathExpansion (literals_value k) (doc_value stod d) dict)"

fun is_container :: "json_doc \<Rightarrow> bool" where
  "is_container (Array_Doc b is trailing) = True"
| "is_container (Object_Doc b es trailing) = True"
| "is_container d = False"

subsection \<open>Texts\<close>

text \<open>
  A whole text: a byte order mark, the array or object between blanks, and a comment that the end
  of the text ends.
\<close>

record document =
  marked :: bool
  doc_before :: blanks
  doc_root :: json_doc
  doc_after :: blanks
  last_line :: "string option"

definition document_text :: "document \<Rightarrow> string" where
  "document_text f = (if marked f then [CHR 0xEF, CHR 0xBB, CHR 0xBF] else []) @ blanks_text (doc_before f) @
     doc_text (doc_root f) @ blanks_text (doc_after f) @ (case last_line f of None \<Rightarrow> [] | Some s \<Rightarrow> ''//'' @ s)"

definition document_ok :: "(string \<Rightarrow> stod_result) \<Rightarrow> bool \<Rightarrow> document \<Rightarrow> bool" where
  "document_ok stod allow f \<longleftrightarrow> blanks_ok (doc_before f) \<and> doc_ok stod allow 100 (doc_root f) \<and>
     is_container (doc_root f) \<and> blanks_ok (doc_after f) \<and>
     (case last_line f of None \<Rightarrow> True | Some s \<Rightarrow> one_line s)"

section \<open>Blanks are eaten\<close>

lemma skip_line_comment: "one_line s \<Longrightarrow> c \<in> {CHR 0x0A, CHR 0x0D} \<Longrightarrow> skip_line (s @ c # rest) = rest"
  by (induction s) (auto simp: one_line_def)

lemma skip_line_end: "one_line s \<Longrightarrow> skip_line s = []"
  by (induction s) (auto simp: one_line_def)

lemma skip_block_comment: "\<not> sublist ''*/'' s \<Longrightarrow> skip_block (s @ ''*/'' @ rest) = rest"
proof (induction s)
  case (Cons c s)
  then have "\<not> (c = CHR ''*'' \<and> deref (s @ ''*/'' @ rest) = CHR ''/'')"
    by (cases s) (auto simp: sublist_Cons_right)
  then show ?case using Cons by (auto simp: sublist_Cons_right)
qed simp

lemma eat_blank:
  assumes "blank_ok b"
  shows "eat_whitespace (blank_text b @ rest) = eat_whitespace rest"
proof (cases b)
  case (Line_Comment s c)
  then show ?thesis
    using skip_line_comment[of s c rest] assms by (simp add: EatComment_def)
next
  case (Block_Comment s)
  then show ?thesis
    using skip_block_comment[of s rest] assms by (simp add: EatComment_def)
qed (use assms in auto)

lemma eat_blanks [simp]: "blanks_ok bs \<Longrightarrow> eat_whitespace (blanks_text bs @ rest) = eat_whitespace rest"
  by (induction bs) (auto simp: blanks_text_def eat_blank)

lemma eat_plain: "deref p \<notin> {CHR '' '', CHR 0x0A, CHR 0x0D, CHR 0x09, CHR ''/''} \<Longrightarrow> eat_whitespace p = p"
  by (cases p) auto

lemma eat_last_line: "one_line s \<Longrightarrow> eat_whitespace (''//'' @ s) = []"
  by (simp add: EatComment_def skip_line_end)

text \<open>What may follow a value.\<close>

definition delim :: "string \<Rightarrow> bool" where
  "delim rest \<longleftrightarrow> deref rest \<notin> {CHR ''.'', CHR ''e'', CHR ''E''} \<and> \<not> IsAsciiDigit (deref rest)"

lemma delim_simps [simp]:
  "delim []" "delim (CHR '','' # s)" "delim (CHR '']'' # s)" "delim (CHR ''}'' # s)" "delim (CHR ''/'' # s)"
  by (simp_all add: delim_def IsAsciiDigit_def less_eq_char_def)

lemma delim_blanks [simp]: "blanks_ok bs \<Longrightarrow> delim rest \<Longrightarrow> delim (blanks_text bs @ rest)"
proof (cases bs)
  case (Cons b bs')
  then show "blanks_ok bs \<Longrightarrow> delim (blanks_text bs @ rest)"
    by (cases b) (auto simp: blanks_text_def delim_def IsAsciiDigit_def less_eq_char_def)
qed (simp add: blanks_text_def)

lemma delim_comma [simp]: "delim rest \<Longrightarrow> delim (comma p c @ rest)"
  by (simp add: comma_def)

section \<open>Tokens\<close>

subsection \<open>Strings\<close>

lemma hex_value_digit:
  assumes "hex_value c = Some x"
  shows "IsHexDigit c" "CharToDigit 16 c = Some (int x)" "x < 16" "c \<noteq> CHR 0x00"
proof -
  have "(c, x) \<in> set hex_values" using assms by (auto simp: hex_value_def dest: map_of_SomeD)
  moreover have "\<forall>(c, x) \<in> set hex_values. IsHexDigit c \<and> CharToDigit 16 c = Some (int x) \<and> x < 16 \<and> c \<noteq> CHR 0x00"
    by code_simp
  ultimately show "IsHexDigit c" "CharToDigit 16 c = Some (int x)" "x < 16" "c \<noteq> CHR 0x00" by fastforce+
qed

lemma unescape_letter: "unescape (escape_letter e) = Some (escape_char e)"
  by (cases e) (simp_all add: unescape_def)

lemma escape_letters: "escape_letter e \<notin> {CHR ''x'', CHR ''u'', CHR 0x00}"
  by (cases e) simp_all

lemma scan_literal:
  assumes "literal_ok l"
  shows "scan_string n (literal_text l @ rest) = scan_string (n + length (literal_text l)) rest"
proof (cases l)
  case (Escaped e)
  then show ?thesis by (cases e) (simp_all add: Let_def)
next
  case (Hexadecimal a b)
  then obtain x y where "hex_value a = Some x" "hex_value b = Some y" using assms by auto
  then have "IsHexDigit a" "IsHexDigit b" "a \<noteq> CHR 0x00" "b \<noteq> CHR 0x00" using hex_value_digit by blast+
  then show ?thesis using Hexadecimal by (auto simp: Let_def numeral_2_eq_2 eval_nat_numeral)
qed (use assms in auto)

lemma scan_literals:
  "list_all literal_ok ls \<Longrightarrow> scan_string n (concat (map literal_text ls) @ CHR 0x22 # rest) =
     Closed (n + length (concat (map literal_text ls)) + 1)"
  by (induction ls arbitrary: n) (auto simp: scan_literal)

lemma decode_literal:
  assumes "literal_ok l"
  shows "decode_loop (length (literal_text l) + n) (literal_text l @ rest) out = decode_loop n rest (out @ [literal_char l])"
proof (cases l)
  case (Plain c)
  then show ?thesis using assms by (subst decode_loop.simps) simp
next
  case (Escaped e)
  then show ?thesis
    using escape_letters[of e] unescape_letter[of e] by (subst decode_loop.simps) (simp add: Let_def)
next
  case (Hexadecimal a b)
  then obtain x y where x: "hex_value a = Some x" and y: "hex_value b = Some y" using assms by auto
  define v where "v = 16 * x + y"
  have "HexStringToInt [a, b] = (True, int v)"
    using HexStringToInt_two[of a "int x" b "int y"] hex_value_digit(2) x y by (simp add: v_def)
  moreover have "nat (int v mod 256) = v"
    using hex_value_digit(3)[OF x] hex_value_digit(3)[OF y] by (simp add: v_def)
  moreover have "literal_char l = char_of v" using Hexadecimal x y by (simp add: v_def)
  ultimately show ?thesis
    using Hexadecimal by (subst decode_loop.simps) (simp add: Let_def numeral_2_eq_2 eval_nat_numeral del: literal_char.simps)
qed

lemma decode_literals:
  "list_all literal_ok ls \<Longrightarrow> decode_loop (length (concat (map literal_text ls))) (concat (map literal_text ls) @ rest) out =
     Some (out @ literals_value ls)"
proof (induction ls arbitrary: out)
  case Nil
  then show ?case by (simp add: decode_loop.simps[of 0])
next
  case (Cons l ls)
  then show ?case
    using decode_literal[of l "length (concat (map literal_text ls))" "concat (map literal_text ls) @ rest"] by simp
qed

lemma token_at_string:
  assumes "list_all literal_ok ls"
  shows "token_at (literals_text ls @ rest) = json_token STRING (literals_text ls @ rest) (length (literals_text ls))"
  using scan_literals[OF assms, of 1] by (simp add: token_at_def literals_text_def quote_def)

lemma DecodeString_string:
  assumes "list_all literal_ok ls"
  shows "DecodeString (token_at (literals_text ls @ rest)) = Some (StringValue (literals_value ls))"
  unfolding token_at_string[OF assms] using decode_literals[OF assms]
  by (simp add: DecodeString_def literals_text_def quote_def)

subsection \<open>Numbers\<close>

lemma IsAsciiDigit_iff: "IsAsciiDigit c \<longleftrightarrow> is_digit c"
proof -
  have "char_code c = int (of_char c)" by (simp add: char_code_def of_nat_of_char)
  then show ?thesis by (auto simp: IsAsciiDigit_def is_digit_def less_eq_char_def)
qed

lemma not_digit_mark [simp]: "\<not> is_digit CHR 0x00" "\<not> is_digit CHR ''.''" "\<not> is_digit CHR ''e''" "\<not> is_digit CHR ''E''"
  by (simp_all add: is_digit_def char_code_def)

lemma count_digits_all:
  "list_all is_digit ds \<Longrightarrow> \<not> is_digit (deref rest) \<Longrightarrow> count_digits (ds @ rest) = length ds"
proof (induction ds)
  case Nil
  then show ?case by (cases rest) (auto simp: IsAsciiDigit_iff)
next
  case (Cons d ds)
  then show ?case by (auto simp: IsAsciiDigit_iff)
qed

lemma ReadInt_digits:
  assumes "digits ds" "\<not> is_digit (deref rest)" "\<not> zeros \<Longrightarrow> hd ds = CHR ''0'' \<Longrightarrow> length ds = 1"
    and "drop k p = ds @ rest"
  shows "ReadInt (json_token NUMBER p k) zeros = (True, json_token NUMBER p (k + length ds))"
proof -
  obtain d ds' where "ds = d # ds'" using assms(1) by (cases ds) (auto simp: digits_def)
  then show ?thesis
    using assms count_digits_all[of ds rest]
    by (auto simp: ReadInt_def Let_def NextChar_def json_token_def digits_def)
qed

lemma NextChar_at [simp]: "NextChar (json_token NUMBER p k) = deref (drop k p)"
  by (simp add: NextChar_def json_token_def)

lemma longer_at [simp]: "longer (json_token NUMBER p k) = json_token NUMBER p (Suc k)"
  by (simp add: longer_def json_token_def)

lemma drop_next: "drop k p = c # s \<Longrightarrow> drop (Suc k) p = s"
  by (metis drop_Suc list.sel(3) tl_drop)

lemma digits_sign: "digits ds \<Longrightarrow> deref (ds @ s) \<noteq> CHR ''-''" "digits ds \<Longrightarrow> deref (ds @ s) \<noteq> CHR ''+''"
  by (cases ds; auto simp: digits_def is_digit_def char_code_def)+

lemma read_exponent_text:
  assumes "drop k p = exponent_text x @ rest" "delim rest"
    and "case x of None \<Rightarrow> True | Some (e, sign, ds) \<Rightarrow> e \<in> {CHR ''e'', CHR ''E''} \<and> sign \<in> {[], ''+'', ''-''} \<and> digits ds"
  shows "read_exponent (json_token NUMBER p k) = json_token NUMBER p (k + length (exponent_text x))"
proof (cases x)
  case None
  then show ?thesis using assms by (auto simp: read_exponent_def exponent_text_def delim_def)
next
  case (Some y)
  obtain e sign ds where y: "y = (e, sign, ds)" by (cases y)
  note x = Some[unfolded y]
  have ok: "e \<in> {CHR ''e'', CHR ''E''}" "sign \<in> {[], ''+'', ''-''}" "digits ds"
    using assms(3) by (simp_all add: x)
  have at: "drop k p = e # sign @ ds @ rest" using assms(1) by (simp add: x exponent_text_def)
  note at1 = drop_next[OF at]
  let ?k = "Suc k + length sign"
  have at2: "drop ?k p = ds @ rest" using at1 by (metis add.commute append_eq_conv_conj drop_drop)
  have R: "ReadInt (json_token NUMBER p ?k) True = (True, json_token NUMBER p (?k + length ds))"
    by (rule ReadInt_digits[OF ok(3) _ _ at2]) (use assms(2) in \<open>simp_all add: delim_def IsAsciiDigit_iff\<close>)
  have sign: "(if NextChar (json_token NUMBER p (Suc k)) = CHR ''-'' \<or> NextChar (json_token NUMBER p (Suc k)) = CHR ''+''
      then json_token NUMBER p (Suc (Suc k)) else json_token NUMBER p (Suc k)) = json_token NUMBER p ?k"
    using ok(2) at1 digits_sign[OF ok(3), of rest] by auto
  have "NextChar (json_token NUMBER p k) = CHR ''e'' \<or> NextChar (json_token NUMBER p k) = CHR ''E''"
    using at ok(1) by auto
  then show ?thesis
    unfolding read_exponent_def Let_def longer_at sign R by (simp add: x exponent_text_def)
qed

lemma ParseNumberToken_number:
  assumes "number_ok m" "delim rest"
  shows "ParseNumberToken (number_text m @ rest) = json_token NUMBER (number_text m @ rest) (length (number_text m))"
proof -
  let ?p = "number_text m @ rest" and ?k = "if negative m then 1 else 0 :: nat"
  let ?f = "fraction_text (fraction m)" and ?x = "exponent_text (exponent m)"
  have w: "digits (whole m)" "hd (whole m) = CHR ''0'' \<Longrightarrow> length (whole m) = 1"
    and f: "\<And>ds. fraction m = Some ds \<Longrightarrow> digits ds"
    and x: "case exponent m of None \<Rightarrow> True | Some (e, sign, ds) \<Rightarrow> e \<in> {CHR ''e'', CHR ''E''} \<and> sign \<in> {[], ''+'', ''-''} \<and> digits ds"
    using assms(1) by (simp_all add: number_ok_def)
  have start: "(if CHR ''-'' = deref ?p then longer (json_token NUMBER ?p 0) else json_token NUMBER ?p 0) = json_token NUMBER ?p ?k"
    using digits_sign[OF w(1)] by (auto simp: number_text_def dest: sym[of "CHR ''-''"])
  have at1: "drop ?k ?p = whole m @ ?f @ ?x @ rest" by (simp add: number_text_def)
  let ?k1 = "?k + length (whole m)"
  have at2: "drop ?k1 ?p = ?f @ ?x @ rest" using at1 by (metis add.commute append_eq_conv_conj drop_drop)
  have xd: "\<not> is_digit (deref (?x @ rest))" "deref (?x @ rest) \<noteq> CHR ''.''"
    using assms(2) x by (auto simp: exponent_text_def delim_def IsAsciiDigit_iff split: option.splits)
  have fd: "\<not> is_digit (deref (?f @ ?x @ rest))"
    using xd by (auto simp: fraction_text_def split: option.splits)
  have R: "ReadInt (json_token NUMBER ?p ?k) False = (True, json_token NUMBER ?p ?k1)"
    using ReadInt_digits[OF w(1) fd _ at1] w(2) by simp
  show ?thesis
  proof (cases "fraction m")
    case None
    then have "drop ?k1 ?p = ?x @ rest" using at2 by (simp add: fraction_text_def)
    then show ?thesis
      unfolding ParseNumberToken_def start Let_def using R xd read_exponent_text[OF _ assms(2) x, of ?k1 ?p] None
      by (simp add: number_text_def fraction_text_def)
  next
    case (Some ds)
    then have at3: "drop ?k1 ?p = CHR ''.'' # ds @ ?x @ rest" using at2 by (simp add: fraction_text_def)
    let ?k2 = "Suc ?k1 + length ds"
    have R2: "ReadInt (json_token NUMBER ?p (Suc ?k1)) True = (True, json_token NUMBER ?p ?k2)"
      by (rule ReadInt_digits[OF f[OF Some] xd(1) _ drop_next[OF at3]]) simp
    have "drop ?k2 ?p = ?x @ rest"
      using drop_next[OF at3] by (metis add.commute append_eq_conv_conj drop_drop)
    then show ?thesis
      unfolding ParseNumberToken_def start Let_def using R at3 R2 read_exponent_text[OF _ assms(2) x, of ?k2 ?p] Some
      by (simp add: number_text_def fraction_text_def)
  qed
qed

lemma number_head:
  assumes "number_ok m"
  obtains c cs where "number_text m = c # cs" "c = CHR ''-'' \<or> is_digit c"
proof -
  obtain d ds where "whole m = d # ds" "is_digit d"
    using assms by (cases "whole m") (auto simp: number_ok_def digits_def)
  then show thesis using that by (cases "negative m") (auto simp: number_text_def)
qed

lemma not_blank_digit: "c = CHR ''-'' \<or> is_digit c \<Longrightarrow> c \<notin> {CHR '' '', CHR 0x0A, CHR 0x0D, CHR 0x09, CHR ''/''}"
  by (auto simp: is_digit_def char_code_def)

lemma token_at_number:
  assumes "number_ok m" "delim rest"
  shows "token_at (number_text m @ rest) = json_token NUMBER (number_text m @ rest) (length (number_text m))"
proof -
  obtain c cs where c: "number_text m = c # cs" "c = CHR ''-'' \<or> is_digit c" using number_head[OF assms(1)] .
  then have "IsAsciiDigit c \<or> c = CHR ''-''" by (auto simp: IsAsciiDigit_iff)
  moreover have "c \<notin> {CHR 0x22, CHR 0x00, CHR ''n'', CHR ''t'', CHR ''f'', CHR ''['', CHR '']'', CHR '','', CHR ''{'', CHR ''}'', CHR '':''}"
    using c(2) by (auto simp: is_digit_def char_code_def)
  ultimately have "token_at (c # cs @ rest) = ParseNumberToken (c # cs @ rest)"
    by (simp add: token_at_def plain_token_def Let_def)
  then show ?thesis using ParseNumberToken_number[OF assms] c(1) by simp
qed

text \<open>The conversion of the reader takes exactly the integers.\<close>

lemma StringToInt_number:
  assumes "number_ok m"
  shows "StringToInt (number_text m) = (True, i) \<longleftrightarrow> number_integer m = Some i \<and> - (2 ^ 31) \<le> i \<and> i < 2 ^ 31"
proof -
  have d: "digits (whole m)" using assms by (simp add: number_ok_def)
  have hd: "deref (whole m @ s) \<noteq> CHR ''-''" "deref (whole m @ s) \<noteq> CHR ''+''" for s using digits_sign[OF d] by auto
  have "dec_text (number_text m) = number_integer m"
  proof (cases "fraction m = None \<and> exponent m = None")
    case True
    then show ?thesis
      using d hd[of "[]"] by (cases "whole m") (auto simp: dec_text_def number_text_def number_integer_def digits_def
          fraction_text_def exponent_text_def)
  next
    case False
    then have "\<not> list_all is_digit (whole m @ fraction_text (fraction m) @ exponent_text (exponent m))"
      using assms by (auto simp: number_ok_def fraction_text_def exponent_text_def split: option.splits)
    then show ?thesis
      using d hd[of "fraction_text (fraction m) @ exponent_text (exponent m)"] False
      by (cases "whole m") (auto simp: dec_text_def number_text_def number_integer_def digits_def)
  qed
  then show ?thesis using IteratorRangeToNumber_signed[of 32 "number_text m" i] by (simp add: StringToInt_def)
qed

lemma number_value_reader:
  assumes "number_ok m"
  shows "number_value stod m =
    (case StringToInt (number_text m) of (True, i) \<Rightarrow> Some (IntegerValue i) | (False, _) \<Rightarrow> number_double stod m)"
proof (cases "StringToInt (number_text m)")
  case (Pair ok i)
  show ?thesis
  proof (cases ok)
    case True
    then show ?thesis using StringToInt_number[OF assms, of i] Pair by (simp add: number_value_def)
  next
    case False
    then have "\<not> (number_integer m = Some j \<and> - (2 ^ 31) \<le> j \<and> j < 2 ^ 31)" for j
      using StringToInt_number[OF assms, of j] Pair by simp
    then show ?thesis using Pair False by (auto simp: number_value_def split: option.split)
  qed
qed

lemma DecodeNumber_number:
  assumes "number_ok m" "delim rest" "number_value stod m = Some v"
  shows "DecodeNumber stod (token_at (number_text m @ rest)) = Done (Some v)"
proof -
  obtain c cs where c: "number_text m = c # cs" "c = CHR ''-'' \<or> is_digit c" using number_head[OF assms(1)] .
  then have "\<not> LocalIsWhitespace c" by (auto dest: LocalIsWhitespace_code simp: is_digit_def)
  then show ?thesis
    using assms(3) c(1) unfolding token_at_number[OF assms(1,2)]
    by (auto simp: DecodeNumber_def number_value_reader[OF assms(1)] number_double_def StringToDouble_def CreateDoubleValue_def outcome_simps
        split: prod.splits bool.splits stod_result.splits if_splits)
qed

subsection \<open>Punctuation and words\<close>

lemma ParseToken_here:
  assumes "eat_whitespace (json_pos r) = p" "tok_type (token_at p) \<noteq> INVALID_TOKEN"
  shows "ParseToken r = (Done (token_at p), r\<lparr>json_pos := p\<rparr>)"
  using ParseToken_run[of r] assms by metis

lemma punctuation:
  "token_at (CHR ''['' # s) = json_token ARRAY_BEGIN (CHR ''['' # s) 1"
  "token_at (CHR '']'' # s) = json_token ARRAY_END (CHR '']'' # s) 1"
  "token_at (CHR '','' # s) = json_token LIST_SEPARATOR (CHR '','' # s) 1"
  "token_at (CHR ''{'' # s) = json_token OBJECT_BEGIN (CHR ''{'' # s) 1"
  "token_at (CHR ''}'' # s) = json_token OBJECT_END (CHR ''}'' # s) 1"
  "token_at (CHR '':'' # s) = json_token OBJECT_PAIR_SEPARATOR (CHR '':'' # s) 1"
  by (simp_all add: token_at_def plain_token_def)

lemma words:
  "token_at (''null'' @ s) = json_token NULL_TOKEN (''null'' @ s) 4"
  "token_at (''true'' @ s) = json_token BOOL_TRUE (''true'' @ s) 4"
  "token_at (''false'' @ s) = json_token BOOL_FALSE (''false'' @ s) 5"
  by (simp_all add: token_at_def plain_token_def NextStringMatch_def)

lemma token_fields [simp]:
  "tok_type (json_token t p n) = t" "tok_begin (json_token t p n) = p" "tok_length (json_token t p n) = n"
  by (simp_all add: json_token_def)

fun doc_token :: "json_doc \<Rightarrow> token_type" where
  "doc_token Null_Doc = NULL_TOKEN"
| "doc_token (Bool_Doc b) = (if b then BOOL_TRUE else BOOL_FALSE)"
| "doc_token (Number_Doc m) = NUMBER"
| "doc_token (String_Doc ls) = STRING"
| "doc_token (Array_Doc b is trailing) = ARRAY_BEGIN"
| "doc_token (Object_Doc b es trailing) = OBJECT_BEGIN"

lemma doc_token_types [simp]:
  "doc_token d \<noteq> INVALID_TOKEN" "doc_token d \<noteq> ARRAY_END" "doc_token d \<noteq> OBJECT_END"
  by (cases d; simp)+

lemma string_starts [simp]: "eat_whitespace (literals_text ls @ rest) = literals_text ls @ rest"
  by (intro eat_plain) (simp add: literals_text_def quote_def)

lemma literals_nonempty [simp]: "literals_text ls \<noteq> []"
  by (simp add: literals_text_def quote_def)

lemma doc_starts:
  assumes "doc_ok stod a n d" "delim rest"
  shows "tok_type (token_at (doc_text d @ rest)) = doc_token d"
    and "eat_whitespace (doc_text d @ rest) = doc_text d @ rest" and "0 < length (doc_text d)"
proof -
  obtain n' where n: "n = Suc n'" using assms(1) by (cases n) auto
  have "tok_type (token_at (doc_text d @ rest)) = doc_token d \<and>
    eat_whitespace (doc_text d @ rest) = doc_text d @ rest \<and> 0 < length (doc_text d)"
  proof (cases d)
    case (Number_Doc m)
    then have m: "number_ok m" using assms(1) by (simp add: n)
    obtain c cs where c: "number_text m = c # cs" "c = CHR ''-'' \<or> is_digit c" using number_head[OF m] .
    have "eat_whitespace ((c # cs) @ rest) = (c # cs) @ rest"
      using not_blank_digit[OF c(2)] by (intro eat_plain) simp
    then show ?thesis using token_at_number[OF m assms(2)] c(1) Number_Doc by simp
  next
    case (String_Doc ls)
    then show ?thesis using token_at_string[of ls rest] assms(1) by (simp add: n)
  qed (use words[of rest] in \<open>auto simp: punctuation eat_plain\<close>)
  then show "tok_type (token_at (doc_text d @ rest)) = doc_token d"
    "eat_whitespace (doc_text d @ rest) = doc_text d @ rest" "0 < length (doc_text d)"
    by simp_all
qed

section \<open>Reading a document\<close>

definition reads :: "(string \<Rightarrow> stod_result) \<Rightarrow> bool \<Rightarrow> nat \<Rightarrow> json_doc \<Rightarrow> bool" where
  "reads stod a n d \<longleftrightarrow> (\<forall>r rest fuel root. eat_whitespace (json_pos r) = doc_text d @ rest \<longrightarrow> delim rest \<longrightarrow>
     2 * length (json_pos r) + 1 \<le> fuel \<longrightarrow> stack_depth r + int n \<le> 100 \<longrightarrow> allow_trailing_comma r = a \<longrightarrow>
     (root \<longrightarrow> is_container d) \<longrightarrow>
     BuildValue stod fuel root r = (Done (Some (doc_value stod d)), r\<lparr>json_pos := rest\<rparr>))"

lemma readsD:
  assumes "reads stod a n d" "eat_whitespace (json_pos r) = doc_text d @ rest" "delim rest"
    and "2 * length (json_pos r) + 1 \<le> fuel" "stack_depth r + int n \<le> 100" "allow_trailing_comma r = a"
    and "root \<longrightarrow> is_container d"
  shows "BuildValue stod fuel root r = (Done (Some (doc_value stod d)), r\<lparr>json_pos := rest\<rparr>)"
  using assms unfolding reads_def by blast

lemma reader_updates [simp]:
  "r\<lparr>stack_depth := k, json_pos := p, stack_depth := k'\<rparr> = r\<lparr>stack_depth := k', json_pos := p\<rparr>"
  "r\<lparr>json_pos := p, stack_depth := k\<rparr> = r\<lparr>stack_depth := k, json_pos := p\<rparr>"
  "r\<lparr>stack_depth := stack_depth r, json_pos := p\<rparr> = r\<lparr>json_pos := p\<rparr>"
  by simp_all

lemma scalar_reads:
  assumes "doc_ok stod a (Suc n) d" "\<not> is_container d"
  shows "reads stod a (Suc n) d"
  unfolding reads_def
proof (intro allI impI)
  fix rest fuel root and r :: json_reader
  assume p: "eat_whitespace (json_pos r) = doc_text d @ rest" and d: "delim rest" "2 * length (json_pos r) + 1 \<le> fuel"
    and depth: "stack_depth r + int (Suc n) \<le> 100" and root: "root \<longrightarrow> is_container d"
  obtain f where f: "fuel = Suc f" using d(2) by (cases fuel) auto
  let ?p = "doc_text d @ rest"
  let ?r = "r\<lparr>stack_depth := stack_depth r + 1\<rparr>" and ?t = "token_at ?p"
  let ?q = "?r\<lparr>json_pos := ?p\<rparr>"
  note s = doc_starts[OF assms(1) d(1)]
  have lim: "\<not> stack_depth r + 1 > kStackLimit" using depth by (simp add: kStackLimit_def)
  have P: "ParseToken ?r = (Done ?t, ?q)"
    using ParseToken_here[of ?r ?p] s(1) p by simp
  have fin: "finish (Some (doc_value stod d, ?t)) ?q = (Done (Some (doc_value stod d)), r\<lparr>json_pos := rest\<rparr>)"
    if "tok_length ?t = length (doc_text d)"
    using that by (simp add: finish_def advance_def method_simps)
  have "bindm (case doc_token d of
              NULL_TOKEN \<Rightarrow> decoded ?t (Some NullValue)
            | BOOL_TRUE \<Rightarrow> decoded ?t (Some (BooleanValue True))
            | BOOL_FALSE \<Rightarrow> decoded ?t (Some (BooleanValue False))
            | NUMBER \<Rightarrow> bindm (Pair (DecodeNumber stod ?t)) (decoded ?t)
            | STRING \<Rightarrow> decoded ?t (DecodeString ?t)
            | ARRAY_BEGIN \<Rightarrow> seq (advance ?t) (bindm ParseToken (array_loop stod f []))
            | OBJECT_BEGIN \<Rightarrow> seq (advance ?t) (bindm ParseToken (object_loop stod f []))
            | _ \<Rightarrow> ret None) finish ?q = (Done (Some (doc_value stod d)), r\<lparr>json_pos := rest\<rparr>)"
  proof (cases d)
    case (Number_Doc m)
    then obtain v where m: "number_ok m" "number_value stod m = Some v" using assms(1) by auto
    show ?thesis
      using fin Number_Doc DecodeNumber_number[OF m(1) d(1) m(2)] token_at_number[OF m(1) d(1)] m(2)
      by (simp add: decoded_def bindm_assoc method_simps)
  next
    case (String_Doc ls)
    then have "list_all literal_ok ls" using assms(1) by simp
    then show ?thesis
      using fin String_Doc DecodeString_string[of ls rest] token_at_string[of ls rest] by (simp add: decoded_def method_simps)
  qed (use assms fin words[of rest] in \<open>auto simp: decoded_def method_simps\<close>)
  then show "BuildValue stod fuel root r = (Done (Some (doc_value stod d)), r\<lparr>json_pos := rest\<rparr>)"
    using s root assms(2) lim P by (auto simp: f bindm_def[of ParseToken] seq_def bindm_modify method_simps)
qed

text \<open>What follows an element: the bracket, a comma and the next element, or a last comma.\<close>

lemma after_end:
  assumes "eat_whitespace (json_pos r) = c # rest" "(closing, c) \<in> {(ARRAY_END, CHR '']''), (OBJECT_END, CHR ''}'')}"
  shows "after_element closing r = (Done (Some (False, token_at (c # rest))), r\<lparr>json_pos := c # rest\<rparr>)"
proof -
  have "ParseToken r = (Done (token_at (c # rest)), r\<lparr>json_pos := c # rest\<rparr>)" "tok_type (token_at (c # rest)) = closing"
    using ParseToken_here[OF assms(1)] assms(2) by (auto simp: punctuation)
  then show ?thesis
    using assms(2) by (auto simp: after_element_def bindm_def[of ParseToken] method_simps)
qed

lemma after_comma_token:
  assumes "eat_whitespace (json_pos r) = CHR '','' # q" "eat_whitespace q = s" "tok_type (token_at s) \<noteq> INVALID_TOKEN"
  shows "after_element closing r =
    (if tok_type (token_at s) = closing then
       bindm (gets allow_trailing_comma) (\<lambda>allowed.
         if \<not> allowed then fail_at JSON_TRAILING_COMMA else ret (Some (False, token_at s)))
     else ret (Some (True, token_at s))) (r\<lparr>json_pos := s\<rparr>)"
proof -
  have "ParseToken r = (Done (token_at (CHR '','' # q)), r\<lparr>json_pos := CHR '','' # q\<rparr>)"
    using ParseToken_here[OF assms(1)] by (simp add: punctuation)
  moreover have "ParseToken (r\<lparr>json_pos := q\<rparr>) = (Done (token_at s), r\<lparr>json_pos := s\<rparr>)"
    using ParseToken_here[of "r\<lparr>json_pos := q\<rparr>" s] assms(2,3) by simp
  ultimately show ?thesis
    by (simp add: after_element_def bindm_def[of ParseToken] seq_def bindm_modify advance_def punctuation)
qed

lemma after_comma:
  assumes "eat_whitespace (json_pos r) = CHR '','' # q" "eat_whitespace q = s" "tok_type (token_at s) \<notin> {INVALID_TOKEN, closing}"
  shows "after_element closing r = (Done (Some (True, token_at s)), r\<lparr>json_pos := s\<rparr>)"
  using after_comma_token[OF assms(1,2)] assms(3) by (simp add: method_simps)

text \<open>The end of the last element, with or without a comma.\<close>

lemma after_last:
  assumes "json_pos r = blanks_text b @ comma trailing c @ e # rest" "blanks_ok b" "blanks_ok c"
    and "(closing, e) \<in> {(ARRAY_END, CHR '']''), (OBJECT_END, CHR ''}'')}" "trailing \<longrightarrow> allow_trailing_comma r"
  shows "after_element closing r = (Done (Some (False, token_at (e # rest))), r\<lparr>json_pos := e # rest\<rparr>)"
proof (cases trailing)
  case True
  have e: "eat_whitespace (e # rest) = e # rest" "tok_type (token_at (e # rest)) = closing" "closing \<noteq> INVALID_TOKEN"
    using assms(4) by (auto simp: punctuation)
  have "eat_whitespace (json_pos r) = CHR '','' # blanks_text c @ e # rest"
    using True assms(1,2) by (simp add: comma_def)
  then show ?thesis
    using after_comma_token[of r "blanks_text c @ e # rest" "e # rest" closing] e assms(3,5) True
    by (simp add: method_simps)
next
  case False
  then show ?thesis
    using assms(1,2,4) by (intro after_end) (auto simp: comma_def)
qed

subsection \<open>Arrays\<close>

abbreviation item_ok :: "(string \<Rightarrow> stod_result) \<Rightarrow> bool \<Rightarrow> nat \<Rightarrow> json_item \<Rightarrow> bool" where
  "item_ok stod a n i \<equiv> case i of Item d b c \<Rightarrow> doc_ok stod a n d \<and> blanks_ok b \<and> blanks_ok c"

abbreviation item_reads :: "(string \<Rightarrow> stod_result) \<Rightarrow> bool \<Rightarrow> nat \<Rightarrow> json_item \<Rightarrow> bool" where
  "item_reads stod a n i \<equiv> case i of Item d b c \<Rightarrow> reads stod a n d"

lemma delim_rest [simp]:
  "blanks_ok b \<Longrightarrow> delim (blanks_text b @ comma p c @ CHR '']'' # rest)"
  "blanks_ok b \<Longrightarrow> delim (blanks_text b @ comma p c @ CHR ''}'' # rest)"
  "blanks_ok b \<Longrightarrow> delim (blanks_text b @ comma True c @ rest)"
  by simp_all (simp add: comma_def)

lemma array_run:
  assumes "list_all (item_reads stod a n) (Item d b c # is)" "list_all (item_ok stod a n) (Item d b c # is)"
    and "json_pos r = items_text trailing (Item d b c # is) @ CHR '']'' # rest" "trailing \<longrightarrow> a"
    and "2 * length (json_pos r) + 2 \<le> fuel" "stack_depth r + int n \<le> 100" "allow_trailing_comma r = a"
  shows "array_loop stod fuel acc (token_at (json_pos r)) r =
    (Done (Some (ListValue (acc @ items_value stod (Item d b c # is)), token_at (CHR '']'' # rest))),
     r\<lparr>json_pos := CHR '']'' # rest\<rparr>)"
  using assms
proof (induction "is" arbitrary: d b c acc r fuel)
  case Nil
  obtain f where f: "fuel = Suc f" using Nil.prems(5) by (cases fuel) auto
  let ?q = "blanks_text b @ comma trailing c @ CHR '']'' # rest"
  have ok: "doc_ok stod a n d" "blanks_ok b" "blanks_ok c" using Nil.prems(2) by simp_all
  have p: "json_pos r = doc_text d @ ?q" using Nil.prems(3) by simp
  note s = doc_starts[OF ok(1), of ?q]
  have B: "BuildValue stod f False r = (Done (Some (doc_value stod d)), r\<lparr>json_pos := ?q\<rparr>)"
    by (rule readsD) (use Nil.prems f s ok p in simp_all)
  have A: "after_element ARRAY_END (r\<lparr>json_pos := ?q\<rparr>) =
      (Done (Some (False, token_at (CHR '']'' # rest))), r\<lparr>json_pos := ?q, json_pos := CHR '']'' # rest\<rparr>)"
    by (rule after_last[of _ b trailing c]) (use Nil.prems ok in simp_all)
  show ?case
    using s(1) ok A unfolding p
    by (simp add: f B bindm_def[of "BuildValue stod f False"] bindm_def[of "after_element ARRAY_END"] list_Append_def method_simps)
next
  case (Cons i "is")
  obtain d' b' c' where i: "i = Item d' b' c'" by (cases i)
  obtain f where f: "fuel = Suc f" using Cons.prems(5) by (cases fuel) auto
  let ?s = "items_text trailing (i # is) @ CHR '']'' # rest"
  let ?q = "blanks_text b @ comma True c @ ?s"
  have ok: "doc_ok stod a n d" "blanks_ok b" "blanks_ok c" "doc_ok stod a n d'" "blanks_ok b'"
    using Cons.prems(2) by (simp_all add: i)
  have p: "json_pos r = doc_text d @ ?q" using Cons.prems(3) by simp
  note s = doc_starts[OF ok(1), of ?q]
  have B: "BuildValue stod f False r = (Done (Some (doc_value stod d)), r\<lparr>json_pos := ?q\<rparr>)"
    by (rule readsD) (use Cons.prems f s ok p in simp_all)
  have "delim (blanks_text b' @ comma (is \<noteq> [] \<or> trailing) c' @ items_text trailing is @ CHR '']'' # rest)"
    using ok(5) by (cases "is") (simp_all add: comma_def)
  note s' = doc_starts[OF ok(4) this]
  have A: "after_element ARRAY_END (r\<lparr>json_pos := ?q\<rparr>) = (Done (Some (True, token_at ?s)), r\<lparr>json_pos := ?q, json_pos := ?s\<rparr>)"
    by (rule after_comma[of _ "blanks_text c @ ?s"]) (use ok s'(1,2) in \<open>simp_all add: i comma_def\<close>)
  have L: "array_loop stod f (acc @ [doc_value stod d]) (token_at (json_pos (r\<lparr>json_pos := ?s\<rparr>))) (r\<lparr>json_pos := ?s\<rparr>) =
      (Done (Some (ListValue ((acc @ [doc_value stod d]) @ items_value stod (i # is)), token_at (CHR '']'' # rest))),
       r\<lparr>json_pos := ?s, json_pos := CHR '']'' # rest\<rparr>)"
    unfolding i by (rule Cons.IH) (use Cons.prems s(3) ok f in \<open>simp_all add: i comma_def\<close>)
  show ?case
    using s(1) ok A L unfolding p
    by (simp add: f B bindm_def[of "BuildValue stod f False"] bindm_def[of "after_element ARRAY_END"] list_Append_def)
qed

subsection \<open>Objects\<close>

abbreviation entry_ok :: "(string \<Rightarrow> stod_result) \<Rightarrow> bool \<Rightarrow> nat \<Rightarrow> json_entry \<Rightarrow> bool" where
  "entry_ok stod a n e \<equiv> case e of Entry k u v d b c \<Rightarrow> list_all literal_ok k \<and> blanks_ok u \<and> blanks_ok v \<and>
     doc_ok stod a n d \<and> blanks_ok b \<and> blanks_ok c"

abbreviation entry_reads :: "(string \<Rightarrow> stod_result) \<Rightarrow> bool \<Rightarrow> nat \<Rightarrow> json_entry \<Rightarrow> bool" where
  "entry_reads stod a n e \<equiv> case e of Entry k u v d b c \<Rightarrow> reads stod a n d"

text \<open>One entry, from its key to the value.\<close>

lemma entry_run:
  assumes "reads stod a n d" "entry_ok stod a n (Entry k u v d b c)"
    and "json_pos r = literals_text k @ blanks_text u @ CHR '':'' # blanks_text v @ doc_text d @ rest" "delim rest"
    and "2 * length (json_pos r) \<le> fuel" "stack_depth r + int n \<le> 100" "allow_trailing_comma r = a"
  shows "object_loop stod (Suc fuel) dict (token_at (json_pos r)) r =
    (let dict' = SetWithoutPathExpansion (literals_value k) (doc_value stod d) dict
     in bindm (after_element OBJECT_END) (\<lambda>next_token. case next_token of
        None \<Rightarrow> ret None
      | Some (False, token) \<Rightarrow> ret (Some (DictionaryValue dict', token))
      | Some (True, token) \<Rightarrow> object_loop stod fuel dict' token) (r\<lparr>json_pos := rest\<rparr>))"
proof -
  let ?b = "doc_text d @ rest"
  let ?a = "CHR '':'' # blanks_text v @ ?b"
  let ?q = "blanks_text u @ ?a"
  let ?t = "token_at (literals_text k @ ?q)"
  have ok: "list_all literal_ok k" "blanks_ok u" "blanks_ok v" "doc_ok stod a n d" using assms(2) by simp_all
  note s = doc_starts[OF ok(4) assms(4)]
  have t: "tok_type ?t = STRING" "DecodeString ?t = Some (StringValue (literals_value k))" "tok_length ?t = length (literals_text k)"
    using token_at_string[OF ok(1)] DecodeString_string[OF ok(1)] by simp_all
  have P1: "ParseToken (r\<lparr>json_pos := ?q\<rparr>) = (Done (token_at ?a), r\<lparr>json_pos := ?a\<rparr>)"
    using ParseToken_here[of "r\<lparr>json_pos := ?q\<rparr>" ?a] ok(2) by (simp add: punctuation)
  have P2: "ParseToken (r\<lparr>json_pos := blanks_text v @ ?b\<rparr>) = (Done (token_at ?b), r\<lparr>json_pos := ?b\<rparr>)"
    using ParseToken_here[of "r\<lparr>json_pos := blanks_text v @ ?b\<rparr>" ?b] ok(3) s by simp
  have B: "BuildValue stod fuel False (r\<lparr>json_pos := ?b\<rparr>) = (Done (Some (doc_value stod d)), (r\<lparr>json_pos := ?b\<rparr>)\<lparr>json_pos := rest\<rparr>)"
    by (rule readsD[OF assms(1)]) (use assms(3-7) s in simp_all)
  show ?thesis
    using t P1 P2 B assms(3)
    by (simp add: advance_def seq_bindm bindm_modify bindm_def[of ParseToken] bindm_def[of "BuildValue stod fuel False"]
        punctuation Let_def)
qed

lemma object_run:
  assumes "list_all (entry_reads stod a n) (e # es)" "list_all (entry_ok stod a n) (e # es)"
    and "json_pos r = entries_text trailing (e # es) @ CHR ''}'' # rest" "trailing \<longrightarrow> a"
    and "2 * length (json_pos r) + 2 \<le> fuel" "stack_depth r + int n \<le> 100" "allow_trailing_comma r = a"
  shows "object_loop stod fuel dict (token_at (json_pos r)) r =
    (Done (Some (DictionaryValue (entries_value stod (e # es) dict), token_at (CHR ''}'' # rest))),
     r\<lparr>json_pos := CHR ''}'' # rest\<rparr>)"
  using assms
proof (induction es arbitrary: e dict r fuel)
  case Nil
  obtain k u v d b c where e: "e = Entry k u v d b c" by (cases e)
  obtain f where f: "fuel = Suc f" using Nil.prems(5) by (cases fuel) auto
  let ?q = "blanks_text b @ comma trailing c @ CHR ''}'' # rest"
  let ?dict = "SetWithoutPathExpansion (literals_value k) (doc_value stod d) dict"
  have ok: "reads stod a n d" "entry_ok stod a n (Entry k u v d b c)" using Nil.prems(1,2) by (simp_all add: e)
  have p: "json_pos r = literals_text k @ blanks_text u @ CHR '':'' # blanks_text v @ doc_text d @ ?q"
    using Nil.prems(3) by (simp add: e)
  have E: "object_loop stod (Suc f) dict (token_at (json_pos r)) r =
    (let dict' = ?dict
     in bindm (after_element OBJECT_END) (\<lambda>next_token. case next_token of
        None \<Rightarrow> ret None
      | Some (False, token) \<Rightarrow> ret (Some (DictionaryValue dict', token))
      | Some (True, token) \<Rightarrow> object_loop stod f dict' token) (r\<lparr>json_pos := ?q\<rparr>))"
    by (rule entry_run[OF ok p]) (use Nil.prems ok f in simp_all)
  have A: "after_element OBJECT_END (r\<lparr>json_pos := ?q\<rparr>) =
      (Done (Some (False, token_at (CHR ''}'' # rest))), r\<lparr>json_pos := ?q, json_pos := CHR ''}'' # rest\<rparr>)"
    by (rule after_last[of _ b trailing c]) (use Nil.prems ok in simp_all)
  show ?case
    using A unfolding f E by (simp add: e Let_def bindm_def[of "after_element OBJECT_END"] method_simps)
next
  case (Cons e' es)
  obtain k u v d b c where e: "e = Entry k u v d b c" by (cases e)
  obtain k' u' v' d' b' c' where e': "e' = Entry k' u' v' d' b' c'" by (cases e')
  obtain f where f: "fuel = Suc f" using Cons.prems(5) by (cases fuel) auto
  let ?s = "entries_text trailing (e' # es) @ CHR ''}'' # rest"
  let ?q = "blanks_text b @ comma True c @ ?s"
  let ?dict = "SetWithoutPathExpansion (literals_value k) (doc_value stod d) dict"
  have ok: "reads stod a n d" "entry_ok stod a n (Entry k u v d b c)" using Cons.prems(1,2) by (simp_all add: e)
  have k': "list_all literal_ok k'" using Cons.prems(2) by (simp add: e')
  have p: "json_pos r = literals_text k @ blanks_text u @ CHR '':'' # blanks_text v @ doc_text d @ ?q"
    using Cons.prems(3) by (simp add: e)
  have E: "object_loop stod (Suc f) dict (token_at (json_pos r)) r =
    (let dict' = ?dict
     in bindm (after_element OBJECT_END) (\<lambda>next_token. case next_token of
        None \<Rightarrow> ret None
      | Some (False, token) \<Rightarrow> ret (Some (DictionaryValue dict', token))
      | Some (True, token) \<Rightarrow> object_loop stod f dict' token) (r\<lparr>json_pos := ?q\<rparr>))"
    by (rule entry_run[OF ok p]) (use Cons.prems ok f in simp_all)
  have s': "eat_whitespace ?s = ?s" "tok_type (token_at ?s) = STRING"
    using token_at_string[OF k'] by (simp_all add: e')
  have A: "after_element OBJECT_END (r\<lparr>json_pos := ?q\<rparr>) = (Done (Some (True, token_at ?s)), r\<lparr>json_pos := ?q, json_pos := ?s\<rparr>)"
    by (rule after_comma[of _ "blanks_text c @ ?s"]) (use ok s' in \<open>simp_all add: comma_def\<close>)
  have "length ?s < length (json_pos r)" unfolding p by (simp add: comma_def)
  then have L: "object_loop stod f ?dict (token_at (json_pos (r\<lparr>json_pos := ?s\<rparr>))) (r\<lparr>json_pos := ?s\<rparr>) =
      (Done (Some (DictionaryValue (entries_value stod (e' # es) ?dict), token_at (CHR ''}'' # rest))),
       r\<lparr>json_pos := ?s, json_pos := CHR ''}'' # rest\<rparr>)"
    by (intro Cons.IH) (use Cons.prems f in simp_all)
  show ?case
    using A L unfolding f E by (simp add: e Let_def bindm_def[of "after_element OBJECT_END"])
qed

subsection \<open>All documents\<close>

text \<open>The start of an array or an object, up to the token after the bracket.\<close>

lemma open_run:
  assumes "eat_whitespace (json_pos r) = c # q" "(c, loop) \<in> {(CHR ''['', array_loop stod f []), (CHR ''{'', object_loop stod f [])}"
    and "eat_whitespace q = s" "tok_type (token_at s) \<noteq> INVALID_TOKEN" "stack_depth r < 100"
    and "loop (token_at s) (r\<lparr>stack_depth := stack_depth r + 1, json_pos := s\<rparr>) =
      (Done (Some (v, token_at (c' # rest))), r\<lparr>stack_depth := stack_depth r + 1, json_pos := c' # rest\<rparr>)"
    and "c' \<in> {CHR '']'', CHR ''}''}"
  shows "BuildValue stod (Suc f) root r = (Done (Some v), r\<lparr>json_pos := rest\<rparr>)"
proof -
  let ?r = "r\<lparr>stack_depth := stack_depth r + 1\<rparr>"
  have lim: "\<not> stack_depth r + 1 > kStackLimit" using assms(5) by (simp add: kStackLimit_def)
  have P: "ParseToken ?r = (Done (token_at (c # q)), ?r\<lparr>json_pos := c # q\<rparr>)"
    using ParseToken_here[of ?r "c # q"] assms(1,2) by (auto simp: punctuation)
  have Q: "ParseToken (?r\<lparr>json_pos := q\<rparr>) = (Done (token_at s), ?r\<lparr>json_pos := s\<rparr>)"
    using ParseToken_here[of "?r\<lparr>json_pos := q\<rparr>" s] assms(3,4) by simp
  have t: "tok_length (token_at (c' # rest)) = 1" using assms(7) by (auto simp: punctuation)
  have fin: "finish (Some (v, token_at (c' # rest))) (r\<lparr>stack_depth := stack_depth r + 1, json_pos := c' # rest\<rparr>) =
      (Done (Some v), r\<lparr>json_pos := rest\<rparr>)"
    using t by (simp add: finish_def advance_def method_simps)
  have lf: "bindm (loop (token_at s)) finish (?r\<lparr>json_pos := s\<rparr>) = (Done (Some v), r\<lparr>json_pos := rest\<rparr>)"
    using assms(6) fin by (simp add: bindm_def[of "loop (token_at s)"])
  have PK: "bindm ParseToken K ?r = K (token_at (c # q)) (?r\<lparr>json_pos := c # q\<rparr>)"
      "bindm ParseToken L (?r\<lparr>json_pos := q\<rparr>) = L (token_at s) (?r\<lparr>json_pos := s\<rparr>)"
    for K :: "json_token \<Rightarrow> Value option parser" and L :: "json_token \<Rightarrow> Value option parser"
    by (simp_all add: bindm_def P Q)
  show ?thesis
    using assms(1,2) lim PK lf
    by (auto simp: seq_bindm bindm_assoc bindm_modify bindm_run advance_def punctuation)
qed

text \<open>A bracket leaves fuel for the loop and its depth.\<close>

lemma reads_container:
  assumes "\<And>f rest root r. eat_whitespace (json_pos r) = doc_text d @ rest \<Longrightarrow> 2 * length (doc_text d @ rest) \<le> f \<Longrightarrow>
      stack_depth r + int (Suc n) \<le> 100 \<Longrightarrow> allow_trailing_comma r = a \<Longrightarrow>
      BuildValue stod (Suc f) root r = (Done (Some (doc_value stod d)), r\<lparr>json_pos := rest\<rparr>)"
  shows "reads stod a (Suc n) d"
  unfolding reads_def
proof (intro allI impI)
  fix rest fuel root and r :: json_reader
  assume p: "eat_whitespace (json_pos r) = doc_text d @ rest" and fuel: "2 * length (json_pos r) + 1 \<le> fuel"
    and "stack_depth r + int (Suc n) \<le> 100" "allow_trailing_comma r = a"
  moreover obtain f where "fuel = Suc f" "2 * length (doc_text d @ rest) \<le> f"
    using fuel length_eat_whitespace[of "json_pos r"] p by (cases fuel) auto
  ultimately show "BuildValue stod fuel root r = (Done (Some (doc_value stod d)), r\<lparr>json_pos := rest\<rparr>)"
    using assms by simp
qed

lemma array_reads:
  assumes "\<And>d. doc_ok stod a n d \<Longrightarrow> reads stod a n d" "doc_ok stod a (Suc n) (Array_Doc b is trailing)"
  shows "reads stod a (Suc n) (Array_Doc b is trailing)"
proof (rule reads_container)
  fix f rest root and r :: json_reader
  assume p: "eat_whitespace (json_pos r) = doc_text (Array_Doc b is trailing) @ rest"
    and f: "2 * length (doc_text (Array_Doc b is trailing) @ rest) \<le> f"
    and depth: "stack_depth r + int (Suc n) \<le> 100" and a: "allow_trailing_comma r = a"
  let ?s = "items_text trailing is @ CHR '']'' # rest" and ?r = "\<lambda>s. r\<lparr>stack_depth := stack_depth r + 1, json_pos := s\<rparr>"
  note open_array = open_run[where r = r and q = "blanks_text b @ ?s" and s = ?s and c' = "CHR '']''" and rest = rest, OF _ insertI1]
  show "BuildValue stod (Suc f) root r = (Done (Some (doc_value stod (Array_Doc b is trailing))), r\<lparr>json_pos := rest\<rparr>)"
  proof (cases "is")
    case Nil
    then obtain g where "f = Suc g" using f by (cases f) auto
    then show ?thesis
      using p Nil assms(2) depth by (intro open_array) (simp_all add: eat_plain punctuation method_simps)
  next
    case (Cons i is')
    obtain w u v where i: "i = Item w u v" by (cases i)
    have rd: "list_all (item_reads stod a n) is"
      using assms by (fastforce simp: list_all_iff split: json_item.splits)
    have "delim (blanks_text u @ comma (is' \<noteq> [] \<or> trailing) v @ items_text trailing is' @ CHR '']'' # rest)"
      using assms(2) Cons i by (cases is') (simp_all add: comma_def)
    note s = doc_starts[OF _ this, of stod a n w]
    have "array_loop stod f [] (token_at (json_pos (?r ?s))) (?r ?s) =
        (Done (Some (ListValue ([] @ items_value stod is), token_at (CHR '']'' # rest))), (?r ?s)\<lparr>json_pos := CHR '']'' # rest\<rparr>)"
      unfolding Cons i by (rule array_run[of _ a n]) (use assms(2) rd Cons i f depth a in auto)
    then show ?thesis
      using p Cons i s assms(2) depth by (intro open_array) simp_all
  qed
qed

lemma object_reads:
  assumes "\<And>d. doc_ok stod a n d \<Longrightarrow> reads stod a n d" "doc_ok stod a (Suc n) (Object_Doc b es trailing)"
  shows "reads stod a (Suc n) (Object_Doc b es trailing)"
proof (rule reads_container)
  fix f rest root and r :: json_reader
  assume p: "eat_whitespace (json_pos r) = doc_text (Object_Doc b es trailing) @ rest"
    and f: "2 * length (doc_text (Object_Doc b es trailing) @ rest) \<le> f"
    and depth: "stack_depth r + int (Suc n) \<le> 100" and a: "allow_trailing_comma r = a"
  let ?s = "entries_text trailing es @ CHR ''}'' # rest" and ?r = "\<lambda>s. r\<lparr>stack_depth := stack_depth r + 1, json_pos := s\<rparr>"
  note open_object = open_run[where r = r and q = "blanks_text b @ ?s" and s = ?s and c' = "CHR ''}''" and rest = rest,
      OF _ insertI2[OF insertI1]]
  show "BuildValue stod (Suc f) root r = (Done (Some (doc_value stod (Object_Doc b es trailing))), r\<lparr>json_pos := rest\<rparr>)"
  proof (cases es)
    case Nil
    then obtain g where "f = Suc g" using f by (cases f) auto
    then show ?thesis
      using p Nil assms(2) depth by (intro open_object) (simp_all add: eat_plain punctuation method_simps)
  next
    case (Cons e es')
    obtain k u v w x y where e: "e = Entry k u v w x y" by (cases e)
    have k: "list_all literal_ok k" using assms(2) Cons e by simp
    have s: "eat_whitespace ?s = ?s" "tok_type (token_at ?s) = STRING"
      using token_at_string[OF k] by (simp_all add: Cons e)
    have rd: "list_all (entry_reads stod a n) es"
      using assms by (fastforce simp: list_all_iff split: json_entry.splits)
    have "object_loop stod f [] (token_at (json_pos (?r ?s))) (?r ?s) =
        (Done (Some (DictionaryValue (entries_value stod es []), token_at (CHR ''}'' # rest))), (?r ?s)\<lparr>json_pos := CHR ''}'' # rest\<rparr>)"
      unfolding Cons by (rule object_run[of _ a n]) (use assms(2) rd Cons f depth a in auto)
    then show ?thesis
      using p s assms(2) depth by (intro open_object) simp_all
  qed
qed

lemma doc_reads: "doc_ok stod a n d \<Longrightarrow> reads stod a n d"
proof (induction n arbitrary: d)
  case (Suc n)
  then show ?case
    using array_reads[OF Suc.IH] object_reads[OF Suc.IH] scalar_reads[OF Suc.prems] by (cases d) simp_all
qed simp

lemma skip_bom_text:
  assumes "blanks_ok b" "is_container d"
  shows "skip_bom ((if m then [CHR 0xEF, CHR 0xBB, CHR 0xBF] else []) @ blanks_text b @ doc_text d @ s) =
    blanks_text b @ doc_text d @ s"
proof (cases m)
  case False
  have "deref (blanks_text b @ doc_text d @ s) \<noteq> CHR 0xEF"
  proof (cases b)
    case Nil
    then show ?thesis using assms(2) by (cases d) (simp_all add: blanks_text_def)
  next
    case (Cons x xs)
    then show ?thesis using assms(1) by (cases x) (auto simp: blanks_text_def)
  qed
  then show ?thesis
    using False by (cases "blanks_text b @ doc_text d @ s") (simp_all add: skip_bom_def)
qed (simp add: skip_bom_def)

lemma document_end:
  assumes "blanks_ok b" "case l of None \<Rightarrow> True | Some s \<Rightarrow> one_line s"
  shows "delim (blanks_text b @ (case l of None \<Rightarrow> [] | Some s \<Rightarrow> ''//'' @ s)) \<and>
    eat_whitespace (blanks_text b @ (case l of None \<Rightarrow> [] | Some s \<Rightarrow> ''//'' @ s)) = []"
proof (cases l)
  case None
  then show ?thesis using eat_blanks[OF assms(1), of "[]"] delim_blanks[OF assms(1), of "[]"] by simp
next
  case (Some s)
  have "eat_whitespace (blanks_text b @ ''//'' @ s) = []"
    by (rule trans[OF eat_blanks[OF assms(1)] eat_last_line]) (use assms(2) Some in simp)
  then show ?thesis using delim_blanks[OF assms(1), of "''//'' @ s"] by (simp add: Some)
qed

lemma document_reads:
  assumes "document_ok stod allow f"
  shows "ReadAndReturnError stod (document_text f) allow = Done (Inr (doc_value stod (doc_root f)))"
proof -
  let ?tail = "blanks_text (doc_after f) @ (case last_line f of None \<Rightarrow> [] | Some s \<Rightarrow> ''//'' @ s)"
  let ?text = "blanks_text (doc_before f) @ doc_text (doc_root f) @ ?tail" and ?v = "doc_value stod (doc_root f)"
  let ?r = "JSONReader\<lparr>start_pos := ?text, json_pos := ?text, allow_trailing_comma := allow, stack_depth := 0,
    error_code := JSON_NO_ERROR\<rparr>"
  have ok: "blanks_ok (doc_before f)" "doc_ok stod allow 100 (doc_root f)" "is_container (doc_root f)"
      "blanks_ok (doc_after f)" "case last_line f of None \<Rightarrow> True | Some s \<Rightarrow> one_line s"
    using assms by (simp_all add: document_ok_def)
  have bom: "skip_bom (document_text f) = ?text"
    unfolding document_text_def by (rule skip_bom_text[OF ok(1,3)])
  have len: "length ?text \<le> length (document_text f)" by (simp add: document_text_def)
  have last: "delim ?tail" "eat_whitespace ?tail = []"
    using document_end[OF ok(4,5)] by simp_all
  have B: "BuildValue stod (2 * length (document_text f) + 2) True ?r = (Done (Some ?v), ?r\<lparr>json_pos := ?tail\<rparr>)"
    by (rule readsD[OF doc_reads[OF ok(2)]]) (use ok last doc_starts[OF ok(2) last(1)] len in simp_all)
  have P: "ParseToken (?r\<lparr>json_pos := ?tail\<rparr>) = (Done (token_at []), ?r\<lparr>json_pos := []\<rparr>)"
    using ParseToken_here[of "?r\<lparr>json_pos := ?tail\<rparr>" "[]"] last(2) by (simp add: token_at_def plain_token_def)
  have BK: "bindm (BuildValue stod (2 * length (document_text f) + 2) True) K ?r = K (Some ?v) (?r\<lparr>json_pos := ?tail\<rparr>)"
    for K :: "Value option \<Rightarrow> Value option parser" by (simp only: bindm_def B prod.case outcome.case)
  have PK: "bindm ParseToken K (?r\<lparr>json_pos := ?tail\<rparr>) = K (token_at []) (?r\<lparr>json_pos := []\<rparr>)"
    for K :: "json_token \<Rightarrow> Value option parser" by (simp only: bindm_def P prod.case outcome.case)
  have "tok_type (token_at []) = END_OF_INPUT" by (simp add: token_at_def plain_token_def)
  then have "JsonToValue stod (document_text f) True allow JSONReader = (Done (Some ?v), ?r\<lparr>json_pos := []\<rparr>)"
    unfolding JsonToValue_def bom seq_bindm bindm_modify BK option.case bindm_assoc PK
    by (simp add: method_simps)
  then show ?thesis by (simp add: ReadAndReturnError_def)
qed

text \<open>
  C10. Reading a document: however an array or object is written, with white space and comments between its
  tokens, any of the nine one-letter escapes and the hexadecimal ones in its strings, numbers of any
  form, repeated keys and, if they are allowed, trailing commas, up to a hundred levels, the reader
  gives the value that the document stands for, the characters of the escapes and the integers by
  tables and a decimal value of their own. Escapes with the four digits after a \<open>u\<close> are not among these
  documents: they are not decoded, see \<open>unicode_escape_refused\<close>.
\<close>

theorem document_read:
  assumes "document_ok stod allow f"
  shows "ReadAndReturnError stod (document_text f) allow = Done (Inr (doc_value stod (doc_root f)))"
  using assms by (rule document_reads)

definition demo_document :: document where
  "demo_document =
     \<lparr>marked = True, doc_before = [Space CHR 0x0A],
      doc_root = Object_Doc [Block_Comment ''*a*'']
        [Entry [Plain CHR ''b''] [] [Space CHR '' ''] (Number_Doc \<lparr>negative = True, whole = ''12'', fraction = None, exponent = None\<rparr>) [] [],
         Entry [Plain CHR ''a''] [] [] (Array_Doc [] [Item Null_Doc [] [], Item (Bool_Doc True) [] []] True) [] [],
         Entry [Hexadecimal CHR ''6'' CHR ''2''] [] [] (String_Doc [Escaped Line_Feed, Plain CHR ''x'']) [Line_Comment ''y'' CHR 0x0A] []]
        False,
      doc_after = [], last_line = Some ''z''\<rparr>"

theorem document_read_witness:
  "document_text demo_document = [CHR 0xEF, CHR 0xBB, CHR 0xBF, CHR 0x0A] @ ''{/**a**/'' @ quote @ ''b'' @ quote @ '': -12,'' @
     quote @ ''a'' @ quote @ '':[null,true,],'' @ quote @ [CHR 0x5C] @ ''x62'' @ quote @ '':'' @
     quote @ [CHR 0x5C] @ ''nx'' @ quote @ ''//y'' @ [CHR 0x0A] @ ''}//z'' \<and>
   ReadAndReturnError no_stod (document_text demo_document) True =
     Done (Inr (DictionaryValue [(''a'', ListValue [NullValue, BooleanValue True]), (''b'', StringValue [CHR 0x0A, CHR ''x''])]))"
proof
  show "document_text demo_document = [CHR 0xEF, CHR 0xBB, CHR 0xBF, CHR 0x0A] @ ''{/**a**/'' @ quote @ ''b'' @ quote @ '': -12,'' @
     quote @ ''a'' @ quote @ '':[null,true,],'' @ quote @ [CHR 0x5C] @ ''x62'' @ quote @ '':'' @
     quote @ [CHR 0x5C] @ ''nx'' @ quote @ ''//y'' @ [CHR 0x0A] @ ''}//z''" by code_simp
  have "document_ok no_stod True demo_document" by code_simp
  moreover have "doc_value no_stod (doc_root demo_document) =
      DictionaryValue [(''a'', ListValue [NullValue, BooleanValue True]), (''b'', StringValue [CHR 0x0A, CHR ''x''])]"
    by code_simp
  ultimately show "ReadAndReturnError no_stod (document_text demo_document) True =
     Done (Inr (DictionaryValue [(''a'', ListValue [NullValue, BooleanValue True]), (''b'', StringValue [CHR 0x0A, CHR ''x''])]))"
    using document_read[of no_stod True demo_document] by simp
qed

end
