(* ===== verification/Application.thy ===== *)
theory Application
  imports Adapter Json_Docs
begin

text \<open>
  The application of the console build: \<open>psych_t::Run\<close>, its main loop and the console handler of
  \<open>src/src/psych.cc\<close>. The configuration file is its contents, or nothing when it cannot be read; the
  sequence of what the event queue delivers, and of console events, is an argument.
\<close>

section \<open>The main loop\<close>

text \<open>What happens while the loop waits: an RFA event of a session is dispatched, or the console asks to stop.\<close>

datatype occurrence = Dispatch nat rfa_event | Console_Event

text \<open>The queue of the weak pointer \<open>g_event_queue\<close> is deactivated if it is still there.\<close>

definition CtrlHandler :: "bool adapter" where
  "CtrlHandler = seq (modify (\<lambda>s. s\<lparr>event_queue := map_option (\<lambda>_. False) (event_queue s)\<rparr>)) (ret True)"

definition occur :: "rfa_env \<Rightarrow> occurrence \<Rightarrow> unit adapter" where
  "occur env o1 =
     (case o1 of
        Dispatch i event \<Rightarrow> on_provider (processEvent env i event)
      | Console_Event \<Rightarrow> bindm CtrlHandler (\<lambda>_. ret ()))"

text \<open>The loop that has seen all there is to see waits for ever.\<close>

fun MainLoop :: "rfa_env \<Rightarrow> occurrence list \<Rightarrow> unit adapter" where
  "MainLoop env os =
     bindm (gets event_queue) (\<lambda>queue.
       case queue of
         None \<Rightarrow> throw Null_Deref
       | Some active \<Rightarrow>
           if \<not> active then ret ()
           else (case os of
                   [] \<Rightarrow> Pair Diverged
                 | o1 # os \<Rightarrow> seq (occur env o1) (MainLoop env os)))"

declare MainLoop.simps [simp del]

section \<open>The entry point\<close>

definition EXIT_SUCCESS :: int where "EXIT_SUCCESS = 0"
definition EXIT_FAILURE :: int where "EXIT_FAILURE = 1"

definition on_config :: "(config, 'a) method \<Rightarrow> 'a adapter" where
  "on_config m = (\<lambda>s. case m (psych_config s) of (r, cfg) \<Rightarrow> (r, s\<lparr>psych_config := cfg\<rparr>))"

text \<open>
  The file is parsed twice: the first result is only tested for the error message. The \<open>CHECK\<close>s on
  the second only log: for a text that is no JSON document a null pointer is read, and an array is
  used as a dictionary.
\<close>

definition psych_Run ::
    "start_env \<Rightarrow> rfa_env \<Rightarrow> (string \<Rightarrow> stod_result) \<Rightarrow> string option \<Rightarrow> occurrence list \<Rightarrow> int adapter" where
  "psych_Run se env stod file os =
     (case file of
        None \<Rightarrow> ret EXIT_FAILURE
      | Some json \<Rightarrow>
          bindm (Pair (ReadAndReturnError stod json False)) (\<lambda>_.
          bindm (Pair (Read stod json False)) (\<lambda>root.
            case root of
              Some (DictionaryValue d) \<Rightarrow>
                bindm (on_config (ParseConfig d)) (\<lambda>ok.
                  if \<not> ok then ret EXIT_FAILURE
                  else bindm (psych_Init se env) (\<lambda>ok.
                    if \<not> ok then ret EXIT_FAILURE
                    else seq (MainLoop env os) (seq psych_Destroy (ret EXIT_SUCCESS))))
            | Some _ \<Rightarrow> throw Undefined_Behaviour
            | None \<Rightarrow> throw Null_Deref)))"

section \<open>From the file to the adapter\<close>

text \<open>The event queue of an adapter that has started is active.\<close>

lemma require_True: "require m k s = (Done True, t) \<longleftrightarrow> (\<exists>u. m s = (Done True, u) \<and> k u = (Done True, t))"
  by (auto simp: require_def bindm_Done method_simps split: if_splits)

abbreviation queue_is :: "bool option \<Rightarrow> psych \<Rightarrow> bool" where
  "queue_is v s \<equiv> event_queue s = v"

lemma keeps_queue:
  "keeps (queue_is v) (on_provider m)" "keeps (queue_is v) (init_log se)" "keeps (queue_is v) (init_iterator se)"
  "keeps (queue_is v) (init_snmp se)" "keeps (queue_is v) (init_timer se)" "keeps (queue_is v) (init_provider se env)"
  "keeps (queue_is v) (create_resources env rs)"
proof -
  have call: "keeps (queue_is v) (\<lambda>s. (answer s, s))" for answer :: "psych \<Rightarrow> 'x outcome" by (simp add: keeps_def)
  show provider: "keeps (queue_is v) (on_provider m)" for m :: "'y operation"
    by (auto simp: keeps_def on_provider_def split: option.split prod.split)
  show "keeps (queue_is v) (init_log se)" "keeps (queue_is v) (init_iterator se)" "keeps (queue_is v) (init_snmp se)"
    "keeps (queue_is v) (init_timer se)" "keeps (queue_is v) (init_provider se env)"
    unfolding init_log_def init_iterator_def init_snmp_def init_timer_def init_provider_def
    by (intro keeps_intro keeps_modify call provider; simp)+
  have stream: "keeps (queue_is v) (create_stream env ric)" for env ric
    unfolding create_stream_def by (intro keeps_intro keeps_modify provider; simp)
  have items: "keeps (queue_is v) (create_items env its names)" for env its names
    by (induction env its names rule: create_items.induct) (auto intro!: keeps_intro stream)
  show "keeps (queue_is v) (create_resources env rs)"
    by (induction env rs rule: create_resources.induct) (auto intro!: keeps_intro keeps_modify items)
qed

lemma psych_Init_queue:
  assumes "psych_Init se env s = (Done True, t)"
  shows "event_queue t = Some True"
proof -
  obtain s1 s2 s3 where s: "init_rfa se env s1 = (Done True, s2)" "init_snmp se s2 = (Done True, s3)" "init_timer se s3 = (Done True, t)"
    using assms by (auto simp: psych_Init_def require_True)
  have stage: "event_queue v' = event_queue u'" if "m u' = (r, v')" "\<And>v. keeps (queue_is v) m" for m :: "bool adapter" and u' r v'
    using keepsD[OF that(2), of u' "event_queue u'"] that(1) by simp
  obtain u1 u2 u3 u4 u5 where u: "init_event_queue se u1 = (Done True, u2)" "init_log se u2 = (Done True, u3)"
    "init_provider se env u3 = (Done True, u4)"
    "bindm (gets (\<lambda>s. resources (psych_config s))) (create_resources env) u4 = (Done True, u5)" "init_iterator se u5 = (Done True, s2)"
    using s(1) by (auto simp: init_rfa_def try_catch_def require_True method_simps split: prod.splits outcome.splits if_splits)
  have "event_queue u2 = Some True"
    using u(1) by (auto simp: init_event_queue_def bindm_Done seq_Done method_simps)
  moreover have "create_resources env (resources (psych_config u4)) u4 = (Done True, u5)" using u(4) by (simp add: method_simps)
  ultimately show ?thesis
    using stage[OF s(3) keeps_queue(5)] stage[OF s(2) keeps_queue(4)] stage[OF u(5) keeps_queue(3)]
      stage[OF _ keeps_queue(7)] stage[OF u(3) keeps_queue(6)] stage[OF u(2) keeps_queue(2)] by metis
qed

lemma on_config_run:
  "bindm (on_config m) k s = (case m (psych_config s) of
      (Done x, cfg) \<Rightarrow> k x (s\<lparr>psych_config := cfg\<rparr>)
    | (Raise e, cfg) \<Rightarrow> (Raise e, s\<lparr>psych_config := cfg\<rparr>)
    | (Diverged, cfg) \<Rightarrow> (Diverged, s\<lparr>psych_config := cfg\<rparr>))"
  by (simp add: on_config_def bindm_def split: prod.split outcome.split)

text \<open>
  C9. Start-up from a file that holds one of the documents of \<open>Json_Docs\<close>, in whatever of its ways it is
  written: when the document is a dictionary, the run is what \<open>ParseConfig\<close> makes of that dictionary. If
  it accepts the configuration it has read, start-up goes on with that configuration; if it refuses
  it, the run ends with \<open>EXIT_FAILURE\<close> before anything is started; if it throws or reads what is not
  there, so does the run. A document that is an array is used as a dictionary, which is undefined
  behaviour.
\<close>

theorem run_from_text:
  assumes "document_ok stod False f"
  shows "psych_Run se env stod (Some (document_text f)) os s =
    (case doc_value stod (doc_root f) of
       DictionaryValue d \<Rightarrow>
         (case ParseConfig d (psych_config s) of
            (Done True, cfg) \<Rightarrow>
              bindm (psych_Init se env) (\<lambda>ok.
                if \<not> ok then ret EXIT_FAILURE
                else seq (MainLoop env os) (seq psych_Destroy (ret EXIT_SUCCESS))) (s\<lparr>psych_config := cfg\<rparr>)
          | (Done False, cfg) \<Rightarrow> (Done EXIT_FAILURE, s\<lparr>psych_config := cfg\<rparr>)
          | (Raise e, cfg) \<Rightarrow> (Raise e, s\<lparr>psych_config := cfg\<rparr>)
          | (Diverged, cfg) \<Rightarrow> (Diverged, s\<lparr>psych_config := cfg\<rparr>))
     | _ \<Rightarrow> (Raise Undefined_Behaviour, s))"
proof -
  have R: "ReadAndReturnError stod (document_text f) False = Done (Inr (doc_value stod (doc_root f)))"
    by (rule document_reads[OF assms])
  show ?thesis
    by (simp add: psych_Run_def R Read_def method_simps split: Value.split)
      (auto simp: on_config_run method_simps split: prod.split outcome.split bool.split)
qed

text \<open>A file with a valid configuration, run until the console asks to stop.\<close>

definition demo_key :: "string \<Rightarrow> json_doc \<Rightarrow> json_entry" where
  "demo_key k d = Entry (map Plain k) [] [Space CHR '' ''] d [] [Space CHR 0x0A]"

definition demo_string :: "string \<Rightarrow> string \<Rightarrow> json_entry" where
  "demo_string k s = demo_key k (String_Doc (map Plain s))"

definition demo_list :: "json_doc list \<Rightarrow> json_doc" where
  "demo_list ds = Array_Doc [] (map (\<lambda>d. Item d [] []) ds) False"

definition demo_dictionary :: "json_entry list \<Rightarrow> json_doc" where
  "demo_dictionary es = Object_Doc [] es False"

definition demo_file :: document where
  "demo_file =
     \<lparr>marked = False, doc_before = [Line_Comment ''psych'' CHR 0x0A],
      doc_root = demo_dictionary
        [demo_string ''service_name'' ''NI_VTA'', demo_string ''monitor_name'' ''Monitor'',
         demo_string ''event_queue_name'' ''Queue'', demo_string ''vendor_name'' ''Vendor'',
         demo_string ''maximum_data_size'' ''1000'', demo_string ''maximum_response_size'' ''1000'',
         demo_string ''time_offset_constant'' ''00:00:16.000'', demo_string ''interval'' ''60'',
         demo_key ''sessions'' (demo_list [demo_dictionary
           [demo_string ''session_name'' ''Session'', demo_string ''connection_name'' ''Connection'',
            demo_string ''publisher_name'' ''Publisher'', demo_key ''rssl_servers'' (demo_list [String_Doc (map Plain ''adh'')]),
            demo_string ''application_id'' ''256'', demo_string ''instance_id'' ''1'', demo_string ''user_name'' ''user1'']]),
         demo_key ''resources'' (demo_list [demo_dictionary
           [demo_string ''name'' ''Equities'', demo_string ''source'' ''News'', demo_string ''path'' ''/eq'',
            demo_key ''entitlement_code'' (Number_Doc \<lparr>negative = False, whole = ''5'', fraction = None, exponent = None\<rparr>),
            demo_key ''fields'' (demo_dictionary
              [demo_key ''Buzz'' (Number_Doc \<lparr>negative = False, whole = ''7'', fraction = None, exponent = None\<rparr>)]),
            demo_key ''items'' (demo_dictionary
              [demo_key ''1679'' (demo_dictionary [demo_string ''RIC'' ''MI'', demo_string ''topic'' ''topic''])])]])],
      doc_after = [Space CHR 0x0A], last_line = None\<rparr>"

theorem run_from_text_witness:
  "fst (psych_Run (demo_start_env 1000) demo_env no_stod (Some (document_text demo_file)) [Console_Event] (psych_t 0 False)) =
     Done EXIT_SUCCESS"
proof -
  have ok: "document_ok no_stod False demo_file" by code_simp
  obtain d where d: "doc_value no_stod (doc_root demo_file) = DictionaryValue d" "ParseConfig d config_init = (Done True, demo_adapter_config)"
  proof -
    have "(case doc_value no_stod (doc_root demo_file) of DictionaryValue d \<Rightarrow> ParseConfig d config_init = (Done True, demo_adapter_config) | _ \<Rightarrow> False)"
      by code_simp
    then show thesis using that by (auto split: Value.splits)
  qed
  have i: "psych_Init (demo_start_env 1000) demo_env ((psych_t 0 False)\<lparr>psych_config := demo_adapter_config\<rparr>) = (Done True, snd demo_adapter)"
    using demo_adapter_run by (simp add: demo_adapter_def fresh_psych_def prod_eq_iff)
  have "event_queue (snd demo_adapter) = Some True" by (rule psych_Init_queue[OF i])
  then have "fst (MainLoop demo_env [Console_Event] (snd demo_adapter)) = Done ()"
    by (subst MainLoop.simps, subst MainLoop.simps) (simp add: method_simps occur_def CtrlHandler_def seq_bindm bindm_assoc bindm_modify)
  then obtain t where m: "MainLoop demo_env [Console_Event] (snd demo_adapter) = (Done (), t)" by (metis prod.collapse)
  have c: "psych_config (psych_t 0 False) = config_init" by (simp add: psych_t_def)
  have "fst (seq psych_Destroy (ret EXIT_SUCCESS) t) = Done EXIT_SUCCESS"
    by (simp add: psych_Destroy_def psych_Clear_def seq_bindm bindm_assoc bindm_modify method_simps)
  then show ?thesis
    using run_from_text[OF ok, of "demo_start_env 1000" demo_env "[Console_Event]" "psych_t 0 False"] d c i
    by (simp add: bindm_def[of "psych_Init _ _"] seq_Done_run[of "MainLoop demo_env [Console_Event]", OF m])
qed

section \<open>The loop stops\<close>

text \<open>Every RFA call comes back, with an answer or an exception.\<close>

definition rfa_answers :: "rfa_env \<Rightarrow> bool" where
  "rfa_answers env \<longleftrightarrow> (\<forall>n. env_submit env n \<noteq> Diverged \<and> env_validate env n \<noteq> Diverged \<and> env_token env n \<noteq> Diverged)"

lemma returns_rfa_call: "(\<And>n. answer n \<noteq> Diverged) \<Longrightarrow> returns (rfa_call answer)"
  by (simp add: returns_def rfa_call_def)

lemma returns_session_parts:
  "returns (bump i c)" "returns (touch_session env i)" "returns (on_session i f)" "returns (set_token a i t)"
proof -
  show on: "returns (on_session i f)" for f unfolding on_session_def by (intro returns_intro)
  show "returns (bump i c)" unfolding bump_def by (rule on)
  show "returns (touch_session env i)"
    unfolding touch_session_def clock_call_def by (intro returns_intro on returns_rfa_call; simp)
  show "returns (set_token a i t)" unfolding set_token_def by (intro returns_intro)
qed

lemma returns_GetServiceDirectory: "returns (GetServiceDirectory env)"
  unfolding GetServiceDirectory_def touch_provider_def clock_call_def
  by (intro returns_intro returns_rfa_call; simp)

lemma returns_processEvent:
  assumes "rfa_answers env"
  shows "returns (processEvent env i event)"
proof -
  note parts = returns_intro returns_session_parts
  have t: "returns (generateItemToken env i)"
    unfolding generateItemToken_def using assms by (intro parts returns_rfa_call) (simp add: rfa_answers_def)
  have sub: "returns (Submit env i msg tok)" for msg tok
    unfolding Submit_def using assms by (intro parts returns_rfa_call) (simp add: rfa_answers_def)
  have dir: "returns (SendDirectoryResponse env i)"
    unfolding SendDirectoryResponse_def using assms
    by (intro parts t sub returns_GetServiceDirectory returns_rfa_call) (simp add: rfa_answers_def)
  have tok: "returns (reset_token env i a)" for a unfolding reset_token_def by (intro parts t)
  have "returns (OnLoginSuccess env i)"
    unfolding OnLoginSuccess_def ResetTokens_def by (intro parts dir tok)
  then show ?thesis
    unfolding processEvent_def OnOMMItemEvent_def OnRespMsg_def OnLoginSuspect_def OnLoginClosed_def OnOMMCmdErrorEvent_def
    by (auto split: rfa_event.split item_msg.split stream_enum.split data_enum.split intro!: parts)
qed

lemma stopped_loop: "event_queue s \<noteq> Some True \<Longrightarrow> fst (MainLoop env os s) \<noteq> Diverged"
  by (subst MainLoop.simps) (auto simp: method_simps split: option.split)

text \<open>
  C20. The main loop ends: once the console asks to stop, whatever events the sessions still get before
  that, the loop comes back, as long as RFA answers its calls.
\<close>

theorem main_loop_stops:
  assumes "rfa_answers env" "Console_Event \<in> set os"
  shows "fst (MainLoop env os s) \<noteq> Diverged"
  using assms(2)
proof (induction os arbitrary: s)
  case (Cons o1 os)
  show ?case
  proof (cases "event_queue s = Some True")
    case True
    have start: "MainLoop env (o1 # os) s = seq (occur env o1) (MainLoop env os) s"
      using True by (subst MainLoop.simps) (simp add: method_simps)
    show ?thesis
    proof (cases o1)
      case (Dispatch i event)
      have "fst (occur env o1 s) \<noteq> Diverged"
        using returns_processEvent[OF assms(1), of i event]
        by (auto simp: Dispatch occur_def on_provider_def returns_def split: option.split prod.split) (metis fst_conv)
      then show ?thesis
        unfolding start using Cons Dispatch by (auto simp: seq_def bindm_def split: prod.split outcome.split)
    next
      case Console_Event
      then have "seq (occur env o1) (MainLoop env os) s = MainLoop env os (s\<lparr>event_queue := Some False\<rparr>)"
        using True by (simp add: occur_def CtrlHandler_def seq_bindm bindm_modify bindm_assoc method_simps)
      then show ?thesis unfolding start using stopped_loop by simp
    qed
  qed (rule stopped_loop)
qed simp

theorem main_loop_stops_witness: "fst (MainLoop demo_env [Dispatch 0 OtherEvent, Console_Event] (snd demo_adapter)) \<noteq> Diverged"
  by (rule main_loop_stops) (simp_all add: rfa_answers_def demo_env_def)

end
