(* ===== verification/Files_Text.thy ===== *)
theory Files_Text
  imports Prelude
begin

text \<open>
  Reading a whole file and formatted output: \<open>src/src/chromium/file_util.cc\<close> and \<open>src/src/chromium/stringprintf.cc\<close> with the wrapper of
  \<open>src/src/chromium/string_util_win.hh\<close>. The C library is a parameter: a file that opens delivers blocks, a
  format with its arguments has a text, or cannot be printed.
\<close>

section \<open>Files\<close>

text \<open>The blocks \<open>fread\<close> delivers; an empty one ends the loop.\<close>

fun read_loop :: "string list \<Rightarrow> string option \<Rightarrow> string option" where
  "read_loop [] contents = contents"
| "read_loop (buf # rest) contents =
     (if \<not> length buf > 0 then contents else read_loop rest (map_option (\<lambda>s. s @ buf) contents))"

text \<open>No \<open>contents\<close> is the null pointer.\<close>

definition ReadFileToString :: "string list option \<Rightarrow> string option \<Rightarrow> bool \<times> string option" where
  "ReadFileToString opened contents =
     (case opened of None \<Rightarrow> (False, contents) | Some blocks \<Rightarrow> (True, read_loop blocks contents))"

definition CloseFile :: "(unit \<Rightarrow> int) option \<Rightarrow> bool" where
  "CloseFile fclose = (case fclose of None \<Rightarrow> True | Some close \<Rightarrow> close () = 0)"

lemma read_loop_concat: "read_loop blocks (Some s) = Some (s @ concat (takeWhile (\<lambda>b. b \<noteq> []) blocks))"
  by (induction blocks arbitrary: s) auto

section \<open>Formatted output\<close>

text \<open>
  \<open>printed\<close> is the whole text of a format with its arguments. The functions return its length, or a
  negative number when it does not fit or cannot be printed, and what is in the buffer.
\<close>

definition vsnprintf_s :: "string option \<Rightarrow> int \<Rightarrow> int \<times> string" where
  "vsnprintf_s printed bufsize =
     (case printed of
        None \<Rightarrow> (- 1, [])
      | Some text \<Rightarrow>
          if int (length text) \<le> bufsize - 1 then (int (length text), text)
          else (- 1, take (nat (bufsize - 1)) text))"

definition vscprintf :: "string option \<Rightarrow> int" where
  "vscprintf printed = (case printed of None \<Rightarrow> - 1 | Some text \<Rightarrow> int (length text))"

definition vsnprintf :: "string option \<Rightarrow> int \<Rightarrow> int \<times> string" where
  "vsnprintf printed bufsize =
     (case vsnprintf_s printed bufsize of (len, buffer) \<Rightarrow>
        if len < 0 then (vscprintf printed, buffer) else (len, buffer))"

definition stack_size :: int where "stack_size = 1024"
definition max_size :: int where "max_size = 32 * 1024 * 1024"

text \<open>The loop that grows the buffer; \<open>None\<close> if it does not end.\<close>

partial_function (option) grow_loop :: "string option \<Rightarrow> string \<Rightarrow> int \<Rightarrow> string option" where
  "grow_loop printed dst result =
     (if result < 0 then Some dst
      else
        let mem_length = result + 1
        in if mem_length > max_size then Some dst
           else case vsnprintf printed mem_length of (result, mem_buf) \<Rightarrow>
             if result \<ge> 0 \<and> result < mem_length then Some (dst @ take (nat result) mem_buf)
             else grow_loop printed dst result)"

definition StringAppendVT :: "string \<Rightarrow> string option \<Rightarrow> string option" where
  "StringAppendVT dst printed =
     (case vsnprintf printed stack_size of (result, stack_buf) \<Rightarrow>
        if result \<ge> 0 \<and> result < stack_size then Some (dst @ take (nat result) stack_buf)
        else grow_loop printed dst result)"

definition StringAppendV :: "string \<Rightarrow> string option \<Rightarrow> string option" where
  "StringAppendV dst printed = StringAppendVT dst printed"

definition StringPrintf :: "string option \<Rightarrow> string option" where
  "StringPrintf printed = StringAppendV [] printed"

definition StringPrintV :: "string option \<Rightarrow> string option" where
  "StringPrintV printed = StringAppendV [] printed"

definition SStringPrintf :: "string \<Rightarrow> string option \<Rightarrow> string option" where
  "SStringPrintf dst printed = StringAppendV [] printed"

definition StringAppendF :: "string \<Rightarrow> string option \<Rightarrow> string option" where
  "StringAppendF dst printed = StringAppendV dst printed"

text \<open>The text that is printed: none above the limit, or when it cannot be printed.\<close>

definition printable :: "string option \<Rightarrow> string" where
  "printable printed =
     (case printed of None \<Rightarrow> [] | Some text \<Rightarrow> if int (length text) < max_size then text else [])"

lemma vsnprintf_length: "fst (vsnprintf printed bufsize) = vscprintf printed"
  by (simp add: vsnprintf_def vsnprintf_s_def vscprintf_def split: option.split)

lemma vsnprintf_fits:
  "int (length text) < bufsize \<Longrightarrow> vsnprintf (Some text) bufsize = (int (length text), text)"
  by (simp add: vsnprintf_def vsnprintf_s_def)

lemma grow_loop_ends: "grow_loop printed dst (vscprintf printed) = Some (dst @ printable printed)"
proof (cases printed)
  case None
  then show ?thesis by (subst grow_loop.simps) (simp add: vscprintf_def printable_def)
next
  case (Some s)
  show ?thesis
  proof (cases "int (length s) < max_size")
    case True
    then show ?thesis
      by (subst grow_loop.simps) (simp add: Some vscprintf_def printable_def vsnprintf_fits Let_def)
  next
    case False
    then show ?thesis by (subst grow_loop.simps) (simp add: Some vscprintf_def printable_def Let_def)
  qed
qed

text \<open>
  Formatted output comes back and appends exactly the text of the format, whatever its length
  up to 32 MB, and nothing above that or when the C library cannot print it.
\<close>
theorem StringAppendV_appends: "StringAppendV dst printed = Some (dst @ printable printed)"
proof (cases "printed \<noteq> None \<and> vscprintf printed < stack_size")
  case True
  then obtain s where s: "printed = Some s" "int (length s) < stack_size"
    by (auto simp: vscprintf_def)
  then show ?thesis
    by (simp add: StringAppendV_def StringAppendVT_def vsnprintf_fits printable_def stack_size_def max_size_def)
next
  case False
  obtain result buf where r: "vsnprintf printed stack_size = (result, buf)" by fastforce
  then have "result = vscprintf printed" using vsnprintf_length[of printed stack_size] by simp
  moreover have "\<not> (result \<ge> 0 \<and> result < stack_size)"
    using False calculation by (auto simp: vscprintf_def split: option.splits)
  ultimately show ?thesis by (auto simp: StringAppendV_def StringAppendVT_def r grow_loop_ends)
qed

end
