(* ===== verification/Process.thy ===== *)
theory Process
  imports Logging Application Files_Text
begin

text \<open>
  The process of \<open>src/src/main.cc\<close>: the command line and the log, the socket library and the timer resolution of
  Windows, and the adapter between them. What these objects change is one record; they are destroyed in
  the reverse order, unless the adapter does not come back.
\<close>

section \<open>State\<close>

text \<open>\<open>wsa_users\<close> counts the start-ups of the socket library, \<open>periods\<close> lists the timer periods asked for.\<close>

record process =
  command_line_of :: "command_line option"
  log_of :: log_state
  wsa_users :: int
  periods :: "int list"

type_synonym 'a proc = "(process, 'a) method"

text \<open>Windows: a return code with the version given, and the smallest and the largest period.\<close>

record win_env =
  win_log :: log_env
  WSAStartup :: "int \<Rightarrow> int \<Rightarrow> int \<times> int \<times> int"
  WSAGetLastError :: int
  timeGetDevCaps :: "(int \<times> int) option"
  timeBeginPeriod :: "int \<Rightarrow> bool"

definition on_log :: "'a logging \<Rightarrow> 'a proc" where
  "on_log m = (\<lambda>p. case m (log_of p) of (r, s) \<Rightarrow> (r, p\<lparr>log_of := s\<rparr>))"

definition main_file :: string where "main_file = ''main.cc''"

section \<open>The objects\<close>

definition GetLogFileName :: string where
  "GetLogFileName = ''/psych.log''"

text \<open>
  The result of \<open>InitLogging\<close> is ignored. The last statement of the constructor, which registers the trace
  provider, is left out: what it does to the log is in \<open>Event_Trace\<close>, on a state of its own.
\<close>

definition env_t :: "win_env \<Rightarrow> string list \<Rightarrow> unit proc" where
  "env_t w argv =
     seq (modify (\<lambda>p. p\<lparr>command_line_of := CommandLine_Init argv (command_line_of p)\<rparr>))
    (bindm (gets command_line_of) (\<lambda>current.
       case current of
         None \<Rightarrow> throw Null_Deref
       | Some cl \<Rightarrow>
           bindm (on_log (ChromiumInitLoggingImpl (win_log w) cl (Some GetLogFileName) (DetermineLogMode cl)
                    DONT_LOCK_LOG_FILE APPEND_TO_OLD_LOG_FILE ENABLE_DCHECK_FOR_NON_OFFICIAL_RELEASE_BUILDS))
             (\<lambda>_. ret ())))"

text \<open>The handler that nothing installs.\<close>

definition log_handler :: log_handler_fn where
  "log_handler severity f line start str = False"

definition winsock_t :: "win_env \<Rightarrow> int \<Rightarrow> int \<Rightarrow> bool proc" where
  "winsock_t w majorVersion minorVersion =
     (case WSAStartup w majorVersion minorVersion of (code, lobyte, hibyte) \<Rightarrow>
        if code \<noteq> 0 then
          seq (on_log (LOG (win_log w) LOG_ERROR main_file 83 (''WSAStartup returned '' @ IntToString (WSAGetLastError w))))
            (ret False)
        else
          seq (modify (\<lambda>p. p\<lparr>wsa_users := wsa_users p + 1\<rparr>))
            (if lobyte \<noteq> majorVersion \<or> hibyte \<noteq> minorVersion then
               seq (modify (\<lambda>p. p\<lparr>wsa_users := wsa_users p - 1\<rparr>))
              (seq (on_log (LOG (win_log w) LOG_ERROR main_file 88
                     (''WSAStartup failed to provide requested version '' @ UintToString majorVersion @ ''.'' @
                      UintToString minorVersion)))
                 (ret False))
             else ret True))"

definition winsock_destructor :: "bool \<Rightarrow> unit proc" where
  "winsock_destructor initialized =
     (if initialized then modify (\<lambda>p. p\<lparr>wsa_users := wsa_users p - 1\<rparr>) else ret ())"

definition timecaps_t :: "win_env \<Rightarrow> int \<Rightarrow> int proc" where
  "timecaps_t w resolution_ms =
     (case timeGetDevCaps w of
        Some (wPeriodMin, wPeriodMax) \<Rightarrow>
          (let wTimerRes = min (max wPeriodMin resolution_ms) wPeriodMax
           in if \<not> timeBeginPeriod w wTimerRes then
                seq (on_log (LOG (win_log w) LOG_WARNING main_file 112
                      (''Minimum timer resolution '' @ UintToString wTimerRes @ ''ms is out of range.'')))
                  (ret 0)
              else seq (modify (\<lambda>p. p\<lparr>periods := wTimerRes # periods p\<rparr>)) (ret wTimerRes))
      | None \<Rightarrow>
          seq (on_log (LOG (win_log w) LOG_WARNING main_file 116 ''Failed to query timer device resolution.''))
            (ret 0))"

definition timecaps_destructor :: "int \<Rightarrow> unit proc" where
  "timecaps_destructor wTimerRes =
     (if wTimerRes > 0 then modify (\<lambda>p. p\<lparr>periods := remove1 wTimerRes (periods p)\<rparr>) else ret ())"

section \<open>The entry point\<close>

text \<open>The adapter is a local object: what \<open>Run\<close> returns, then its destructor.\<close>

definition run_adapter ::
    "start_env \<Rightarrow> rfa_env \<Rightarrow> (string \<Rightarrow> stod_result) \<Rightarrow> string option \<Rightarrow> occurrence list \<Rightarrow> int outcome" where
  "run_adapter se env stod config os =
     fst (bindm (psych_Run se env stod config os) (\<lambda>code. seq psych_destructor (ret code)) (psych_t 0 False))"

text \<open>What the C library delivers of the configuration file.\<close>

definition config_text :: "string list option \<Rightarrow> string option" where
  "config_text opened =
     (case ReadFileToString opened (Some []) of (ok, json) \<Rightarrow> if \<not> ok then None else json)"

definition main ::
    "win_env \<Rightarrow> start_env \<Rightarrow> rfa_env \<Rightarrow> (string \<Rightarrow> stod_result) \<Rightarrow> string list option \<Rightarrow> occurrence list \<Rightarrow> string list \<Rightarrow>
     int proc" where
  "main w se env stod opened os argv =
     seq (env_t w argv)
    (bindm (winsock_t w 2 2) (\<lambda>winsock.
     bindm (timecaps_t w 1) (\<lambda>timecaps.
     bindm (Pair (run_adapter se env stod (config_text opened) os)) (\<lambda>code.
     seq (timecaps_destructor timecaps)
    (seq (winsock_destructor winsock) (ret code))))))"

section \<open>What the process leaves behind\<close>

text \<open>Logging leaves the socket library and the timer periods alone, and comes back.\<close>

lemma on_log_same: "on_log m p = (r, q) \<Longrightarrow> wsa_users q = wsa_users p \<and> periods q = periods p"
  by (auto simp: on_log_def split: prod.splits)

lemma winsock_balanced:
  assumes "winsock_t w a b p = (Done up, q)"
  shows "wsa_users q = wsa_users p + (if up then 1 else 0) \<and> periods q = periods p"
  using assms
  by (auto simp: winsock_t_def seq_Done method_simps split: prod.splits if_splits dest!: on_log_same)

text \<open>A period of zero would not be given back.\<close>

definition caps_positive :: "win_env \<Rightarrow> bool" where
  "caps_positive w \<longleftrightarrow> (case timeGetDevCaps w of None \<Rightarrow> True | Some (_, wPeriodMax) \<Rightarrow> 0 < wPeriodMax)"

lemma timecaps_balanced:
  assumes "timecaps_t w n p = (Done period, q)" "caps_positive w" "0 < n"
  shows "wsa_users q = wsa_users p \<and> periods q = (if period > 0 then period # periods p else periods p)"
  using assms
  by (auto simp: timecaps_t_def caps_positive_def seq_Done method_simps Let_def split: option.splits prod.splits if_splits
      dest!: on_log_same)

text \<open>Methods that return an exit code.\<close>

definition exits :: "('s, int) method \<Rightarrow> bool" where
  "exits m \<longleftrightarrow> (\<forall>s code t. m s = (Done code, t) \<longrightarrow> code \<in> {EXIT_SUCCESS, EXIT_FAILURE})"

lemma exits_intro:
  "exits (ret EXIT_SUCCESS)" "exits (ret EXIT_FAILURE)" "exits (throw e)"
  "(\<And>x. exits (f x)) \<Longrightarrow> exits (bindm m f)" "exits k \<Longrightarrow> exits (seq u k)"
  "exits n \<Longrightarrow> exits n' \<Longrightarrow> exits (if b then n else n')"
  unfolding exits_def by (auto simp: method_simps bindm_Done seq_Done)

lemma psych_Run_exits: "exits (psych_Run se env stod config os)"
proof -
  have d: "exits (case root of
      Some (DictionaryValue d) \<Rightarrow> f d | Some _ \<Rightarrow> throw e | None \<Rightarrow> throw e')"
    if "\<And>d. exits (f d)" for root f e e'
    using that by (auto intro: exits_intro split: option.split Value.split)
  show ?thesis
    unfolding psych_Run_def
    by (cases config) (auto intro!: exits_intro d)
qed

lemma psych_Run_code: "psych_Run se env stod config os s = (Done code, t) \<Longrightarrow> code \<in> {EXIT_SUCCESS, EXIT_FAILURE}"
  using psych_Run_exits unfolding exits_def by blast

text \<open>
  C35. A process that comes back has given back the socket library and the timer period it asked for,
  and its exit code is success or failure.
\<close>
theorem main_gives_back:
  assumes "main w se env stod opened os argv p = (Done code, q)" "caps_positive w"
  shows "wsa_users q = wsa_users p \<and> periods q = periods p \<and> code \<in> {EXIT_SUCCESS, EXIT_FAILURE}"
proof -
  obtain p1 up p2 period p3 where r: "env_t w argv p = (Done (), p1)" "winsock_t w 2 2 p1 = (Done up, p2)"
    "timecaps_t w 1 p2 = (Done period, p3)" "run_adapter se env stod (config_text opened) os = Done code"
    "seq (timecaps_destructor period) (seq (winsock_destructor up) (ret code)) p3 = (Done code, q)"
    using assms(1) by (auto simp: main_def bindm_Done seq_Done method_simps)
  have "wsa_users p1 = wsa_users p \<and> periods p1 = periods p"
    using r(1) by (auto simp: env_t_def seq_Done bindm_Done method_simps split: option.splits dest!: on_log_same)
  moreover have "code \<in> {EXIT_SUCCESS, EXIT_FAILURE}"
    using r(4) unfolding run_adapter_def
    by (auto simp: bindm_def seq_def method_simps split: prod.splits outcome.splits dest: psych_Run_code)
  ultimately show ?thesis
    using winsock_balanced[OF r(2)] timecaps_balanced[OF r(3) assms(2)] r(5)
    by (auto simp: timecaps_destructor_def winsock_destructor_def method_simps split: if_splits)
qed

lemma config_text_blocks:
  "config_text (Some blocks) = Some (concat (takeWhile (\<lambda>b. b \<noteq> []) blocks))" "config_text None = None"
  by (simp_all add: config_text_def ReadFileToString_def read_loop_concat)

definition process_start :: "(string \<rightharpoonup> string) \<Rightarrow> process" where
  "process_start files = \<lparr>command_line_of = None, log_of = log_start files, wsa_users = 0, periods = []\<rparr>"

text \<open>The logging of a process that has just started, for any command line.\<close>

lemma init_log:
  obtains x t where
    "ChromiumInitLoggingImpl (win_log w) cl (Some name) (DetermineLogMode cl)
       DONT_LOCK_LOG_FILE APPEND_TO_OLD_LOG_FILE ENABLE_DCHECK_FOR_NON_OFFICIAL_RELEASE_BUILDS (log_start files) = (Done x, t)"
    "log_reachable files t" "log_dest t = DetermineLogMode cl"
proof -
  let ?m = "ChromiumInitLoggingImpl (win_log w) cl (Some name) (DetermineLogMode cl)
    DONT_LOCK_LOG_FILE APPEND_TO_OLD_LOG_FILE ENABLE_DCHECK_FOR_NON_OFFICIAL_RELEASE_BUILDS"
  let ?s = "log_start files"
  have ready: "lock_ready ?s" by (simp add: lock_ready_def lock_exists_def log_start_def)
  obtain r t where rt: "?m ?s = (r, t)" by (cases "?m ?s")
  obtain x where x: "r = Done x"
    using ChromiumInit_returns[OF ready, of "Some name" "DetermineLogMode cl" "win_log w" cl DONT_LOCK_LOG_FILE
        APPEND_TO_OLD_LOG_FILE ENABLE_DCHECK_FOR_NON_OFFICIAL_RELEASE_BUILDS, unfolded rt] by auto
  have "log_step ?s t"
    using log_step.init[of "Some name" "DetermineLogMode cl" ?s "win_log w" cl DONT_LOCK_LOG_FILE
        APPEND_TO_OLD_LOG_FILE ENABLE_DCHECK_FOR_NON_OFFICIAL_RELEASE_BUILDS, unfolded rt] by simp
  then have R: "log_reachable files t" by (rule log_reachable.step[OF log_reachable.start])
  have "log_dest t = DetermineLogMode cl"
    using ChromiumInit_keeps[OF ready _ rt] by simp
  with that rt x R show thesis by simp
qed

lemma log_mode_of_switches:
  "DetermineLogMode (InitFromArgv argv cl\<^sub>0) =
     (if (case map_of (rev (map (\<lambda>(s, v). (switch_key s, v)) (switches_of (tl argv)))) kEnableLogging of
            Some v \<Rightarrow> Some v | None \<Rightarrow> map_of (switches cl\<^sub>0) kEnableLogging) = Some ''file''
      then LOG_ONLY_TO_FILE else LOG_NONE)"
  by (simp add: DetermineLogMode_def GetSwitchValueASCII_def GetSwitchValueNative_def LowerASCIIOnWindows_def
      InitFromArgv_switches the_default_def split: option.split)

text \<open>
  The log of a process: it goes to the file exactly when the last \<open>--enable-logging\<close> in front of the
  terminator has the value \<open>file\<close>, and nowhere else but to the error output otherwise; the log is in a
  state its invariant covers.
\<close>
theorem process_log_mode:
  "let q = snd (env_t w argv (process_start files))
   in fst (env_t w argv (process_start files)) = Done () \<and> log_reachable files (log_of q) \<and>
      log_dest (log_of q) =
        (if map_of (rev (map (\<lambda>(s, v). (switch_key s, v)) (switches_of (tl argv)))) kEnableLogging = Some ''file''
         then LOG_ONLY_TO_FILE else LOG_NONE)"
proof -
  let ?cl = "InitFromArgv argv NO_PROGRAM"
  obtain x t where t: "ChromiumInitLoggingImpl (win_log w) ?cl (Some GetLogFileName) (DetermineLogMode ?cl)
       DONT_LOCK_LOG_FILE APPEND_TO_OLD_LOG_FILE ENABLE_DCHECK_FOR_NON_OFFICIAL_RELEASE_BUILDS (log_start files) = (Done x, t)"
    "log_reachable files t" "log_dest t = DetermineLogMode ?cl"
    by (rule init_log)
  have "env_t w argv (process_start files) = (Done (), \<lparr>command_line_of = Some ?cl, log_of = t, wsa_users = 0, periods = []\<rparr>)"
    using t(1) by (simp add: env_t_def process_start_def CommandLine_Init_def method_simps on_log_def bindm_def)
  then show ?thesis using t by (simp add: log_mode_of_switches NO_PROGRAM_def split: option.split)
qed

section \<open>Example\<close>

definition demo_win :: win_env where
  "demo_win =
     \<lparr>win_log = demo_log_env, WSAStartup = (\<lambda>major minor. (0, major, minor)), WSAGetLastError = 0,
      timeGetDevCaps = Some (1, 1000000), timeBeginPeriod = (\<lambda>_. True)\<rparr>"

theorem main_gives_back_witness:
  "\<exists>q. main demo_win (demo_start_env 0) demo_env no_stod None [] [''psych''] (process_start (\<lambda>_. None)) = (Done EXIT_FAILURE, q) \<and>
     wsa_users q = 0 \<and> periods q = []"
proof -
  have r: "fst (main demo_win (demo_start_env 0) demo_env no_stod None [] [''psych''] (process_start (\<lambda>_. None))) = Done EXIT_FAILURE"
    by code_simp
  then obtain q where q: "main demo_win (demo_start_env 0) demo_env no_stod None [] [''psych''] (process_start (\<lambda>_. None)) =
      (Done EXIT_FAILURE, q)" by (metis prod.collapse)
  have "caps_positive demo_win" by code_simp
  from main_gives_back[OF q this] q show ?thesis by (simp add: process_start_def)
qed

end
