(* ===== verification/Plugin.thy ===== *)
theory Plugin
  imports Process
begin

text \<open>
  The plugin build: the environment, the log handler and the factory of \<open>src/src/plugin.cc\<close>, and of
  \<open>src/src/tcl.cc\<close> the registration of the Tcl commands, their dispatcher and the header of a FlexRecord.
  The host, Velocity Analytics, is what calls these; the value of the environment variable \<open>TR_DEBUG\<close> is an
  argument, and so are the two commands, which the dispatcher calls.
\<close>

section \<open>The environment of the plugin\<close>

definition kPluginType :: string where "kPluginType = ''psychPlugin''"

definition kLogProvider :: string where "kLogProvider = ''A86E8172-4520-4043-B509-AF75C35326D3''"

text \<open>The name of the plugin and, when the variable is set, its value.\<close>

definition plugin_command_line :: "string option \<Rightarrow> string" where
  "plugin_command_line variable =
     (case variable of None \<Rightarrow> kPluginType | Some buffer \<Rightarrow> kPluginType @ '' '' @ buffer)"

datatype msg_priority = eMsgInfo | eMsgLow | eMsgMedium | eMsgFatal

definition log_priority :: "LogSeverity \<Rightarrow> msg_priority" where
  "log_priority severity =
     (if severity = LOG_INFO then eMsgInfo
      else if severity = LOG_WARNING then eMsgLow
      else if severity = LOG_ERROR then eMsgMedium
      else if severity = LOG_FATAL then eMsgFatal
      else eMsgInfo)"

text \<open>Boost's algorithm, with \<open>isspace\<close> of the classic locale.\<close>

definition trim_right_copy :: "string \<Rightarrow> string" where
  "trim_right_copy s = rev (dropWhile LocalIsWhitespace (rev s))"

text \<open>
  What the handler passes to \<open>MsgLog\<close>, as a priority and a text that ends at a NUL; it always returns false.
\<close>

definition msg_log :: "LogSeverity \<times> string \<Rightarrow> msg_priority \<times> string" where
  "msg_log = (\<lambda>(severity, str). (log_priority severity, c_text (trim_right_copy str)))"

definition plugin_log_handler :: log_handler_fn where
  "plugin_log_handler severity f line start str = False"

text \<open>The calls of \<open>MsgLog\<close> so far: the handler is called for every entry of \<open>handled\<close>.\<close>

definition host_log :: "log_state \<Rightarrow> (msg_priority \<times> string) list" where
  "host_log s = map msg_log (handled s)"

text \<open>The constructor, in the build without \<open>USE_ETW_LOGGING\<close>.\<close>

definition plugin_env_t :: "win_env \<Rightarrow> string option \<Rightarrow> unit proc" where
  "plugin_env_t w variable =
     seq (modify (\<lambda>p. p\<lparr>command_line_of := CommandLine_Init [] (command_line_of p)\<rparr>))
    (bindm (gets command_line_of) (\<lambda>current.
       case current of
         None \<Rightarrow> throw Null_Deref
       | Some cl \<Rightarrow>
           (let cl = ParseFromString (plugin_command_line variable) cl
            in seq (modify (\<lambda>p. p\<lparr>command_line_of := Some cl\<rparr>))
              (seq (bindm (on_log (ChromiumInitLoggingImpl (win_log w) cl (Some GetLogFileName) (DetermineLogMode cl)
                      DONT_LOCK_LOG_FILE APPEND_TO_OLD_LOG_FILE ENABLE_DCHECK_FOR_NON_OFFICIAL_RELEASE_BUILDS))
                    (\<lambda>_. ret ()))
                (modify (\<lambda>p. p\<lparr>log_of := SetLogMessageHandler (Some plugin_log_handler) (log_of p)\<rparr>))))))"

text \<open>
  The factory is constructed with its members and registers the type of the plugin; the socket library
  is brought up as in \<open>Process\<close>, by a class that differs in the places its log lines name.
\<close>

definition factory_t :: "win_env \<Rightarrow> string option \<Rightarrow> (bool \<times> string list) proc" where
  "factory_t w TR_DEBUG =
     seq (plugin_env_t w TR_DEBUG) (bindm (winsock_t w 2 2) (\<lambda>winsock. ret (winsock, [kPluginType])))"

definition newInstance :: "string \<Rightarrow> 32 word \<Rightarrow> bool \<Rightarrow> psych" where
  "newInstance type ref_count ready = psych_t ref_count ready"

section \<open>Tcl commands\<close>

definition kPsychFlexRecordName :: string where "kPsychFlexRecordName = ''psych''"
definition kBasicApi :: string where "kBasicApi = ''psych_republish''"
definition kResetApi :: string where "kResetApi = ''psych_hard_republish''"

definition kTclApi :: "string list" where
  "kTclApi = [kBasicApi, kResetApi]"

text \<open>The commands a host knows, each with the plugin that registered it, and the lines for the log.\<close>

record tcl_host =
  commands :: "(string \<times> string) list"
  tcl_log :: "string list"

definition register_command :: "string \<Rightarrow> string \<Rightarrow> (tcl_host, unit) method" where
  "register_command pid api = modify (\<lambda>h. h\<lparr>commands := commands h @ [(pid, api)],
     tcl_log := tcl_log h @ [''Registered Tcl API '' @ [CHR 0x22] @ api @ [CHR 0x22]]\<rparr>)"

definition RegisterTclApi :: "string \<Rightarrow> (tcl_host, bool) method" where
  "RegisterTclApi pid = seq (for_each kTclApi (register_command pid)) (ret True)"

definition deregister_command :: "string \<Rightarrow> string \<Rightarrow> (tcl_host, unit) method" where
  "deregister_command pid api = modify (\<lambda>h. h\<lparr>commands := remove1 (pid, api) (commands h),
     tcl_log := tcl_log h @ [''Unregistered Tcl API '' @ [CHR 0x22] @ api @ [CHR 0x22]]\<rparr>)"

definition UnregisterTclApi :: "string \<Rightarrow> (tcl_host, bool) method" where
  "UnregisterTclApi pid = seq (for_each kTclApi (deregister_command pid)) (ret True)"

text \<open>
  The state of the dispatcher: the result left for the interpreter, counters, times, the last activity.
  \<open>basic\<close> and \<open>reset\<close> stand for the names the code compares with; only \<open>psych.cc\<close> declares them, for itself.
\<close>

record tcl_state =
  tcl_result :: string
  tcl_counters :: psych_stats
  tcl_times :: refresh_times
  tcl_last_activity :: int

datatype tcl_code = TCL_OK | TCL_ERROR

text \<open>What a command of the plugin can do besides returning a code.\<close>

datatype command_outcome = Returns tcl_code | Framework_Exception string | Other_Exception

type_synonym tcl_command = "tcl_state \<Rightarrow> command_outcome \<times> tcl_state"

definition set_result :: "string \<Rightarrow> tcl_state \<Rightarrow> tcl_state" where
  "set_result text s = s\<lparr>tcl_result := text\<rparr>"

definition tcl_dispatch :: "string \<Rightarrow> string \<Rightarrow> tcl_command \<Rightarrow> tcl_command \<Rightarrow> string \<Rightarrow> tcl_command" where
  "tcl_dispatch basic reset republish hard_republish command s =
     (if command = basic then republish s
      else if command = reset then hard_republish s
      else (Returns TCL_ERROR, set_result ''unknown function'' s))"

definition execute ::
    "string \<Rightarrow> string \<Rightarrow> tcl_command \<Rightarrow> tcl_command \<Rightarrow> int \<Rightarrow> int \<Rightarrow> string \<Rightarrow> tcl_state \<Rightarrow> tcl_code \<times> tcl_state" where
  "execute basic reset republish hard_republish t0 t1 command s =
     (let s = s\<lparr>tcl_last_activity := t0,
                tcl_counters := count PSYCH_PC_TCL_QUERY_RECEIVED (tcl_counters s)\<rparr>;
          (retval, s) = (case tcl_dispatch basic reset republish hard_republish command s of
              (Returns code, s) \<Rightarrow> (code, s)
            | (Framework_Exception what, s) \<Rightarrow> (TCL_ERROR, set_result what s)
            | (Other_Exception, s) \<Rightarrow> (TCL_ERROR, set_result ''Unhandled exception'' s))
      in (retval, s\<lparr>tcl_times := note_time (t1 - t0) (tcl_times s)\<rparr>))"

section \<open>The header of a FlexRecord\<close>

text \<open>\<open>setw\<close> with a fill of zeros; year, month from zero, day, hour, minute and second of the time stamp.\<close>

definition zero_padded :: "nat \<Rightarrow> int \<Rightarrow> string" where
  "zero_padded n i = (let d = IntToString i in replicate (n - length d) CHR ''0'' @ d)"

definition flexrecord_t ::
    "int \<times> int \<times> int \<times> int \<times> int \<times> int \<Rightarrow> string \<Rightarrow> string \<Rightarrow> string \<Rightarrow> 64 word \<Rightarrow> string \<times> 64 word" where
  "flexrecord_t = (\<lambda>(tm_year, tm_mon, tm_mday, tm_hour, tm_min, tm_sec) vhtime symbol record_name sequence.
     (zero_padded 4 (1900 + tm_year) @ zero_padded 2 (1 + tm_mon) @ zero_padded 2 tm_mday @
      zero_padded 2 tm_hour @ zero_padded 2 tm_min @ zero_padded 2 tm_sec @ ''.'' @ zero_padded 3 0 @
      '',@@a'' @ '',FR'' @ '','' @ symbol @ '','' @ record_name @ '','' @ '','' @ Uint64ToString (uint sequence) @
      '',V'' @ vhtime @ '','' @ '','', sequence + 1))"

section \<open>What the plugin logs\<close>

lemma trimmed_not_Nil:
  assumes "c \<in> set s" "\<not> ws c"
  shows "trimmed ws s \<noteq> []"
proof -
  have "\<not> (\<forall>x \<in> set s. ws x)" using assms by blast
  then obtain x xs where "dropWhile ws s = x # xs" "\<not> ws x"
    by (metis dropWhile_eq_Nil_conv dropWhile_eq_Cons_conv neq_Nil_conv)
  then show ?thesis by (auto simp: trimmed_def)
qed

lemma plugin_command_line_words:
  "ParseFromString (plugin_command_line variable) cl =
     InitFromArgv (SplitString (plugin_command_line variable) CHR '' '' []) cl"
proof -
  have "CHR ''p'' \<in> set (plugin_command_line variable)"
    by (simp add: plugin_command_line_def kPluginType_def split: option.split)
  moreover have "\<not> is_ws CHR ''p''" by code_simp
  ultimately have "fst (TrimWhitespace (plugin_command_line variable) TRIM_ALL) \<noteq> []"
    unfolding TrimWhitespace_all by (rule trimmed_not_Nil)
  then show ?thesis by (simp add: ParseFromString_def)
qed

lemma no_arguments: "InitFromArgv [] NO_PROGRAM = NO_PROGRAM"
  by (simp add: InitFromArgv_def AppendSwitchesAndArguments_def NO_PROGRAM_def)

text \<open>
  The log of the plugin goes to the file exactly when the last \<open>--enable-logging\<close> among the words of the
  variable has the value \<open>file\<close>, and the handler is installed.
\<close>
theorem plugin_log_mode:
  "let q = snd (plugin_env_t w variable (process_start files));
       words = SplitString (plugin_command_line variable) CHR '' '' []
   in fst (plugin_env_t w variable (process_start files)) = Done () \<and> log_reachable files (log_of q) \<and>
      log_message_handler (log_of q) = Some plugin_log_handler \<and>
      log_dest (log_of q) =
        (if map_of (rev (map (\<lambda>(s, v). (switch_key s, v)) (switches_of (tl words)))) kEnableLogging = Some ''file''
         then LOG_ONLY_TO_FILE else LOG_NONE)"
proof -
  let ?cl = "InitFromArgv (SplitString (plugin_command_line variable) CHR '' '' []) NO_PROGRAM"
  obtain x t where t: "ChromiumInitLoggingImpl (win_log w) ?cl (Some GetLogFileName) (DetermineLogMode ?cl)
       DONT_LOCK_LOG_FILE APPEND_TO_OLD_LOG_FILE ENABLE_DCHECK_FOR_NON_OFFICIAL_RELEASE_BUILDS (log_start files) = (Done x, t)"
    "log_reachable files t" "log_dest t = DetermineLogMode ?cl"
    by (rule init_log)
  have "plugin_env_t w variable (process_start files) =
      (Done (), \<lparr>command_line_of = Some ?cl, log_of = SetLogMessageHandler (Some plugin_log_handler) t, wsa_users = 0, periods = []\<rparr>)"
    using t(1)
    by (simp add: plugin_env_t_def process_start_def CommandLine_Init_def no_arguments plugin_command_line_words
        method_simps on_log_def bindm_def seq_def Let_def)
  moreover have "log_reachable files (SetLogMessageHandler (Some plugin_log_handler) t)"
    by (rule log_reachable.step[OF t(2) log_step.handler])
  ultimately show ?thesis
    using t(3) by (simp add: SetLogMessageHandler_def log_mode_of_switches NO_PROGRAM_def Let_def split: option.split)
qed

text \<open>Every message of the plugin is passed to the host once, and to the other destinations as well.\<close>

lemma plugin_message:
  assumes "log_reachable files s" "log_message_handler s = Some plugin_log_handler" "severity \<le> LOG_FATAL"
  shows "\<exists>name t. severity_text severity = Done name \<and> log_stream env severity file line streamed s = (Done (), t) \<and>
    (let text = log_header env s name file line @ streamed @ [CHR 0x0A]
     in host_log t = host_log s @ [(log_priority severity, c_text (trim_right_copy text))] \<and>
        delivered env severity text (offered severity text s) t)"
proof -
  have "lock_ready s" using reachable_ready[OF assms(1)] by simp
  from log_stream_run[OF this assms(3), of env "file" line streamed] show ?thesis
    using assms(2)
    by (auto simp: takes_def plugin_log_handler_def Let_def host_log_def msg_log_def delivered_def offered_def)
qed

section \<open>What the commands leave\<close>

lemma RegisterTclApi_run:
  "RegisterTclApi pid h =
     (Done True, h\<lparr>commands := commands h @ [(pid, kBasicApi), (pid, kResetApi)],
        tcl_log := tcl_log h @ map (\<lambda>api. ''Registered Tcl API '' @ [CHR 0x22] @ api @ [CHR 0x22]) kTclApi\<rparr>)"
  by (simp add: RegisterTclApi_def kTclApi_def register_command_def method_simps seq_def bindm_def)

text \<open>Unregistering takes back what registering added and nothing of another plugin.\<close>

lemma Unregister_Register:
  assumes "(pid, kBasicApi) \<notin> set (commands h)" "(pid, kResetApi) \<notin> set (commands h)"
  shows "commands (snd (UnregisterTclApi pid (snd (RegisterTclApi pid h)))) = commands h"
  using assms unfolding RegisterTclApi_run
  by (simp add: UnregisterTclApi_def kTclApi_def deregister_command_def method_simps seq_def bindm_def remove1_append
      kBasicApi_def kResetApi_def)

text \<open>
  A call of \<open>execute\<close> comes back with an error unless the command came back with success, whatever the
  command throws; it is counted once and its duration noted once.
\<close>

lemma execute_outcome:
  assumes "\<And>s. tcl_times (snd (republish s)) = tcl_times s \<and> tcl_counters (snd (republish s)) = tcl_counters s"
    and "\<And>s. tcl_times (snd (hard s)) = tcl_times s \<and> tcl_counters (snd (hard s)) = tcl_counters s"
  shows "tcl_times (snd (execute basic reset republish hard t0 t1 command s)) = note_time (t1 - t0) (tcl_times s) \<and>
    tcl_counters (snd (execute basic reset republish hard t0 t1 command s)) =
      count PSYCH_PC_TCL_QUERY_RECEIVED (tcl_counters s) \<and>
    (command \<notin> {basic, reset} \<longrightarrow> fst (execute basic reset republish hard t0 t1 command s) = TCL_ERROR \<and>
      tcl_result (snd (execute basic reset republish hard t0 t1 command s)) = ''unknown function'')"
  using assms(1)[of "s\<lparr>tcl_last_activity := t0, tcl_counters := count PSYCH_PC_TCL_QUERY_RECEIVED (tcl_counters s)\<rparr>"]
    assms(2)[of "s\<lparr>tcl_last_activity := t0, tcl_counters := count PSYCH_PC_TCL_QUERY_RECEIVED (tcl_counters s)\<rparr>"]
  by (auto simp: execute_def tcl_dispatch_def set_result_def Let_def split: prod.splits command_outcome.splits)

end
