(* ===== verification/Printing.thy ===== *)
theory Printing
  imports Config
begin

text \<open>
  What the program prints of its objects: the configuration (\<open>src/src/config.hh\<close>), the objects of RFA
  (\<open>src/src/rfaostream.hh\<close>), the names of exceptions (\<open>src/src/error.cc\<close>) and the events of the RFA
  logger (\<open>src/src/rfa_logging.cc\<close>). An operator \<open><<\<close> is the text it adds to the stream. The numbers of
  RFA's flags and enumerators are not in the sources: \<open>code\<close> gives the number of a name.
\<close>

section \<open>The configuration\<close>

definition quoted :: "string \<Rightarrow> string" where
  "quoted s = [CHR 0x22] @ s @ [CHR 0x22]"

text \<open>A member that is not the first one, and a boolean.\<close>

definition member_text :: "string \<Rightarrow> string \<Rightarrow> string" where
  "member_text name shown = '', '' @ quoted name @ '': '' @ shown"

definition bool_text :: "bool \<Rightarrow> string" where
  "bool_text b = (if b then ''true'' else ''false'')"

text \<open>The loop over a container, with a comma before all elements but the first.\<close>

fun print_rest :: "('a \<Rightarrow> string) \<Rightarrow> 'a list \<Rightarrow> string" where
  "print_rest p [] = []"
| "print_rest p (x # xs) = '', '' @ p x @ print_rest p xs"

fun print_elements :: "('a \<Rightarrow> string) \<Rightarrow> 'a list \<Rightarrow> string" where
  "print_elements p [] = []"
| "print_elements p (x # xs) = p x @ print_rest p xs"

definition print_session_config :: "session_config \<Rightarrow> string" where
  "print_session_config s =
     ''{ '' @ quoted ''session_name'' @ '': '' @ quoted (session_name s) @
     member_text ''connection_name'' (quoted (connection_name s)) @
     member_text ''publisher_name'' (quoted (publisher_name s)) @
     member_text ''rssl_servers'' (''[ '' @ print_elements quoted (rssl_servers s) @ '' ]'') @
     member_text ''rssl_default_port'' (quoted (rssl_default_port s)) @
     member_text ''application_id'' (quoted (application_id s)) @
     member_text ''instance_id'' (quoted (cfg_instance_id s)) @
     member_text ''user_name'' (quoted (user_name s)) @
     member_text ''position'' (quoted (cfg_position s)) @ '' }''"

definition print_resource :: "resource \<Rightarrow> string" where
  "print_resource r =
     ''{ '' @ quoted ''name'' @ '': '' @ quoted (res_name r) @
     member_text ''source'' (quoted (res_source r)) @
     member_text ''path'' (quoted (res_path r)) @
     member_text ''entitlement_code'' (UintToString (uint (entitlement_code r))) @
     member_text ''fields''
       (''{ '' @ print_elements (\<lambda>(k, v). quoted k @ '': '' @ IntToString v) (res_fields r) @ '' }'') @
     member_text ''items''
       (''{ '' @ print_elements (\<lambda>(k, ric, topic). quoted k @ '': { '' @ quoted ''RIC'' @ '': '' @ quoted ric @
          member_text ''topic'' (quoted topic) @ '' }'') (res_items r) @ '' }'') @ '' }''"

text \<open>The members that are plain strings, in two groups.\<close>

definition print_strings :: "(string \<times> string) list \<Rightarrow> string" where
  "print_strings ms = concat (map (\<lambda>(name, s). member_text name (quoted s)) ms)"

definition head_strings :: "config \<Rightarrow> (string \<times> string) list" where
  "head_strings c =
     [(''agentx_socket'', agentx_socket c), (''key'', cfg_key c), (''service_name'', service_name c),
      (''dacs_id'', dacs_id c)]"

definition tail_strings :: "config \<Rightarrow> (string \<times> string) list" where
  "tail_strings c =
     [(''monitor_name'', monitor_name c), (''event_queue_name'', event_queue_name c),
      (''vendor_name'', vendor_name c), (''maximum_data_size'', maximum_data_size c),
      (''interval'', cfg_interval c), (''tolerable_delay'', tolerable_delay c),
      (''retry_count'', retry_count c), (''retry_delay_ms'', retry_delay_ms c),
      (''retry_timeout_ms'', retry_timeout_ms c), (''timeout_ms'', timeout_ms c),
      (''connect_timeout_ms'', connect_timeout_ms c),
      (''enable_http_pipelining'', enable_http_pipelining c),
      (''maximum_response_size'', maximum_response_size c),
      (''minimum_response_size'', minimum_response_size c),
      (''request_http_encoding'', request_http_encoding c),
      (''time_offset_constant'', time_offset_constant c), (''panic_threshold'', panic_threshold c),
      (''http_proxy'', http_proxy c), (''dns_cache_timeout'', dns_cache_timeout c),
      (''base_url'', base_url c)]"

definition print_config :: "config \<Rightarrow> string" where
  "print_config c =
     quoted ''config_t'' @ '': { '' @ quoted ''is_snmp_enabled'' @ '': '' @ bool_text (is_snmp_enabled c) @
     member_text ''is_agentx_subagent'' (bool_text (is_agentx_subagent c)) @
     print_strings (head_strings c) @
     member_text ''sessions'' (''['' @ print_elements print_session_config (cfg_sessions c) @ '' ]'') @
     print_strings (tail_strings c) @
     member_text ''resources'' (''['' @ print_elements print_resource (resources c) @ '' ]'') @ '' }''"

section \<open>Masks and enumerators\<close>

type_synonym codes = "string \<Rightarrow> int"

definition add_flag :: "codes \<Rightarrow> 32 word \<Rightarrow> string \<Rightarrow> string \<Rightarrow> string" where
  "add_flag code bits name shown =
     (if and bits (word_of_int (code name)) \<noteq> 0
      then (if shown \<noteq> [] then shown @ ''|'' else shown) @ name else shown)"

definition mask_text :: "codes \<Rightarrow> string list \<Rightarrow> 32 word \<Rightarrow> string" where
  "mask_text code names bits = fold (add_flag code bits) names []"

text \<open>A \<open>switch\<close> over enumerators that gives the name of the one that matches.\<close>

definition enum_text :: "codes \<Rightarrow> string list \<Rightarrow> int \<Rightarrow> string" where
  "enum_text code names n = the_default ''(Unknown)'' (find (\<lambda>name. code name = n) names)"

definition AttribInfo_flags :: "string list" where
  "AttribInfo_flags = [''DataMaskFlag'', ''NameFlag'', ''NameTypeFlag'', ''ServiceNameFlag'', ''IDFlag'',
     ''AttribFlag'', ''ServiceIDFlag'']"

definition name_types :: "string list" where
  "name_types = [''INSTRUMENT_NAME_UNSPECIFIED'', ''INSTRUMENT_NAME_RIC'', ''INSTRUMENT_NAME_MAX_RESERVED'']"

definition Manifest_flags :: "string list" where
  "Manifest_flags = [''SeqFlag'', ''FilteredFlag'', ''ItemGroupFlag'', ''PermissionDataFlag'']"

definition data_states :: "string list" where
  "data_states = [''UnspecifiedEnum'', ''OkEnum'', ''SuspectEnum'']"

definition status_codes :: "string list" where
  "status_codes = [''NoneEnum'', ''NotFoundEnum'', ''TimeoutEnum'', ''NotAuthorizedEnum'', ''InvalidArgumentEnum'',
     ''UsageErrorEnum'', ''PreemptedEnum'', ''JustInTimeFilteringStartedEnum'', ''TickByTickResumedEnum'',
     ''FailoverStartedEnum'', ''FailoverCompletedEnum'', ''GapDetectedEnum'', ''NoResourcesEnum'',
     ''TooManyItemsEnum'', ''AlreadyOpenEnum'', ''SourceUnknownEnum'', ''NotOpenEnum'', ''NonUpdatingItemEnum'',
     ''UnsupportedViewTypeEnum'', ''InvalidViewEnum'', ''FullViewProvidedEnum'', ''UnableToRequestAsBatchEnum'']"

definition stream_states :: "string list" where
  "stream_states = [''UnspecifiedStreamStateEnum'', ''OpenEnum'', ''NonStreamingEnum'', ''ClosedRecoverEnum'',
     ''ClosedEnum'', ''RedirectedEnum'']"

definition RespMsg_flags :: "string list" where
  "RespMsg_flags = [''RespTypeNumFlag'', ''RespStatusFlag'', ''QualityOfServiceFlag'', ''AttribInfoFlag'',
     ''ManifestFlag'', ''HeaderFlag'', ''PayloadFlag'', ''PrincipalIdentityFlag'']"

definition indication_flags :: "string list" where
  "indication_flags = [''DoNotCacheFlag'', ''DoNotFilterFlag'', ''ClearCacheFlag'', ''RefreshCompleteFlag'',
     ''DoNotRippleFlag'']"

definition model_types :: "string list" where
  "model_types = [''MMT_LOGIN'', ''MMT_DIRECTORY'', ''MMT_DICTIONARY'', ''MMT_MARKET_PRICE'',
     ''MMT_MARKET_BY_ORDER'', ''MMT_MARKET_BY_PRICE'', ''MMT_MARKET_MAKER'', ''MMT_SYMBOL_LIST'', ''MMT_HISTORY'']"

definition resp_types :: "string list" where
  "resp_types = [''RefreshEnum'', ''StatusEnum'', ''UpdateEnum'']"

definition event_names :: "string list" where
  "event_names = [''EventQueueStatusEventEnum'', ''ComplEventEnum'', ''MarketDataItemEventEnum'',
     ''MarketDataDictEventEnum'', ''MarketDataSvcEventEnum'', ''MarketDataManagedPubChannelReqEventEnum'',
     ''MarketDataManagedPubItemReqEventEnum'', ''PubErrorEventEnum'', ''MarketDataItemContReplyEventEnum'',
     ''SessionEventEnum'', ''MarketDataCBR_NameEventEnum'', ''EntitlementsAuthenticationEventEnum'',
     ''ConnectionEventEnum'', ''MarketDataManagedActiveItemsPubEventEnum'',
     ''MarketDataManagedInactiveItemsPubEventEnum'', ''MarketDataManagedPubMirroringModeEventEnum'',
     ''MarketDataManagedItemContReqPubEventEnum'', ''MarketDataManagedActiveClientSessionPubEventEnum'',
     ''MarketDataManagedInactiveClientSessionPubEventEnum'', ''OMMActiveClientSessionEventEnum'',
     ''OMMInactiveClientSessionEventEnum'', ''OMMSolicitedItemEventEnum'', ''OMMCmdErrorEventEnum'',
     ''LoggerNotifyEventEnum'']"

section \<open>The objects of RFA\<close>

text \<open>What the getters return, strings as they are printed.\<close>

record attrib_info =
  ai_hint_mask :: "32 word"
  ai_id :: int
  ai_name :: string
  ai_name_type :: int
  ai_service_id :: int
  ai_service_name :: string

definition print_attrib_info :: "codes \<Rightarrow> attrib_info \<Rightarrow> string" where
  "print_attrib_info code a =
     quoted ''AttribInfo'' @ '': { '' @
     quoted ''HintMask'' @ '': '' @ quoted (mask_text code AttribInfo_flags (ai_hint_mask a)) @
     member_text ''ID'' (IntToString (ai_id a)) @
     member_text ''Name'' (quoted (ai_name a)) @
     member_text ''NameType'' (quoted (enum_text code name_types (ai_name_type a))) @
     member_text ''ServiceID'' (IntToString (ai_service_id a)) @
     member_text ''ServiceName'' (quoted (ai_service_name a)) @ '' }''"

record manifest =
  mf_filtered_count :: int
  mf_filtered_time :: int
  mf_hint_mask :: "32 word"
  mf_seq_num :: int

definition print_manifest :: "codes \<Rightarrow> manifest \<Rightarrow> string" where
  "print_manifest code m =
     quoted ''Manifest'' @ '': { '' @
     quoted ''FilteredCount'' @ '': '' @ IntToString (mf_filtered_count m) @
     member_text ''FilteredTime'' (IntToString (mf_filtered_time m)) @
     member_text ''HintMask'' (quoted (mask_text code Manifest_flags (mf_hint_mask m))) @
     member_text ''SeqNum'' (IntToString (mf_seq_num m)) @ '' }''"

text \<open>A publisher has an address and an id, a standard identity application, name, password and position.\<close>

datatype principal_identity =
    PublisherPrincipalIdentity string string
  | StandardPrincipalIdentity string string string string
  | TokenizedPrincipalIdentity
  | OtherPrincipalIdentity

definition identity_text :: "string \<Rightarrow> string \<Rightarrow> string" where
  "identity_text type members =
     quoted ''PrincipalIdentity'' @ '': { '' @ quoted ''Type'' @ '': '' @ quoted type @ members @ '' }''"

fun print_identity :: "principal_identity \<Rightarrow> string" where
  "print_identity (PublisherPrincipalIdentity address user) =
     identity_text ''PublisherPrincipalIdentity''
       (member_text ''UserAddress'' (quoted address) @ member_text ''UserID'' (quoted user))"
| "print_identity (StandardPrincipalIdentity app name password position) =
     identity_text ''StandardPrincipalIdentity''
       (member_text ''AppName'' (quoted app) @ member_text ''Name'' (quoted name) @
        member_text ''Password'' (quoted password) @ member_text ''Position'' (quoted position))"
| "print_identity TokenizedPrincipalIdentity = identity_text ''TokenizedPrincipalIdentity'' []"
| "print_identity OtherPrincipalIdentity = identity_text ''(Unknown)'' []"

text \<open>A positive number as it is; otherwise the name of the constant, in quotes of its own.\<close>

definition quality_text :: "codes \<Rightarrow> string list \<Rightarrow> int \<Rightarrow> string" where
  "quality_text code names n = (if n > 0 then IntToString n else quoted (enum_text code names n))"

definition print_quality_of_service :: "codes \<Rightarrow> int \<Rightarrow> int \<Rightarrow> string" where
  "print_quality_of_service code rate timeliness =
     quoted ''QualityOfService'' @ '': { '' @
     quoted ''Rate'' @ '': '' @
       quoted (quality_text code [''tickByTick'', ''justInTimeFilteredRate'', ''unspecifiedRate''] rate) @
     member_text ''Timeliness''
       (quoted (quality_text code [''realTime'', ''unspecifiedDelayedTimeliness'', ''unspecifiedTimeliness''] timeliness)) @
     '' }''"

definition print_resp_status :: "codes \<Rightarrow> int \<Rightarrow> int \<Rightarrow> int \<Rightarrow> string" where
  "print_resp_status code data_state status_code stream_state =
     quoted ''RespStatus'' @ '': { '' @
     quoted ''DataState'' @ '': '' @ quoted (enum_text code data_states data_state) @
     member_text ''StatusCode'' (quoted (enum_text code status_codes status_code)) @
     member_text ''StreamState'' (quoted (enum_text code stream_states stream_state)) @ '' }''"

record response_msg =
  rm_hint_mask :: "32 word"
  rm_indication_mask :: "32 word"
  rm_model_type :: int
  rm_attrib_info :: attrib_info
  rm_manifest :: manifest
  rm_identity :: principal_identity
  rm_quality :: "int \<times> int"
  rm_status :: "int \<times> int \<times> int"
  rm_resp_type :: int
  rm_resp_type_num :: int
  rm_blank :: bool

definition print_response_msg :: "codes \<Rightarrow> response_msg \<Rightarrow> string" where
  "print_response_msg code m =
     quoted ''Msg'' @ '': { '' @
     quoted ''HintMask'' @ '': '' @ quoted (mask_text code RespMsg_flags (rm_hint_mask m)) @
     member_text ''IndicationMask'' (quoted (mask_text code indication_flags (rm_indication_mask m))) @
     member_text ''MsgModelType'' (quoted (enum_text code model_types (rm_model_type m))) @
     member_text ''MsgType'' (quoted ''RespMsg'') @
     '', '' @ print_attrib_info code (rm_attrib_info m) @
     '', '' @ print_manifest code (rm_manifest m) @
     '', '' @ print_identity (rm_identity m) @
     '', '' @ (case rm_quality m of (rate, timeliness) \<Rightarrow> print_quality_of_service code rate timeliness) @
     '', '' @ (case rm_status m of (d, c, s) \<Rightarrow> print_resp_status code d c s) @
     member_text ''RespType'' (quoted (enum_text code resp_types (rm_resp_type m))) @
     member_text ''RespTypeNum'' (IntToString (rm_resp_type_num m)) @
     member_text ''isBlank'' (bool_text (rm_blank m)) @ '' }''"

text \<open>Messages by their type; only responses are printed with their parts.\<close>

datatype any_msg = RespMsg response_msg | ReqMsg bool | GenericMsg bool | PostMsg bool | AckMsg bool | OtherMsg bool

definition plain_msg :: "string \<Rightarrow> bool \<Rightarrow> string" where
  "plain_msg type blank =
     quoted ''Msg'' @ '': { '' @
     quoted ''HintMask'' @ '': '' @ quoted ''(TODO)'' @
     member_text ''IndicationMask'' (quoted ''(TODO)'') @
     member_text ''MsgModelType'' (quoted ''(TODO)'') @
     member_text ''MsgType'' (quoted type) @
     member_text ''isBlank'' (bool_text blank) @ '' }''"

fun print_msg :: "codes \<Rightarrow> any_msg \<Rightarrow> string" where
  "print_msg code (RespMsg m) = print_response_msg code m"
| "print_msg code (ReqMsg b) = plain_msg ''ReqMsg'' b"
| "print_msg code (GenericMsg b) = plain_msg ''GenericMsg'' b"
| "print_msg code (PostMsg b) = plain_msg ''PostMsg'' b"
| "print_msg code (AckMsg b) = plain_msg ''AckMsg'' b"
| "print_msg code (OtherMsg b) = plain_msg ''(Unknown)'' b"

text \<open>An item event carries a message, the others only their type; the boolean says the stream is closed.\<close>

datatype any_event = OMMItemEvent any_msg bool | OtherEvent int bool

fun print_event :: "codes \<Rightarrow> any_event \<Rightarrow> string" where
  "print_event code (OMMItemEvent m closed) =
     quoted ''Event'' @ '': { '' @ quoted ''Type'' @ '': '' @ quoted ''OMMItemEvent'' @
     '', '' @ print_msg code m @ member_text ''isEventStreamClosed'' (bool_text closed) @ '' }''"
| "print_event code (OtherEvent type closed) =
     quoted ''Event'' @ '': { '' @ quoted ''Type'' @ '': '' @ quoted (enum_text code event_names type) @
     member_text ''isEventStreamClosed'' (bool_text closed) @ '' }''"

section \<open>Exceptions and the RFA logger\<close>

definition severity_string :: "codes \<Rightarrow> int \<Rightarrow> string" where
  "severity_string code n = enum_text code [''Error'', ''Warning'', ''Information''] n"

definition classification_string :: "codes \<Rightarrow> int \<Rightarrow> string" where
  "classification_string code n =
     enum_text code [''Anticipated'', ''Internal'', ''External'', ''IncorrectAPIUsage'', ''ConfigurationError''] n"

record logger_event =
  le_severity :: nat
  le_component :: string
  le_log_id :: string
  le_text :: string

text \<open>The name of a severity past the last one is read outside the table.\<close>

definition print_logger_event :: "logger_event \<Rightarrow> string outcome" where
  "print_logger_event e =
     (let severity = [''Success'', ''Information'', ''Warning'', ''Error'']
      in if le_severity e < length severity then
           Done (''LoggerNotifyEvent: { '' @
             quoted ''Severity'' @ '': '' @ quoted (severity ! le_severity e) @
             member_text ''Component'' (quoted (le_component e)) @
             member_text ''LogId'' (quoted (le_log_id e)) @
             member_text ''Text'' (quoted (le_text e)) @ '' }'')
         else Raise Undefined_Behaviour)"

text \<open>
  The objects the log provider holds, and what RFA answers: whether \<open>acquire\<close>, \<open>createApplicationLoggerMonitor\<close>
  and \<open>registerLoggerClient\<close> give an object. \<open>logged\<close> lists the messages for the log.
\<close>

record rfa_log =
  logger :: bool
  monitor :: "string option"
  handle :: bool
  logged :: "string list"

record rfa_log_env =
  acquire_logger :: bool
  create_monitor :: "string \<Rightarrow> bool"
  register_client :: bool

definition rfa_log_Register :: "rfa_log_env \<Rightarrow> config \<Rightarrow> rfa_log \<Rightarrow> bool \<times> rfa_log" where
  "rfa_log_Register env cfg s =
     (let s = s\<lparr>logger := acquire_logger env\<rparr>
      in if \<not> logger s then (False, s)
         else
           let name = monitor_name cfg;
               s = s\<lparr>monitor := if create_monitor env name then Some name else None\<rparr>
           in if monitor s = None then (False, s)
              else
                let s = s\<lparr>handle := register_client env\<rparr>
                in if \<not> handle s then (False, s) else (True, s))"

definition rfa_log_Unregister :: "rfa_log \<Rightarrow> bool \<times> rfa_log" where
  "rfa_log_Unregister s =
     (let s = (if handle s then s\<lparr>handle := False\<rparr> else s);
          s = s\<lparr>monitor := None\<rparr>;
          s = s\<lparr>logger := False\<rparr>
      in (True, s))"

definition rfa_log_destructor :: "rfa_log \<Rightarrow> rfa_log" where
  "rfa_log_destructor s = snd (rfa_log_Unregister s)"

definition OnLoggerNotifyEvent :: "logger_event \<Rightarrow> (rfa_log, unit) Effects.method" where
  "OnLoggerNotifyEvent e = (\<lambda>s. case print_logger_event e of
       Done text \<Rightarrow> (Done (), s\<lparr>logged := logged s @ [text]\<rparr>)
     | Raise f \<Rightarrow> (Raise f, s)
     | Diverged \<Rightarrow> (Diverged, s))"

text \<open>Events of other types are ignored.\<close>

definition rfa_log_processEvent :: "logger_event option \<Rightarrow> (rfa_log, unit) Effects.method" where
  "rfa_log_processEvent event = (case event of Some e \<Rightarrow> OnLoggerNotifyEvent e | None \<Rightarrow> ret ())"

section \<open>What is printed\<close>

text \<open>A mask is the names of its flags in order, joined by bars.\<close>

definition set_flags :: "codes \<Rightarrow> string list \<Rightarrow> 32 word \<Rightarrow> string list" where
  "set_flags code names bits = filter (\<lambda>name. and bits (word_of_int (code name)) \<noteq> 0) names"

lemma join_with_snoc: "ps \<noteq> [] \<Longrightarrow> join_with d (ps @ [p]) = join_with d ps @ d @ p"
  by (induction d ps rule: join_with.induct) simp_all

lemma join_with_Nil: "list_all (\<lambda>p. p \<noteq> []) ps \<Longrightarrow> join_with d ps = [] \<longleftrightarrow> ps = []"
  by (induction d ps rule: join_with.induct) simp_all

lemma mask_text_join:
  assumes "list_all (\<lambda>name. name \<noteq> []) names"
  shows "mask_text code names bits = join_with ''|'' (set_flags code names bits)"
  using assms
proof (induction names rule: rev_induct)
  case (snoc name names)
  have "list_all (\<lambda>p. p \<noteq> []) (set_flags code names bits)"
    using snoc.prems by (simp add: set_flags_def list_all_iff)
  with join_with_Nil[of "set_flags code names bits" "''|''"] join_with_snoc[of "set_flags code names bits" "''|''" name] snoc
  show ?case by (simp add: mask_text_def add_flag_def set_flags_def)
qed (simp add: mask_text_def set_flags_def)

lemma flags_named:
  "list_all (\<lambda>name. name \<noteq> [])
     (AttribInfo_flags @ Manifest_flags @ RespMsg_flags @ indication_flags)"
  by (simp add: AttribInfo_flags_def Manifest_flags_def RespMsg_flags_def indication_flags_def)

text \<open>An enumerator prints its name, when RFA gives the enumerators different numbers.\<close>

lemma enum_text_name: "inj_on code (set names) \<Longrightarrow> name \<in> set names \<Longrightarrow> enum_text code names (code name) = name"
  by (induction names) (auto simp: enum_text_def inj_on_def)

text \<open>A constant rate or timeliness is quoted twice, so the line is no longer an object of JSON.\<close>

lemma quality_quoted_twice:
  assumes "code ''tickByTick'' \<le> 0"
  shows "\<exists>rest. print_quality_of_service code (code ''tickByTick'') timeliness =
    quoted ''QualityOfService'' @ '': { '' @ quoted ''Rate'' @ '': '' @ [CHR 0x22, CHR 0x22] @ ''tickByTick'' @
      [CHR 0x22, CHR 0x22] @ rest"
  using assms by (simp add: print_quality_of_service_def quality_text_def enum_text_def quoted_def)

text \<open>Registering, whatever RFA answers, and unregistering leaves no object behind.\<close>

lemma rfa_log_released:
  "logger (rfa_log_destructor (snd (rfa_log_Register env cfg s))) = False \<and>
   monitor (rfa_log_destructor (snd (rfa_log_Register env cfg s))) = None \<and>
   handle (rfa_log_destructor (snd (rfa_log_Register env cfg s))) = False"
  by (simp add: rfa_log_destructor_def rfa_log_Unregister_def Let_def)

lemma rfa_log_Register_True:
  "fst (rfa_log_Register env cfg s) \<longleftrightarrow>
     acquire_logger env \<and> create_monitor env (monitor_name cfg) \<and> register_client env"
  by (simp add: rfa_log_Register_def Let_def)

end
