(* ===== verification/Json_Text.thy ===== *)
theory Json_Text
  imports Json_Docs
begin

text \<open>
  The plain text of a value, \<open>json_text\<close>: its document without blanks, with the entries in order and only
  the escapes a string needs. What is written is read back. The last section is about the one
  escape the two passes over a string disagree on.
\<close>

section \<open>The text of a value\<close>

definition plain_literal :: "char \<Rightarrow> json_literal" where
  "plain_literal c = (if c = CHR 0x22 then Escaped Quotation_Mark else if c = CHR 0x5C then Escaped Reverse_Solidus else Plain c)"

definition plain_number :: "int \<Rightarrow> json_number" where
  "plain_number i = \<lparr>negative = i < 0, whole = (if i < 0 then drop 1 (IntToString i) else IntToString i),
     fraction = None, exponent = None\<rparr>"

fun plain :: "Value \<Rightarrow> json_doc"
  and plain_items :: "Value list \<Rightarrow> json_item list"
  and plain_entries :: "(string \<times> Value) list \<Rightarrow> json_entry list" where
  "plain (BooleanValue b) = Bool_Doc b"
| "plain (IntegerValue i) = Number_Doc (plain_number i)"
| "plain (StringValue s) = String_Doc (map plain_literal s)"
| "plain (ListValue vs) = Array_Doc [] (plain_items vs) False"
| "plain (DictionaryValue d) = Object_Doc [] (plain_entries d) False"
| "plain _ = Null_Doc"
| "plain_items [] = []"
| "plain_items (v # vs) = Item (plain v) [] [] # plain_items vs"
| "plain_entries [] = []"
| "plain_entries ((k, v) # d) = Entry (map plain_literal k) [] [] (plain v) [] [] # plain_entries d"

definition json_text :: "Value \<Rightarrow> string" where
  "json_text v = doc_text (plain v)"

text \<open>The values that are written without a floating point number or binary data.\<close>

fun textual :: "Value \<Rightarrow> bool" where
  "textual (DoubleValue d) = False"
| "textual (BinaryValue b) = False"
| "textual (ListValue vs) = list_all textual vs"
| "textual (DictionaryValue d) = list_all (\<lambda>(k, v). textual v) d"
| "textual v = True"

section \<open>The document of a value\<close>

lemma plain_literals: "list_all literal_ok (map plain_literal s)" "literals_value (map plain_literal s) = s"
  by (induction s) (auto simp: plain_literal_def)

lemma plain_number:
  assumes "- (2 ^ 31) \<le> i" "i < 2 ^ 31"
  shows "number_ok (plain_number i)" and "number_value stod (plain_number i) = Some (IntegerValue i)"
proof -
  obtain d ds where t: "IntToString i = (if i < 0 then CHR ''-'' # d # ds else d # ds)"
    and ds: "list_all is_digit (d # ds)" "d = CHR ''0'' \<Longrightarrow> ds = []"
    using IntToString_digits[OF assms] by blast
  show ok: "number_ok (plain_number i)" using t ds by (auto simp: plain_number_def number_ok_def digits_def)
  have "number_text (plain_number i) = IntToString i"
    using t by (simp add: plain_number_def number_text_def fraction_text_def exponent_text_def)
  then show "number_value stod (plain_number i) = Some (IntegerValue i)"
    using IntToStringT_reads[of 32 i] assms by (simp add: number_value_reader[OF ok] StringToInt_def flip: IntToString_def)
qed

lemma assign_append: "\<forall>k' \<in> fst ` set d. k' < k \<Longrightarrow> assign k v d = d @ [(k, v)]"
  by (induction k v d rule: assign.induct) (auto simp: less_le_not_le)

abbreviation stands_for :: "(string \<Rightarrow> stod_result) \<Rightarrow> bool \<Rightarrow> nat \<Rightarrow> Value \<Rightarrow> bool" where
  "stands_for stod a n v \<equiv> doc_ok stod a n (plain v) \<and> doc_value stod (plain v) = v"

lemma plain_items:
  assumes "list_all (stands_for stod a n) vs"
  shows "list_all (item_ok stod a n) (plain_items vs) \<and> items_value stod (plain_items vs) = vs"
  using assms by (induction vs) simp_all

lemma plain_entries:
  assumes "list_all (\<lambda>(k, v). stands_for stod a n v) d" "omap_ok (acc @ d)"
  shows "list_all (entry_ok stod a n) (plain_entries d) \<and> entries_value stod (plain_entries d) acc = acc @ d"
  using assms
proof (induction d arbitrary: acc)
  case (Cons e d)
  obtain k v where e: "e = (k, v)" by (cases e)
  have "assign k v acc = acc @ [(k, v)]"
    by (rule assign_append) (use Cons.prems(2) e in \<open>auto simp: omap_ok_def sorted_wrt_append\<close>)
  then show ?case
    using Cons.IH[of "acc @ [(k, v)]"] Cons.prems plain_literals[of k] by (simp add: e SetWithoutPathExpansion_def)
qed simp

lemma plain_stands_for: "json_tree n v \<Longrightarrow> textual v \<Longrightarrow> stands_for stod a n v"
proof (induction n arbitrary: v)
  case (Suc n)
  show ?case
  proof (cases v)
    case (ListValue vs)
    have "list_all (stands_for stod a n) vs"
      using Suc.IH Suc.prems ListValue by (fastforce simp: list_all_iff)
    then show ?thesis using ListValue plain_items by simp
  next
    case (DictionaryValue d)
    have "list_all (\<lambda>(k, v). stands_for stod a n v) d"
      using Suc.IH Suc.prems DictionaryValue by (fastforce simp: list_all_iff)
    then show ?thesis using DictionaryValue plain_entries[of stod a n d "[]"] Suc.prems by simp
  qed (use Suc.prems plain_number plain_literals in auto)
qed simp

definition plain_document :: "Value \<Rightarrow> document" where
  "plain_document v = \<lparr>marked = False, doc_before = [], doc_root = plain v, doc_after = [], last_line = None\<rparr>"

lemma plain_document:
  assumes "json_tree 100 v" "textual v" "GetType v \<in> {TYPE_LIST, TYPE_DICTIONARY}"
  shows "document_ok stod allow (plain_document v)" and "document_text (plain_document v) = json_text v"
    and "doc_value stod (doc_root (plain_document v)) = v"
proof -
  have "is_container (plain v)" using assms(3) by (cases v) simp_all
  then show "document_ok stod allow (plain_document v)" "document_text (plain_document v) = json_text v"
      "doc_value stod (doc_root (plain_document v)) = v"
    using plain_stands_for[OF assms(1,2), of stod allow]
    by (simp_all add: plain_document_def document_ok_def document_text_def json_text_def blanks_text_def)
qed

section \<open>Reading the text back\<close>

text \<open>
  Writing and reading: the plain text of any array or object without floating point numbers, of at most a
  hundred levels, with integers of 32 bits and keys in order, is read back as it was, whatever
  the bytes of its strings.
\<close>

theorem text_roundtrip:
  assumes "json_tree 100 v" "textual v" "GetType v \<in> {TYPE_LIST, TYPE_DICTIONARY}"
  shows "ReadAndReturnError stod (json_text v) allow = Done (Inr v)"
  using document_reads plain_document[OF assms] by metis

definition demo_value :: "Value" where
  "demo_value = DictionaryValue [(''a'', ListValue [IntegerValue (- 5), StringValue (quote @ ''x'')]), (''b'', NullValue)]"

theorem text_roundtrip_witness:
  "json_text demo_value = ''{'' @ quote @ ''a'' @ quote @ '':[-5,'' @ quote @ [CHR 0x5C] @ quote @ ''x'' @ quote @ ''],'' @
     quote @ ''b'' @ quote @ '':null}'' \<and>
   ReadAndReturnError no_stod (json_text demo_value) False = Done (Inr demo_value)"
proof
  show "json_text demo_value = ''{'' @ quote @ ''a'' @ quote @ '':[-5,'' @ quote @ [CHR 0x5C] @ quote @ ''x'' @ quote @ ''],'' @
     quote @ ''b'' @ quote @ '':null}''" by code_simp
  show "ReadAndReturnError no_stod (json_text demo_value) False = Done (Inr demo_value)"
    by (rule text_roundtrip) code_simp+
qed

section \<open>Unicode escapes\<close>

lemma scan_unicode_long: "scan_string n (CHR 0x5C # CHR ''u'' # s) = Closed len \<Longrightarrow> n + 6 < len"
  using scan_string_fits by (force simp: Let_def split: if_splits)

lemma DecodeString_unicode:
  assumes "tok_type (token_at (quote @ [CHR 0x5C, CHR ''u''] @ s)) = STRING"
  shows "DecodeString (token_at (quote @ [CHR 0x5C, CHR ''u''] @ s)) = None"
proof -
  obtain len where len: "scan_string 1 (CHR 0x5C # CHR ''u'' # s) = Closed len"
    "token_at (quote @ [CHR 0x5C, CHR ''u''] @ s) = json_token STRING (quote @ [CHR 0x5C, CHR ''u''] @ s) len"
    using assms by (auto simp: token_at_def quote_def split: string_scan.splits)
  have "len - 2 \<noteq> 0" using scan_unicode_long[OF len(1)] by simp
  then show ?thesis
    unfolding len(2) by (simp add: DecodeString_def quote_def decode_loop.simps[of "len - 2"] unescape_def Let_def)
qed

lemma wp_build_unicode:
  assumes "json_pos r = quote @ [CHR 0x5C, CHR ''u''] @ s"
  shows "wp (BuildValue stod (Suc f) False) (\<lambda>x _. x = None) r"
proof -
  let ?p = "quote @ [CHR 0x5C, CHR ''u''] @ s"
  have e: "eat_whitespace ?p = ?p" by (intro eat_plain) (simp add: quote_def)
  have ty: "tok_type (token_at ?p) \<in> {STRING, INVALID_TOKEN}"
    by (auto simp: token_at_def quote_def split: string_scan.split)
  show ?thesis
  proof (cases "stack_depth r + 1 > kStackLimit")
    case True
    then show ?thesis by (simp add: wp_simps wp_fail_at_None)
  next
    case False
    then have lim: "\<not> stack_depth (r\<lparr>stack_depth := stack_depth r + 1\<rparr>) > kStackLimit" by simp
    show ?thesis
      unfolding BuildValue.simps wp_seq wp_bindm wp_basic
    proof (simp only: lim if_False simp_thms, subst wp_bindm, rule wp_ParseToken, goal_cases)
      case (1 r1)
      then have "json_pos r1 = ?p" using assms e by simp
      then show ?case
        using ty DecodeString_unicode[of s] by (auto simp: decoded_def finish_def wp_simps)
    qed
  qed
qed

lemma wp_None_array:
  assumes "json_pos r = quote @ [CHR 0x5C, CHR ''u''] @ s" "token = token_at (json_pos r)"
  shows "wp (array_loop stod (Suc (Suc f)) vs token) (\<lambda>x _. x = None) r"
proof -
  have ty: "tok_type token \<noteq> ARRAY_END"
    using assms by (auto simp: token_at_def quote_def split: string_scan.split)
  show ?thesis
    by (simp only: array_loop.simps ty if_False wp_bindm, rule wp_mono[OF wp_build_unicode[OF assms(1)]])
      (simp add: wp_simps)
qed

lemma wp_root_unicode:
  assumes "json_pos r = CHR ''['' # quote @ [CHR 0x5C, CHR ''u''] @ s" "stack_depth r = 0"
  shows "wp (BuildValue stod (Suc (Suc (Suc f))) True) (\<lambda>x _. x = None) r"
proof -
  let ?json = "CHR ''['' # quote @ [CHR 0x5C, CHR ''u''] @ s" and ?p = "quote @ [CHR 0x5C, CHR ''u''] @ s"
  have e: "eat_whitespace ?json = ?json" "eat_whitespace ?p = ?p"
    by (intro eat_plain; simp add: quote_def)+
  have lim: "\<not> stack_depth (r\<lparr>stack_depth := stack_depth r + 1\<rparr>) > kStackLimit"
    using assms(2) by (simp add: kStackLimit_def)
  show ?thesis
    unfolding BuildValue.simps(2) wp_seq wp_bindm wp_basic
  proof (simp only: lim if_False, subst wp_bindm, rule wp_ParseToken, goal_cases)
    case (1 r1)
    then have p1: "json_pos r1 = ?json" using assms(1) e(1) by simp
    have "wp (seq (advance (token_at ?json)) (bindm ParseToken (array_loop stod (Suc (Suc f)) [])))
        (\<lambda>x _. x = None) r1"
      unfolding wp_seq wp_advance wp_bindm
    proof (rule wp_ParseToken, goal_cases)
      case (1 r2)
      then have "json_pos r2 = ?p" using p1 e(2) by (simp add: punctuation)
      then show ?case using wp_None_array by simp
    qed
    then show ?case
      unfolding p1 by (auto simp: punctuation wp_bindm finish_def wp_basic simp del: array_loop.simps elim!: wp_mono)
  qed
qed

lemma unicode_None:
  "wp (JsonToValue stod (CHR ''['' # quote @ [CHR 0x5C, CHR ''u''] @ s) True allow) (\<lambda>x r. x = None \<and> error_code r \<noteq> JSON_NO_ERROR) r"
  (is "wp (JsonToValue stod ?json _ _) ?Q _")
proof -
  have len: "2 * length ?json + 2 = Suc (Suc (Suc (2 * length ?json - 1)))" by (simp add: quote_def)
  have bom: "skip_bom ?json = ?json" by (simp add: skip_bom_def)
  show ?thesis
    unfolding JsonToValue_def bom len wp_seq wp_bindm wp_basic
    by (rule wp_mono[OF wp_root_unicode[of _ s]]) (auto simp: wp_simps fail_at_def split: prod.split)
qed

text \<open>
  A Unicode escape is accepted by the tokenizer and refused by the decoder: a document whose first
  string starts with one is never accepted, however it goes on.
\<close>

theorem unicode_escape_refused:
  "ReadAndReturnError stod (CHR ''['' # quote @ [CHR 0x5C, CHR ''u''] @ s) allow \<noteq> Done (Inr v)"
  using unicode_None[of stod s allow JSONReader]
  by (auto simp: ReadAndReturnError_def wp_def split: prod.splits outcome.splits)

end
