(* ===== verification/Config_Xml.thy ===== *)
theory Config_Xml
  imports Config
begin

text \<open>
  The XML reader of the plugin build, \<open>ParseDomElement\<close> and its helpers in \<open>src/src/config.cc\<close>. The
  document object model is Xerces': its accessors are the record \<open>dom_env\<close>, with text already
  transcoded, over any type of nodes. The reader stops at the first node that is refused and
  leaves what it has stored until then.
\<close>

section \<open>The document\<close>

text \<open>
  \<open>getAttribute\<close> (empty when there is none), \<open>getElementsByTagName\<close> in document order, \<open>hasAttributes\<close> and
  \<open>getTextContent\<close>.
\<close>

record 'n dom_env =
  get_attribute :: "'n \<Rightarrow> string \<Rightarrow> string"
  get_elements :: "'n \<Rightarrow> string \<Rightarrow> 'n list"
  has_attributes :: "'n \<Rightarrow> bool"
  text_content :: "'n \<Rightarrow> string"

text \<open>\<open>for (node : list) if (!parse (node)) return false;\<close>\<close>

fun each_node :: "('n \<Rightarrow> ('s, bool) method) \<Rightarrow> 'n list \<Rightarrow> ('s, bool) method" where
  "each_node parse [] = ret True"
| "each_node parse (n # ns) = bindm (parse n) (\<lambda>ok. if \<not> ok then ret False else each_node parse ns)"

text \<open>\<open>attr = getAttribute (name); if (!attr.empty()) member = attr;\<close>\<close>

definition set_attribute ::
    "'n dom_env \<Rightarrow> 'n \<Rightarrow> string \<Rightarrow> ((string \<Rightarrow> string) \<Rightarrow> 's \<Rightarrow> 's) \<Rightarrow> ('s, unit) method" where
  "set_attribute x n name upd =
     (let attr = get_attribute x n name in if attr \<noteq> [] then modify (upd (\<lambda>_. attr)) else ret ())"

text \<open>\<open>if (!m) return false;\<close>\<close>

definition and_then :: "('s, bool) method \<Rightarrow> ('s, bool) method \<Rightarrow> ('s, bool) method" where
  "and_then m k = bindm m (\<lambda>ok. if \<not> ok then ret False else k)"

section \<open>SNMP\<close>

definition ParseAgentXNode :: "'n dom_env \<Rightarrow> 'n \<Rightarrow> (config, bool) method" where
  "ParseAgentXNode x n =
     seq (let attr = get_attribute x n ''subagent''
          in if attr \<noteq> [] then modify (\<lambda>c. c\<lparr>is_agentx_subagent := (attr = ''true'')\<rparr>) else ret ())
    (seq (set_attribute x n ''socket'' agentx_socket_update) (ret True))"

definition ParseSnmpNode :: "'n dom_env \<Rightarrow> 'n \<Rightarrow> (config, bool) method" where
  "ParseSnmpNode x n =
     seq (set_attribute x n ''filelog'' snmp_filelog_update)
    (and_then (each_node (ParseAgentXNode x) (get_elements x n ''agentX''))
       (seq (modify (\<lambda>c. c\<lparr>is_snmp_enabled := True\<rparr>)) (ret True)))"

section \<open>RFA\<close>

definition ParseServiceNode :: "'n dom_env \<Rightarrow> 'n \<Rightarrow> (config, bool) method" where
  "ParseServiceNode x n =
     (let attr = get_attribute x n ''name''
      in if attr = [] then ret False else seq (modify (\<lambda>c. c\<lparr>service_name := attr\<rparr>)) (ret True))"

definition ParseDacsNode :: "'n dom_env \<Rightarrow> 'n \<Rightarrow> (config, bool) method" where
  "ParseDacsNode x n = seq (set_attribute x n ''id'' dacs_id_update) (ret True)"

definition ParseServerNode :: "'n dom_env \<Rightarrow> 'n \<Rightarrow> string option" where
  "ParseServerNode x n = (let server = text_content x n in if length server = 0 then None else Some server)"

text \<open>The body of the loop over the servers.\<close>

definition server_loop :: "'n dom_env \<Rightarrow> 'n \<Rightarrow> (session_config, bool) method" where
  "server_loop x server_node =
     (case ParseServerNode x server_node of
        None \<Rightarrow> ret False
      | Some server \<Rightarrow> seq (modify (rssl_servers_update (\<lambda>ss. ss @ [server]))) (ret True))"

definition ParseConnectionNode :: "'n dom_env \<Rightarrow> 'n \<Rightarrow> (session_config, bool) method" where
  "ParseConnectionNode x n =
     seq (modify (\<lambda>s. s\<lparr>connection_name := get_attribute x n ''name''\<rparr>))
    (bindm (gets connection_name) (\<lambda>name.
     if name = [] then ret False
     else
       seq (modify (\<lambda>s. s\<lparr>rssl_default_port := get_attribute x n ''defaultPort''\<rparr>))
           (each_node (server_loop x) (get_elements x n ''server''))))"

definition ParseLoginNode :: "'n dom_env \<Rightarrow> 'n \<Rightarrow> (session_config, bool) method" where
  "ParseLoginNode x n =
     seq (modify (\<lambda>s. s\<lparr>application_id := get_attribute x n ''applicationId'',
            cfg_instance_id := get_attribute x n ''instanceId'',
            user_name := get_attribute x n ''userName'',
            cfg_position := get_attribute x n ''position''\<rparr>))
         (ret True)"

definition ParsePublisherNode :: "'n dom_env \<Rightarrow> 'n \<Rightarrow> (session_config, bool) method" where
  "ParsePublisherNode x n =
     seq (modify (\<lambda>s. s\<lparr>publisher_name := get_attribute x n ''name''\<rparr>)) (ret True)"

text \<open>The session is a local variable, stored when all of it has been read.\<close>

definition read_session :: "'n dom_env \<Rightarrow> 'n \<Rightarrow> (session_config, bool) method" where
  "read_session x n =
     seq (modify (\<lambda>s. s\<lparr>session_name := get_attribute x n ''name''\<rparr>))
    (bindm (gets session_name) (\<lambda>name.
     if name = [] then ret False
     else
       and_then (each_node (ParsePublisherNode x) (get_elements x n ''publisher''))
      (and_then (each_node (ParseConnectionNode x) (get_elements x n ''connection''))
                (each_node (ParseLoginNode x) (get_elements x n ''login'')))))"

definition ParseSessionNode :: "'n dom_env \<Rightarrow> 'n \<Rightarrow> (config, bool) method" where
  "ParseSessionNode x n cfg =
     (case read_session x n session_config_init of
        (Done True, session) \<Rightarrow> (Done True, cfg_sessions_update (\<lambda>ss. ss @ [session]) cfg)
      | (Done False, _) \<Rightarrow> (Done False, cfg)
      | (Raise e, _) \<Rightarrow> (Raise e, cfg)
      | (Diverged, _) \<Rightarrow> (Diverged, cfg))"

definition ParseMonitorNode :: "'n dom_env \<Rightarrow> 'n \<Rightarrow> (config, bool) method" where
  "ParseMonitorNode x n = seq (set_attribute x n ''name'' monitor_name_update) (ret True)"

definition ParseEventQueueNode :: "'n dom_env \<Rightarrow> 'n \<Rightarrow> (config, bool) method" where
  "ParseEventQueueNode x n = seq (set_attribute x n ''name'' event_queue_name_update) (ret True)"

definition ParseVendorNode :: "'n dom_env \<Rightarrow> 'n \<Rightarrow> (config, bool) method" where
  "ParseVendorNode x n = seq (set_attribute x n ''name'' vendor_name_update) (ret True)"

definition ParseRfaNode :: "'n dom_env \<Rightarrow> 'n \<Rightarrow> (config, bool) method" where
  "ParseRfaNode x n =
     seq (set_attribute x n ''key'' cfg_key_update)
    (seq (set_attribute x n ''maximumDataSize'' maximum_data_size_update)
    (and_then (each_node (ParseServiceNode x) (get_elements x n ''service''))
    (and_then (each_node (ParseDacsNode x) (get_elements x n ''DACS''))
    (and_then (each_node (ParseSessionNode x) (get_elements x n ''session''))
    (and_then (each_node (ParseMonitorNode x) (get_elements x n ''monitor''))
    (and_then (each_node (ParseEventQueueNode x) (get_elements x n ''eventQueue''))
              (each_node (ParseVendorNode x) (get_elements x n ''vendor''))))))))"

section \<open>Resources\<close>

text \<open>\<open>std::strtoul\<close> with base ten: saturates, and a negative number wraps around.\<close>

definition strtoul :: "string \<Rightarrow> int" where
  "strtoul s = (if 2 ^ 32 \<le> \<bar>c_integer s\<bar> then 2 ^ 32 - 1 else c_integer s mod 2 ^ 32)"

text \<open>The output arguments source, rel, id and href; none on failure.\<close>

definition ParseLinkNode :: "'n dom_env \<Rightarrow> 'n \<Rightarrow> (string \<times> string \<times> int \<times> string) option" where
  "ParseLinkNode x n =
     (if \<not> has_attributes x n then None
      else let rel = get_attribute x n ''rel''; source = get_attribute x n ''name'';
               href = get_attribute x n ''href''; id_text = get_attribute x n ''id''
           in if rel = [] then None
              else if source = [] then None
              else if href = [] then None
              else Some (source, rel, if id_text \<noteq> [] then strtoul id_text else 0, href))"

definition ParseFieldNode :: "'n dom_env \<Rightarrow> 'n \<Rightarrow> (string \<times> int) option outcome" where
  "ParseFieldNode x n =
     (if \<not> has_attributes x n then Done None
      else let name = get_attribute x n ''name''; id_text = get_attribute x n ''id''
           in if name = [] then Done None
              else if id_text = [] then Done None
              else bind_outcome (stoi id_text) (\<lambda>i. Done (Some (name, i))))"

text \<open>The output arguments name, topic and src.\<close>

definition ParseItemNode :: "'n dom_env \<Rightarrow> 'n \<Rightarrow> (string \<times> string \<times> string) option" where
  "ParseItemNode x n =
     (if \<not> has_attributes x n then None
      else let name = get_attribute x n ''name''; topic = get_attribute x n ''topic''; src = get_attribute x n ''src''
           in if name = [] then None
              else if topic = [] then None
              else if src = [] then None
              else Some (name, topic, src))"

fun field_nodes :: "'n dom_env \<Rightarrow> 'n list \<Rightarrow> (string, int) omap \<Rightarrow> (string, int) omap option outcome" where
  "field_nodes x [] field_map = Done (Some field_map)"
| "field_nodes x (n # ns) field_map =
     bind_outcome (ParseFieldNode x n) (\<lambda>field. case field of
         None \<Rightarrow> Done None
       | Some (field_name, field_id) \<Rightarrow> field_nodes x ns (emplace field_name field_id field_map))"

fun item_nodes ::
    "'n dom_env \<Rightarrow> 'n list \<Rightarrow> (string, string \<times> string) omap \<Rightarrow> (string, string \<times> string) omap option" where
  "item_nodes x [] items = Some items"
| "item_nodes x (n # ns) items =
     (case ParseItemNode x n of
        None \<Rightarrow> None
      | Some (item_name, item_topic, item_src) \<Rightarrow>
          item_nodes x ns (emplace item_src (item_name, item_topic) items))"

definition ParseResourceNode :: "'n dom_env \<Rightarrow> 'n \<Rightarrow> (config, bool) method" where
  "ParseResourceNode x n =
     (if \<not> has_attributes x n then ret False
      else let name = get_attribute x n ''name''
           in if name = [] then ret False
              else bindm (Pair (field_nodes x (get_elements x n ''field'') [])) (\<lambda>field_map. case field_map of
                  None \<Rightarrow> ret False
                | Some field_map \<Rightarrow>
                    (case item_nodes x (get_elements x n ''item'') [] of
                       None \<Rightarrow> ret False
                     | Some items \<Rightarrow>
                         each_node (\<lambda>link. case ParseLinkNode x link of
                             None \<Rightarrow> ret False
                           | Some (link_name, link_rel, link_id, link_href) \<Rightarrow>
                               seq (modify (resources_update (\<lambda>rs. rs @
                                      [\<lparr>res_name = name, res_source = link_name, res_path = link_href,
                                        entitlement_code = word_of_int link_id, res_fields = field_map,
                                        res_items = items\<rparr>])))
                                   (ret True))
                           (get_elements x n ''link''))))"

text \<open>The lists of the resources that are there already are emptied, the resources stay.\<close>

definition reset_lists :: "(config, unit) method" where
  "reset_lists = modify (resources_update (map (\<lambda>r. r\<lparr>res_fields := [], res_items := []\<rparr>)))"

definition psych_attributes :: "'n dom_env \<Rightarrow> 'n \<Rightarrow> (config, unit) method" where
  "psych_attributes x n =
     seq (set_attribute x n ''interval'' cfg_interval_update)
    (seq (set_attribute x n ''tolerableDelay'' tolerable_delay_update)
    (seq (set_attribute x n ''retryCount'' retry_count_update)
    (seq (set_attribute x n ''retryDelayMs'' retry_delay_ms_update)
    (seq (set_attribute x n ''retryTimeoutMs'' retry_timeout_ms_update)
    (seq (set_attribute x n ''timeoutMs'' timeout_ms_update)
    (seq (set_attribute x n ''connectTimeoutMs'' connect_timeout_ms_update)
    (seq (set_attribute x n ''enableHttpPipelining'' enable_http_pipelining_update)
    (seq (set_attribute x n ''maximumResponseSize'' maximum_response_size_update)
    (seq (set_attribute x n ''minimumResponseSize'' minimum_response_size_update)
    (seq (set_attribute x n ''requestHttpEncoding'' request_http_encoding_update)
    (seq (set_attribute x n ''timeOffsetConstant'' time_offset_constant_update)
    (seq (set_attribute x n ''panicThreshold'' panic_threshold_update)
    (seq (set_attribute x n ''httpProxy'' http_proxy_update)
    (seq (set_attribute x n ''dnsCacheTimeout'' dns_cache_timeout_update)
         (set_attribute x n ''href'' base_url_update)))))))))))))))"

definition ParsePsychNode :: "'n dom_env \<Rightarrow> 'n \<Rightarrow> (config, bool) method" where
  "ParsePsychNode x n =
     seq (psych_attributes x n)
    (seq reset_lists
         (each_node (ParseResourceNode x) (get_elements x n ''resource'')))"

section \<open>The document element\<close>

definition ParseConfigNode :: "'n dom_env \<Rightarrow> 'n \<Rightarrow> (config, bool) method" where
  "ParseConfigNode x n =
     and_then (each_node (ParseSnmpNode x) (get_elements x n ''Snmp''))
    (and_then (each_node (ParseRfaNode x) (get_elements x n ''Rfa''))
              (each_node (ParsePsychNode x) (get_elements x n ''psych'')))"

definition ParseDomElement :: "'n dom_env \<Rightarrow> 'n \<Rightarrow> (config, bool) method" where
  "ParseDomElement x root =
     and_then (each_node (ParseConfigNode x) (get_elements x root ''config''))
       (bindm (gets Validate) (\<lambda>valid. if \<not> valid then ret False else ret True))"

section \<open>Loops over nodes\<close>

lemma and_then_True: "and_then m k s = (Done True, t) \<longleftrightarrow> (\<exists>s'. m s = (Done True, s') \<and> k s' = (Done True, t))"
  by (auto simp: and_then_def bindm_Done method_simps split: if_splits)

lemma each_node_Cons_True:
  "each_node parse (n # ns) s = (Done True, t) \<longleftrightarrow> (\<exists>s'. parse n s = (Done True, s') \<and> each_node parse ns s' = (Done True, t))"
  by (auto simp: bindm_Done method_simps split: if_splits)

lemma keeps_and_then [keeps_intro]: "keeps I m \<Longrightarrow> keeps I k \<Longrightarrow> keeps I (and_then m k)"
  unfolding and_then_def by (intro keeps_intro)

lemma keeps_each_node [keeps_intro]: "(\<And>n. keeps I (parse n)) \<Longrightarrow> keeps I (each_node parse ns)"
  by (induction ns) (auto intro!: keeps_intro)

lemma keeps_set_attribute: "(\<And>v s. I s \<Longrightarrow> I (upd (\<lambda>_. v) s)) \<Longrightarrow> keeps I (set_attribute x n name upd)"
  unfolding set_attribute_def Let_def by (intro keeps_intro keeps_modify) auto

text \<open>A loop whose rounds append to a list appends what they append, in order.\<close>

lemma each_node_appends:
  assumes "\<And>n s s'. parse n s = (Done True, s') \<Longrightarrow> view s' = view s @ f n"
    and "each_node parse ns s = (Done True, t)"
  shows "view t = view s @ concat (map f ns)"
  using assms(2)
proof (induction ns arbitrary: s)
  case (Cons n ns)
  then show ?case using assms(1) by (fastforce simp: each_node_Cons_True simp del: each_node.simps)
qed (simp add: method_simps)

section \<open>Sessions\<close>

text \<open>
  The session of a node: the attributes of its last \<open>connection\<close>, \<open>publisher\<close> and \<open>login\<close>, and the
  servers of all its connections.
\<close>

definition last_attribute :: "'n dom_env \<Rightarrow> 'n list \<Rightarrow> string \<Rightarrow> string" where
  "last_attribute x ns name = (if ns = [] then [] else get_attribute x (last ns) name)"

definition session_at :: "'n dom_env \<Rightarrow> 'n \<Rightarrow> session_config" where
  "session_at x n =
     (let cs = get_elements x n ''connection''; ls = get_elements x n ''login'';
          ps = get_elements x n ''publisher''
      in \<lparr>session_name = get_attribute x n ''name'', connection_name = last_attribute x cs ''name'',
          publisher_name = last_attribute x ps ''name'',
          rssl_servers = concat (map (\<lambda>c. map (text_content x) (get_elements x c ''server'')) cs),
          rssl_default_port = last_attribute x cs ''defaultPort'',
          application_id = last_attribute x ls ''applicationId'', cfg_instance_id = last_attribute x ls ''instanceId'',
          user_name = last_attribute x ls ''userName'', cfg_position = last_attribute x ls ''position''\<rparr>)"

lemma node_runs:
  "ParsePublisherNode x n s = (Done True, s\<lparr>publisher_name := get_attribute x n ''name''\<rparr>)"
  "ParseLoginNode x n s = (Done True, s\<lparr>application_id := get_attribute x n ''applicationId'',
      cfg_instance_id := get_attribute x n ''instanceId'', user_name := get_attribute x n ''userName'',
      cfg_position := get_attribute x n ''position''\<rparr>)"
  by (simp_all add: ParsePublisherNode_def ParseLoginNode_def method_simps)

lemma publisher_nodes:
  "each_node (ParsePublisherNode x) ns s = (Done True, t) \<Longrightarrow>
   t = (if ns = [] then s else s\<lparr>publisher_name := last_attribute x ns ''name''\<rparr>)"
proof (induction ns arbitrary: s)
  case (Cons n ns)
  then have "each_node (ParsePublisherNode x) ns (s\<lparr>publisher_name := get_attribute x n ''name''\<rparr>) = (Done True, t)"
    using node_runs[of x n s] by (auto simp: each_node_Cons_True simp del: each_node.simps)
  from Cons.IH[OF this] show ?case by (simp add: last_attribute_def)
qed (simp add: method_simps)

lemma login_nodes:
  "each_node (ParseLoginNode x) ns s = (Done True, t) \<Longrightarrow>
   t = (if ns = [] then s else s\<lparr>application_id := last_attribute x ns ''applicationId'',
      cfg_instance_id := last_attribute x ns ''instanceId'', user_name := last_attribute x ns ''userName'',
      cfg_position := last_attribute x ns ''position''\<rparr>)"
proof (induction ns arbitrary: s)
  case (Cons n ns)
  then have "each_node (ParseLoginNode x) ns (s\<lparr>application_id := get_attribute x n ''applicationId'',
      cfg_instance_id := get_attribute x n ''instanceId'', user_name := get_attribute x n ''userName'',
      cfg_position := get_attribute x n ''position''\<rparr>) = (Done True, t)"
    using node_runs[of x n s] by (auto simp: each_node_Cons_True simp del: each_node.simps)
  from Cons.IH[OF this] show ?case by (simp add: last_attribute_def)
qed (simp add: method_simps)

lemma server_nodes:
  "each_node (server_loop x) ns s = (Done True, t) \<Longrightarrow>
   t = s\<lparr>rssl_servers := rssl_servers s @ map (text_content x) ns\<rparr>"
proof (induction ns arbitrary: s)
  case (Cons n ns)
  then obtain s' where s': "server_loop x n s = (Done True, s')" "each_node (server_loop x) ns s' = (Done True, t)"
    by (auto simp: each_node_Cons_True simp del: each_node.simps)
  have "s' = s\<lparr>rssl_servers := rssl_servers s @ [text_content x n]\<rparr>"
    using s'(1) by (auto simp: server_loop_def ParseServerNode_def Let_def method_simps split: if_splits)
  then show ?case using Cons.IH[OF s'(2)] by simp
qed (simp add: method_simps)

lemma ParseConnectionNode_True:
  "ParseConnectionNode x n s = (Done True, t) \<Longrightarrow>
   t = s\<lparr>connection_name := get_attribute x n ''name'', rssl_default_port := get_attribute x n ''defaultPort'',
      rssl_servers := rssl_servers s @ map (text_content x) (get_elements x n ''server'')\<rparr>"
  by (auto simp: ParseConnectionNode_def method_simps seq_bindm bindm_modify
      dest!: server_nodes split: if_splits)

lemma connection_nodes:
  "each_node (ParseConnectionNode x) ns s = (Done True, t) \<Longrightarrow>
   t = (if ns = [] then s else s\<lparr>connection_name := last_attribute x ns ''name'',
      rssl_default_port := last_attribute x ns ''defaultPort'',
      rssl_servers := rssl_servers s @ concat (map (\<lambda>c. map (text_content x) (get_elements x c ''server'')) ns)\<rparr>)"
proof (induction ns arbitrary: s)
  case (Cons n ns)
  then obtain s' where "ParseConnectionNode x n s = (Done True, s')" and t: "each_node (ParseConnectionNode x) ns s' = (Done True, t)"
    by (auto simp: each_node_Cons_True simp del: each_node.simps)
  note s' = ParseConnectionNode_True[OF this(1)]
  show ?case using Cons.IH[OF t] by (simp add: s' last_attribute_def)
qed (simp add: method_simps)

lemma ParseSessionNode_True:
  assumes "ParseSessionNode x n c = (Done True, c')"
  shows "c' = cfg_sessions_update (\<lambda>ss. ss @ [session_at x n]) c"
proof -
  obtain s where s: "read_session x n session_config_init = (Done True, s)" "c' = cfg_sessions_update (\<lambda>ss. ss @ [s]) c"
    using assms by (auto simp: ParseSessionNode_def split: prod.splits outcome.splits bool.splits)
  let ?s0 = "session_config_init\<lparr>session_name := get_attribute x n ''name''\<rparr>"
  obtain s1 s2 where "each_node (ParsePublisherNode x) (get_elements x n ''publisher'') ?s0 = (Done True, s1)"
      "each_node (ParseConnectionNode x) (get_elements x n ''connection'') s1 = (Done True, s2)"
      "each_node (ParseLoginNode x) (get_elements x n ''login'') s2 = (Done True, s)"
    using s(1) by (auto simp: read_session_def and_then_True method_simps seq_bindm bindm_modify split: if_splits)
  then have "s = session_at x n"
    by (auto dest!: publisher_nodes connection_nodes login_nodes
        simp: session_at_def Let_def last_attribute_def session_config_init_def)
  then show ?thesis using s(2) by simp
qed

section \<open>The document\<close>

text \<open>The sessions are stored by \<open>ParseSessionNode\<close> and nothing else touches them.\<close>

definition same_sessions :: "(config, 'a) method \<Rightarrow> bool" where
  "same_sessions m \<longleftrightarrow> (\<forall>c r c'. m c = (r, c') \<longrightarrow> cfg_sessions c' = cfg_sessions c)"

lemma same_sessions_keeps:
  fixes m :: "(config, 'a) method"
  shows "(\<And>ss. keeps (\<lambda>c. cfg_sessions c = ss) m) \<Longrightarrow> same_sessions m"
  unfolding same_sessions_def keeps_def by (metis snd_conv)

lemma keeps_case_fields [keeps_intro]:
  "keeps I m \<Longrightarrow> (\<And>a b c. keeps I (f a b c)) \<Longrightarrow> keeps I (case v of None \<Rightarrow> m | Some (a, b, c) \<Rightarrow> f a b c)"
  by (auto split: option.split)

lemma other_nodes:
  "keeps (\<lambda>c. cfg_sessions c = ss) (ParseSnmpNode x n)" "keeps (\<lambda>c. cfg_sessions c = ss) (ParseServiceNode x n)"
  "keeps (\<lambda>c. cfg_sessions c = ss) (ParseDacsNode x n)" "keeps (\<lambda>c. cfg_sessions c = ss) (ParseMonitorNode x n)"
  "keeps (\<lambda>c. cfg_sessions c = ss) (ParseEventQueueNode x n)" "keeps (\<lambda>c. cfg_sessions c = ss) (ParseVendorNode x n)"
  "keeps (\<lambda>c. cfg_sessions c = ss) (ParsePsychNode x n)"
proof -
  let ?I = "\<lambda>c. cfg_sessions c = ss"
  have agent: "keeps ?I (ParseAgentXNode x n)" for n
    unfolding ParseAgentXNode_def Let_def by (intro keeps_intro keeps_set_attribute keeps_modify) simp_all
  show "keeps ?I (ParseSnmpNode x n)"
    unfolding ParseSnmpNode_def by (intro keeps_intro keeps_set_attribute agent keeps_modify) simp_all
  show "keeps ?I (ParseServiceNode x n)"
    unfolding ParseServiceNode_def Let_def by (intro keeps_intro keeps_modify) simp_all
  show "keeps ?I (ParseDacsNode x n)" unfolding ParseDacsNode_def by (intro keeps_intro keeps_set_attribute) simp
  show "keeps ?I (ParseMonitorNode x n)" unfolding ParseMonitorNode_def by (intro keeps_intro keeps_set_attribute) simp
  show "keeps ?I (ParseEventQueueNode x n)" unfolding ParseEventQueueNode_def by (intro keeps_intro keeps_set_attribute) simp
  show "keeps ?I (ParseVendorNode x n)" unfolding ParseVendorNode_def by (intro keeps_intro keeps_set_attribute) simp
  have "keeps ?I (ParseResourceNode x n)" for n
    unfolding ParseResourceNode_def Let_def
    by (intro keeps_intro keeps_Pair keeps_modify) (auto split: option.split intro!: keeps_intro keeps_modify)
  then show "keeps ?I (ParsePsychNode x n)"
    unfolding ParsePsychNode_def psych_attributes_def reset_lists_def
    by (intro keeps_intro keeps_set_attribute keeps_modify) simp_all
qed

lemma same_nodes:
  fixes parse :: "'n \<Rightarrow> (config, bool) method"
  shows "(\<And>n ss. keeps (\<lambda>c. cfg_sessions c = ss) (parse n)) \<Longrightarrow> each_node parse ns c = (r, c') \<Longrightarrow> cfg_sessions c' = cfg_sessions c"
  using same_sessions_keeps[of "each_node parse ns"] keeps_each_node[of _ parse ns] unfolding same_sessions_def by blast

lemma ParseRfaNode_sessions:
  assumes "ParseRfaNode x n c = (Done True, c')"
  shows "cfg_sessions c' = cfg_sessions c @ map (session_at x) (get_elements x n ''session'')"
proof -
  obtain c1 c2 c3 c4 c5 c6 where s:
    "seq (set_attribute x n ''key'' cfg_key_update)
       (seq (set_attribute x n ''maximumDataSize'' maximum_data_size_update) (ret True)) c = (Done True, c1)"
    "each_node (ParseServiceNode x) (get_elements x n ''service'') c1 = (Done True, c2)"
    "each_node (ParseDacsNode x) (get_elements x n ''DACS'') c2 = (Done True, c3)"
    "each_node (ParseSessionNode x) (get_elements x n ''session'') c3 = (Done True, c4)"
    "each_node (ParseMonitorNode x) (get_elements x n ''monitor'') c4 = (Done True, c5)"
    "each_node (ParseEventQueueNode x) (get_elements x n ''eventQueue'') c5 = (Done True, c6)"
    "each_node (ParseVendorNode x) (get_elements x n ''vendor'') c6 = (Done True, c')"
    using assms by (auto simp: ParseRfaNode_def and_then_True seq_Done method_simps)
  have "cfg_sessions c1 = cfg_sessions c"
    using s(1) by (auto simp: set_attribute_def Let_def method_simps split: if_splits)
  moreover have "cfg_sessions c2 = cfg_sessions c1" "cfg_sessions c3 = cfg_sessions c2" "cfg_sessions c5 = cfg_sessions c4"
    "cfg_sessions c6 = cfg_sessions c5" "cfg_sessions c' = cfg_sessions c6"
    by (rule same_nodes[OF _ s(2)] same_nodes[OF _ s(3)] same_nodes[OF _ s(5)] same_nodes[OF _ s(6)] same_nodes[OF _ s(7)],
        rule other_nodes)+
  moreover have "cfg_sessions c4 = cfg_sessions c3 @ concat (map (\<lambda>n. [session_at x n]) (get_elements x n ''session''))"
    by (rule each_node_appends[where view = cfg_sessions, OF _ s(4)]) (auto dest!: ParseSessionNode_True)
  ultimately show ?thesis by (simp add: concat_map_singleton)
qed

lemma ParseConfigNode_sessions:
  assumes "ParseConfigNode x n c = (Done True, c')"
  shows "cfg_sessions c' = cfg_sessions c @ concat (map (\<lambda>r. map (session_at x) (get_elements x r ''session'')) (get_elements x n ''Rfa''))"
proof -
  obtain c1 c2 where s: "each_node (ParseSnmpNode x) (get_elements x n ''Snmp'') c = (Done True, c1)"
    "each_node (ParseRfaNode x) (get_elements x n ''Rfa'') c1 = (Done True, c2)"
    "each_node (ParsePsychNode x) (get_elements x n ''psych'') c2 = (Done True, c')"
    using assms by (auto simp: ParseConfigNode_def and_then_True)
  have "cfg_sessions c1 = cfg_sessions c" "cfg_sessions c' = cfg_sessions c2"
    by (rule same_nodes[OF _ s(1)] same_nodes[OF _ s(3)], rule other_nodes)+
  then show ?thesis using each_node_appends[where view = cfg_sessions, OF ParseRfaNode_sessions s(2)] by simp
qed

text \<open>Statements that always come to their end.\<close>

definition completes :: "('s, unit) method \<Rightarrow> bool" where
  "completes m \<longleftrightarrow> (\<forall>s. fst (m s) = Done ())"

lemma completes_intro:
  "completes m \<Longrightarrow> completes k \<Longrightarrow> completes (seq m k)" "completes (set_attribute x n name upd)"
  by (auto simp: completes_def seq_def bindm_def set_attribute_def Let_def method_simps split: prod.split outcome.split)
    (metis fst_conv outcome.distinct outcome.inject)+

text \<open>
  C13. An XML configuration that is accepted is valid, and its sessions are those of the document, in
  document order, after the ones that were there: the attributes of the last connection,
  publisher and login of each \<open>session\<close> element and the servers of all its connections.
\<close>

theorem xml_sessions:
  assumes "ParseDomElement x root c = (Done True, c')"
  shows "valid_config c' \<and> cfg_sessions c' = cfg_sessions c @
    [session_at x s. g \<leftarrow> get_elements x root ''config'', r \<leftarrow> get_elements x g ''Rfa'', s \<leftarrow> get_elements x r ''session'']"
proof -
  have e: "each_node (ParseConfigNode x) (get_elements x root ''config'') c = (Done True, c')" "Validate c'"
    using assms by (auto simp: ParseDomElement_def and_then_True method_simps split: if_splits)
  show ?thesis
    using each_node_appends[where view = cfg_sessions, OF ParseConfigNode_sessions e(1)] e(2)
    by (simp add: Validate_valid map_concat comp_def)
qed

text \<open>
  A second \<open>psych\<close> element makes the configuration invalid: it empties the column and item maps of
  the resources that are there but keeps the resources, which fail the validation, whatever the
  element itself holds and however its parse ends.
\<close>

theorem second_psych_invalid:
  assumes "resources c \<noteq> []"
  shows "\<not> Validate (snd (ParsePsychNode x n c))"
proof -
  let ?I = "\<lambda>c. \<exists>r \<in> set (resources c). res_fields r = []"
  have node: "keeps ?I (ParseResourceNode x n)" for n
    unfolding ParseResourceNode_def Let_def
    by (intro keeps_intro keeps_Pair) (auto split: option.split intro!: keeps_intro keeps_modify)
  have nodes: "keeps ?I (each_node (ParseResourceNode x) ns)" for ns
    by (intro keeps_each_node node)
  have attr: "keeps (\<lambda>c. resources c \<noteq> []) (psych_attributes x n)"
    unfolding psych_attributes_def by (intro keeps_intro keeps_set_attribute) simp_all
  have reset: "?I (snd (reset_lists c))" if "resources c \<noteq> []" for c
    using that by (cases "resources c") (auto simp: reset_lists_def method_simps)
  have "completes (psych_attributes x n :: (config, unit) method)"
    unfolding psych_attributes_def by (intro completes_intro)
  then obtain c1 where c1: "psych_attributes x n c = (Done (), c1)" by (metis completes_def prod.collapse)
  then have "resources c1 \<noteq> []" using keepsD[OF attr assms] by simp
  moreover obtain c2 where c2: "reset_lists c1 = (Done (), c2)" by (simp add: reset_lists_def method_simps)
  ultimately have "?I c2" using reset[of c1] by simp
  then have "?I (snd (each_node (ParseResourceNode x) (get_elements x n ''resource'') c2))"
    by (rule keepsD[OF nodes])
  moreover have "ParsePsychNode x n c = each_node (ParseResourceNode x) (get_elements x n ''resource'') c2"
    using c1 c2 by (simp add: ParsePsychNode_def seq_Done_run)
  ultimately show ?thesis by (auto simp: Validate_valid valid_config_def valid_resource_def)
qed

section \<open>A document\<close>

definition demo_dom :: "nat dom_env" where
  "demo_dom =
     \<lparr>get_attribute = (\<lambda>n a. the_default [] (map_of
        [((3, ''name''), ''S1''), ((4, ''name''), ''C1''), ((6, ''applicationId''), ''256''), ((6, ''instanceId''), ''1''),
         ((6, ''userName''), ''user''), ((7, ''name''), ''P1''), ((2, ''maximumDataSize''), ''65000''), ((8, ''name''), ''VTA''),
         ((9, ''name''), ''M''), ((10, ''name''), ''E''), ((11, ''name''), ''V''), ((12, ''maximumResponseSize''), ''1000'')] (n, a))),
      get_elements = (\<lambda>n t. the_default [] (map_of
        [((0, ''config''), [1]), ((1, ''Rfa''), [2]), ((1, ''psych''), [12]), ((2, ''session''), [3]), ((3, ''connection''), [4]),
         ((4, ''server''), [5]), ((3, ''login''), [6]), ((3, ''publisher''), [7]), ((2, ''service''), [8]), ((2, ''monitor''), [9]),
         ((2, ''eventQueue''), [10]), ((2, ''vendor''), [11])] (n, t))),
      has_attributes = (\<lambda>n. n > 1), text_content = (\<lambda>n. if n = 5 then ''host'' else [])\<rparr>"

definition demo_read :: "bool outcome \<times> config" where
  "demo_read = ParseDomElement demo_dom 0 config_init"

theorem xml_sessions_witness:
  "valid_config (snd demo_read) \<and> map rssl_servers (cfg_sessions (snd demo_read)) = [[''host'']]"
proof -
  have "fst demo_read = Done True" by code_simp
  then have "ParseDomElement demo_dom 0 config_init = (Done True, snd demo_read)"
    by (simp add: demo_read_def prod_eq_iff)
  from xml_sessions[OF this] show ?thesis
    by (simp add: config_init_def demo_dom_def session_at_def Let_def)
qed

theorem second_psych_invalid_witness:
  "\<not> Validate (snd (ParsePsychNode demo_dom 12 (config_init\<lparr>resources :=
     [\<lparr>res_name = ''r'', res_source = ''s'', res_path = ''p'', entitlement_code = 1, res_fields = [(''f'', 1)],
       res_items = [(''i'', (''n'', ''t''))]\<rparr>]\<rparr>)))"
  by (rule second_psych_invalid) simp

end
