(* ===== verification/Snmp_Tables.thy ===== *)
theory Snmp_Tables
  imports Psych
begin

text \<open>
  The SNMP tables of \<open>src/src/psychMIB.hh\<close> and \<open>src/src/psychMIB.cc\<close>: their registration, the iterators
  over the instances and their sessions, and the handlers that answer a column of a row. net-snmp is
  not part of the sources: the hooks are called in the order its table iterator documents (first, next
  until there is none, free) and \<open>net_snmp\<close> holds its answers. A hook runs on \<open>snmp_state\<close>, the list of
  all instances with the contexts of the walks that are going on.
\<close>

section \<open>Columns\<close>

abbreviation COLUMN_PSYCHPLUGINID :: nat where "COLUMN_PSYCHPLUGINID \<equiv> 1"
abbreviation COLUMN_PSYCHPLUGINUNIQUEINSTANCE :: nat where "COLUMN_PSYCHPLUGINUNIQUEINSTANCE \<equiv> 2"
abbreviation COLUMN_PSYCHPLUGINWINDOWSREGISTRYKEY :: nat where "COLUMN_PSYCHPLUGINWINDOWSREGISTRYKEY \<equiv> 3"
abbreviation COLUMN_PSYCHPLUGINSERVICENAME :: nat where "COLUMN_PSYCHPLUGINSERVICENAME \<equiv> 4"
abbreviation COLUMN_PSYCHPLUGINMONITORNAME :: nat where "COLUMN_PSYCHPLUGINMONITORNAME \<equiv> 5"
abbreviation COLUMN_PSYCHPLUGINEVENTQUEUENAME :: nat where "COLUMN_PSYCHPLUGINEVENTQUEUENAME \<equiv> 6"
abbreviation COLUMN_PSYCHPLUGINVENDORNAME :: nat where "COLUMN_PSYCHPLUGINVENDORNAME \<equiv> 7"

abbreviation COLUMN_PSYCHPLUGINPERFORMANCEID :: nat where "COLUMN_PSYCHPLUGINPERFORMANCEID \<equiv> 1"
abbreviation COLUMN_PSYCHPLUGINPERFORMANCEUNIQUEINSTANCE :: nat where "COLUMN_PSYCHPLUGINPERFORMANCEUNIQUEINSTANCE \<equiv> 2"
abbreviation COLUMN_PSYCHTCLQUERYRECEIVED :: nat where "COLUMN_PSYCHTCLQUERYRECEIVED \<equiv> 3"
abbreviation COLUMN_PSYCHTIMERQUERYRECEIVED :: nat where "COLUMN_PSYCHTIMERQUERYRECEIVED \<equiv> 4"
abbreviation COLUMN_PSYCHLASTACTIVITY :: nat where "COLUMN_PSYCHLASTACTIVITY \<equiv> 5"
abbreviation COLUMN_PSYCHTCLSVCTIMEMIN :: nat where "COLUMN_PSYCHTCLSVCTIMEMIN \<equiv> 6"
abbreviation COLUMN_PSYCHTCLSVCTIMEMEAN :: nat where "COLUMN_PSYCHTCLSVCTIMEMEAN \<equiv> 7"
abbreviation COLUMN_PSYCHTCLSVCTIMEMAX :: nat where "COLUMN_PSYCHTCLSVCTIMEMAX \<equiv> 8"
abbreviation COLUMN_PSYCHTIMERSVCTIMEMIN :: nat where "COLUMN_PSYCHTIMERSVCTIMEMIN \<equiv> 9"
abbreviation COLUMN_PSYCHTIMERSVCTIMEMEAN :: nat where "COLUMN_PSYCHTIMERSVCTIMEMEAN \<equiv> 10"
abbreviation COLUMN_PSYCHTIMERSVCTIMEMAX :: nat where "COLUMN_PSYCHTIMERSVCTIMEMAX \<equiv> 11"
abbreviation COLUMN_PSYCHMSGSSENT :: nat where "COLUMN_PSYCHMSGSSENT \<equiv> 12"
abbreviation COLUMN_PSYCHLASTMSGSSENT :: nat where "COLUMN_PSYCHLASTMSGSSENT \<equiv> 13"
abbreviation COLUMN_PSYCHHTTPREQUESTSENT :: nat where "COLUMN_PSYCHHTTPREQUESTSENT \<equiv> 14"
abbreviation COLUMN_PSYCHHTTP1XXRECEIVED :: nat where "COLUMN_PSYCHHTTP1XXRECEIVED \<equiv> 15"
abbreviation COLUMN_PSYCHHTTP2XXRECEIVED :: nat where "COLUMN_PSYCHHTTP2XXRECEIVED \<equiv> 16"
abbreviation COLUMN_PSYCHHTTP3XXRECEIVED :: nat where "COLUMN_PSYCHHTTP3XXRECEIVED \<equiv> 17"
abbreviation COLUMN_PSYCHHTTP4XXRECEIVED :: nat where "COLUMN_PSYCHHTTP4XXRECEIVED \<equiv> 18"
abbreviation COLUMN_PSYCHHTTP5XXRECEIVED :: nat where "COLUMN_PSYCHHTTP5XXRECEIVED \<equiv> 19"
abbreviation COLUMN_PSYCHHTTP200RECEIVED :: nat where "COLUMN_PSYCHHTTP200RECEIVED \<equiv> 20"
abbreviation COLUMN_PSYCHHTTP304RECEIVED :: nat where "COLUMN_PSYCHHTTP304RECEIVED \<equiv> 21"
abbreviation COLUMN_PSYCHHTTPMALFORMED :: nat where "COLUMN_PSYCHHTTPMALFORMED \<equiv> 22"
abbreviation COLUMN_PSYCHHTTPRETRIESEXCEEDED :: nat where "COLUMN_PSYCHHTTPRETRIESEXCEEDED \<equiv> 23"
abbreviation COLUMN_PSYCHHTTPDCLOCKDRIFT :: nat where "COLUMN_PSYCHHTTPDCLOCKDRIFT \<equiv> 24"
abbreviation COLUMN_PSYCHHTTPCLOCKDRIFT :: nat where "COLUMN_PSYCHHTTPCLOCKDRIFT \<equiv> 25"
abbreviation COLUMN_PSYCHPSYCHCLOCKDRIFT :: nat where "COLUMN_PSYCHPSYCHCLOCKDRIFT \<equiv> 26"

abbreviation COLUMN_PSYCHSESSIONPLUGINID :: nat where "COLUMN_PSYCHSESSIONPLUGINID \<equiv> 1"
abbreviation COLUMN_PSYCHSESSIONPLUGINUNIQUEINSTANCE :: nat where "COLUMN_PSYCHSESSIONPLUGINUNIQUEINSTANCE \<equiv> 2"
abbreviation COLUMN_PSYCHSESSIONUNIQUEINSTANCE :: nat where "COLUMN_PSYCHSESSIONUNIQUEINSTANCE \<equiv> 3"
abbreviation COLUMN_PSYCHSESSIONRSSLSERVERS :: nat where "COLUMN_PSYCHSESSIONRSSLSERVERS \<equiv> 4"
abbreviation COLUMN_PSYCHSESSIONRSSLDEFAULTPORT :: nat where "COLUMN_PSYCHSESSIONRSSLDEFAULTPORT \<equiv> 5"
abbreviation COLUMN_PSYCHSESSIONAPPLICATIONID :: nat where "COLUMN_PSYCHSESSIONAPPLICATIONID \<equiv> 6"
abbreviation COLUMN_PSYCHSESSIONINSTANCEID :: nat where "COLUMN_PSYCHSESSIONINSTANCEID \<equiv> 7"
abbreviation COLUMN_PSYCHSESSIONUSERNAME :: nat where "COLUMN_PSYCHSESSIONUSERNAME \<equiv> 8"
abbreviation COLUMN_PSYCHSESSIONPOSITION :: nat where "COLUMN_PSYCHSESSIONPOSITION \<equiv> 9"
abbreviation COLUMN_PSYCHSESSIONSESSIONNAME :: nat where "COLUMN_PSYCHSESSIONSESSIONNAME \<equiv> 10"
abbreviation COLUMN_PSYCHSESSIONCONNECTIONNAME :: nat where "COLUMN_PSYCHSESSIONCONNECTIONNAME \<equiv> 11"
abbreviation COLUMN_PSYCHSESSIONPUBLISHERNAME :: nat where "COLUMN_PSYCHSESSIONPUBLISHERNAME \<equiv> 12"

abbreviation COLUMN_PSYCHSESSIONPERFORMANCEID :: nat where "COLUMN_PSYCHSESSIONPERFORMANCEID \<equiv> 1"
abbreviation COLUMN_PSYCHSESSIONPERFORMANCEPLUGINUNIQUEINSTANCE :: nat where "COLUMN_PSYCHSESSIONPERFORMANCEPLUGINUNIQUEINSTANCE \<equiv> 2"
abbreviation COLUMN_PSYCHSESSIONPERFORMANCEUNIQUEINSTANCE :: nat where "COLUMN_PSYCHSESSIONPERFORMANCEUNIQUEINSTANCE \<equiv> 3"
abbreviation COLUMN_PSYCHSESSIONLASTACTIVITY :: nat where "COLUMN_PSYCHSESSIONLASTACTIVITY \<equiv> 4"
abbreviation COLUMN_PSYCHSESSIONRFAMSGSSENT :: nat where "COLUMN_PSYCHSESSIONRFAMSGSSENT \<equiv> 5"
abbreviation COLUMN_PSYCHRFAEVENTSRECEIVED :: nat where "COLUMN_PSYCHRFAEVENTSRECEIVED \<equiv> 6"
abbreviation COLUMN_PSYCHRFAEVENTSDISCARDED :: nat where "COLUMN_PSYCHRFAEVENTSDISCARDED \<equiv> 7"
abbreviation COLUMN_PSYCHOMMITEMEVENTSRECEIVED :: nat where "COLUMN_PSYCHOMMITEMEVENTSRECEIVED \<equiv> 8"
abbreviation COLUMN_PSYCHOMMITEMEVENTSDISCARDED :: nat where "COLUMN_PSYCHOMMITEMEVENTSDISCARDED \<equiv> 9"
abbreviation COLUMN_PSYCHRESPONSEMSGSRECEIVED :: nat where "COLUMN_PSYCHRESPONSEMSGSRECEIVED \<equiv> 10"
abbreviation COLUMN_PSYCHRESPONSEMSGSDISCARDED :: nat where "COLUMN_PSYCHRESPONSEMSGSDISCARDED \<equiv> 11"
abbreviation COLUMN_PSYCHMMTLOGINRESPONSERECEIVED :: nat where "COLUMN_PSYCHMMTLOGINRESPONSERECEIVED \<equiv> 12"
abbreviation COLUMN_PSYCHMMTLOGINRESPONSEDISCARDED :: nat where "COLUMN_PSYCHMMTLOGINRESPONSEDISCARDED \<equiv> 13"
abbreviation COLUMN_PSYCHMMTLOGINSUCCESSRECEIVED :: nat where "COLUMN_PSYCHMMTLOGINSUCCESSRECEIVED \<equiv> 14"
abbreviation COLUMN_PSYCHMMTLOGINSUSPECTRECEIVED :: nat where "COLUMN_PSYCHMMTLOGINSUSPECTRECEIVED \<equiv> 15"
abbreviation COLUMN_PSYCHMMTLOGINCLOSEDRECEIVED :: nat where "COLUMN_PSYCHMMTLOGINCLOSEDRECEIVED \<equiv> 16"
abbreviation COLUMN_PSYCHOMMCMDERRORS :: nat where "COLUMN_PSYCHOMMCMDERRORS \<equiv> 17"
abbreviation COLUMN_PSYCHMMTLOGINSVALIDATED :: nat where "COLUMN_PSYCHMMTLOGINSVALIDATED \<equiv> 18"
abbreviation COLUMN_PSYCHMMTLOGINSMALFORMED :: nat where "COLUMN_PSYCHMMTLOGINSMALFORMED \<equiv> 19"
abbreviation COLUMN_PSYCHMMTLOGINSSENT :: nat where "COLUMN_PSYCHMMTLOGINSSENT \<equiv> 20"
abbreviation COLUMN_PSYCHMMTDIRECTORYSVALIDATED :: nat where "COLUMN_PSYCHMMTDIRECTORYSVALIDATED \<equiv> 21"
abbreviation COLUMN_PSYCHMMTDIRECTORYSMALFORMED :: nat where "COLUMN_PSYCHMMTDIRECTORYSMALFORMED \<equiv> 22"
abbreviation COLUMN_PSYCHMMTDIRECTORYSSENT :: nat where "COLUMN_PSYCHMMTDIRECTORYSSENT \<equiv> 23"
abbreviation COLUMN_PSYCHTOKENSGENERATED :: nat where "COLUMN_PSYCHTOKENSGENERATED \<equiv> 24"
abbreviation COLUMN_PSYCHMMTLOGINSTREAMSTATE :: nat where "COLUMN_PSYCHMMTLOGINSTREAMSTATE \<equiv> 25"
abbreviation COLUMN_PSYCHMMTLOGINDATASTATE :: nat where "COLUMN_PSYCHMMTLOGINDATASTATE \<equiv> 26"

text \<open>A typed variable of net-snmp; \<open>ASN_COUNTER\<close> is a 32-bit counter.\<close>

datatype asn = ASN_OCTET_STR string | ASN_UNSIGNED "32 word" | ASN_COUNTER "32 word" | ASN_INTEGER int

datatype asn_type = Octet_Str | Unsigned32

section \<open>Instances\<close>

text \<open>
  An instance with the members the adapter's own code does not read: its identifiers, the time of
  the last query and the times of the Tcl queries. \<open>None\<close> is an infinity of Boost.
\<close>

record plugin = psych +
  plugin_id :: string
  plugin_instance :: "32 word"
  last_activity :: int
  min_tcl_time :: "int option"
  max_tcl_time :: "int option"
  total_tcl_time :: int

text \<open>
  The static list of all instances, by address, with the instance counter; the contexts of walks,
  by address, each with the positions of its two iterators. \<open>session_it\<close> is set before it is read.
\<close>

record loop_context =
  psych_it :: nat
  session_it :: nat

record snmp_state =
  global_list :: "(nat \<times> plugin) list"
  instance_count :: "32 word"
  loop_contexts :: "(nat \<times> loop_context) list"

text \<open>The constructor, at an address the allocator gives, and the destructor.\<close>

definition plugin_init :: "psych \<Rightarrow> int \<Rightarrow> 32 word \<Rightarrow> plugin" where
  "plugin_init p now number = psych.extend p (plugin.fields [] number now None None 0)"

definition construct :: "nat \<Rightarrow> int \<Rightarrow> psych \<Rightarrow> (snmp_state, unit) method" where
  "construct address now p =
     bindm (gets instance_count) (\<lambda>number.
       seq (modify (\<lambda>\<sigma>. \<sigma>\<lparr>instance_count := number + 1\<rparr>))
           (modify (\<lambda>\<sigma>. \<sigma>\<lparr>global_list := global_list \<sigma> @ [(address, plugin_init p now number)]\<rparr>)))"

definition destruct :: "nat \<Rightarrow> (snmp_state, unit) method" where
  "destruct address =
     modify (\<lambda>\<sigma>. \<sigma>\<lparr>global_list := filter (\<lambda>(a, _). a \<noteq> address) (global_list \<sigma>)\<rparr>)"

section \<open>Contexts\<close>

definition fresh_context :: "snmp_state \<Rightarrow> nat" where
  "fresh_context \<sigma> = Suc (foldr max (map fst (loop_contexts \<sigma>)) 0)"

definition save_context :: "loop_context \<Rightarrow> (snmp_state, nat) method" where
  "save_context c =
     bindm (gets fresh_context) (\<lambda>a.
       seq (modify (\<lambda>\<sigma>. \<sigma>\<lparr>loop_contexts := loop_contexts \<sigma> @ [(a, c)]\<rparr>)) (ret a))"

definition get_context :: "nat \<Rightarrow> (snmp_state, loop_context) method" where
  "get_context a =
     bindm (gets (\<lambda>\<sigma>. map_of (loop_contexts \<sigma>) a)) (\<lambda>c.
       case c of None \<Rightarrow> throw Undefined_Behaviour | Some c \<Rightarrow> ret c)"

definition put_context :: "nat \<Rightarrow> loop_context \<Rightarrow> (snmp_state, unit) method" where
  "put_context a c =
     modify (\<lambda>\<sigma>. \<sigma>\<lparr>loop_contexts := map (\<lambda>(b, d). (b, if b = a then c else d)) (loop_contexts \<sigma>)\<rparr>)"

text \<open>
  \<open>remove_if\<close> moves the other contexts to the front and one element is erased at the new end; the
  addresses differ, so that removes the context. With no match the end itself is erased.
\<close>

definition free_loop_context :: "nat \<Rightarrow> (snmp_state, unit) method" where
  "free_loop_context a =
     seq (bindm (get_context a) (\<lambda>_. ret ()))
         (modify (\<lambda>\<sigma>. \<sigma>\<lparr>loop_contexts := filter (\<lambda>(b, _). b \<noteq> a) (loop_contexts \<sigma>)\<rparr>))"

definition psychPluginTable_free_loop_context :: "nat \<Rightarrow> (snmp_state, unit) method" where
  "psychPluginTable_free_loop_context = free_loop_context"

definition psychPluginPerformanceTable_free_loop_context :: "nat \<Rightarrow> (snmp_state, unit) method" where
  "psychPluginPerformanceTable_free_loop_context = free_loop_context"

definition psychSessionTable_free_loop_context :: "nat \<Rightarrow> (snmp_state, unit) method" where
  "psychSessionTable_free_loop_context = free_loop_context"

definition psychSessionPerformanceTable_free_loop_context :: "nat \<Rightarrow> (snmp_state, unit) method" where
  "psychSessionPerformanceTable_free_loop_context = free_loop_context"

section \<open>The iterators over instances\<close>

text \<open>A data point: the index columns and what the handler is given, the instance or its session.\<close>

type_synonym 'd data_point = "(asn list \<times> 'd) option"

definition plugin_index :: "plugin \<Rightarrow> asn list" where
  "plugin_index p = [ASN_OCTET_STR (plugin_id p), ASN_UNSIGNED (plugin_instance p)]"

definition psychPluginTable_get_next_data_point :: "nat \<Rightarrow> (snmp_state, plugin data_point) method" where
  "psychPluginTable_get_next_data_point my_loop_context =
     bindm (get_context my_loop_context) (\<lambda>context.
     bindm (gets global_list) (\<lambda>psych_list.
       if psych_it context = length psych_list then ret None
       else
         let psych = snd (psych_list ! psych_it context)
         in seq (put_context my_loop_context (context\<lparr>psych_it := Suc (psych_it context)\<rparr>))
                (ret (Some (plugin_index psych, psych)))))"

definition psychPluginTable_get_first_data_point ::
    "(snmp_state, nat option \<times> plugin data_point) method" where
  "psychPluginTable_get_first_data_point =
     bindm (gets global_list) (\<lambda>psych_list.
       if psych_list = [] then ret (None, None)
       else
         bindm (save_context \<lparr>psych_it = 0, session_it = 0\<rparr>) (\<lambda>my_loop_context.
         bindm (psychPluginTable_get_next_data_point my_loop_context) (\<lambda>row.
           ret (Some my_loop_context, row))))"

definition psychPluginPerformanceTable_get_next_data_point ::
    "nat \<Rightarrow> (snmp_state, plugin data_point) method" where
  "psychPluginPerformanceTable_get_next_data_point = psychPluginTable_get_next_data_point"

definition psychPluginPerformanceTable_get_first_data_point ::
    "(snmp_state, nat option \<times> plugin data_point) method" where
  "psychPluginPerformanceTable_get_first_data_point = psychPluginTable_get_first_data_point"

section \<open>The iterators over sessions\<close>

text \<open>\<open>(*psych_it)->provider_->sessions_\<close>\<close>

definition sessions_of :: "plugin \<Rightarrow> session list outcome" where
  "sessions_of psych =
     (case psych_provider psych of None \<Rightarrow> Raise Null_Deref | Some provider \<Rightarrow> Done (sessions provider))"

text \<open>The loop that looks for the first instance with a session: the position where it stops.\<close>

fun first_session :: "plugin list \<Rightarrow> nat outcome" where
  "first_session [] = Done 0"
| "first_session (psych # psychs) =
     bind_outcome (sessions_of psych) (\<lambda>ss.
       if ss \<noteq> [] then Done 0
       else bind_outcome (first_session psychs) (\<lambda>k. Done (Suc k)))"

text \<open>
  The loop that moves on to the next session. The argument starts at the current instance, whose
  position is \<open>k\<close>; \<open>j\<close> is the position of the session. Its condition increments the session iterator
  each time, also when it has just been set to the begin of the next instance.
\<close>

fun hunt :: "plugin list \<Rightarrow> nat \<Rightarrow> nat \<Rightarrow> (nat \<times> nat) outcome" where
  "hunt [] k j = Raise Undefined_Behaviour"
| "hunt (psych # psychs) k j =
     bind_outcome (sessions_of psych) (\<lambda>ss.
       if length ss \<le> j then Raise Undefined_Behaviour
       else if Suc j \<noteq> length ss then Done (k, Suc j)
       else if psychs = [] then Done (Suc k, Suc j)
       else hunt psychs (Suc k) 0)"

definition session_index :: "plugin \<Rightarrow> session \<Rightarrow> asn list" where
  "session_index p s = plugin_index p @ [ASN_UNSIGNED (word_of_nat (instance_id s))]"

definition psychSessionTable_get_next_data_point :: "nat \<Rightarrow> (snmp_state, session data_point) method" where
  "psychSessionTable_get_next_data_point my_loop_context =
     bindm (get_context my_loop_context) (\<lambda>context.
     bindm (gets (map snd \<circ> global_list)) (\<lambda>psych_list.
       if psych_it context = length psych_list then ret None
       else
         let psych = psych_list ! psych_it context
         in bindm (Pair (sessions_of psych)) (\<lambda>ss.
              if session_it context = length ss then ret None
              else
                let session = ss ! session_it context
                in bindm (Pair (hunt (drop (psych_it context) psych_list) (psych_it context)
                            (session_it context))) (\<lambda>(k, j).
                   seq (put_context my_loop_context \<lparr>psych_it = k, session_it = j\<rparr>)
                       (ret (Some (session_index psych session, session)))))))"

definition psychSessionTable_get_first_data_point ::
    "(snmp_state, nat option \<times> session data_point) method" where
  "psychSessionTable_get_first_data_point =
     bindm (gets (map snd \<circ> global_list)) (\<lambda>psych_list.
       if psych_list = [] then ret (None, None)
       else
         bindm (Pair (first_session psych_list)) (\<lambda>k.
           if k = length psych_list then throw Undefined_Behaviour
           else
             bindm (Pair (sessions_of (psych_list ! k))) (\<lambda>ss.
               if ss = [] then ret (None, None)
               else
                 bindm (save_context \<lparr>psych_it = k, session_it = 0\<rparr>) (\<lambda>my_loop_context.
                 bindm (psychSessionTable_get_next_data_point my_loop_context) (\<lambda>row.
                   ret (Some my_loop_context, row))))))"

definition psychSessionPerformanceTable_get_next_data_point ::
    "nat \<Rightarrow> (snmp_state, session data_point) method" where
  "psychSessionPerformanceTable_get_next_data_point = psychSessionTable_get_next_data_point"

definition psychSessionPerformanceTable_get_first_data_point ::
    "(snmp_state, nat option \<times> session data_point) method" where
  "psychSessionPerformanceTable_get_first_data_point = psychSessionTable_get_first_data_point"

section \<open>A walk\<close>

text \<open>
  What net-snmp's table iterator does with the hooks of a table: all data points, then the context is
  freed. The number bounds the calls; one more than the data points is enough.
\<close>

fun walk_rows ::
    "nat \<Rightarrow> (nat \<Rightarrow> (snmp_state, 'd data_point) method) \<Rightarrow> nat \<Rightarrow> (asn list \<times> 'd) option \<Rightarrow>
     (snmp_state, (asn list \<times> 'd) list) method" where
  "walk_rows n get_next context None = ret []"
| "walk_rows 0 get_next context (Some row) = Pair Diverged"
| "walk_rows (Suc n) get_next context (Some row) =
     bindm (get_next context) (\<lambda>r.
     bindm (walk_rows n get_next context r) (\<lambda>rows. ret (row # rows)))"

definition table_walk ::
    "nat \<Rightarrow> (snmp_state, nat option \<times> 'd data_point) method \<Rightarrow> (nat \<Rightarrow> (snmp_state, 'd data_point) method) \<Rightarrow>
     (nat \<Rightarrow> (snmp_state, unit) method) \<Rightarrow> (snmp_state, (asn list \<times> 'd) list) method" where
  "table_walk n get_first get_next free =
     bindm get_first (\<lambda>(context, row).
       case context of
         None \<Rightarrow> ret []
       | Some a \<Rightarrow>
           bindm (walk_rows n get_next a row) (\<lambda>rows. seq (free a) (ret rows)))"

section \<open>The handlers\<close>

datatype snmp_mode = MODE_GET | MODE_OTHER
datatype snmp_error = SNMP_NOSUCHINSTANCE | SNMP_NOSUCHOBJECT

text \<open>A request: its row, if there is one, and the column, if there is table information.\<close>

record 'd snmp_request =
  iterator_context :: "'d option"
  colnum :: "nat option"

datatype reply = Typed_Value asn | Request_Error snmp_error | No_Reply

type_synonym 'd columns = "(nat \<times> ('d \<Rightarrow> asn outcome)) list"

text \<open>One request: the switch over the columns and what comes before it.\<close>

definition answer_request :: "'d columns \<Rightarrow> 'd snmp_request \<Rightarrow> reply outcome" where
  "answer_request switch request =
     (case iterator_context request of
        None \<Rightarrow> Done (Request_Error SNMP_NOSUCHINSTANCE)
      | Some row \<Rightarrow>
          (case colnum request of
             None \<Rightarrow> Done No_Reply
           | Some c \<Rightarrow>
               (case map_of switch c of
                  None \<Rightarrow> Done (Request_Error SNMP_NOSUCHOBJECT)
                | Some f \<Rightarrow> bind_outcome (f row) (\<lambda>v. Done (Typed_Value v)))))"

fun answer_requests :: "'d columns \<Rightarrow> 'd snmp_request list \<Rightarrow> reply list outcome" where
  "answer_requests switch [] = Done []"
| "answer_requests switch (request # requests) =
     bind_outcome (answer_request switch request) (\<lambda>r.
     bind_outcome (answer_requests switch requests) (\<lambda>rs. Done (r # rs)))"

definition table_handler :: "'d columns \<Rightarrow> snmp_mode \<Rightarrow> 'd snmp_request list \<Rightarrow> reply list outcome" where
  "table_handler switch mode requests =
     (case mode of
        MODE_GET \<Rightarrow> answer_requests switch requests
      | MODE_OTHER \<Rightarrow> Done (map (\<lambda>_. No_Reply) requests))"

definition octets :: "('d \<Rightarrow> string) \<Rightarrow> 'd \<Rightarrow> asn outcome" where
  "octets f d = Done (ASN_OCTET_STR (f d))"

definition plugin_columns :: "plugin columns" where
  "plugin_columns =
     [(COLUMN_PSYCHPLUGINWINDOWSREGISTRYKEY, octets (cfg_key \<circ> psych_config)),
      (COLUMN_PSYCHPLUGINSERVICENAME, octets (service_name \<circ> psych_config)),
      (COLUMN_PSYCHPLUGINMONITORNAME, octets (monitor_name \<circ> psych_config)),
      (COLUMN_PSYCHPLUGINEVENTQUEUENAME, octets (event_queue_name \<circ> psych_config)),
      (COLUMN_PSYCHPLUGINVENDORNAME, octets (vendor_name \<circ> psych_config))]"

definition psychPluginTable_handler :: "snmp_mode \<Rightarrow> plugin snmp_request list \<Rightarrow> reply list outcome" where
  "psychPluginTable_handler = table_handler plugin_columns"

subsection \<open>Performance of an instance\<close>

definition counter :: "psych_pc \<Rightarrow> plugin \<Rightarrow> asn outcome" where
  "counter c psych = Done (ASN_COUNTER (psych_counters psych c))"

text \<open>Seconds since the epoch as a 32-bit number; the clock counts microseconds.\<close>

definition activity :: "int \<Rightarrow> asn outcome" where
  "activity t = Done (ASN_COUNTER (word_of_int (total_seconds t)))"

definition svc_time :: "int option \<Rightarrow> asn outcome" where
  "svc_time td =
     Done (ASN_COUNTER (case td of None \<Rightarrow> 0 | Some td \<Rightarrow> word_of_int (total_milliseconds td)))"

definition mean_time :: "int \<Rightarrow> 32 word \<Rightarrow> asn outcome" where
  "mean_time time n =
     Done (ASN_COUNTER (if n > 0 then word_of_int (total_milliseconds time sdiv uint n) else 0))"

definition activity_columns :: "plugin columns" where
  "activity_columns =
     [(COLUMN_PSYCHTCLQUERYRECEIVED, counter PSYCH_PC_TCL_QUERY_RECEIVED),
      (COLUMN_PSYCHTIMERQUERYRECEIVED, counter PSYCH_PC_TIMER_QUERY_RECEIVED),
      (COLUMN_PSYCHLASTACTIVITY, \<lambda>psych. activity (last_activity psych)),
      (COLUMN_PSYCHTCLSVCTIMEMIN, \<lambda>psych. svc_time (min_tcl_time psych)),
      (COLUMN_PSYCHTCLSVCTIMEMEAN, \<lambda>psych. mean_time (total_tcl_time psych) (psych_counters psych PSYCH_PC_TCL_QUERY_RECEIVED)),
      (COLUMN_PSYCHTCLSVCTIMEMAX, \<lambda>psych. svc_time (max_tcl_time psych)),
      (COLUMN_PSYCHTIMERSVCTIMEMIN, \<lambda>psych. svc_time (min_refresh_time (refresh_time psych))),
      (COLUMN_PSYCHTIMERSVCTIMEMEAN, \<lambda>psych. mean_time (total_refresh_time (refresh_time psych))
         (psych_counters psych PSYCH_PC_TIMER_QUERY_RECEIVED)),
      (COLUMN_PSYCHTIMERSVCTIMEMAX, \<lambda>psych. svc_time (max_refresh_time (refresh_time psych))),
      (COLUMN_PSYCHMSGSSENT, \<lambda>psych. Done (ASN_COUNTER (case psych_provider psych of
         Some p \<Rightarrow> provider_pc_msgs_sent p | None \<Rightarrow> 0))),
      (COLUMN_PSYCHLASTMSGSSENT, \<lambda>psych. case psych_provider psych of
         Some p \<Rightarrow> activity (prov_last_activity p) | None \<Rightarrow> Done (ASN_COUNTER 0))]"

definition http_columns :: "plugin columns" where
  "http_columns =
     [(COLUMN_PSYCHHTTPREQUESTSENT, counter PSYCH_PC_HTTP_REQUEST_SENT),
      (COLUMN_PSYCHHTTP1XXRECEIVED, counter PSYCH_PC_HTTP_1XX_RECEIVED),
      (COLUMN_PSYCHHTTP2XXRECEIVED, counter PSYCH_PC_HTTP_2XX_RECEIVED),
      (COLUMN_PSYCHHTTP3XXRECEIVED, counter PSYCH_PC_HTTP_3XX_RECEIVED),
      (COLUMN_PSYCHHTTP4XXRECEIVED, counter PSYCH_PC_HTTP_4XX_RECEIVED),
      (COLUMN_PSYCHHTTP5XXRECEIVED, counter PSYCH_PC_HTTP_5XX_RECEIVED),
      (COLUMN_PSYCHHTTP200RECEIVED, counter PSYCH_PC_HTTP_200_RECEIVED),
      (COLUMN_PSYCHHTTP304RECEIVED, counter PSYCH_PC_HTTP_304_RECEIVED),
      (COLUMN_PSYCHHTTPMALFORMED, counter PSYCH_PC_HTTP_MALFORMED),
      (COLUMN_PSYCHHTTPRETRIESEXCEEDED, counter PSYCH_PC_HTTP_RETRIES_EXCEEDED),
      (COLUMN_PSYCHHTTPDCLOCKDRIFT, counter PSYCH_PC_HTTPD_CLOCK_DRIFT),
      (COLUMN_PSYCHHTTPCLOCKDRIFT, counter PSYCH_PC_HTTP_CLOCK_DRIFT),
      (COLUMN_PSYCHPSYCHCLOCKDRIFT, counter PSYCH_PC_PSYCH_CLOCK_DRIFT)]"

definition performance_columns :: "plugin columns" where
  "performance_columns = activity_columns @ http_columns"

definition psychPluginPerformanceTable_handler ::
    "snmp_mode \<Rightarrow> plugin snmp_request list \<Rightarrow> reply list outcome" where
  "psychPluginPerformanceTable_handler = table_handler performance_columns"

subsection \<open>Sessions\<close>

text \<open>
  The servers of a session as one text. With a server the pointer is into a temporary of
  \<open>ss.str().c_str()\<close>, which is gone when net-snmp reads it.
\<close>

definition rssl_servers_value :: "session \<Rightarrow> asn outcome" where
  "rssl_servers_value s =
     (if rssl_servers (sess_config s) = [] then Done (ASN_OCTET_STR [])
      else Raise Undefined_Behaviour)"

definition session_columns :: "session columns" where
  "session_columns =
     [(COLUMN_PSYCHSESSIONRSSLSERVERS, rssl_servers_value),
      (COLUMN_PSYCHSESSIONRSSLDEFAULTPORT, octets (rssl_default_port \<circ> sess_config)),
      (COLUMN_PSYCHSESSIONAPPLICATIONID, octets (application_id \<circ> sess_config)),
      (COLUMN_PSYCHSESSIONINSTANCEID, octets (cfg_instance_id \<circ> sess_config)),
      (COLUMN_PSYCHSESSIONUSERNAME, octets (user_name \<circ> sess_config)),
      (COLUMN_PSYCHSESSIONPOSITION, octets (cfg_position \<circ> sess_config)),
      (COLUMN_PSYCHSESSIONSESSIONNAME, octets (session_name \<circ> sess_config)),
      (COLUMN_PSYCHSESSIONCONNECTIONNAME, octets (connection_name \<circ> sess_config)),
      (COLUMN_PSYCHSESSIONPUBLISHERNAME, octets (publisher_name \<circ> sess_config))]"

definition psychSessionTable_handler :: "snmp_mode \<Rightarrow> session snmp_request list \<Rightarrow> reply list outcome" where
  "psychSessionTable_handler = table_handler session_columns"

definition session_counter :: "session_pc \<Rightarrow> session \<Rightarrow> asn outcome" where
  "session_counter c s = Done (ASN_COUNTER (sess_stats s c))"

text \<open>The numbers RFA gives its stream and data states; 0 is the state before any response.\<close>

record rfa_numbers =
  stream_number :: "stream_enum \<Rightarrow> int"
  data_number :: "data_enum \<Rightarrow> int"

definition state_value :: "('e \<Rightarrow> int) \<Rightarrow> 'e option \<Rightarrow> asn outcome" where
  "state_value number state = Done (ASN_INTEGER (case state of None \<Rightarrow> 0 | Some e \<Rightarrow> number e))"

definition event_columns :: "session columns" where
  "event_columns =
     [(COLUMN_PSYCHSESSIONLASTACTIVITY, \<lambda>s. activity (sess_last_activity s)),
      (COLUMN_PSYCHSESSIONRFAMSGSSENT, session_counter SESSION_PC_RFA_MSGS_SENT),
      (COLUMN_PSYCHRFAEVENTSRECEIVED, session_counter SESSION_PC_RFA_EVENTS_RECEIVED),
      (COLUMN_PSYCHRFAEVENTSDISCARDED, session_counter SESSION_PC_RFA_EVENTS_DISCARDED),
      (COLUMN_PSYCHOMMITEMEVENTSRECEIVED, session_counter SESSION_PC_OMM_ITEM_EVENTS_RECEIVED),
      (COLUMN_PSYCHOMMITEMEVENTSDISCARDED, session_counter SESSION_PC_OMM_ITEM_EVENTS_DISCARDED),
      (COLUMN_PSYCHRESPONSEMSGSRECEIVED, session_counter SESSION_PC_RESPONSE_MSGS_RECEIVED),
      (COLUMN_PSYCHRESPONSEMSGSDISCARDED, session_counter SESSION_PC_RESPONSE_MSGS_DISCARDED),
      (COLUMN_PSYCHMMTLOGINRESPONSERECEIVED, session_counter SESSION_PC_MMT_LOGIN_RESPONSE_RECEIVED),
      (COLUMN_PSYCHMMTLOGINRESPONSEDISCARDED, session_counter SESSION_PC_MMT_LOGIN_RESPONSE_DISCARDED),
      (COLUMN_PSYCHMMTLOGINSUCCESSRECEIVED, session_counter SESSION_PC_MMT_LOGIN_SUCCESS_RECEIVED),
      (COLUMN_PSYCHMMTLOGINSUSPECTRECEIVED, session_counter SESSION_PC_MMT_LOGIN_SUSPECT_RECEIVED),
      (COLUMN_PSYCHMMTLOGINCLOSEDRECEIVED, session_counter SESSION_PC_MMT_LOGIN_CLOSED_RECEIVED)]"

definition login_columns :: "rfa_numbers \<Rightarrow> session columns" where
  "login_columns rn =
     [(COLUMN_PSYCHOMMCMDERRORS, session_counter SESSION_PC_OMM_CMD_ERRORS),
      (COLUMN_PSYCHMMTLOGINSVALIDATED, session_counter SESSION_PC_MMT_LOGIN_VALIDATED),
      (COLUMN_PSYCHMMTLOGINSMALFORMED, session_counter SESSION_PC_MMT_LOGIN_MALFORMED),
      (COLUMN_PSYCHMMTLOGINSSENT, session_counter SESSION_PC_MMT_LOGIN_SENT),
      (COLUMN_PSYCHMMTDIRECTORYSVALIDATED, session_counter SESSION_PC_MMT_DIRECTORY_VALIDATED),
      (COLUMN_PSYCHMMTDIRECTORYSMALFORMED, session_counter SESSION_PC_MMT_DIRECTORY_MALFORMED),
      (COLUMN_PSYCHMMTDIRECTORYSSENT, session_counter SESSION_PC_MMT_DIRECTORY_SENT),
      (COLUMN_PSYCHTOKENSGENERATED, session_counter SESSION_PC_TOKENS_GENERATED),
      (COLUMN_PSYCHMMTLOGINSTREAMSTATE, \<lambda>s. state_value (stream_number rn) (stream_state s)),
      (COLUMN_PSYCHMMTLOGINDATASTATE, \<lambda>s. state_value (data_number rn) (data_state s))]"

definition session_performance_columns :: "rfa_numbers \<Rightarrow> session columns" where
  "session_performance_columns rn = event_columns @ login_columns rn"

definition psychSessionPerformanceTable_handler ::
    "rfa_numbers \<Rightarrow> snmp_mode \<Rightarrow> session snmp_request list \<Rightarrow> reply list outcome" where
  "psychSessionPerformanceTable_handler rn = table_handler (session_performance_columns rn)"

section \<open>Registration\<close>

text \<open>What net-snmp returns: null or not for the three allocations, and the code of the registration.\<close>

record net_snmp =
  handler_registration :: "string \<Rightarrow> bool"
  table_info_alloc :: "string \<Rightarrow> bool"
  iterator_info_alloc :: "string \<Rightarrow> bool"
  register_table_iterator :: "string \<Rightarrow> int"

definition MIB_REGISTERED_OK :: int where "MIB_REGISTERED_OK = 0"

record table =
  table_name :: string
  table_oid :: "nat list"
  table_indexes :: "asn_type list"
  min_column :: nat
  max_column :: nat

definition psychPluginTable :: table where
  "psychPluginTable =
     \<lparr>table_name = ''psychPluginTable'', table_oid = [1,3,6,1,4,1,67,2,1,2],
      table_indexes = [Octet_Str, Unsigned32], min_column = COLUMN_PSYCHPLUGINWINDOWSREGISTRYKEY,
      max_column = COLUMN_PSYCHPLUGINVENDORNAME\<rparr>"

definition psychPluginPerformanceTable :: table where
  "psychPluginPerformanceTable =
     \<lparr>table_name = ''psychPluginPerformanceTable'', table_oid = [1,3,6,1,4,1,67,2,1,4],
      table_indexes = [Octet_Str, Unsigned32], min_column = COLUMN_PSYCHTCLQUERYRECEIVED,
      max_column = COLUMN_PSYCHPSYCHCLOCKDRIFT\<rparr>"

definition psychSessionTable :: table where
  "psychSessionTable =
     \<lparr>table_name = ''psychSessionTable'', table_oid = [1,3,6,1,4,1,67,2,1,5],
      table_indexes = [Octet_Str, Unsigned32, Unsigned32], min_column = COLUMN_PSYCHSESSIONRSSLSERVERS,
      max_column = COLUMN_PSYCHSESSIONPUBLISHERNAME\<rparr>"

definition psychSessionPerformanceTable :: table where
  "psychSessionPerformanceTable =
     \<lparr>table_name = ''psychSessionPerformanceTable'', table_oid = [1,3,6,1,4,1,67,2,1,6],
      table_indexes = [Octet_Str, Unsigned32, Unsigned32], min_column = COLUMN_PSYCHSESSIONLASTACTIVITY,
      max_column = COLUMN_PSYCHMMTLOGINDATASTATE\<rparr>"

text \<open>The state is the list of the tables that are registered.\<close>

definition initialize_table :: "net_snmp \<Rightarrow> table \<Rightarrow> (table list, int) method" where
  "initialize_table ns t =
     (if \<not> handler_registration ns (table_name t) \<or> \<not> table_info_alloc ns (table_name t) \<or>
         \<not> iterator_info_alloc ns (table_name t) then ret (- 1)
      else
        let rc = register_table_iterator ns (table_name t)
        in if rc = MIB_REGISTERED_OK then seq (modify (\<lambda>ts. ts @ [t])) (ret rc) else ret rc)"

definition initialize_table_psychPluginTable :: "net_snmp \<Rightarrow> (table list, int) method" where
  "initialize_table_psychPluginTable ns = initialize_table ns psychPluginTable"

definition initialize_table_psychPluginPerformanceTable :: "net_snmp \<Rightarrow> (table list, int) method" where
  "initialize_table_psychPluginPerformanceTable ns = initialize_table ns psychPluginPerformanceTable"

definition initialize_table_psychSessionTable :: "net_snmp \<Rightarrow> (table list, int) method" where
  "initialize_table_psychSessionTable ns = initialize_table ns psychSessionTable"

definition initialize_table_psychSessionPerformanceTable :: "net_snmp \<Rightarrow> (table list, int) method" where
  "initialize_table_psychSessionPerformanceTable ns = initialize_table ns psychSessionPerformanceTable"

fun all_registered :: "(table list, int) method list \<Rightarrow> (table list, bool) method" where
  "all_registered [] = ret True"
| "all_registered (m # ms) =
     bindm m (\<lambda>rc. if rc \<noteq> MIB_REGISTERED_OK then ret False else all_registered ms)"

definition init_psychMIB :: "net_snmp \<Rightarrow> (table list, bool) method" where
  "init_psychMIB ns =
     all_registered
       [initialize_table_psychPluginTable ns, initialize_table_psychPluginPerformanceTable ns,
        initialize_table_psychSessionTable ns, initialize_table_psychSessionPerformanceTable ns]"

end
