(* ===== verification/Snmp_Walks.thy ===== *)
theory Snmp_Walks
  imports Snmp_Tables
begin

text \<open>
  What the SNMP tables of \<open>Snmp_Tables\<close> show. \<open>table_iterator\<close> is the contract of the iterator hooks,
  from which the rows of a whole walk follow; the four tables are interpretations of it. Then the
  uniqueness of the row indexes over the histories of the instance list, the columns the handlers
  answer and the registration of the tables.
\<close>

section \<open>What a walk visits\<close>

subsection \<open>A context of its own\<close>

definition with_context :: "snmp_state \<Rightarrow> loop_context \<Rightarrow> snmp_state" where
  "with_context \<sigma> c = \<sigma>\<lparr>loop_contexts := loop_contexts \<sigma> @ [(fresh_context \<sigma>, c)]\<rparr>"

lemma foldr_max_le: "x \<in> set xs \<Longrightarrow> x \<le> foldr max xs (b :: nat)"
  by (induction xs) auto

lemma fresh_context_new: "(fresh_context \<sigma>, c) \<notin> set (loop_contexts \<sigma>)"
proof
  assume "(fresh_context \<sigma>, c) \<in> set (loop_contexts \<sigma>)"
  then have "fresh_context \<sigma> \<in> set (map fst (loop_contexts \<sigma>))" by force
  then show False using foldr_max_le[of _ _ 0] by (fastforce simp: fresh_context_def)
qed

lemma context_runs:
  "save_context c \<sigma> = (Done (fresh_context \<sigma>), with_context \<sigma> c)"
  "get_context (fresh_context \<sigma>) (with_context \<sigma> c) = (Done c, with_context \<sigma> c)"
  "put_context (fresh_context \<sigma>) d (with_context \<sigma> c) = (Done (), with_context \<sigma> d)"
  "free_loop_context (fresh_context \<sigma>) (with_context \<sigma> c) = (Done (), \<sigma>)"
proof -
  have new: "b \<noteq> fresh_context \<sigma>" if "(b, d) \<in> set (loop_contexts \<sigma>)" for b d
    using that fresh_context_new by metis
  have "map_of (loop_contexts \<sigma>) (fresh_context \<sigma>) = None"
    using new by (force simp: map_of_eq_None_iff)
  then show get: "get_context (fresh_context \<sigma>) (with_context \<sigma> c) = (Done c, with_context \<sigma> c)"
    by (simp add: get_context_def with_context_def method_simps map_add_def)
  show "save_context c \<sigma> = (Done (fresh_context \<sigma>), with_context \<sigma> c)"
    by (simp add: save_context_def with_context_def method_simps)
  have "map (\<lambda>(b, e). (b, if b = fresh_context \<sigma> then d else e)) (loop_contexts \<sigma>) = loop_contexts \<sigma>"
    by (rule map_idI) (use new in auto)
  then show "put_context (fresh_context \<sigma>) d (with_context \<sigma> c) = (Done (), with_context \<sigma> d)"
    by (simp add: put_context_def with_context_def method_simps)
  have "filter (\<lambda>(b, _). b \<noteq> fresh_context \<sigma>) (loop_contexts \<sigma>) = loop_contexts \<sigma>"
    by (rule filter_True) (use new in auto)
  then show "free_loop_context (fresh_context \<sigma>) (with_context \<sigma> c) = (Done (), \<sigma>)"
    by (simp add: free_loop_context_def seq_def bindm_def get method_simps)
       (simp add: with_context_def)
qed

lemma global_list_with_context [simp]: "global_list (with_context \<sigma> c) = global_list \<sigma>"
  by (simp add: with_context_def)

subsection \<open>The contract of the hooks\<close>

text \<open>
  What the hooks of one table promise in the states that are \<open>fine\<close>: \<open>rows\<close> are the rows of a walk and
  \<open>rest\<close> those still to come from a context. The first hook returns the first row and leaves a
  context for the rest, the next hook moves through the rest, and freeing removes the context.
\<close>

locale table_iterator =
  fixes get_first :: "(snmp_state, nat option \<times> 'd data_point) method"
    and get_next :: "nat \<Rightarrow> (snmp_state, 'd data_point) method"
    and free :: "nat \<Rightarrow> (snmp_state, unit) method"
    and fine :: "snmp_state \<Rightarrow> bool"
    and valid :: "snmp_state \<Rightarrow> loop_context \<Rightarrow> bool"
    and rest :: "snmp_state \<Rightarrow> loop_context \<Rightarrow> (asn list \<times> 'd) list"
    and rows :: "snmp_state \<Rightarrow> (asn list \<times> 'd) list"
  assumes first_none: "fine \<sigma> \<Longrightarrow> rows \<sigma> = [] \<Longrightarrow> get_first \<sigma> = (Done (None, None), \<sigma>)"
    and first_some: "fine \<sigma> \<Longrightarrow> rows \<sigma> = r # rs \<Longrightarrow>
      \<exists>c. valid \<sigma> c \<and> rest \<sigma> c = rs \<and>
        get_first \<sigma> = (Done (Some (fresh_context \<sigma>), Some r), with_context \<sigma> c)"
    and next_none: "fine \<sigma> \<Longrightarrow> valid \<sigma> c \<Longrightarrow> rest \<sigma> c = [] \<Longrightarrow>
      get_next (fresh_context \<sigma>) (with_context \<sigma> c) = (Done None, with_context \<sigma> c)"
    and next_some: "fine \<sigma> \<Longrightarrow> valid \<sigma> c \<Longrightarrow> rest \<sigma> c = r # rs \<Longrightarrow>
      \<exists>d. valid \<sigma> d \<and> rest \<sigma> d = rs \<and>
        get_next (fresh_context \<sigma>) (with_context \<sigma> c) = (Done (Some r), with_context \<sigma> d)"
    and free_removes: "free (fresh_context \<sigma>) (with_context \<sigma> c) = (Done (), \<sigma>)"
begin

lemma walk_rows_rest:
  assumes "fine \<sigma>" "valid \<sigma> c" "rest \<sigma> c = rs" "length rs < n"
  shows "\<exists>d. walk_rows n get_next (fresh_context \<sigma>) (Some r) (with_context \<sigma> c) =
    (Done (r # rs), with_context \<sigma> d)"
  using assms
proof (induction rs arbitrary: n c r)
  case Nil
  then obtain m where "n = Suc m" by (cases n) auto
  then show ?case using Nil next_none by (auto simp: bindm_def method_simps)
next
  case (Cons q qs)
  then obtain m where m: "n = Suc m" "length qs < m" by (cases n) auto
  obtain d where d: "valid \<sigma> d" "rest \<sigma> d = qs"
    "get_next (fresh_context \<sigma>) (with_context \<sigma> c) = (Done (Some q), with_context \<sigma> d)"
    using next_some[OF Cons.prems(1-3)] by blast
  show ?case using Cons.IH[OF Cons.prems(1) d(1,2) m(2), of q] d(3) m(1)
    by (auto simp: bindm_def method_simps)
qed

lemma walk:
  assumes "fine \<sigma>" "length (rows \<sigma>) \<le> n"
  shows "table_walk n get_first get_next free \<sigma> = (Done (rows \<sigma>), \<sigma>)"
proof (cases "rows \<sigma>")
  case Nil
  then show ?thesis
    using first_none[OF assms(1)] by (simp add: table_walk_def bindm_def method_simps)
next
  case (Cons r rs)
  obtain c where c: "valid \<sigma> c" "rest \<sigma> c = rs"
    "get_first \<sigma> = (Done (Some (fresh_context \<sigma>), Some r), with_context \<sigma> c)"
    using first_some[OF assms(1) Cons] by blast
  have "length rs < n" using assms(2) Cons by simp
  then obtain d where "walk_rows n get_next (fresh_context \<sigma>) (Some r) (with_context \<sigma> c) =
      (Done (r # rs), with_context \<sigma> d)"
    using walk_rows_rest[OF assms(1) c(1,2)] by blast
  then show ?thesis
    using c(3) Cons free_removes by (simp add: table_walk_def bindm_def seq_def method_simps)
qed

end

subsection \<open>Instances\<close>

definition plugin_row :: "plugin \<Rightarrow> asn list \<times> plugin" where
  "plugin_row p = (plugin_index p, p)"

definition plugin_rest :: "snmp_state \<Rightarrow> loop_context \<Rightarrow> (asn list \<times> plugin) list" where
  "plugin_rest \<sigma> c = map (plugin_row \<circ> snd) (drop (psych_it c) (global_list \<sigma>))"

definition plugin_rows :: "snmp_state \<Rightarrow> (asn list \<times> plugin) list" where
  "plugin_rows \<sigma> = map (plugin_row \<circ> snd) (global_list \<sigma>)"

lemma plugin_next_run:
  "psychPluginTable_get_next_data_point (fresh_context \<sigma>) (with_context \<sigma> c) =
     (if psych_it c = length (global_list \<sigma>) then (Done None, with_context \<sigma> c)
      else (Done (Some (plugin_row (snd (global_list \<sigma> ! psych_it c)))),
            with_context \<sigma> (c\<lparr>psych_it := Suc (psych_it c)\<rparr>)))"
  by (simp add: psychPluginTable_get_next_data_point_def bindm_def seq_def context_runs method_simps
      Let_def plugin_row_def)

lemma plugin_iterator:
  "table_iterator psychPluginTable_get_first_data_point psychPluginTable_get_next_data_point
     free_loop_context (\<lambda>_. True) (\<lambda>\<sigma> c. psych_it c \<le> length (global_list \<sigma>)) plugin_rest plugin_rows"
proof (unfold_locales, goal_cases)
  case (1 \<sigma>)
  then show ?case
    by (simp add: plugin_rows_def psychPluginTable_get_first_data_point_def method_simps)
next
  case (2 \<sigma> r rs)
  then have "psychPluginTable_get_first_data_point \<sigma> =
      (Done (Some (fresh_context \<sigma>), Some r), with_context \<sigma> \<lparr>psych_it = 1, session_it = 0\<rparr>)"
    by (cases "global_list \<sigma>") (auto simp: plugin_rows_def psychPluginTable_get_first_data_point_def
        bindm_def context_runs plugin_next_run method_simps)
  with 2 show ?case
    by (intro exI[of _ "\<lparr>psych_it = 1, session_it = 0\<rparr>"])
       (cases "global_list \<sigma>", auto simp: plugin_rest_def plugin_rows_def)
next
  case (3 \<sigma> c)
  then show ?case by (simp add: plugin_next_run plugin_rest_def)
next
  case (4 \<sigma> c r rs)
  then have k: "psych_it c < length (global_list \<sigma>)"
    by (cases "psych_it c = length (global_list \<sigma>)") (auto simp: plugin_rest_def)
  then have "drop (psych_it c) (global_list \<sigma>) =
      global_list \<sigma> ! psych_it c # drop (Suc (psych_it c)) (global_list \<sigma>)"
    by (simp add: Cons_nth_drop_Suc)
  with 4 k show ?case
    by (intro exI[of _ "c\<lparr>psych_it := Suc (psych_it c)\<rparr>"]) (auto simp: plugin_next_run plugin_rest_def)
next
  case (5 \<sigma> c)
  show ?case by (rule context_runs)
qed

interpretation plugin_table: table_iterator psychPluginTable_get_first_data_point
  psychPluginTable_get_next_data_point psychPluginTable_free_loop_context "\<lambda>_. True"
  "\<lambda>\<sigma> c. psych_it c \<le> length (global_list \<sigma>)" plugin_rest plugin_rows
  unfolding psychPluginTable_free_loop_context_def by (rule plugin_iterator)

interpretation plugin_performance_table: table_iterator psychPluginPerformanceTable_get_first_data_point
  psychPluginPerformanceTable_get_next_data_point psychPluginPerformanceTable_free_loop_context "\<lambda>_. True"
  "\<lambda>\<sigma> c. psych_it c \<le> length (global_list \<sigma>)" plugin_rest plugin_rows
  unfolding psychPluginPerformanceTable_free_loop_context_def
    psychPluginPerformanceTable_get_first_data_point_def psychPluginPerformanceTable_get_next_data_point_def
  by (rule plugin_iterator)

subsection \<open>Sessions\<close>

definition live_sessions :: "plugin \<Rightarrow> session list" where
  "live_sessions p = (case psych_provider p of None \<Rightarrow> [] | Some q \<Rightarrow> sessions q)"

lemma sessions_of_live: "live_sessions p \<noteq> [] \<Longrightarrow> sessions_of p = Done (live_sessions p)"
  by (auto simp: live_sessions_def sessions_of_def split: option.splits)

definition session_row :: "plugin \<Rightarrow> session \<Rightarrow> asn list \<times> session" where
  "session_row p s = (session_index p s, s)"

text \<open>The rows of a walk that stands at session \<open>j\<close> of the first of the instances.\<close>

fun rows_at :: "plugin list \<Rightarrow> nat \<Rightarrow> (asn list \<times> session) list" where
  "rows_at [] j = []"
| "rows_at (p # ps) j =
     map (session_row p) (drop j (live_sessions p)) @
     concat (map (\<lambda>p. map (session_row p) (tl (live_sessions p))) ps)"

definition all_live :: "snmp_state \<Rightarrow> bool" where
  "all_live \<sigma> \<longleftrightarrow> (\<forall>(a, p) \<in> set (global_list \<sigma>). live_sessions p \<noteq> [])"

definition session_rest :: "snmp_state \<Rightarrow> loop_context \<Rightarrow> (asn list \<times> session) list" where
  "session_rest \<sigma> c = rows_at (drop (psych_it c) (map snd (global_list \<sigma>))) (session_it c)"

definition session_rows :: "snmp_state \<Rightarrow> (asn list \<times> session) list" where
  "session_rows \<sigma> = rows_at (map snd (global_list \<sigma>)) 0"

definition session_valid :: "snmp_state \<Rightarrow> loop_context \<Rightarrow> bool" where
  "session_valid \<sigma> c \<longleftrightarrow>
     psych_it c = length (global_list \<sigma>) \<or>
     (psych_it c < length (global_list \<sigma>) \<and>
      session_it c < length (live_sessions (snd (global_list \<sigma> ! psych_it c))))"

text \<open>The move to the next session, with how many instances it leaves behind.\<close>

lemma hunt_moves:
  assumes "\<forall>q \<in> set (p # ps). live_sessions q \<noteq> []" "j < length (live_sessions p)"
  shows "\<exists>m i. hunt (p # ps) k j = Done (k + m, i) \<and> m \<le> length (p # ps) \<and>
    rows_at (drop m (p # ps)) i = rows_at (p # ps) (Suc j) \<and>
    (m < length (p # ps) \<longrightarrow> i < length (live_sessions ((p # ps) ! m)))"
  using assms
proof (induction ps arbitrary: p k j)
  case Nil
  show ?case
  proof (cases "Suc j = length (live_sessions p)")
    case True
    then show ?thesis using Nil sessions_of_live[of p]
      by (intro exI[of _ 1] exI[of _ "Suc j"]) simp
  next
    case False
    then show ?thesis using Nil sessions_of_live[of p]
      by (intro exI[of _ 0] exI[of _ "Suc j"]) simp
  qed
next
  case (Cons q qs)
  show ?case
  proof (cases "Suc j = length (live_sessions p)")
    case True
    have "0 < length (live_sessions q)" using Cons.prems(1) by simp
    then obtain m i where mi: "hunt (q # qs) (Suc k) 0 = Done (Suc k + m, i)" "m \<le> length (q # qs)"
      "rows_at (drop m (q # qs)) i = rows_at (q # qs) (Suc 0)"
      "m < length (q # qs) \<longrightarrow> i < length (live_sessions ((q # qs) ! m))"
      using Cons.IH[of q 0 "Suc k"] Cons.prems(1) by auto
    have "hunt (p # q # qs) k j = hunt (q # qs) (Suc k) 0"
      using True Cons.prems sessions_of_live[of p] by simp
    moreover have "rows_at (p # q # qs) (Suc j) = rows_at (q # qs) (Suc 0)"
      using True by (simp add: drop_Suc)
    ultimately show ?thesis using mi by (intro exI[of _ "Suc m"] exI[of _ i]) simp
  next
    case False
    then show ?thesis using Cons.prems sessions_of_live[of p]
      by (intro exI[of _ 0] exI[of _ "Suc j"]) simp
  qed
qed

lemma session_next_none:
  assumes "session_valid \<sigma> c" "all_live \<sigma>" "session_rest \<sigma> c = []"
  shows "psychSessionTable_get_next_data_point (fresh_context \<sigma>) (with_context \<sigma> c) =
    (Done None, with_context \<sigma> c)"
proof -
  have "psych_it c = length (global_list \<sigma>)"
  proof (rule ccontr)
    assume "psych_it c \<noteq> length (global_list \<sigma>)"
    then have k: "psych_it c < length (map snd (global_list \<sigma>))"
      and j: "session_it c < length (live_sessions (map snd (global_list \<sigma>) ! psych_it c))"
      using assms(1) by (auto simp: session_valid_def)
    then show False
      using assms(3) by (simp add: session_rest_def flip: Cons_nth_drop_Suc[OF k])
  qed
  then show ?thesis
    by (simp add: psychSessionTable_get_next_data_point_def bindm_def context_runs method_simps)
qed

lemma session_next_some:
  assumes valid: "session_valid \<sigma> c" and live: "all_live \<sigma>" and rest: "session_rest \<sigma> c = r # rs"
  shows "\<exists>d. session_valid \<sigma> d \<and> session_rest \<sigma> d = rs \<and>
    psychSessionTable_get_next_data_point (fresh_context \<sigma>) (with_context \<sigma> c) =
      (Done (Some r), with_context \<sigma> d)"
proof -
  let ?L = "map snd (global_list \<sigma>)"
  let ?k = "psych_it c" and ?j = "session_it c"
  let ?p = "?L ! ?k"
  have k: "?k < length ?L"
    using valid rest by (auto simp: session_valid_def session_rest_def)
  have j: "?j < length (live_sessions ?p)"
    using valid k by (auto simp: session_valid_def)
  have L: "drop ?k ?L = ?p # drop (Suc ?k) ?L" by (rule Cons_nth_drop_Suc[OF k, symmetric])
  have all: "\<forall>q \<in> set ?L. live_sessions q \<noteq> []"
    using live by (auto simp: all_live_def)
  then have "\<forall>q \<in> set (?p # drop (Suc ?k) ?L). live_sessions q \<noteq> []"
    unfolding L[symmetric] by (blast dest: in_set_dropD)
  from hunt_moves[OF this j, of ?k] obtain m i where mi:
    "hunt (drop ?k ?L) ?k ?j = Done (?k + m, i)" "m \<le> length (drop ?k ?L)"
    "rows_at (drop m (drop ?k ?L)) i = rows_at (drop ?k ?L) (Suc ?j)"
    "m < length (drop ?k ?L) \<Longrightarrow> i < length (live_sessions (drop ?k ?L ! m))"
    unfolding L by blast
  let ?d = "\<lparr>psych_it = ?k + m, session_it = i\<rparr>"
  have rows: "rows_at (drop ?k ?L) ?j = session_row ?p (live_sessions ?p ! ?j) # rows_at (drop ?k ?L) (Suc ?j)"
    using j unfolding L by (simp flip: Cons_nth_drop_Suc)
  then have r: "r = session_row ?p (live_sessions ?p ! ?j)" "rs = rows_at (drop ?k ?L) (Suc ?j)"
    using rest by (simp_all add: session_rest_def)
  have "session_valid \<sigma> ?d"
    using mi(2,4) k by (cases "?k + m = length ?L") (auto simp: session_valid_def)
  moreover have "session_rest \<sigma> ?d = rs"
    using mi(3) r(2) by (simp add: session_rest_def add.commute)
  moreover have "sessions_of ?p = Done (live_sessions ?p)"
    using sessions_of_live j by (metis length_greater_0_conv not_less_zero gr_zeroI)
  then have "psychSessionTable_get_next_data_point (fresh_context \<sigma>) (with_context \<sigma> c) =
      (Done (Some r), with_context \<sigma> ?d)"
    using k j mi(1) r(1)
    by (simp add: psychSessionTable_get_next_data_point_def bindm_def seq_def context_runs method_simps
        Let_def session_row_def)
  ultimately show ?thesis by blast
qed

lemma first_session_live: "live_sessions p \<noteq> [] \<Longrightarrow> first_session (p # ps) = Done 0"
  by (simp add: sessions_of_live)

lemma session_first:
  assumes "all_live \<sigma>" "session_rows \<sigma> = r # rs"
  shows "\<exists>d. session_valid \<sigma> d \<and> session_rest \<sigma> d = rs \<and>
    psychSessionTable_get_first_data_point \<sigma> = (Done (Some (fresh_context \<sigma>), Some r), with_context \<sigma> d)"
proof -
  let ?c = "\<lparr>psych_it = 0, session_it = 0\<rparr>"
  obtain a p ps where L: "global_list \<sigma> = (a, p) # ps"
    using assms(2) by (cases "global_list \<sigma>") (auto simp: session_rows_def)
  have p: "live_sessions p \<noteq> []" using assms(1) by (simp add: all_live_def L)
  have "session_valid \<sigma> ?c" "session_rest \<sigma> ?c = r # rs"
    using p assms(2) by (simp_all add: session_valid_def session_rest_def session_rows_def L)
  from session_next_some[OF this(1) assms(1) this(2)] obtain d where
    "session_valid \<sigma> d" "session_rest \<sigma> d = rs"
    "psychSessionTable_get_next_data_point (fresh_context \<sigma>) (with_context \<sigma> ?c) =
      (Done (Some r), with_context \<sigma> d)" by blast
  moreover from this have "psychSessionTable_get_first_data_point \<sigma> =
      (Done (Some (fresh_context \<sigma>), Some r), with_context \<sigma> d)"
    using L p by (simp add: psychSessionTable_get_first_data_point_def bindm_def method_simps
        sessions_of_live context_runs)
  ultimately show ?thesis by blast
qed

lemma session_iterator:
  "table_iterator psychSessionTable_get_first_data_point psychSessionTable_get_next_data_point
     free_loop_context all_live session_valid session_rest session_rows"
proof (unfold_locales, goal_cases)
  case (1 \<sigma>)
  then have "global_list \<sigma> = []"
    by (cases "global_list \<sigma>") (auto simp: session_rows_def all_live_def)
  then show ?case by (simp add: psychSessionTable_get_first_data_point_def method_simps)
next
  case (2 \<sigma> r rs)
  then show ?case by (rule session_first)
next
  case (3 \<sigma> c)
  then show ?case using session_next_none by blast
next
  case (4 \<sigma> c r rs)
  then show ?case using session_next_some by blast
next
  case (5 \<sigma> c)
  show ?case by (rule context_runs)
qed

interpretation session_table: table_iterator psychSessionTable_get_first_data_point
  psychSessionTable_get_next_data_point psychSessionTable_free_loop_context all_live session_valid
  session_rest session_rows
  unfolding psychSessionTable_free_loop_context_def by (rule session_iterator)

interpretation session_performance_table: table_iterator
  psychSessionPerformanceTable_get_first_data_point psychSessionPerformanceTable_get_next_data_point
  psychSessionPerformanceTable_free_loop_context all_live session_valid session_rest session_rows
  unfolding psychSessionPerformanceTable_free_loop_context_def
    psychSessionPerformanceTable_get_first_data_point_def psychSessionPerformanceTable_get_next_data_point_def
  by (rule session_iterator)

definition plugin_walk :: "nat \<Rightarrow> (snmp_state, (asn list \<times> plugin) list) method" where
  "plugin_walk n = table_walk n psychPluginTable_get_first_data_point
     psychPluginTable_get_next_data_point psychPluginTable_free_loop_context"

definition session_walk :: "nat \<Rightarrow> (snmp_state, (asn list \<times> session) list) method" where
  "session_walk n = table_walk n psychSessionTable_get_first_data_point
     psychSessionTable_get_next_data_point psychSessionTable_free_loop_context"

text \<open>
  C22. A walk of the table of instances: it comes back with one row per instance, in the order of
  their construction, each with its index, and it leaves no context and no lock behind.
\<close>
theorem plugin_walk_visits:
  assumes "length (global_list \<sigma>) \<le> n"
  shows "plugin_walk n \<sigma> =
    (Done (map (\<lambda>(a, p). ([ASN_OCTET_STR (plugin_id p), ASN_UNSIGNED (plugin_instance p)], p))
       (global_list \<sigma>)), \<sigma>)"
  using plugin_table.walk[of \<sigma> n] assms
  by (simp add: plugin_walk_def plugin_rows_def plugin_row_def plugin_index_def comp_def case_prod_beta)

text \<open>
  C21. A walk of the table of sessions, when every instance has a session: it visits every session of
  the oldest instance, and of every other instance all sessions but the first, which the hook skips
  when it moves on to the instance. It leaves no context behind.
\<close>
theorem session_walk_skips:
  assumes "global_list \<sigma> = (a, p) # ps" "\<forall>(b, q) \<in> set (global_list \<sigma>). live_sessions q \<noteq> []"
    and "length (live_sessions p) + sum_list (map (length \<circ> live_sessions \<circ> snd) ps) \<le> n"
  shows "session_walk n \<sigma> =
    (Done (map (session_row p) (live_sessions p) @
       concat (map (\<lambda>(b, q). map (session_row q) (tl (live_sessions q))) ps)), \<sigma>)"
proof -
  have len: "length (concat (map (\<lambda>(b, q). map (session_row q) (tl (live_sessions q))) ps)) \<le>
      sum_list (map (length \<circ> live_sessions \<circ> snd) ps)"
    by (induction ps) auto
  have rows: "session_rows \<sigma> = map (session_row p) (live_sessions p) @
      concat (map (\<lambda>(b, q). map (session_row q) (tl (live_sessions q))) ps)"
    by (simp add: session_rows_def assms(1) comp_def case_prod_unfold)
  show ?thesis
    unfolding session_walk_def rows[symmetric]
    by (rule session_table.walk) (use assms(2,3) len in \<open>auto simp: all_live_def rows\<close>)
qed

text \<open>Two instances, the first with one session and the second with two.\<close>

definition demo_plugin :: "32 word \<Rightarrow> nat \<Rightarrow> plugin" where
  "demo_plugin number n =
     plugin_init (psych_t 0 True\<lparr>psych_provider := Some (provider_init config_init
         \<lparr>sessions := map (\<lambda>i. session_init i session_config_init 0) [0..<n]\<rparr>)\<rparr>) 0 number"

definition demo_instances :: snmp_state where
  "demo_instances =
     \<lparr>global_list = [(16, demo_plugin 0 1), (32, demo_plugin 1 2)], instance_count = 2, loop_contexts = []\<rparr>"

lemma live_sessions_demo:
  "live_sessions (demo_plugin number n) = map (\<lambda>i. session_init i session_config_init 0) [0..<n]"
  by (simp add: live_sessions_def demo_plugin_def plugin_init_def psych.defs psych_t_def)

lemma plugin_walk_visits_witness:
  "fst (plugin_walk 2 demo_instances) =
     Done [([ASN_OCTET_STR [], ASN_UNSIGNED 0], demo_plugin 0 1),
           ([ASN_OCTET_STR [], ASN_UNSIGNED 1], demo_plugin 1 2)]"
proof -
  have "plugin_id (demo_plugin i n) = []" "plugin_instance (demo_plugin i n) = i" for i n
    by (simp_all add: demo_plugin_def plugin_init_def psych.defs plugin.defs)
  then show ?thesis
    using plugin_walk_visits[of demo_instances 2] by (simp add: demo_instances_def)
qed

lemma session_walk_skips_witness:
  "fst (session_walk 3 demo_instances) =
     Done [session_row (demo_plugin 0 1) (session_init 0 session_config_init 0),
           session_row (demo_plugin 1 2) (session_init 1 session_config_init 0)]"
  using session_walk_skips[of demo_instances 16 "demo_plugin 0 1" "[(32, demo_plugin 1 2)]" 3]
  by (simp add: demo_instances_def live_sessions_demo upt_rec)

section \<open>Unique indexes\<close>

text \<open>
  The histories of the list: instances are constructed at addresses no live instance has, destroyed,
  and change their own state, which keeps the members of the extension but the times.
\<close>

definition change_instance :: "nat \<Rightarrow> (plugin \<Rightarrow> plugin) \<Rightarrow> (snmp_state, unit) method" where
  "change_instance address f =
     modify (\<lambda>\<sigma>. \<sigma>\<lparr>global_list := map (\<lambda>(a, p). (a, if a = address then f p else p)) (global_list \<sigma>)\<rparr>)"

inductive history :: "nat \<Rightarrow> snmp_state \<Rightarrow> bool" where
  start: "history 0 \<lparr>global_list = [], instance_count = 0, loop_contexts = []\<rparr>"
| constructed: "history n \<sigma> \<Longrightarrow> a \<notin> fst ` set (global_list \<sigma>) \<Longrightarrow>
    history (Suc n) (snd (construct a now p \<sigma>))"
| destroyed: "history n \<sigma> \<Longrightarrow> history n (snd (destruct a \<sigma>))"
| changed: "history n \<sigma> \<Longrightarrow> (\<And>q. plugin_instance (f q) = plugin_instance q) \<Longrightarrow>
    history n (snd (change_instance a f \<sigma>))"

text \<open>The instance numbers are numbers of constructions, in that order.\<close>

definition numbered :: "nat \<Rightarrow> snmp_state \<Rightarrow> bool" where
  "numbered n \<sigma> \<longleftrightarrow> instance_count \<sigma> = word_of_nat n \<and>
     (\<exists>ks. map (plugin_instance \<circ> snd) (global_list \<sigma>) = map word_of_nat ks \<and>
        sorted_wrt (<) ks \<and> (\<forall>k \<in> set ks. k < n))"

lemma filter_numbers:
  assumes "map (plugin_instance \<circ> snd) L = map word_of_nat ks" "sorted_wrt (<) ks" "\<forall>k \<in> set ks. k < n"
  shows "\<exists>ks. map (plugin_instance \<circ> snd) (filter P L) = map word_of_nat ks \<and>
    sorted_wrt (<) ks \<and> (\<forall>k \<in> set ks. k < n)"
proof -
  let ?ks = "map snd (filter (P \<circ> fst) (zip L ks))"
  have len: "length L = length ks" using assms(1) by (metis length_map)
  have "map (plugin_instance \<circ> snd) (filter P L) = map word_of_nat ?ks"
    using len assms(1) by (induction L ks rule: list_induct2) auto
  moreover have "sorted_wrt (<) ?ks \<and> (\<forall>k \<in> set ?ks. k \<in> set ks)"
    using len assms(2) by (induction L ks rule: list_induct2) auto
  ultimately show ?thesis using assms(3) by blast
qed

lemma history_numbered: "history n \<sigma> \<Longrightarrow> numbered n \<sigma>"
proof (induction rule: history.induct)
  case start
  then show ?case by (simp add: numbered_def)
next
  case (constructed n \<sigma> a now p)
  then obtain ks where "instance_count \<sigma> = word_of_nat n"
    "map (plugin_instance \<circ> snd) (global_list \<sigma>) = map word_of_nat ks" "sorted_wrt (<) ks"
    "\<forall>k \<in> set ks. k < n" by (auto simp: numbered_def)
  moreover have "plugin_instance (plugin_init p now i) = i" for i
    by (simp add: plugin_init_def psych.defs plugin.defs)
  ultimately show ?case
    by (auto simp: numbered_def construct_def method_simps sorted_wrt_append less_Suc_eq
        intro!: exI[of _ "ks @ [n]"])
next
  case (destroyed n \<sigma> a)
  then show ?case
    using filter_numbers by (auto simp: numbered_def destruct_def method_simps)
next
  case (changed n \<sigma> f a)
  then have "map (plugin_instance \<circ> snd) (map (\<lambda>(b, p). (b, if b = a then f p else p)) (global_list \<sigma>)) =
      map (plugin_instance \<circ> snd) (global_list \<sigma>)" by auto
  with changed.IH show ?case
    by (simp add: numbered_def change_instance_def method_simps del: map_map)
qed

lemma numbered_distinct:
  assumes "numbered n \<sigma>" "n \<le> 2 ^ 32"
  shows "distinct (map (plugin_instance \<circ> snd) (global_list \<sigma>))"
proof -
  obtain ks where ks: "map (plugin_instance \<circ> snd) (global_list \<sigma>) = map word_of_nat ks"
    "sorted_wrt (<) ks" "\<forall>k \<in> set ks. k < n" using assms(1) by (auto simp: numbered_def)
  have "inj_on (word_of_nat :: nat \<Rightarrow> 32 word) (set ks)"
  proof (rule inj_onI)
    fix x y assume "x \<in> set ks" "y \<in> set ks" and e: "(word_of_nat x :: 32 word) = word_of_nat y"
    then have "x < 2 ^ 32" "y < 2 ^ 32" using ks(3) assms(2) by force+
    with e show "x = y" by (simp add: word_of_nat_eq_iff take_bit_nat_eq_self)
  qed
  then show ?thesis
    unfolding ks(1) using ks(2) by (simp add: distinct_map strict_sorted_iff)
qed

lemma distinct_map_weaken:
  "distinct (map g xs) \<Longrightarrow> (\<And>x y. f x = f y \<Longrightarrow> g x = g y) \<Longrightarrow> distinct (map f xs)"
  unfolding distinct_map inj_on_def by blast

text \<open>
  C23. No two rows of the table of instances have the same index, for the first \<open>2\<^sup>32\<close> constructions:
  the counter wraps around after that.
\<close>
theorem row_indexes_unique:
  assumes "history n \<sigma>" "n \<le> 2 ^ 32" "plugin_walk m \<sigma> = (Done rs, \<tau>)" "length (global_list \<sigma>) \<le> m"
  shows "distinct (map fst rs)"
proof -
  have "rs = map (plugin_row \<circ> snd) (global_list \<sigma>)"
    using plugin_table.walk[of \<sigma> m] assms(3,4) by (auto simp: plugin_walk_def plugin_rows_def)
  moreover have "distinct (map (plugin_index \<circ> snd) (global_list \<sigma>))"
    by (rule distinct_map_weaken[OF numbered_distinct[OF history_numbered[OF assms(1)] assms(2)]])
       (simp add: plugin_index_def)
  ultimately show ?thesis by (simp add: plugin_row_def comp_def)
qed

lemma row_indexes_unique_witness:
  "distinct (map fst
     [(plugin_index (plugin_init (psych_t 0 True) 5 0), plugin_init (psych_t 0 True) 5 0),
      (plugin_index (plugin_init (psych_t 0 True) 7 1), plugin_init (psych_t 0 True) 7 1)])"
proof -
  let ?\<tau> = "snd (construct 32 7 (psych_t 0 True) (snd (construct 16 5 (psych_t 0 True)
      \<lparr>global_list = [], instance_count = 0, loop_contexts = []\<rparr>)))"
  have \<tau>: "global_list ?\<tau> = [(16, plugin_init (psych_t 0 True) 5 0), (32, plugin_init (psych_t 0 True) 7 1)]"
    by (simp add: construct_def method_simps)
  have "history 2 ?\<tau>"
    using history.constructed[OF history.constructed[OF history.start]]
    by (simp add: construct_def method_simps numeral_2_eq_2)
  moreover have "plugin_walk 2 ?\<tau> = (Done (plugin_rows ?\<tau>), ?\<tau>)"
    using plugin_table.walk[of ?\<tau> 2] by (simp add: plugin_walk_def plugin_rows_def \<tau>)
  moreover have "plugin_rows ?\<tau> =
     [(plugin_index (plugin_init (psych_t 0 True) 5 0), plugin_init (psych_t 0 True) 5 0),
      (plugin_index (plugin_init (psych_t 0 True) 7 1), plugin_init (psych_t 0 True) 7 1)]"
    by (simp add: plugin_rows_def plugin_row_def \<tau>)
  ultimately show ?thesis
    using row_indexes_unique[of 2 ?\<tau> 2 _ ?\<tau>] \<tau> by simp
qed

section \<open>Columns and registration\<close>

lemma unknown_column:
  "table_handler switch MODE_GET [\<lparr>iterator_context = Some d, colnum = Some c\<rparr>] =
     Done [Request_Error SNMP_NOSUCHOBJECT] \<longleftrightarrow> c \<notin> fst ` set switch"
proof (cases "map_of switch c")
  case None
  then have "c \<notin> fst ` set switch" by (simp add: map_of_eq_None_iff)
  with None show ?thesis by (simp add: table_handler_def answer_request_def)
next
  case (Some f)
  then have "c \<in> fst ` set switch" by (metis map_of_eq_None_iff option.distinct(1))
  with Some show ?thesis
    by (cases "f d") (simp_all add: table_handler_def answer_request_def)
qed

lemma registered_range:
  "fst ` set plugin_columns = {min_column psychPluginTable .. max_column psychPluginTable}"
  "fst ` set performance_columns =
     {min_column psychPluginPerformanceTable .. max_column psychPluginPerformanceTable}"
  "fst ` set session_columns = {min_column psychSessionTable .. max_column psychSessionTable}"
  "fst ` set (session_performance_columns rn) =
     {min_column psychSessionPerformanceTable .. max_column psychSessionPerformanceTable}"
  unfolding set_upt[symmetric] atLeastLessThanSuc_atLeastAtMost[symmetric]
  by (auto simp: plugin_columns_def performance_columns_def activity_columns_def http_columns_def session_columns_def
      session_performance_columns_def event_columns_def login_columns_def psychPluginTable_def psychPluginPerformanceTable_def
      psychSessionTable_def psychSessionPerformanceTable_def upt_rec)

text \<open>
  The columns of the registration are those the handlers answer: a request for a column of a row is
  refused as no such object exactly when the column is outside the registered range of its table.
\<close>
theorem answered_columns:
  "(psychPluginTable_handler MODE_GET [\<lparr>iterator_context = Some p, colnum = Some c\<rparr>] =
      Done [Request_Error SNMP_NOSUCHOBJECT] \<longleftrightarrow>
    c \<notin> {min_column psychPluginTable .. max_column psychPluginTable}) \<and>
   (psychPluginPerformanceTable_handler MODE_GET [\<lparr>iterator_context = Some p, colnum = Some c\<rparr>] =
      Done [Request_Error SNMP_NOSUCHOBJECT] \<longleftrightarrow>
    c \<notin> {min_column psychPluginPerformanceTable .. max_column psychPluginPerformanceTable}) \<and>
   (psychSessionTable_handler MODE_GET [\<lparr>iterator_context = Some s, colnum = Some c\<rparr>] =
      Done [Request_Error SNMP_NOSUCHOBJECT] \<longleftrightarrow>
    c \<notin> {min_column psychSessionTable .. max_column psychSessionTable}) \<and>
   (psychSessionPerformanceTable_handler rn MODE_GET [\<lparr>iterator_context = Some s, colnum = Some c\<rparr>] =
      Done [Request_Error SNMP_NOSUCHOBJECT] \<longleftrightarrow>
    c \<notin> {min_column psychSessionPerformanceTable .. max_column psychSessionPerformanceTable})"
  by (simp add: psychPluginTable_handler_def psychPluginPerformanceTable_handler_def
      psychSessionTable_handler_def psychSessionPerformanceTable_handler_def unknown_column registered_range)

text \<open>
  Asking for the servers of a session reads freed memory in every validated configuration: the text
  is built in a temporary string, and a valid session has a server.
\<close>
theorem rssl_servers_freed:
  assumes "Validate cfg" "sess_config s \<in> set (cfg_sessions cfg)"
  shows "psychSessionTable_handler MODE_GET
      [\<lparr>iterator_context = Some s, colnum = Some COLUMN_PSYCHSESSIONRSSLSERVERS\<rparr>] =
    Raise Undefined_Behaviour"
proof -
  have "rssl_servers (sess_config s) \<noteq> []"
    using assms by (auto simp: Validate_valid valid_config_def valid_session_def)
  then show ?thesis
    by (simp add: psychSessionTable_handler_def table_handler_def answer_request_def session_columns_def
        rssl_servers_value_def)
qed

definition demo_valid_config :: config where
  "demo_valid_config = config_init
     \<lparr>service_name := ''V'', monitor_name := ''M'', event_queue_name := ''Q'', vendor_name := ''R'',
      maximum_data_size := ''9'', maximum_response_size := ''9'',
      cfg_sessions := [session_config_init\<lparr>session_name := ''S'', connection_name := ''C'',
        publisher_name := ''P'', rssl_servers := [''h1''], application_id := ''1'',
        cfg_instance_id := ''1'', user_name := ''u''\<rparr>]\<rparr>"

lemma rssl_servers_freed_witness:
  "psychSessionTable_handler MODE_GET
     [\<lparr>iterator_context = Some (session_init 0 (hd (cfg_sessions demo_valid_config)) 0),
       colnum = Some COLUMN_PSYCHSESSIONRSSLSERVERS\<rparr>] = Raise Undefined_Behaviour"
proof (rule rssl_servers_freed)
  show "Validate demo_valid_config" by code_simp
  show "sess_config (session_init 0 (hd (cfg_sessions demo_valid_config)) 0) \<in>
      set (cfg_sessions demo_valid_config)"
    by (simp add: session_init_def demo_valid_config_def)
qed

text \<open>The four tables are registered in order, up to the first that net-snmp refuses.\<close>

definition table_ok :: "net_snmp \<Rightarrow> table \<Rightarrow> bool" where
  "table_ok ns t \<longleftrightarrow> handler_registration ns (table_name t) \<and> table_info_alloc ns (table_name t) \<and>
     iterator_info_alloc ns (table_name t) \<and> register_table_iterator ns (table_name t) = MIB_REGISTERED_OK"

lemma initialize_table_run:
  "initialize_table ns t ts =
     (if table_ok ns t then (Done MIB_REGISTERED_OK, ts @ [t])
      else (Done (if handler_registration ns (table_name t) \<and> table_info_alloc ns (table_name t) \<and>
              iterator_info_alloc ns (table_name t)
            then register_table_iterator ns (table_name t) else - 1), ts))"
  by (auto simp: initialize_table_def table_ok_def method_simps Let_def)

lemma all_registered_tables:
  "all_registered (map (initialize_table ns) tables) ts =
     (Done (list_all (table_ok ns) tables), ts @ takeWhile (table_ok ns) tables)"
  by (induction tables arbitrary: ts)
     (auto simp: method_simps bindm_def initialize_table_run MIB_REGISTERED_OK_def table_ok_def)

lemma init_psychMIB_tables:
  "init_psychMIB ns [] =
     (Done (list_all (table_ok ns)
        [psychPluginTable, psychPluginPerformanceTable, psychSessionTable, psychSessionPerformanceTable]),
      takeWhile (table_ok ns)
        [psychPluginTable, psychPluginPerformanceTable, psychSessionTable, psychSessionPerformanceTable])"
  using all_registered_tables[of ns
      "[psychPluginTable, psychPluginPerformanceTable, psychSessionTable, psychSessionPerformanceTable]" "[]"]
  by (simp only: init_psychMIB_def list.map initialize_table_psychPluginTable_def
      initialize_table_psychPluginPerformanceTable_def initialize_table_psychSessionTable_def
      initialize_table_psychSessionPerformanceTable_def append_Nil)

end
