(* ===== verification/Snmp_Agent.thy ===== *)
theory Snmp_Agent
  imports Snmp_Walks
begin

text \<open>
  The SNMP agent of \<open>src/src/snmp_agent.cc\<close>: the first agent of the process sets net-snmp up and starts the
  message pump in a thread, and the last one to go stops it. The calls into net-snmp are a trace. A
  pump thread is the address of the agent whose pump it runs.
\<close>

section \<open>The message pump\<close>

text \<open>
  One turn of the pump: whether net-snmp asks to wait without a time-out, the number \<open>select\<close> returns, and
  whether the notification socket is in the set it leaves.
\<close>

record pump_turn =
  pump_block :: bool
  pump_fds :: int
  exit_signaled :: bool

datatype pump_call = Snmp_Select bool | Snmp_Read | Snmp_Timeout

definition pump_call :: "pump_call \<Rightarrow> (pump_call list, unit) method" where
  "pump_call c = modify (\<lambda>cs. cs @ [c])"

text \<open>The pump over the turns that happen; behind the last one it waits for ever.\<close>

fun event_pump_Run :: "pump_turn list \<Rightarrow> (pump_call list, unit) method" where
  "event_pump_Run [] = Pair Diverged"
| "event_pump_Run (turn # turns) =
     seq (pump_call (Snmp_Select (pump_block turn)))
       (if pump_fds turn \<noteq> 0 then
          if exit_signaled turn then ret ()
          else seq (pump_call Snmp_Read) (event_pump_Run turns)
        else seq (pump_call Snmp_Timeout) (event_pump_Run turns))"

definition pump_stops :: "pump_turn \<Rightarrow> bool" where
  "pump_stops turn \<longleftrightarrow> pump_fds turn \<noteq> 0 \<and> exit_signaled turn"

definition turn_calls :: "pump_turn \<Rightarrow> pump_call list" where
  "turn_calls turn = [Snmp_Select (pump_block turn), if pump_fds turn \<noteq> 0 then Snmp_Read else Snmp_Timeout]"

text \<open>
  The pump serves every turn before the first one with the exit signal, each once and in order, and comes
  back exactly if there is one.
\<close>

lemma event_pump_serves:
  "event_pump_Run turns cs =
     (if \<exists>turn \<in> set turns. pump_stops turn
      then (Done (), cs @ concat (map turn_calls (takeWhile (Not \<circ> pump_stops) turns)) @
        [Snmp_Select (pump_block (hd (dropWhile (Not \<circ> pump_stops) turns)))])
      else (Diverged, cs @ concat (map turn_calls turns)))"
  by (induction turns arbitrary: cs) (auto simp: method_simps pump_call_def pump_stops_def turn_calls_def)

section \<open>Agents\<close>

datatype snmp_call =
    Set_Agentx_Socket string
  | Set_Agent_Role
  | Enable_Filelog string
  | Init_Agent
  | Init_Snmp
  | Init_Master_Agent
  | Snmp_Shutdown

text \<open>
  The answers of net-snmp, and whether the read end and the write end of the notification channel are
  sockets: the assertions that check them do nothing in a release build.
\<close>

record agent_env =
  tables_env :: net_snmp
  init_agent :: int
  init_master_agent :: int
  notification_channel :: "bool \<times> bool"

text \<open>An agent: the two ends of its channel, and whether it owns a pump and a joinable thread.\<close>

record agent =
  channel :: "bool \<times> bool"
  has_event_pump :: bool
  has_thread :: bool

record agent_state =
  agent_ref_count :: "32 word"
  agents :: "(nat \<times> agent) list"
  registered_tables :: "table list"
  snmp_calls :: "snmp_call list"
  pump_threads :: "nat list"

type_synonym 'a agent_method = "(agent_state, 'a) method"

definition snmp_call :: "snmp_call \<Rightarrow> unit agent_method" where
  "snmp_call c = modify (\<lambda>\<sigma>. \<sigma>\<lparr>snmp_calls := snmp_calls \<sigma> @ [c]\<rparr>)"

definition get_agent :: "nat \<Rightarrow> agent_state \<Rightarrow> agent" where
  "get_agent a \<sigma> = the (map_of (agents \<sigma>) a)"

definition on_agent :: "nat \<Rightarrow> (agent \<Rightarrow> agent) \<Rightarrow> unit agent_method" where
  "on_agent a f = modify (\<lambda>\<sigma>. \<sigma>\<lparr>agents := map (\<lambda>(b, x). (b, if b = a then f x else x)) (agents \<sigma>)\<rparr>)"

text \<open>\<open>InterlockedExchangeAdd (&ref_count_, d)\<close> returns the old count.\<close>

definition exchange_add :: "32 word \<Rightarrow> (32 word) agent_method" where
  "exchange_add d =
     bindm (gets agent_ref_count) (\<lambda>old. seq (modify (\<lambda>\<sigma>. \<sigma>\<lparr>agent_ref_count := old + d\<rparr>)) (ret old))"

definition configure_subagent :: "config \<Rightarrow> unit agent_method" where
  "configure_subagent cfg =
     (if is_agentx_subagent cfg then
        seq (if agentx_socket cfg \<noteq> [] then snmp_call (Set_Agentx_Socket (agentx_socket cfg)) else ret ())
            (snmp_call Set_Agent_Role)
      else ret ())"

definition register_tables :: "net_snmp \<Rightarrow> bool agent_method" where
  "register_tables ns = (\<lambda>\<sigma>.
     case init_psychMIB ns (registered_tables \<sigma>) of (r, ts) \<Rightarrow> (r, \<sigma>\<lparr>registered_tables := ts\<rparr>))"

definition spawn_pump :: "agent_env \<Rightarrow> nat \<Rightarrow> bool agent_method" where
  "spawn_pump env a =
     seq (on_agent a (\<lambda>x. x\<lparr>channel := notification_channel env\<rparr>))
    (seq (on_agent a (\<lambda>x. x\<lparr>has_event_pump := True\<rparr>))
    (seq (on_agent a (\<lambda>x. x\<lparr>has_thread := True\<rparr>))
    (seq (modify (\<lambda>\<sigma>. \<sigma>\<lparr>pump_threads := pump_threads \<sigma> @ [a]\<rparr>)) (ret True))))"

definition snmp_agent_Run :: "agent_env \<Rightarrow> config \<Rightarrow> nat \<Rightarrow> bool agent_method" where
  "snmp_agent_Run env cfg a =
     bindm (exchange_add 1) (\<lambda>old.
       if sint old > 0 then ret True
       else
         seq (configure_subagent cfg)
        (seq (if snmp_filelog cfg \<noteq> [] then snmp_call (Enable_Filelog (snmp_filelog cfg)) else ret ())
        (seq (snmp_call Init_Agent)
        (if init_agent env \<noteq> 0 then ret False
         else bindm (register_tables (tables_env env)) (\<lambda>ok.
           if \<not> ok then ret False
           else
             seq (snmp_call Init_Snmp)
            (if is_agentx_subagent cfg then spawn_pump env a
             else seq (snmp_call Init_Master_Agent)
                 (if init_master_agent env \<noteq> 0 then ret False else spawn_pump env a)))))))"

text \<open>The constructor does not look at the result of \<open>Run\<close>.\<close>

definition snmp_agent_t :: "agent_env \<Rightarrow> config \<Rightarrow> nat \<Rightarrow> unit agent_method" where
  "snmp_agent_t env cfg a =
     seq (modify (\<lambda>\<sigma>. \<sigma>\<lparr>agents := agents \<sigma> @
            [(a, \<lparr>channel = (False, False), has_event_pump = False, has_thread = False\<rparr>)]\<rparr>))
         (bindm (snmp_agent_Run env cfg a) (\<lambda>_. ret ()))"

text \<open>
  Joining waits for the pump to leave its loop, which it does when the byte sent on the write end
  arrives at the read end.
\<close>

definition join_pump :: "nat \<Rightarrow> agent \<Rightarrow> unit agent_method" where
  "join_pump a x =
     (if \<not> has_thread x then ret ()
      else if channel x \<noteq> (True, True) then Pair Diverged
      else seq (modify (\<lambda>\<sigma>. \<sigma>\<lparr>pump_threads := filter (\<lambda>b. b \<noteq> a) (pump_threads \<sigma>)\<rparr>))
               (on_agent a (\<lambda>x. x\<lparr>has_thread := False\<rparr>)))"

definition snmp_agent_Clear :: "nat \<Rightarrow> unit agent_method" where
  "snmp_agent_Clear a =
     bindm (gets agent_ref_count) (\<lambda>n.
       if n = 0 then ret ()
       else bindm (exchange_add (- 1)) (\<lambda>old.
         if old \<noteq> 1 then ret ()
         else
           bindm (gets (get_agent a)) (\<lambda>x.
           seq (join_pump a x)
          (seq (on_agent a (\<lambda>x. x\<lparr>channel := (False, False)\<rparr>))
               (snmp_call Snmp_Shutdown)))))"

text \<open>The destructor; the pump and the thread object go with the agent, a running thread stays.\<close>

definition snmp_agent_destructor :: "nat \<Rightarrow> unit agent_method" where
  "snmp_agent_destructor a =
     seq (snmp_agent_Clear a)
         (modify (\<lambda>\<sigma>. \<sigma>\<lparr>agents := filter (\<lambda>(b, _). b \<noteq> a) (agents \<sigma>)\<rparr>))"

section \<open>Life cycles\<close>

definition no_agents :: agent_state where
  "no_agents = \<lparr>agent_ref_count = 0, agents = [], registered_tables = [], snmp_calls = [], pump_threads = []\<rparr>"

lemmas agent_run = snmp_agent_t_def snmp_agent_Run_def snmp_agent_Clear_def snmp_agent_destructor_def
  exchange_add_def configure_subagent_def register_tables_def spawn_pump_def join_pump_def snmp_call_def
  on_agent_def get_agent_def run_simps_all

text \<open>What net-snmp must answer for an agent to start.\<close>

definition agent_starts :: "agent_env \<Rightarrow> bool" where
  "agent_starts env \<longleftrightarrow> init_agent env = 0 \<and> init_master_agent env = 0 \<and>
     notification_channel env = (True, True) \<and>
     list_all (table_ok (tables_env env))
       [psychPluginTable, psychPluginPerformanceTable, psychSessionTable, psychSessionPerformanceTable]"

definition all_tables :: "table list" where
  "all_tables = [psychPluginTable, psychPluginPerformanceTable, psychSessionTable, psychSessionPerformanceTable]"

lemma register_tables_run:
  assumes "agent_starts env" "registered_tables \<sigma> = []"
  shows "register_tables (tables_env env) \<sigma> = (Done True, \<sigma>\<lparr>registered_tables := all_tables\<rparr>)"
  using assms init_psychMIB_tables[of "tables_env env"]
  by (simp add: register_tables_def agent_starts_def all_tables_def)

text \<open>The state in which the agent at address \<open>a\<close> is the only one and its pump runs.\<close>

definition started :: "config \<Rightarrow> nat \<Rightarrow> agent_state" where
  "started cfg a =
     \<lparr>agent_ref_count = 1, agents = [(a, \<lparr>channel = (True, True), has_event_pump = True, has_thread = True\<rparr>)],
      registered_tables = all_tables,
      snmp_calls =
        (if is_agentx_subagent cfg
         then (if agentx_socket cfg \<noteq> [] then [Set_Agentx_Socket (agentx_socket cfg)] else []) @ [Set_Agent_Role]
         else []) @
        (if snmp_filelog cfg \<noteq> [] then [Enable_Filelog (snmp_filelog cfg)] else []) @
        [Init_Agent, Init_Snmp] @ (if is_agentx_subagent cfg then [] else [Init_Master_Agent]),
      pump_threads = [a]\<rparr>"

lemma first_agent_starts:
  assumes "agent_starts env"
  shows "snmp_agent_t env cfg a no_agents = (Done (), started cfg a)"
proof -
  have rt: "bindm (register_tables (tables_env env)) k \<sigma> = k True (\<sigma>\<lparr>registered_tables := all_tables\<rparr>)"
    if "registered_tables \<sigma> = []" for k :: "bool \<Rightarrow> 'a agent_method" and \<sigma>
    using register_tables_run[OF assms that] by (simp add: bindm_def)
  have e: "init_agent env = 0" "init_master_agent env = 0" "notification_channel env = (True, True)"
    using assms by (simp_all add: agent_starts_def)
  show ?thesis
    by (cases "is_agentx_subagent cfg"; cases "agentx_socket cfg = []"; cases "snmp_filelog cfg = []")
       (simp_all add: snmp_agent_t_def snmp_agent_Run_def exchange_add_def configure_subagent_def
         spawn_pump_def snmp_call_def on_agent_def run_simps_all rt e no_agents_def started_def)
qed

lemma last_agent_stops:
  "snmp_agent_destructor a (started cfg a) =
     (Done (), (started cfg a)\<lparr>agent_ref_count := 0, agents := [], pump_threads := [],
        snmp_calls := snmp_calls (started cfg a) @ [Snmp_Shutdown]\<rparr>)"
  by (simp add: snmp_agent_destructor_def snmp_agent_Clear_def exchange_add_def get_agent_def join_pump_def
      snmp_call_def on_agent_def run_simps_all started_def)

lemma second_agent_counts:
  assumes "b \<noteq> a"
  shows "snmp_agent_t env' cfg' b (started cfg a) =
    (Done (), (started cfg a)\<lparr>agent_ref_count := 2, agents := agents (started cfg a) @
       [(b, \<lparr>channel = (False, False), has_event_pump = False, has_thread = False\<rparr>)]\<rparr>)"
  using assms
  by (simp add: snmp_agent_t_def snmp_agent_Run_def exchange_add_def run_simps_all started_def)

text \<open>
  One agent: after its life cycle no pump runs, net-snmp has been set up and shut down once, and the
  count is zero, so the next agent starts again.
\<close>
theorem agent_life_cycle:
  assumes "agent_starts env"
  shows "seq (snmp_agent_t env cfg a) (snmp_agent_destructor a) no_agents =
    (Done (), no_agents\<lparr>registered_tables := all_tables,
       snmp_calls := snmp_calls (started cfg a) @ [Snmp_Shutdown]\<rparr>)"
  by (simp add: seq_def bindm_def first_agent_starts[OF assms] last_agent_stops)
     (simp add: started_def no_agents_def)

text \<open>
  Two agents, the first destroyed first: its pump keeps running after the agent is gone, and still
  does when the second has shut net-snmp down.
\<close>
theorem first_agent_leaves_pump:
  assumes "agent_starts env" "b \<noteq> a"
  shows "\<exists>\<sigma>. seq (snmp_agent_t env cfg a)
      (seq (snmp_agent_t env' cfg' b) (seq (snmp_agent_destructor a) (snmp_agent_destructor b))) no_agents =
        (Done (), \<sigma>) \<and>
      agents \<sigma> = [] \<and> pump_threads \<sigma> = [a] \<and> last (snmp_calls \<sigma>) = Snmp_Shutdown"
  using assms(2)
  by (simp add: seq_def bindm_def first_agent_starts[OF assms(1)] second_agent_counts[OF assms(2)])
     (simp add: started_def snmp_agent_destructor_def snmp_agent_Clear_def exchange_add_def get_agent_def
       join_pump_def snmp_call_def on_agent_def run_simps_all)

definition demo_agent_env :: agent_env where
  "demo_agent_env = \<lparr>tables_env = \<lparr>handler_registration = \<lambda>_. True, table_info_alloc = \<lambda>_. True,
     iterator_info_alloc = \<lambda>_. True, register_table_iterator = \<lambda>_. 0\<rparr>, init_agent = 0,
     init_master_agent = 0, notification_channel = (True, True)\<rparr>"

lemma demo_agent_starts: "agent_starts demo_agent_env"
  by (simp add: agent_starts_def demo_agent_env_def table_ok_def MIB_REGISTERED_OK_def)

lemma agent_life_cycle_witness:
  "snmp_calls (snd (seq (snmp_agent_t demo_agent_env config_init 7) (snmp_agent_destructor 7) no_agents)) =
     [Set_Agent_Role, Init_Agent, Init_Snmp, Snmp_Shutdown]"
  using agent_life_cycle[OF demo_agent_starts, of config_init 7] by (simp add: started_def config_init_def)

lemma first_agent_leaves_pump_witness:
  "\<exists>\<sigma>. seq (snmp_agent_t demo_agent_env config_init 7)
      (seq (snmp_agent_t demo_agent_env config_init 8) (seq (snmp_agent_destructor 7) (snmp_agent_destructor 8)))
        no_agents = (Done (), \<sigma>) \<and>
      agents \<sigma> = [] \<and> pump_threads \<sigma> = [7] \<and> last (snmp_calls \<sigma>) = Snmp_Shutdown"
  by (rule first_agent_leaves_pump[OF demo_agent_starts]) simp

end
