(* ===== verification/Value_Trees.thy ===== *)
theory Value_Trees
  imports Values Strings
begin

text \<open>
  The value tree of \<open>Values\<close> against its specification: a dictionary is a finite map from keys to trees,
  nested to any depth, and a path is a list of keys. \<open>content\<close> is the map a value stands for; the
  operations that take a path refine looking up, updating and removing in the nested map.
\<close>

section \<open>Nested maps\<close>

datatype tree = Leaf "Value" | Node "string \<Rightarrow> tree option"

fun lookup :: "tree \<Rightarrow> string list \<Rightarrow> tree option" where
  "lookup t [] = Some t"
| "lookup (Leaf v) (k # ks) = None"
| "lookup (Node m) (k # ks) = Option.bind (m k) (\<lambda>t. lookup t ks)"

text \<open>The map below a key; what is no map counts as the empty one.\<close>

fun below :: "tree option \<Rightarrow> string \<Rightarrow> tree option" where
  "below (Some (Node m)) = m"
| "below _ = Map.empty"

fun update :: "tree option \<Rightarrow> string list \<Rightarrow> tree \<Rightarrow> tree" where
  "update t [] x = x"
| "update t (k # ks) x = Node ((below t)(k \<mapsto> update (below t k) ks x))"

fun remove :: "tree \<Rightarrow> string list \<Rightarrow> tree" where
  "remove (Node m) [k] = Node (m(k := None))"
| "remove (Node m) (k # ks) = Node (m(k := map_option (\<lambda>t. remove t ks) (m k)))"
| "remove t ks = t"

lemma lookup_append: "lookup t (ks @ ls) = Option.bind (lookup t ks) (\<lambda>u. lookup u ls)"
  by (induction t ks rule: lookup.induct) (auto simp: Option.bind_eq_None_conv split: Option.bind_split)

section \<open>The content of a value\<close>

fun content :: "Value \<Rightarrow> tree" where
  "content (DictionaryValue d) = Node (map_of (map (\<lambda>(k, v). (k, content v)) d))"
| "content v = Leaf v"

definition entries :: "dictionary \<Rightarrow> string \<Rightarrow> tree option" where
  "entries d key = map_option content (map_of d key)"

lemma content_DictionaryValue [simp]: "content (DictionaryValue d) = Node (entries d)"
proof -
  have "map_of (map (\<lambda>(k, v). (k, content v)) d) k = entries d k" for k
    by (induction d) (auto simp: entries_def)
  then show ?thesis by (simp add: fun_eq_iff)
qed

declare content.simps(1) [simp del]

lemma entries_Nil [simp]: "entries [] = Map.empty"
  by (simp add: entries_def fun_eq_iff)

lemma entries_SetWithoutPathExpansion [simp]:
  "entries (SetWithoutPathExpansion key v d) = (entries d)(key \<mapsto> content v)"
  by (simp add: entries_def SetWithoutPathExpansion_def map_of_assign fun_eq_iff)

lemma entries_erase: "entries (erase key d) = (entries d)(key := None)"
  by (simp add: entries_def map_of_erase fun_eq_iff)

text \<open>The keys of a path.\<close>

definition keys :: "string \<Rightarrow> string list" where
  "keys path = split_when (\<lambda>c. c = CHR ''.'') path"

lemma keys_plain: "dot path = None \<Longrightarrow> keys path = [path]"
  using split_when_append[of path "\<lambda>c. c = CHR ''.''" "[]"]
  by (simp add: keys_def find_index_None prepend_def)

lemma keys_dotted:
  assumes "dot path = Some i"
  shows "keys path = take i path # keys (drop (i + 1) path)"
proof -
  have i: "i < length path" "path ! i = CHR ''.''" "\<forall>x \<in> set (take i path). x \<noteq> CHR ''.''"
    using assms by (auto simp: find_index_Some in_set_conv_nth)
  have "path = take i path @ CHR ''.'' # drop (Suc i) path"
    using id_take_nth_drop[OF i(1)] i(2) by simp
  moreover have "split_when (\<lambda>c. c = CHR ''.'') (take i path @ CHR ''.'' # drop (Suc i) path) =
      take i path # keys (drop (Suc i) path)"
    using split_when_append[OF i(3)] by (simp add: split_when_Cons_in keys_def prepend_def)
  ultimately show ?thesis by (metis Suc_eq_plus1 keys_def)
qed

lemma lookup_Leaf [simp]: "lookup (Leaf v) (keys path) = None"
  by (cases "keys path") (simp_all add: keys_def)

section \<open>Reading and setting\<close>

lemma dict_Get_content: "map_option content (dict_Get d path) = lookup (Node (entries d)) (keys path)"
proof (induction "length path" arbitrary: d path rule: less_induct)
  case less
  show ?case
  proof (cases "dot path")
    case None
    then show ?thesis
      by (simp add: dict_Get.simps[of d path] GetWithoutPathExpansion_def keys_plain entries_def)
  next
    case (Some i)
    have "dot (take i path) = None"
      using Some by (auto simp: find_index_None find_index_Some in_set_conv_nth)
    then have k: "dict_Get d (take i path) = map_of d (take i path)"
      by (simp add: dict_Get.simps[of d "take i path"] GetWithoutPathExpansion_def)
    have "length (drop (i + 1) path) < length path"
      using Some by (auto dest: find_index_length)
    note IH = less[OF this]
    show ?thesis
    proof (cases "map_of d (take i path)")
      case None
      then show ?thesis
        using Some by (simp add: dict_Get.simps[of d path] dict_GetDictionary.simps k keys_dotted entries_def)
    next
      case v: (Some v)
      then show ?thesis
        using Some IH
        by (cases v) (auto simp: dict_Get.simps[of d path] dict_GetDictionary.simps k keys_dotted entries_def
            )
    qed
  qed
qed

lemma GetDictionary_key:
  "dot key = None \<Longrightarrow> dict_GetDictionary d key =
     (case map_of d key of Some (DictionaryValue c) \<Rightarrow> Some c | _ \<Rightarrow> None)"
  by (simp add: dict_GetDictionary.simps dict_Get.simps[of d key] GetWithoutPathExpansion_def)

lemma entries_child:
  "entries (case (case map_of d key of Some (DictionaryValue c) \<Rightarrow> Some c | _ \<Rightarrow> None) of
      Some c \<Rightarrow> c | None \<Rightarrow> []) = below (entries d key)"
  by (auto simp: entries_def split: option.splits Value.splits)

lemma dict_Set_content: "Node (entries (dict_Set d path v)) = update (Some (Node (entries d))) (keys path) (content v)"
proof (induction "length path" arbitrary: d path rule: less_induct)
  case less
  show ?case
  proof (cases "dot path")
    case None
    then show ?thesis by (simp add: dict_Set.simps[of d path] keys_plain)
  next
    case (Some i)
    let ?c = "case dict_GetDictionary d (take i path) of Some c \<Rightarrow> c | None \<Rightarrow> []"
    have "dot (take i path) = None"
      using Some by (auto simp: find_index_None find_index_Some in_set_conv_nth)
    then have c: "entries ?c = below (entries d (take i path))"
      by (simp only: GetDictionary_key entries_child)
    have "length (drop (i + 1) path) < length path"
      using Some by (auto dest: find_index_length)
    note IH = less[OF this, of ?c]
    have "update (Some (Node (below t))) (keys s) x = update t (keys s) x" for t s x
      by (cases "keys s") (auto simp: keys_def)
    then have "Node (entries (dict_Set ?c (drop (i + 1) path) v)) =
        update (entries d (take i path)) (keys (drop (i + 1) path)) (content v)"
      using IH by (simp add: c)
    then show ?thesis
      using Some by (simp add: dict_Set.simps[of d path] keys_dotted Let_def del: drop_Suc)
  qed
qed

lemma lookup_update: "lookup (update t ks x) ks = Some x"
  by (induction t ks x rule: update.induct) simp_all

section \<open>Removing\<close>

lemma split_when_in: "p x \<Longrightarrow> split_when p (u @ x # s) = split_when p u @ split_when p s"
  by (induction u) (auto split: list.splits)

lemma find_last_index_Some:
  "find_last_index p xs = Some i \<Longrightarrow> i < length xs \<and> p (xs ! i) \<and> (\<forall>x \<in> set (drop (Suc i) xs). \<not> p x)"
proof (induction xs arbitrary: i)
  case Nil
  then show ?case by simp
next
  case (Cons x xs)
  show ?case
  proof (cases "find_last_index p xs")
    case None
    then have "\<forall>x \<in> set xs. \<not> p x" by (simp add: find_last_index_rev find_index_None)
    then show ?thesis using Cons.prems None by (auto split: if_splits)
  next
    case (Some j)
    then show ?thesis using Cons by (auto split: if_splits)
  qed
qed

lemma keys_last:
  assumes "find_last_index (\<lambda>c. c = CHR ''.'') path = Some i"
  shows "keys path = keys (take i path) @ [drop (i + 1) path]"
proof -
  note i = find_last_index_Some[OF assms]
  then have "path = take i path @ CHR ''.'' # drop (Suc i) path"
    using id_take_nth_drop[of i path] by simp
  moreover have "keys (drop (Suc i) path) = [drop (Suc i) path]"
    using i by (intro keys_plain) (simp add: find_index_None)
  moreover have "keys (take i path @ CHR ''.'' # drop (Suc i) path) =
      keys (take i path) @ keys (drop (Suc i) path)"
    by (simp add: keys_def split_when_in del: split_when.simps)
  ultimately show ?thesis by (metis Suc_eq_plus1)
qed

lemma update_removes:
  "lookup t ks = Some (Node m) \<Longrightarrow> update (Some t) ks (Node (m(k := None))) = remove t (ks @ [k])"
proof (induction ks arbitrary: t)
  case Nil
  then show ?case by (auto simp: fun_eq_iff)
next
  case (Cons l ks)
  then obtain n where t: "t = Node n" by (cases t) auto
  then obtain u where u: "n l = Some u" "lookup u ks = Some (Node m)"
    using Cons.prems by (auto simp: Option.bind_eq_Some_conv)
  obtain a as where as: "ks @ [k] = a # as" by (cases ks) auto
  have IH: "update (Some u) ks (Node (m(k := None))) = remove u (a # as)"
    unfolding as[symmetric] by (rule Cons.IH[OF u(2)])
  have "update (Some t) (l # ks) x = Node (n(l \<mapsto> update (Some u) ks x))" for x
    by (simp add: t u(1))
  moreover have "remove t ((l # ks) @ [k]) = Node (n(l \<mapsto> remove u (a # as)))"
    by (simp add: t as u(1))
  ultimately show ?case by (simp only: IH)
qed

lemma RemoveWithoutPathExpansion_content:
  "case RemoveWithoutPathExpansion d key of
     None \<Rightarrow> entries d key = None
   | Some (out, d') \<Rightarrow> entries d key = Some (content out) \<and> entries d' = (entries d)(key := None)"
  by (cases "map_of d key") (simp_all add: RemoveWithoutPathExpansion_def entries_erase, simp_all add: entries_def)

lemma GetDictionary_content:
  "lookup (Node (entries d)) (keys path) =
     (case dict_GetDictionary d path of
        Some c \<Rightarrow> Some (Node (entries c))
      | None \<Rightarrow> (case dict_Get d path of Some v \<Rightarrow> Some (Leaf v) | None \<Rightarrow> None))"
  unfolding dict_Get_content[symmetric]
  by (cases "dict_Get d path") (auto simp: dict_GetDictionary.simps split: Value.splits)

lemma dict_Remove_content:
  "case dict_Remove d path of
     None \<Rightarrow> lookup (Node (entries d)) (keys path) = None
   | Some (out, d') \<Rightarrow>
       lookup (Node (entries d)) (keys path) = Some (content out) \<and>
       Node (entries d') = remove (Node (entries d)) (keys path)"
proof (cases "find_last_index (\<lambda>c. c = CHR ''.'') path")
  case None
  then have k: "keys path = [path]"
    by (intro keys_plain) (simp add: find_last_index_rev find_index_None)
  show ?thesis
    using RemoveWithoutPathExpansion_content[of d path]
    by (auto simp: dict_Remove_def None k split: option.splits)
next
  case (Some i)
  let ?p = "take i path" and ?k = "drop (i + 1) path"
  note k = keys_last[OF Some] and get = GetDictionary_content[of d ?p]
  show ?thesis
  proof (cases "dict_GetDictionary d ?p")
    case None
    then show ?thesis
      using Some get by (auto simp: dict_Remove_def k lookup_append simp del: drop_Suc split: option.splits)
  next
    case c: (Some c)
    then have l: "lookup (Node (entries d)) (keys ?p) = Some (Node (entries c))" using get by simp
    show ?thesis
      using Some c RemoveWithoutPathExpansion_content[of c ?k] update_removes[OF l, of ?k]
      by (auto simp: dict_Remove_def k l lookup_append dict_Set_content simp del: drop_Suc split: option.splits)
  qed
qed

text \<open>
  C12. The dictionary operations refine a nested map. \<open>Get\<close> looks the keys of the path up. \<open>Set\<close> is the
  update at the keys, which replaces whatever is in the way by a map and leaves the rest alone.
  \<open>Remove\<close> finds what \<open>Get\<close> finds and takes it out, leaving the maps it empties where they are.
\<close>
theorem dictionary_refines:
  "map_option content (dict_Get d path) = lookup (content (DictionaryValue d)) (keys path) \<and>
   content (DictionaryValue (dict_Set d path v)) =
     update (Some (content (DictionaryValue d))) (keys path) (content v) \<and>
   (case dict_Remove d path of
      None \<Rightarrow> lookup (content (DictionaryValue d)) (keys path) = None
    | Some (out, d') \<Rightarrow>
        lookup (content (DictionaryValue d)) (keys path) = Some (content out) \<and>
        content (DictionaryValue d') = remove (content (DictionaryValue d)) (keys path))"
  unfolding content_DictionaryValue
  using dict_Get_content dict_Set_content dict_Remove_content by blast

section \<open>Copying and comparing\<close>

text \<open>The trees with finite doubles and ordered dictionaries, which are those that can be built.\<close>

fun proper :: "Value \<Rightarrow> bool" where
  "proper (DoubleValue x) = IsFinite x"
| "proper (DictionaryValue d) = (omap_ok d \<and> list_all (\<lambda>(k, v). proper v) d)"
| "proper (ListValue vs) = list_all proper vs"
| "proper v = True"

lemma assign_last: "\<forall>k' \<in> fst ` set m. k' < k \<Longrightarrow> assign k v m = m @ [(k, v)]"
  by (induction k v m rule: assign.induct) auto

lemma DeepCopy_same:
  "proper v \<Longrightarrow> DeepCopy v = v"
  "omap_ok (result @ d) \<Longrightarrow> list_all (\<lambda>(k, v). proper v) d \<Longrightarrow> DeepCopy_entries d result = result @ d"
  "list_all proper vs \<Longrightarrow> DeepCopy_list vs = vs"
proof (induction v and d result and vs rule: DeepCopy_DeepCopy_entries_DeepCopy_list.induct)
  case (6 k v d result)
  have "\<forall>k' \<in> fst ` set result. k' < k"
    using 6(3) by (auto simp: omap_ok_def sorted_wrt_append)
  then have "SetWithoutPathExpansion k (DeepCopy v) result = result @ [(k, v)]"
    using 6 by (simp add: SetWithoutPathExpansion_def assign_last)
  then show ?case using 6 by simp
qed (auto simp: CreateDoubleValue_def)

text \<open>A value up to the sign of its zeros.\<close>

definition unsigned_zero :: "double \<Rightarrow> double" where
  "unsigned_zero x = (if x AND 0x7FFFFFFFFFFFFFFF = 0 then 0 else x)"

fun unsigned :: "Value \<Rightarrow> Value" where
  "unsigned (DoubleValue x) = DoubleValue (unsigned_zero x)"
| "unsigned (DictionaryValue d) = DictionaryValue (map (\<lambda>(k, v). (k, unsigned v)) d)"
| "unsigned (ListValue vs) = ListValue (map unsigned vs)"
| "unsigned v = v"

lemma double_eq_unsigned: "IsFinite a \<Longrightarrow> IsFinite b \<Longrightarrow> double_eq a b \<longleftrightarrow> unsigned_zero a = unsigned_zero b"
  by (auto simp: double_eq_def isnan_def unsigned_zero_def)

lemma Equals_unsigned:
  "proper v \<Longrightarrow> proper w \<Longrightarrow> Equals v w \<longleftrightarrow> unsigned v = unsigned w"
  "list_all (\<lambda>(k, v). proper v) d \<Longrightarrow> list_all (\<lambda>(k, v). proper v) e \<Longrightarrow>
     Equals_entries d e \<longleftrightarrow> map (\<lambda>(k, v). (k, unsigned v)) d = map (\<lambda>(k, v). (k, unsigned v)) e"
  "list_all proper vs \<Longrightarrow> list_all proper ws \<Longrightarrow> Equals_list vs ws \<longleftrightarrow> map unsigned vs = map unsigned ws"
proof (induction v w and d e and vs ws rule: Equals_Equals_entries_Equals_list.induct)
  case (1 other)
  then show ?case by (cases other) (simp_all add: IsType_def)
qed (auto simp: double_eq_unsigned)

text \<open>
  C26. \<open>Equals\<close> decides equality of the trees, the two zeros being the same number, and a deep copy is
  the tree itself.
\<close>
theorem Equals_decides:
  assumes "proper v" "proper w"
  shows "(Equals v w \<longleftrightarrow> unsigned v = unsigned w) \<and> DeepCopy v = v"
  using assms Equals_unsigned(1) DeepCopy_same(1) by blast

lemma Equals_decides_witness:
  "Equals (ListValue [DoubleValue 0, NullValue]) (ListValue [DoubleValue 0x8000000000000000, NullValue])"
  using Equals_decides[of "ListValue [DoubleValue 0, NullValue]"
      "ListValue [DoubleValue 0x8000000000000000, NullValue]"]
  by (simp add: IsFinite_def unsigned_zero_def)

end
