(* ===== verification/Singleton.thy ===== *)
theory Singleton
  imports Prelude "HOL-Library.Word"
begin

text \<open>
  The atomic operations of \<open>src/src/chromium/atomicops_internals_x86_msvc.hh\<close> and the singletons of
  \<open>src/src/chromium/memory/singleton.hh\<close> and \<open>singleton.cc\<close>. Each atomic operation is one step on
  a cell; the threads that call \<open>Singleton::get\<close> interleave in any order. The traits of a singleton are an
  interface, the locale \<open>traits\<close>, interpreted on the traits that allocate with \<open>new\<close> and on those that
  use a static buffer. The order in which different cells become visible to other processors is not
  modelled.
\<close>

section \<open>Atomic operations\<close>

text \<open>An operation maps the cell to what it returns and the new cell, at either width.\<close>

definition NoBarrier_CompareAndSwap :: "'w::len word \<Rightarrow> 'w word \<Rightarrow> 'w word \<Rightarrow> 'w word \<times> 'w word" where
  "NoBarrier_CompareAndSwap old_value new_value ptr = (ptr, if ptr = old_value then new_value else ptr)"

definition NoBarrier_AtomicExchange :: "'w::len word \<Rightarrow> 'w word \<Rightarrow> 'w word \<times> 'w word" where
  "NoBarrier_AtomicExchange new_value ptr = (ptr, new_value)"

text \<open>\<open>InterlockedExchangeAdd\<close> returns the value before the addition.\<close>

definition InterlockedExchangeAdd :: "'w::len word \<Rightarrow> 'w word \<Rightarrow> 'w word \<times> 'w word" where
  "InterlockedExchangeAdd increment ptr = (ptr, ptr + increment)"

definition Barrier_AtomicIncrement :: "'w::len word \<Rightarrow> 'w word \<Rightarrow> 'w word \<times> 'w word" where
  "Barrier_AtomicIncrement increment ptr =
     (let (before, after) = InterlockedExchangeAdd increment ptr in (before + increment, after))"

definition NoBarrier_AtomicIncrement :: "'w::len word \<Rightarrow> 'w word \<Rightarrow> 'w word \<times> 'w word" where
  "NoBarrier_AtomicIncrement increment ptr = Barrier_AtomicIncrement increment ptr"

definition Acquire_CompareAndSwap :: "'w::len word \<Rightarrow> 'w word \<Rightarrow> 'w word \<Rightarrow> 'w word \<times> 'w word" where
  "Acquire_CompareAndSwap old_value new_value ptr = NoBarrier_CompareAndSwap old_value new_value ptr"

definition Release_CompareAndSwap :: "'w::len word \<Rightarrow> 'w word \<Rightarrow> 'w word \<Rightarrow> 'w word \<times> 'w word" where
  "Release_CompareAndSwap old_value new_value ptr = NoBarrier_CompareAndSwap old_value new_value ptr"

text \<open>A store maps the cell to the new cell, a load to what it returns.\<close>

definition NoBarrier_Store :: "'w::len word \<Rightarrow> 'w word \<Rightarrow> 'w word" where
  "NoBarrier_Store v ptr = v"

definition Acquire_Store :: "'w::len word \<Rightarrow> 'w word \<Rightarrow> 'w word" where
  "Acquire_Store v ptr = snd (NoBarrier_AtomicExchange v ptr)"

definition Release_Store :: "'w::len word \<Rightarrow> 'w word \<Rightarrow> 'w word" where
  "Release_Store v ptr = v"

definition NoBarrier_Load :: "'w::len word \<Rightarrow> 'w word" where
  "NoBarrier_Load ptr = ptr"

definition Acquire_Load :: "'w::len word \<Rightarrow> 'w word" where
  "Acquire_Load ptr = ptr"

definition Release_Load :: "'w::len word \<Rightarrow> 'w word" where
  "Release_Load ptr = ptr"

lemmas atomics = NoBarrier_CompareAndSwap_def NoBarrier_AtomicExchange_def InterlockedExchangeAdd_def
  Barrier_AtomicIncrement_def NoBarrier_AtomicIncrement_def Acquire_CompareAndSwap_def
  Release_CompareAndSwap_def NoBarrier_Store_def Acquire_Store_def Release_Store_def NoBarrier_Load_def
  Acquire_Load_def Release_Load_def

section \<open>Traits\<close>

definition kBeingCreatedMarker :: "64 word" where "kBeingCreatedMarker = 1"

text \<open>
  What the traits keep: the flag \<open>dead_\<close> of the static traits and, in order, the addresses at which
  constructors and destructors of the instance ran.
\<close>

record traits_state =
  dead :: "32 word"
  constructions :: "64 word list"
  destructions :: "64 word list"

definition traits_start :: traits_state where
  "traits_start = \<lparr>dead = 0, constructions = [], destructions = []\<rparr>"

definition constructed :: "64 word \<Rightarrow> traits_state \<Rightarrow> traits_state" where
  "constructed p h = h\<lparr>constructions := constructions h @ [p]\<rparr>"

definition destroyed :: "64 word \<Rightarrow> traits_state \<Rightarrow> traits_state" where
  "destroyed p h = h\<lparr>destructions := destructions h @ [p]\<rparr>"

text \<open>
  \<open>operator new\<close> chooses, from what it returned before, a block of sixteen bytes; the block is not the
  first one, as it does not return a null pointer. The static buffer is an array of eight byte integers.
  Both are addresses, so their positions are given in these units.
\<close>

type_synonym allocator = "64 word list \<Rightarrow> 64 word"

definition Default_New :: "allocator \<Rightarrow> traits_state \<Rightarrow> 64 word \<times> traits_state" where
  "Default_New alloc h = (let p = 16 * alloc (constructions h) in (p, constructed p h))"

definition Default_Delete :: "64 word \<Rightarrow> traits_state \<Rightarrow> traits_state" where
  "Default_Delete x h = (if x = 0 then h else destroyed x h)"

definition StaticMemory_New :: "64 word \<Rightarrow> traits_state \<Rightarrow> 64 word \<times> traits_state" where
  "StaticMemory_New slot h =
     (let (was_dead, dead') = NoBarrier_AtomicExchange 1 (dead h);
          h = h\<lparr>dead := dead'\<rparr>
      in if was_dead \<noteq> 0 then (0, h)
         else let ptr = 8 * slot in (ptr, constructed ptr h))"

definition StaticMemory_Delete :: "64 word \<Rightarrow> traits_state \<Rightarrow> traits_state" where
  "StaticMemory_Delete p h =
     (let h = h\<lparr>dead := NoBarrier_Store 1 (dead h)\<rparr> in if p \<noteq> 0 then destroyed p h else h)"

definition Resurrect :: "traits_state \<Rightarrow> traits_state" where
  "Resurrect h = h\<lparr>dead := NoBarrier_Store 0 (dead h)\<rparr>"

section \<open>The singleton\<close>

text \<open>
  Where a thread is in \<open>get\<close>: before the first load, before the exchange, before \<open>Traits::New\<close>, before the
  store of the new pointer, in the loop of \<open>WaitForInstance\<close>, or back with a pointer.
\<close>

datatype get_pc = Outside | At_Load | At_Swap | At_New | At_Store "64 word" | At_Wait | Returned "64 word"

text \<open>\<open>instance_cell\<close> is the static member \<open>instance_\<close>.\<close>

record 'h singleton =
  instance_cell :: "64 word"
  traits_of :: 'h
  pcs :: "nat \<Rightarrow> get_pc"

definition singleton_start :: "'h \<Rightarrow> 'h singleton" where
  "singleton_start h = \<lparr>instance_cell = 0, traits_of = h, pcs = (\<lambda>_. Outside)\<rparr>"

definition go :: "nat \<Rightarrow> get_pc \<Rightarrow> 'h singleton \<Rightarrow> 'h singleton" where
  "go t pc s = s\<lparr>pcs := (pcs s)(t := pc)\<rparr>"

text \<open>One turn of the loop of \<open>WaitForInstance\<close>: the value it returns, if it leaves the loop.\<close>

definition WaitForInstance :: "64 word \<Rightarrow> 64 word option" where
  "WaitForInstance cell =
     (let v = NoBarrier_Load cell in if v \<noteq> kBeingCreatedMarker then Some v else None)"

text \<open>The next step of thread \<open>t\<close> inside \<open>get\<close>.\<close>

definition get_move :: "('h \<Rightarrow> 64 word \<times> 'h) \<Rightarrow> nat \<Rightarrow> 'h singleton \<Rightarrow> 'h singleton" where
  "get_move New t s = (case pcs s t of
       At_Load \<Rightarrow>
         let v = NoBarrier_Load (instance_cell s)
         in go t (if v \<noteq> 0 \<and> v \<noteq> kBeingCreatedMarker then Returned v else At_Swap) s
     | At_Swap \<Rightarrow>
         let (old, cell) = Acquire_CompareAndSwap 0 kBeingCreatedMarker (instance_cell s)
         in go t (if old = 0 then At_New else At_Wait) (s\<lparr>instance_cell := cell\<rparr>)
     | At_New \<Rightarrow> let (newval, h) = New (traits_of s) in go t (At_Store newval) (s\<lparr>traits_of := h\<rparr>)
     | At_Store newval \<Rightarrow>
         go t (Returned newval) (s\<lparr>instance_cell := Release_Store newval (instance_cell s)\<rparr>)
     | At_Wait \<Rightarrow>
         (case WaitForInstance (instance_cell s) of None \<Rightarrow> s | Some v \<Rightarrow> go t (Returned v) s)
     | pc \<Rightarrow> s)"

text \<open>Between the exchange and the store a thread creates the instance.\<close>

fun creating :: "get_pc \<Rightarrow> bool" where
  "creating At_New = True"
| "creating (At_Store v) = True"
| "creating pc = False"

text \<open>A thread outside \<open>get\<close> may call it, with or without an earlier result.\<close>

fun may_call :: "get_pc \<Rightarrow> bool" where
  "may_call Outside = True"
| "may_call (Returned v) = True"
| "may_call pc = False"

inductive get_step :: "('h \<Rightarrow> 64 word \<times> 'h) \<Rightarrow> 'h singleton \<Rightarrow> 'h singleton \<Rightarrow> bool" for New where
  call: "may_call (pcs s t) \<Longrightarrow> get_step New s (go t At_Load s)"
| move: "get_step New s (get_move New t s)"

definition OnExit :: "(64 word \<Rightarrow> 'h \<Rightarrow> 'h) \<Rightarrow> 'h singleton \<Rightarrow> 'h singleton" where
  "OnExit Delete s =
     s\<lparr>traits_of := Delete (NoBarrier_Load (instance_cell s)) (traits_of s), instance_cell := 0\<rparr>"

text \<open>
  \<open>OnExit\<close> is to be called when no other thread uses the singleton. In the program it never is, as
  \<open>get\<close> registers nothing for the exit of the process, so a life with exits is what the template offers;
  \<open>Resurrect\<close>, which is for tests, is not part of it.
\<close>

inductive life_step ::
    "('h \<Rightarrow> 64 word \<times> 'h) \<Rightarrow> (64 word \<Rightarrow> 'h \<Rightarrow> 'h) \<Rightarrow> 'h singleton \<Rightarrow> 'h singleton \<Rightarrow> bool" for New Delete where
  get: "get_step New s t \<Longrightarrow> life_step New Delete s t"
| exit: "(\<And>t. may_call (pcs s t)) \<Longrightarrow> life_step New Delete s (OnExit Delete s)"

section \<open>The interface of the traits\<close>

text \<open>
  \<open>ready h\<close>: nothing was created, and \<open>New\<close> would create an instance. The interface promises an address
  that is neither null nor the marker of \<open>get\<close>.
\<close>

locale traits =
  fixes New :: "'h \<Rightarrow> 64 word \<times> 'h"
    and made :: "'h \<Rightarrow> 64 word list"
    and ready :: "'h \<Rightarrow> bool"
  assumes New_address: "ready h \<Longrightarrow> fst (New h) \<noteq> 0 \<and> fst (New h) \<noteq> kBeingCreatedMarker"
    and New_made: "ready h \<Longrightarrow> made (snd (New h)) = [fst (New h)]"
    and ready_made: "ready h \<Longrightarrow> made h = []"
begin

text \<open>
  Before the creation, during it with its thread, and after it. The clauses say which positions the
  threads may have.
\<close>

definition empty_phase :: "'h singleton \<Rightarrow> bool" where
  "empty_phase s \<longleftrightarrow> instance_cell s = 0 \<and> ready (traits_of s) \<and>
     (\<forall>t. pcs s t \<in> {Outside, At_Load, At_Swap})"

definition making_phase :: "nat \<Rightarrow> 'h singleton \<Rightarrow> bool" where
  "making_phase c s \<longleftrightarrow> instance_cell s = kBeingCreatedMarker \<and>
     (pcs s c = At_New \<and> ready (traits_of s) \<or>
      (\<exists>p. pcs s c = At_Store p \<and> made (traits_of s) = [p] \<and> p \<noteq> 0 \<and> p \<noteq> kBeingCreatedMarker)) \<and>
     (\<forall>t. t \<noteq> c \<longrightarrow> pcs s t \<in> {Outside, At_Load, At_Swap, At_Wait})"

definition made_phase :: "64 word \<Rightarrow> 'h singleton \<Rightarrow> bool" where
  "made_phase p s \<longleftrightarrow> instance_cell s = p \<and> made (traits_of s) = [p] \<and> p \<noteq> 0 \<and> p \<noteq> kBeingCreatedMarker \<and>
     (\<forall>t. pcs s t \<in> {Outside, At_Load, At_Swap, At_Wait, Returned p})"

definition phases :: "'h singleton \<Rightarrow> bool" where
  "phases s \<longleftrightarrow> empty_phase s \<or> (\<exists>c. making_phase c s) \<or> (\<exists>p. made_phase p s)"

lemmas phase_defs = empty_phase_def making_phase_def made_phase_def

lemma no_creator:
  "empty_phase s \<Longrightarrow> \<not> creating (pcs s t)"
  "made_phase p s \<Longrightarrow> \<not> creating (pcs s t)"
  "making_phase c s \<Longrightarrow> creating (pcs s t) \<Longrightarrow> t = c"
  by (cases "pcs s t", auto simp: phase_defs dest: spec[of _ t])+

lemma phases_start: "ready h \<Longrightarrow> phases (singleton_start h)"
  by (simp add: phases_def empty_phase_def singleton_start_def)

lemma empty_move: "empty_phase s \<Longrightarrow> phases (get_move New t s)"
proof -
  assume e: "empty_phase s"
  then have "pcs s t \<in> {Outside, At_Load, At_Swap}" by (simp add: empty_phase_def)
  then consider "pcs s t = Outside" | "pcs s t = At_Load" | "pcs s t = At_Swap" by auto
  then show ?thesis
  proof cases
    case 1
    with e show ?thesis by (simp add: phases_def get_move_def)
  next
    case 2
    with e have "empty_phase (get_move New t s)"
      by (simp add: get_move_def atomics go_def empty_phase_def)
    then show ?thesis by (simp add: phases_def)
  next
    case 3
    with e have "making_phase t (get_move New t s)"
      by (auto simp: get_move_def atomics go_def empty_phase_def making_phase_def)
    then show ?thesis by (auto simp: phases_def)
  qed
qed

lemma marker_not_0: "kBeingCreatedMarker \<noteq> 0"
  by (simp add: kBeingCreatedMarker_def)

lemma making_move_creator:
  assumes m: "making_phase c s"
  shows "phases (get_move New c s)"
proof -
  from m consider "pcs s c = At_New" "ready (traits_of s)" | p where "pcs s c = At_Store p"
    by (auto simp: making_phase_def)
  then show ?thesis
  proof cases
    case 1
    with m have "making_phase c (get_move New c s)"
      using New_address[of "traits_of s"] New_made[of "traits_of s"]
      by (auto simp: making_phase_def get_move_def go_def split: prod.splits)
    then show ?thesis by (auto simp: phases_def)
  next
    case (2 p)
    with m have "made_phase p (get_move New c s)"
      by (auto simp: making_phase_def made_phase_def get_move_def go_def atomics)
    then show ?thesis by (auto simp: phases_def)
  qed
qed

lemma making_move_other:
  assumes m: "making_phase c s" and "t \<noteq> c"
  shows "making_phase c (get_move New t s)"
proof -
  have "pcs s t \<in> {Outside, At_Load, At_Swap, At_Wait}" using assms by (simp add: making_phase_def)
  then consider "pcs s t = Outside" | "pcs s t = At_Load" | "pcs s t = At_Swap" | "pcs s t = At_Wait" by auto
  then show ?thesis
    using assms marker_not_0
    by cases (auto simp: get_move_def atomics go_def making_phase_def WaitForInstance_def)
qed

lemma made_move: "made_phase p s \<Longrightarrow> made_phase p (get_move New t s)"
proof -
  assume m: "made_phase p s"
  then have "pcs s t \<in> {Outside, At_Load, At_Swap, At_Wait, Returned p}" by (simp add: made_phase_def)
  then consider "pcs s t = Outside" | "pcs s t = At_Load" | "pcs s t = At_Swap" | "pcs s t = At_Wait"
    | "pcs s t = Returned p" by auto
  then show ?thesis
    using m by cases (auto simp: get_move_def atomics go_def made_phase_def WaitForInstance_def)
qed

lemma phases_move: "phases s \<Longrightarrow> phases (get_move New t s)"
  using empty_move making_move_creator making_move_other made_move
  unfolding phases_def by metis

lemma phase_calls:
  "empty_phase s \<Longrightarrow> empty_phase (go t At_Load s)"
  "making_phase c s \<Longrightarrow> may_call (pcs s t) \<Longrightarrow> making_phase c (go t At_Load s)"
  "made_phase p s \<Longrightarrow> made_phase p (go t At_Load s)"
  by (cases "t = c", auto simp: phase_defs go_def)

lemma phases_call: "phases s \<Longrightarrow> may_call (pcs s t) \<Longrightarrow> phases (go t At_Load s)"
  using phase_calls unfolding phases_def by metis

lemma phases_reachable:
  assumes "(get_step New)\<^sup>*\<^sup>* (singleton_start h) s" and "ready h"
  shows "phases s"
  using assms
proof (induction rule: rtranclp_induct)
  case base
  then show ?case by (rule phases_start)
next
  case (step s s')
  then have "phases s" by simp
  with step(2) show ?case by (cases rule: get_step.cases) (auto intro: phases_call phases_move)
qed

text \<open>At most one instance, and every call that came back has its address.\<close>

lemma one_instance:
  assumes "phases s"
  shows "length (made (traits_of s)) \<le> 1"
    and "pcs s t = Returned p \<Longrightarrow> made (traits_of s) = [p] \<and> instance_cell s = p \<and> p \<noteq> 0"
    and "creating (pcs s t) \<Longrightarrow> creating (pcs s t') \<Longrightarrow> t = t'"
proof -
  show "length (made (traits_of s)) \<le> 1"
    using assms ready_made by (auto simp: phases_def phase_defs)
  show "pcs s t = Returned p \<Longrightarrow> made (traits_of s) = [p] \<and> instance_cell s = p \<and> p \<noteq> 0"
    using assms unfolding phases_def phase_defs by (auto dest: spec[of _ t])
  show "creating (pcs s t) \<Longrightarrow> creating (pcs s t') \<Longrightarrow> t = t'"
    using assms no_creator unfolding phases_def by metis
qed

text \<open>Every call can come back: a schedule that lets the creator finish and then runs the caller.\<close>

lemma made_finishes:
  assumes "made_phase p s" "pcs s t \<noteq> Outside"
  shows "pcs (get_move New t (get_move New t s)) t = Returned p"
proof -
  have "pcs s t \<in> {At_Load, At_Swap, At_Wait, Returned p}" using assms by (auto simp: made_phase_def)
  then consider "pcs s t = At_Load" | "pcs s t = At_Swap" | "pcs s t = At_Wait" | "pcs s t = Returned p" by auto
  then show ?thesis
    using assms by cases (auto simp: get_move_def atomics go_def made_phase_def WaitForInstance_def)
qed

lemma creator_finishes:
  assumes m: "making_phase c s"
  obtains ts p where "length ts \<le> 2" "set ts \<subseteq> {c}" "made_phase p (fold (get_move New) ts s)"
    "pcs (fold (get_move New) ts s) c = Returned p"
    "\<And>u. u \<noteq> c \<Longrightarrow> pcs (fold (get_move New) ts s) u = pcs s u"
proof -
  have store: "made_phase p (get_move New c s') \<and> pcs (get_move New c s') c = Returned p \<and>
      (\<forall>u. u \<noteq> c \<longrightarrow> pcs (get_move New c s') u = pcs s' u)"
    if "making_phase c s'" "pcs s' c = At_Store p" for s' p
    using that by (auto simp: making_phase_def made_phase_def get_move_def go_def atomics)
  from m consider "pcs s c = At_New" "ready (traits_of s)" | p where "pcs s c = At_Store p"
    by (auto simp: making_phase_def)
  then show thesis
  proof cases
    case 1
    have "making_phase c (get_move New c s)" "pcs (get_move New c s) c = At_Store (fst (New (traits_of s)))"
      and u: "\<And>u. u \<noteq> c \<Longrightarrow> pcs (get_move New c s) u = pcs s u"
      using 1 m New_address[of "traits_of s"] New_made[of "traits_of s"]
      by (auto simp: making_phase_def get_move_def go_def split: prod.splits)
    from store[OF this(1,2)] u show thesis
      by (intro that[of "[c, c]" "fst (New (traits_of s))"]) auto
  next
    case (2 p)
    from store[OF m 2] show thesis by (intro that[of "[c]" p]) auto
  qed
qed

lemma empty_finishes:
  assumes "empty_phase s" "pcs s t = At_Load \<or> pcs s t = At_Swap"
  obtains ts where "length ts \<le> 2" "set ts \<subseteq> {t}" "making_phase t (fold (get_move New) ts s)"
proof -
  have swap: "making_phase t (get_move New t s')" if "empty_phase s'" "pcs s' t = At_Swap" for s'
    using that by (auto simp: get_move_def atomics go_def empty_phase_def making_phase_def)
  have load: "empty_phase (get_move New t s') \<and> pcs (get_move New t s') t = At_Swap"
    if "empty_phase s'" "pcs s' t = At_Load" for s'
    using that by (simp add: get_move_def atomics go_def empty_phase_def)
  from assms(2) show thesis
  proof
    assume "pcs s t = At_Load"
    with assms(1) load swap show thesis by (intro that[of "[t, t]"]) auto
  next
    assume "pcs s t = At_Swap"
    with assms(1) swap show thesis by (intro that[of "[t]"]) auto
  qed
qed

lemma making_finishes:
  assumes "making_phase c s" "pcs s t \<noteq> Outside"
  shows "\<exists>ts p. length ts \<le> 4 \<and> set ts \<subseteq> {t, c} \<and> pcs (fold (get_move New) ts s) t = Returned p"
proof -
  obtain ts p where ts: "length ts \<le> 2" "set ts \<subseteq> {c}" "made_phase p (fold (get_move New) ts s)"
    "pcs (fold (get_move New) ts s) c = Returned p"
    "\<And>u. u \<noteq> c \<Longrightarrow> pcs (fold (get_move New) ts s) u = pcs s u"
    using creator_finishes[OF assms(1)] by blast
  have "pcs (fold (get_move New) ts s) t \<noteq> Outside" using ts(4,5) assms(2) by (cases "t = c") auto
  moreover from ts(2) have "set (ts @ [t, t]) \<subseteq> {t, c}" by auto
  ultimately have "length (ts @ [t, t]) \<le> 4 \<and> set (ts @ [t, t]) \<subseteq> {t, c} \<and> pcs (fold (get_move New) (ts @ [t, t]) s) t = Returned p"
    using made_finishes[OF ts(3)] ts(1) by simp
  then show ?thesis by blast
qed

lemma get_finishes:
  assumes "phases s" "pcs s t \<noteq> Outside"
  shows "\<exists>ts p. length ts \<le> 4 \<and> set ts \<subseteq> insert t {c. creating (pcs s c)} \<and>
    pcs (fold (get_move New) ts s) t = Returned p"
proof -
  from assms(1) consider "empty_phase s" | c where "making_phase c s" | p where "made_phase p s"
    by (auto simp: phases_def)
  then show ?thesis
  proof cases
    case 1
    with assms(2) have "pcs s t = At_Load \<or> pcs s t = At_Swap" by (auto simp: empty_phase_def)
    then obtain ts where ts: "length ts \<le> 2" "set ts \<subseteq> {t}" "making_phase t (fold (get_move New) ts s)"
      using empty_finishes[OF 1] by blast
    obtain ts' p where ts': "length ts' \<le> 2" "set ts' \<subseteq> {t}"
        "pcs (fold (get_move New) ts' (fold (get_move New) ts s)) t = Returned p"
      by (rule creator_finishes[OF ts(3)])
    have "length (ts @ ts') \<le> 4" using ts(1) ts'(1) by simp
    moreover have "set (ts @ ts') \<subseteq> insert t {c. creating (pcs s c)}"
      unfolding set_append using ts(2) ts'(2) by blast
    moreover have "pcs (fold (get_move New) (ts @ ts') s) t = Returned p" using ts'(3) by simp
    ultimately show ?thesis by blast
  next
    case 2
    then have "creating (pcs s c)" by (auto simp: making_phase_def)
    then have "{t, c} \<subseteq> insert t {c. creating (pcs s c)}" by blast
    with making_finishes[OF 2 assms(2)] show ?thesis by (meson subset_trans)
  next
    case 3
    from made_finishes[OF this assms(2)] show ?thesis
      by (intro exI[of _ "[t, t]"] exI[of _ p]) simp
  qed
qed

end

text \<open>Addresses are multiples of eight, so none is the marker.\<close>

lemma multiple_not_marker: "even k \<Longrightarrow> k * w \<noteq> kBeingCreatedMarker"
proof
  assume k: "even k" and eq: "k * w = kBeingCreatedMarker"
  from k have "even (k * w)" by simp
  with eq show False by (simp add: kBeingCreatedMarker_def)
qed

interpretation heap: traits "Default_New alloc" constructions "\<lambda>h. constructions h = [] \<and> 16 * alloc [] \<noteq> 0" for alloc
  by unfold_locales (auto simp: Default_New_def constructed_def Let_def multiple_not_marker)

interpretation buffer: traits "StaticMemory_New slot" constructions
    "\<lambda>h. dead h = 0 \<and> constructions h = [] \<and> destructions h = [] \<and> 8 * slot \<noteq> 0" for slot
  by unfold_locales (auto simp: StaticMemory_New_def constructed_def Let_def atomics multiple_not_marker)

section \<open>The instance of a process\<close>

lemma run_moves: "(get_step New)\<^sup>*\<^sup>* s (fold (get_move New) ts s)"
proof (induction ts arbitrary: s)
  case (Cons t ts)
  have "get_step New s (get_move New t s)" by (rule get_step.move)
  with Cons show ?case by (simp add: converse_rtranclp_into_rtranclp)
qed simp

lemma run_call: "may_call (pcs s t) \<Longrightarrow> (get_step New)\<^sup>*\<^sup>* s (go t At_Load s)"
  by (rule r_into_rtranclp) (rule get_step.call)

lemma run_life: "(get_step New)\<^sup>*\<^sup>* s s' \<Longrightarrow> (life_step New Delete)\<^sup>*\<^sup>* s s'"
  by (erule rtranclp_mono[THEN predicate2D, rotated]) (auto intro: life_step.get)

text \<open>
  C31. However the threads that call \<open>get\<close> interleave, the singleton constructs at most one instance: never
  do two threads create it at once, and every call that came back returned the address of the one
  instance, which is not null.
\<close>
theorem get_same_instance:
  assumes "(get_step (Default_New alloc))\<^sup>*\<^sup>* (singleton_start traits_start) s" and "16 * alloc [] \<noteq> 0"
  shows "length (constructions (traits_of s)) \<le> 1 \<and>
    (\<forall>t v. pcs s t = Returned v \<longrightarrow> constructions (traits_of s) = [v] \<and> v \<noteq> 0) \<and>
    (\<forall>t t'. creating (pcs s t) \<longrightarrow> creating (pcs s t') \<longrightarrow> t = t')"
proof -
  have "heap.phases alloc s" using heap.phases_reachable[OF assms(1)] assms(2) by (simp add: traits_start_def)
  from heap.one_instance[of alloc s, OF this] show ?thesis by blast
qed

text \<open>Thread 1 waits while thread 0 creates the instance.\<close>

definition demo_race :: "traits_state singleton" where
  "demo_race = go 1 At_Load (go 0 At_Load (singleton_start traits_start))"

definition demo_heap :: allocator where "demo_heap ps = of_nat (length ps) + 4"

lemma demo_race_run: "(get_step New)\<^sup>*\<^sup>* (singleton_start traits_start) demo_race"
  unfolding demo_race_def
  by (rule rtranclp_trans[OF run_call[of _ 0] run_call]) (simp_all add: singleton_start_def go_def)

lemma demo_race_moves: "(get_step New)\<^sup>*\<^sup>* (singleton_start traits_start) (fold (get_move New) ts demo_race)"
  using demo_race_run run_moves by (rule rtranclp_trans)

lemmas demo_defs = demo_race_def demo_heap_def singleton_start_def traits_start_def go_def get_move_def
  Default_New_def StaticMemory_New_def StaticMemory_Delete_def WaitForInstance_def kBeingCreatedMarker_def
  constructed_def destroyed_def OnExit_def Let_def atomics

lemma demo_race_returns:
  "pcs (fold (get_move (Default_New demo_heap)) [0, 0, 1, 0, 1, 1, 0, 1] demo_race) 1 = Returned 64"
  by code_simp

theorem get_same_instance_witness:
  "length (constructions (traits_of (fold (get_move (Default_New demo_heap)) [0, 0, 1, 0, 1, 1, 0, 1] demo_race))) \<le> 1 \<and>
   pcs (fold (get_move (Default_New demo_heap)) [0, 0, 1, 0, 1, 1, 0, 1] demo_race) 1 = Returned 64"
proof -
  have "16 * demo_heap [] \<noteq> 0" by (simp add: demo_heap_def)
  from get_same_instance[of demo_heap, OF demo_race_moves this] show ?thesis using demo_race_returns by blast
qed

text \<open>
  C32. Whatever the other threads have done, a thread inside \<open>get\<close> comes back under some schedule of at most
  four steps in which only it and the thread that creates the instance run: it waits for no other
  thread, and for none when no thread is creating the instance.
\<close>
theorem get_comes_back:
  assumes "(get_step (Default_New alloc))\<^sup>*\<^sup>* (singleton_start traits_start) s" and "16 * alloc [] \<noteq> 0"
    and "pcs s t \<noteq> Outside"
  shows "\<exists>ts v. length ts \<le> 4 \<and> set ts \<subseteq> insert t {c. creating (pcs s c)} \<and>
    pcs (fold (get_move (Default_New alloc)) ts s) t = Returned v"
proof -
  have "heap.phases alloc s" using heap.phases_reachable[OF assms(1)] assms(2) by (simp add: traits_start_def)
  from heap.get_finishes[of alloc s t, OF this assms(3)] show ?thesis .
qed

text \<open>Thread 0 has won the exchange and creates the instance, thread 1 waits for it.\<close>

definition demo_waiting :: "traits_state singleton" where
  "demo_waiting = fold (get_move (Default_New demo_heap)) [0, 0, 1, 1] demo_race"

lemma demo_waiting_pcs: "pcs demo_waiting 0 = At_New" "pcs demo_waiting 1 = At_Wait"
  by code_simp+

theorem get_comes_back_witness:
  "\<exists>ts v. length ts \<le> 4 \<and> set ts \<subseteq> insert 1 {c. creating (pcs demo_waiting c)} \<and>
    pcs (fold (get_move (Default_New demo_heap)) ts demo_waiting) 1 = Returned v"
proof (rule get_comes_back)
  show "(get_step (Default_New demo_heap))\<^sup>*\<^sup>* (singleton_start traits_start) demo_waiting"
    unfolding demo_waiting_def by (rule demo_race_moves)
  show "16 * demo_heap [] \<noteq> 0" by (simp add: demo_heap_def)
  show "pcs demo_waiting 1 \<noteq> Outside" unfolding demo_waiting_pcs by simp
qed

section \<open>The static buffer\<close>

text \<open>After the first exit the flag stays set and nothing is constructed or destroyed any more.\<close>

definition gone_busy :: "nat option \<Rightarrow> traits_state singleton \<Rightarrow> bool" where
  "gone_busy c s \<longleftrightarrow> (\<forall>t. Some t \<noteq> c \<longrightarrow> \<not> creating (pcs s t)) \<and>
     (case c of None \<Rightarrow> instance_cell s = 0
      | Some t \<Rightarrow> instance_cell s = kBeingCreatedMarker \<and> pcs s t \<in> {At_New, At_Store 0})"

definition gone :: "64 word list \<Rightarrow> traits_state singleton \<Rightarrow> bool" where
  "gone made s \<longleftrightarrow> dead (traits_of s) \<noteq> 0 \<and> constructions (traits_of s) = made \<and>
     destructions (traits_of s) = made \<and> (\<exists>c. gone_busy c s)"

lemma goneI:
  "dead (traits_of s) \<noteq> 0 \<Longrightarrow> constructions (traits_of s) = made \<Longrightarrow> destructions (traits_of s) = made \<Longrightarrow>
   gone_busy c s \<Longrightarrow> gone made s"
  by (auto simp: gone_def)

lemma gone_exit:
  assumes "gone made s" and calm: "\<And>t. may_call (pcs s t)"
  shows "gone made (OnExit StaticMemory_Delete s)"
proof -
  from assms(1) obtain c where c: "gone_busy c s" by (auto simp: gone_def)
  have "c = None"
  proof (rule ccontr)
    assume "c \<noteq> None"
    then obtain t where "c = Some t" by blast
    with c have "pcs s t \<in> {At_New, At_Store 0}" by (simp add: gone_busy_def)
    with calm[of t] show False by auto
  qed
  with c assms(1) show ?thesis
    by (intro goneI[of _ _ None]) (auto simp: gone_def gone_busy_def OnExit_def atomics StaticMemory_Delete_def Let_def)
qed

lemma gone_busy_call: "gone_busy c s \<Longrightarrow> may_call (pcs s t) \<Longrightarrow> gone_busy c (go t At_Load s)"
  by (auto simp: gone_busy_def go_def split: option.splits)

lemma gone_call: "gone made s \<Longrightarrow> may_call (pcs s t) \<Longrightarrow> gone made (go t At_Load s)"
  using gone_busy_call[of _ s t] by (auto simp: gone_def go_def)

lemma gone_busy_move:
  assumes "gone_busy c s" "dead (traits_of s) \<noteq> 0"
  shows "\<exists>d. gone_busy d (get_move (StaticMemory_New slot) t s)"
proof (cases "Some t = c")
  case True
  with assms have "gone_busy (if pcs s t = At_New then c else None) (get_move (StaticMemory_New slot) t s)"
    by (auto simp: gone_busy_def get_move_def go_def atomics StaticMemory_New_def split: if_splits)
  then show ?thesis ..
next
  case False
  with assms have "\<not> creating (pcs s t)" by (auto simp: gone_busy_def)
  then consider "pcs s t = At_Swap" "c = None"
    | "pcs s t = At_Swap" "c \<noteq> None" | "pcs s t \<in> {Outside, At_Load, At_Wait} \<union> range Returned"
    by (cases "pcs s t"; cases c) auto
  then show ?thesis
  proof cases
    case 1
    with assms have "gone_busy (Some t) (get_move (StaticMemory_New slot) t s)"
      by (auto simp: gone_busy_def get_move_def go_def atomics)
    then show ?thesis ..
  next
    case 2
    with assms False have "gone_busy c (get_move (StaticMemory_New slot) t s)"
      by (auto simp: gone_busy_def get_move_def go_def atomics kBeingCreatedMarker_def split: option.splits)
    then show ?thesis ..
  next
    case 3
    with assms False have "gone_busy c (get_move (StaticMemory_New slot) t s)"
      by (auto simp: gone_busy_def get_move_def go_def atomics WaitForInstance_def split: option.splits if_splits)
    then show ?thesis ..
  qed
qed

lemma gone_store: "gone made s \<Longrightarrow> pcs s t = At_Store w \<Longrightarrow> w = 0"
proof -
  assume g: "gone made s" and t: "pcs s t = At_Store w"
  from g obtain c where c: "gone_busy c s" by (auto simp: gone_def)
  with t have "c = Some t" unfolding gone_busy_def by (metis creating.simps(2))
  with c t show ?thesis by (simp add: gone_busy_def)
qed

lemma gone_result:
  "gone made s \<Longrightarrow> pcs (get_move (StaticMemory_New slot) t s) u = Returned v \<Longrightarrow> v = 0 \<or> pcs s u = Returned v"
  using gone_store[of made s t] by (cases "pcs s t")
    (auto simp: gone_def gone_busy_def get_move_def go_def atomics WaitForInstance_def StaticMemory_New_def
      split: if_splits option.splits)

lemma gone_move: "gone made s \<Longrightarrow> gone made (get_move (StaticMemory_New slot) t s)"
  using gone_busy_move[of _ s slot t]
  by (cases "pcs s t")
    (auto simp: gone_def get_move_def go_def atomics StaticMemory_New_def Let_def split: option.splits)

lemma gone_reachable:
  assumes "(life_step (StaticMemory_New slot) StaticMemory_Delete)\<^sup>*\<^sup>* s s'" and "gone made s"
  shows "gone made s' \<and> (pcs s' t = Returned v \<longrightarrow> v = 0 \<or> pcs s t = Returned v)"
  using assms
proof (induction rule: rtranclp_induct)
  case (step s' s'')
  then have g: "gone made s'" and r: "pcs s' t = Returned v \<longrightarrow> v = 0 \<or> pcs s t = Returned v" by auto
  from step(2) show ?case
  proof cases
    case get
    then show ?thesis
    proof cases
      case (call u)
      with g r gone_call show ?thesis by (auto simp: go_def split: if_splits)
    next
      case (move u)
      with g r gone_move gone_result show ?thesis by blast
    qed
  next
    case exit
    with g r gone_exit show ?thesis by (auto simp: OnExit_def)
  qed
qed simp

text \<open>Before the first exit the phases of the interface hold.\<close>

lemma static_keeps:
  "destructions (traits_of (get_move (StaticMemory_New slot) t s)) = destructions (traits_of s)"
  by (cases "pcs s t") (auto simp: get_move_def go_def atomics WaitForInstance_def StaticMemory_New_def
      constructed_def Let_def split: option.splits)

lemma phases_exit:
  assumes "buffer.phases slot s" "destructions (traits_of s) = []" and calm: "\<And>t. may_call (pcs s t)"
  shows "gone (constructions (traits_of s)) (OnExit StaticMemory_Delete s)"
proof -
  have quiet: "\<not> creating (pcs s t)" for t using calm[of t] by (cases "pcs s t") auto
  have no_maker: "\<not> buffer.making_phase slot c s" for c
    using quiet[of c] by (auto simp: buffer.making_phase_def)
  have p: "instance_cell s = 0 \<and> constructions (traits_of s) = [] \<or>
      instance_cell s \<noteq> 0 \<and> constructions (traits_of s) = [instance_cell s]"
    using assms(1) no_maker by (auto simp: buffer.phases_def buffer.empty_phase_def buffer.made_phase_def)
  show ?thesis
    by (rule goneI[of _ _ None])
      (use p assms(2) quiet in \<open>auto simp: OnExit_def StaticMemory_Delete_def destroyed_def atomics gone_busy_def\<close>)
qed

lemma static_life:
  assumes "(life_step (StaticMemory_New slot) StaticMemory_Delete)\<^sup>*\<^sup>* (singleton_start traits_start) s"
    and "8 * slot \<noteq> 0"
  shows "buffer.phases slot s \<and> destructions (traits_of s) = [] \<or>
    (\<exists>made. length made \<le> 1 \<and> gone made s)"
  using assms
proof (induction rule: rtranclp_induct)
  case base
  then have "buffer.phases slot (singleton_start traits_start)"
    by (intro buffer.phases_start) (simp add: traits_start_def)
  then show ?case by (simp add: traits_start_def singleton_start_def)
next
  case (step s s')
  from step(3)[OF step(4)] show ?case
  proof
    assume p: "buffer.phases slot s \<and> destructions (traits_of s) = []"
    from step(2) show ?thesis
    proof cases
      case get
      then show ?thesis
      proof cases
        case (call u)
        with p buffer.phases_call[of slot s u] show ?thesis by (simp add: go_def)
      next
        case (move u)
        with p buffer.phases_move[of slot s u] static_keeps show ?thesis by simp
      qed
    next
      case exit
      with phases_exit p buffer.one_instance(1)[of slot s] show ?thesis by blast
    qed
  next
    assume "\<exists>made. length made \<le> 1 \<and> gone made s"
    with gone_reachable[OF r_into_rtranclp, OF step(2)] show ?thesis by blast
  qed
qed

text \<open>
  C33. An instance in a static buffer is constructed at most once in the life of the process, and destroyed
  at the first exit exactly if it was constructed; whatever runs afterwards, further exits included,
  neither revives nor destroys it again, and every call of \<open>get\<close> that comes back after the exit returns a
  null pointer.
\<close>
theorem static_instance_once:
  assumes "(life_step (StaticMemory_New slot) StaticMemory_Delete)\<^sup>*\<^sup>* (singleton_start traits_start) s"
    and "8 * slot \<noteq> 0" and "\<forall>t. may_call (pcs s t)"
    and "(life_step (StaticMemory_New slot) StaticMemory_Delete)\<^sup>*\<^sup>* (OnExit StaticMemory_Delete s) s'"
  shows "length (constructions (traits_of s')) \<le> 1 \<and>
    constructions (traits_of s') = constructions (traits_of s) \<and>
    destructions (traits_of s') = constructions (traits_of s') \<and>
    (\<forall>t v. pcs s' t = Returned v \<longrightarrow> v = 0 \<or> pcs s t = Returned v)"
proof -
  have "gone (constructions (traits_of s)) (OnExit StaticMemory_Delete s)"
    and l: "length (constructions (traits_of s)) \<le> 1"
    using static_life[OF assms(1,2)] phases_exit[of slot s] gone_exit[of _ s] assms(3)
      buffer.one_instance(1)[of slot s]
    by (auto simp: gone_def)
  from gone_reachable[OF assms(4) this(1)] l show ?thesis
    by (auto simp: gone_def OnExit_def)
qed

text \<open>One call creates the instance, the exit destroys it and the next call gets a null pointer.\<close>

definition demo_used :: "traits_state singleton" where
  "demo_used = fold (get_move (StaticMemory_New 5)) [0, 0, 0, 0] (go 0 At_Load (singleton_start traits_start))"

definition demo_late :: "traits_state singleton" where
  "demo_late =
     fold (get_move (StaticMemory_New 5)) [1, 1, 1, 1] (go 1 At_Load (OnExit StaticMemory_Delete demo_used))"

lemma demo_used_state:
  "instance_cell demo_used = 40" "traits_of demo_used = \<lparr>dead = 1, constructions = [40], destructions = []\<rparr>"
  "pcs demo_used = (\<lambda>_. Outside)(0 := Returned 40)"
  by (simp_all add: demo_used_def demo_defs)

lemma demo_late_state: "pcs demo_late 1 = Returned 0"
  by (simp add: demo_late_def demo_defs demo_used_state)

theorem static_instance_once_witness:
  "length (constructions (traits_of demo_late)) \<le> 1 \<and> pcs demo_late 1 = Returned 0"
proof -
  have used: "(life_step (StaticMemory_New 5) StaticMemory_Delete)\<^sup>*\<^sup>* (singleton_start traits_start) demo_used"
    unfolding demo_used_def
    by (intro run_life rtranclp_trans[OF run_call run_moves]) (simp add: singleton_start_def)
  have late: "(life_step (StaticMemory_New 5) StaticMemory_Delete)\<^sup>*\<^sup>* (OnExit StaticMemory_Delete demo_used) demo_late"
    unfolding demo_late_def
    by (intro run_life rtranclp_trans[OF run_call run_moves]) (simp add: OnExit_def demo_used_state)
  have "\<forall>t. may_call (pcs demo_used t)" and "8 * 5 \<noteq> (0 :: 64 word)" by (simp_all add: demo_used_state)
  from static_instance_once[OF used this(2,1) late] show ?thesis using demo_late_state by blast
qed

end
