(* ===== verification/Event_Trace.thy ===== *)
theory Event_Trace
  imports Logging Singleton
begin

text \<open>
  Event tracing for Windows: the trace provider of \<open>src/src/chromium/win/event_trace_provider.cc\<close> and
  its header, and the log handler on top of it in \<open>src/src/chromium/logging_win.cc\<close>. A trace session
  turns the provider on at a level and lowers the threshold of the log to match; messages that the log
  would not have shown before go to the trace only. The answers of Windows come from an environment, the
  events handed to it are kept in a list. The handler's object is the singleton in a static buffer of
  \<open>Singleton\<close>, which gives a null pointer after the exit of the process.
\<close>

section \<open>Events\<close>

text \<open>The levels of \<open>evntrace.h\<close>, bytes.\<close>

type_synonym EtwEventLevel = "8 word"

definition TRACE_LEVEL_NONE :: EtwEventLevel where "TRACE_LEVEL_NONE = 0"
definition TRACE_LEVEL_FATAL :: EtwEventLevel where "TRACE_LEVEL_FATAL = 1"
definition TRACE_LEVEL_ERROR :: EtwEventLevel where "TRACE_LEVEL_ERROR = 2"
definition TRACE_LEVEL_WARNING :: EtwEventLevel where "TRACE_LEVEL_WARNING = 3"
definition TRACE_LEVEL_INFORMATION :: EtwEventLevel where "TRACE_LEVEL_INFORMATION = 4"
definition TRACE_LEVEL_VERBOSE :: EtwEventLevel where "TRACE_LEVEL_VERBOSE = 5"

lemmas trace_levels = TRACE_LEVEL_NONE_def TRACE_LEVEL_FATAL_def TRACE_LEVEL_ERROR_def
  TRACE_LEVEL_WARNING_def TRACE_LEVEL_INFORMATION_def TRACE_LEVEL_VERBOSE_def

datatype guid = GUID_NULL | GUID string

datatype event_status = ERROR_SUCCESS | ERROR_INVALID_PARAMETER | ERROR_INVALID_NAME | System_Error "32 word"

text \<open>What a field points to; a field that was not set is zero.\<close>

datatype event_data = No_Data | Depth nat | Backtrace "64 word list" | Line int | C_String string
  | Wide_String "16 word list"

record event_trace =
  event_class :: guid
  event_type :: nat
  event_level :: EtwEventLevel
  event_fields :: "(event_data \<times> nat) list"

definition EtwMofEvent_Init :: "nat \<Rightarrow> guid \<Rightarrow> nat \<Rightarrow> EtwEventLevel \<Rightarrow> event_trace" where
  "EtwMofEvent_Init n cls type level =
     \<lparr>event_class = cls, event_type = type, event_level = level, event_fields = replicate n (No_Data, 0)\<rparr>"

text \<open>The comparison is unsigned, so a negative field is out of range.\<close>

definition SetField :: "int \<Rightarrow> nat \<Rightarrow> event_data \<Rightarrow> event_trace \<Rightarrow> event_trace" where
  "SetField field n data e =
     (if 0 \<le> field \<and> nat field < length (event_fields e) \<and> n \<le> 4294967295
      then e\<lparr>event_fields := (event_fields e)[nat field := (data, n)]\<rparr> else e)"

section \<open>The provider\<close>

text \<open>
  \<open>TraceEvent\<close> and \<open>RegisterTraceGuids\<close> give a status and, for the latter, a handle. \<open>StackBackTrace\<close> takes
  the frames to skip and the frames to give at most. \<open>buffer_slot\<close> is where the static buffer is.
\<close>

record trace_env =
  TraceLoggerHandle :: "nat \<Rightarrow> 64 word"
  TraceEnableFlags :: "64 word \<Rightarrow> 32 word"
  TraceEnableLevel :: "64 word \<Rightarrow> EtwEventLevel"
  LastError :: "32 word"
  RegisterTraceGuids :: "guid \<Rightarrow> event_status \<times> 64 word"
  UnregisterTraceGuids :: "64 word \<Rightarrow> event_status"
  TraceEvent :: "64 word \<Rightarrow> event_trace \<Rightarrow> event_status"
  StackBackTrace :: "nat \<Rightarrow> nat \<Rightarrow> 64 word list"
  buffer_slot :: "64 word"

record etw_provider =
  provider_name :: guid
  registration_handle :: "64 word"
  session_handle :: "64 word"
  enable_flags :: "32 word"
  enable_level :: EtwEventLevel
  old_log_level :: LogSeverity

text \<open>
  The log, the singleton with the object in its static buffer, the events handed to Windows with the
  session they were for, and whether \<open>LogMessage\<close> is the handler of the log.
\<close>

record trace_state =
  trace_log :: log_state
  trace_singleton :: "traits_state singleton"
  trace_provider :: etw_provider
  traced :: "(64 word \<times> event_trace) list"
  trace_handler :: bool

text \<open>\<open>LOG_NONE\<close>, the first logging destination, is zero.\<close>

definition LogEventProvider_Init :: etw_provider where
  "LogEventProvider_Init =
     \<lparr>provider_name = GUID_NULL, registration_handle = 0, session_handle = 0, enable_flags = 0,
      enable_level = 0, old_log_level = 0\<rparr>"

definition update_provider :: "(etw_provider \<Rightarrow> etw_provider) \<Rightarrow> trace_state \<Rightarrow> trace_state" where
  "update_provider f s = s\<lparr>trace_provider := f (trace_provider s)\<rparr>"

definition set_threshold :: "LogSeverity \<Rightarrow> trace_state \<Rightarrow> trace_state" where
  "set_threshold level s = s\<lparr>trace_log := SetMinLogLevel level (trace_log s)\<rparr>"

definition OnEventsEnabled :: "trace_state \<Rightarrow> trace_state" where
  "OnEventsEnabled s =
     (let s = update_provider (\<lambda>p. p\<lparr>old_log_level := GetMinLogLevel (trace_log s)\<rparr>) s;
          level = enable_level (trace_provider s)
      in if level = TRACE_LEVEL_NONE \<or> level = TRACE_LEVEL_FATAL then set_threshold LOG_FATAL s
         else if level = TRACE_LEVEL_ERROR then set_threshold LOG_ERROR s
         else if level = TRACE_LEVEL_WARNING then set_threshold LOG_WARNING s
         else if level = TRACE_LEVEL_INFORMATION then set_threshold LOG_INFO s
         else if level \<ge> TRACE_LEVEL_VERBOSE
         then set_threshold (uint TRACE_LEVEL_INFORMATION - uint level) s
         else s)"

definition OnEventsDisabled :: "trace_state \<Rightarrow> trace_state" where
  "OnEventsDisabled s = set_threshold (old_log_level (trace_provider s)) s"

definition EnableEvents :: "trace_env \<Rightarrow> nat \<Rightarrow> trace_state \<Rightarrow> event_status \<times> trace_state" where
  "EnableEvents env buffer s =
     (let h = TraceLoggerHandle env buffer;
          s = update_provider (\<lambda>p. p\<lparr>session_handle := h\<rparr>) s
      in if h = 0 then (System_Error (LastError env), s)
         else let s = update_provider (\<lambda>p. p\<lparr>enable_flags := TraceEnableFlags env h,
                        enable_level := TraceEnableLevel env h\<rparr>) s
              in (ERROR_SUCCESS, OnEventsEnabled s))"

definition PostEventsDisabled :: "trace_state \<Rightarrow> trace_state" where
  "PostEventsDisabled s = s"

definition DisableEvents :: "trace_state \<Rightarrow> event_status \<times> trace_state" where
  "DisableEvents s =
     (let s = OnEventsDisabled s;
          s = update_provider (\<lambda>p. p\<lparr>enable_level := 0, enable_flags := 0, session_handle := 0\<rparr>) s
      in (ERROR_SUCCESS, PostEventsDisabled s))"

datatype wmi_request = WMI_ENABLE_EVENTS | WMI_DISABLE_EVENTS | WMI_OTHER

definition Callback :: "trace_env \<Rightarrow> wmi_request \<Rightarrow> nat \<Rightarrow> trace_state \<Rightarrow> event_status \<times> trace_state" where
  "Callback env request buffer s = (case request of
       WMI_ENABLE_EVENTS \<Rightarrow> EnableEvents env buffer s
     | WMI_DISABLE_EVENTS \<Rightarrow> DisableEvents s
     | WMI_OTHER \<Rightarrow> (ERROR_INVALID_PARAMETER, s))"

text \<open>A failed registration leaves the handle as it was.\<close>

definition Register :: "trace_env \<Rightarrow> trace_state \<Rightarrow> event_status \<times> trace_state" where
  "Register env s =
     (if provider_name (trace_provider s) = GUID_NULL then (ERROR_INVALID_NAME, s)
      else let (status, h) = RegisterTraceGuids env (provider_name (trace_provider s))
           in (status, if status = ERROR_SUCCESS
                       then update_provider (\<lambda>p. p\<lparr>registration_handle := h\<rparr>) s else s))"

definition Unregister :: "trace_env \<Rightarrow> trace_state \<Rightarrow> event_status \<times> trace_state" where
  "Unregister env s =
     (let s = (if session_handle (trace_provider s) \<noteq> 0 then snd (DisableEvents s) else s);
          status = UnregisterTraceGuids env (registration_handle (trace_provider s))
      in (status, update_provider (\<lambda>p. p\<lparr>registration_handle := 0\<rparr>) s))"

definition EtwTraceProvider_destructor :: "trace_env \<Rightarrow> trace_state \<Rightarrow> trace_state" where
  "EtwTraceProvider_destructor env s = snd (Unregister env s)"

definition ShouldLog :: "EtwEventLevel \<Rightarrow> 32 word \<Rightarrow> etw_provider \<Rightarrow> bool" where
  "ShouldLog level flags p \<longleftrightarrow>
     session_handle p \<noteq> 0 \<and> level \<ge> enable_level p \<and> and flags (enable_flags p) \<noteq> 0"

definition trace_event :: "trace_env \<Rightarrow> event_trace \<Rightarrow> trace_state \<Rightarrow> event_status \<times> trace_state" where
  "trace_event env e s =
     (let h = session_handle (trace_provider s) in (TraceEvent env h e, s\<lparr>traced := traced s @ [(h, e)]\<rparr>))"

text \<open>The text of an event, which may be null, with its terminating character.\<close>

definition Log_text ::
    "trace_env \<Rightarrow> guid \<Rightarrow> nat \<Rightarrow> EtwEventLevel \<Rightarrow> string option \<Rightarrow> trace_state \<Rightarrow> event_status \<times> trace_state" where
  "Log_text env cls type level message s =
     (let p = trace_provider s
      in if session_handle p = 0 \<or> enable_level p < level then (ERROR_SUCCESS, s)
         else let e = EtwMofEvent_Init 1 cls type level;
                  field = (case message of None \<Rightarrow> (No_Data, 0) | Some m \<Rightarrow> (C_String (c_text m), 1 + length (c_text m)))
              in trace_event env (e\<lparr>event_fields := [field]\<rparr>) s)"

definition wide_text :: "16 word list \<Rightarrow> 16 word list" where
  "wide_text m = takeWhile (\<lambda>c. c \<noteq> 0) m"

definition Log_wide_text ::
    "trace_env \<Rightarrow> guid \<Rightarrow> nat \<Rightarrow> EtwEventLevel \<Rightarrow> 16 word list option \<Rightarrow> trace_state \<Rightarrow> event_status \<times> trace_state" where
  "Log_wide_text env cls type level message s =
     (let p = trace_provider s
      in if session_handle p = 0 \<or> enable_level p < level then (ERROR_SUCCESS, s)
         else let e = EtwMofEvent_Init 1 cls type level;
                  field = (case message of None \<Rightarrow> (No_Data, 0)
                           | Some m \<Rightarrow> (Wide_String (wide_text m), 2 * (1 + length (wide_text m))))
              in trace_event env (e\<lparr>event_fields := [field]\<rparr>) s)"

definition Log_event :: "trace_env \<Rightarrow> event_trace \<Rightarrow> trace_state \<Rightarrow> event_status \<times> trace_state" where
  "Log_event env e s =
     (if enable_level (trace_provider s) < event_level e then (ERROR_SUCCESS, s) else trace_event env e s)"

section \<open>The handler of the log\<close>

definition ENABLE_STACK_TRACE_CAPTURE :: "32 word" where "ENABLE_STACK_TRACE_CAPTURE = 1"
definition ENABLE_LOG_MESSAGE_ONLY :: "32 word" where "ENABLE_LOG_MESSAGE_ONLY = 2"

definition LOG_MESSAGE :: nat where "LOG_MESSAGE = 10"
definition LOG_MESSAGE_WITH_STACKTRACE :: nat where "LOG_MESSAGE_WITH_STACKTRACE = 11"
definition LOG_MESSAGE_FULL :: nat where "LOG_MESSAGE_FULL = 12"

definition kLogEventId :: guid where
  "kLogEventId = GUID ''7fe69228-633e-4f06-80c1-527fea23e3a7''"

text \<open>A call of \<open>get\<close> while no other thread is inside it.\<close>

definition get_alone :: "('h \<Rightarrow> 64 word \<times> 'h) \<Rightarrow> nat \<Rightarrow> 'h singleton \<Rightarrow> 'h singleton" where
  "get_alone New t s = fold (get_move New) [t, t, t, t] (go t At_Load s)"

text \<open>The object of a process is constructed in the buffer by the call that creates it; null afterwards is False.\<close>

definition GetInstance :: "trace_env \<Rightarrow> nat \<Rightarrow> trace_state \<Rightarrow> bool \<times> trace_state" where
  "GetInstance env t s =
     (let old = trace_singleton s;
          new = get_alone (StaticMemory_New (buffer_slot env)) t old;
          made = length (constructions (traits_of new)) > length (constructions (traits_of old));
          s = s\<lparr>trace_singleton := new\<rparr>;
          s = (if made then update_provider (\<lambda>_. LogEventProvider_Init) s else s)
      in (pcs new t \<noteq> Returned 0, s))"

definition severity_level :: "LogSeverity \<Rightarrow> EtwEventLevel" where
  "severity_level severity =
     (if severity \<ge> 0 then
        if severity = LOG_INFO then TRACE_LEVEL_INFORMATION
        else if severity = LOG_WARNING then TRACE_LEVEL_WARNING
        else if severity = LOG_ERROR then TRACE_LEVEL_ERROR
        else if severity = LOG_FATAL then TRACE_LEVEL_FATAL
        else TRACE_LEVEL_NONE
      else word_of_int (uint TRACE_LEVEL_INFORMATION - severity))"

text \<open>Subtraction of sizes wraps around, at sixty-four bits.\<close>

definition size_t_minus :: "nat \<Rightarrow> nat \<Rightarrow> nat" where
  "size_t_minus a b = (if b \<le> a then a - b else a + 2 ^ 64 - b)"

text \<open>The header of the message is left out; the text is passed with its terminating character.\<close>

definition message_only :: "EtwEventLevel \<Rightarrow> nat \<Rightarrow> string \<Rightarrow> event_trace" where
  "message_only level start message =
     SetField 0 (size_t_minus (length message + 1) start) (C_String (drop start message))
       (EtwMofEvent_Init 1 kLogEventId LOG_MESSAGE level)"

definition message_full ::
    "EtwEventLevel \<Rightarrow> 64 word list \<Rightarrow> string option \<Rightarrow> int \<Rightarrow> nat \<Rightarrow> string \<Rightarrow> event_trace" where
  "message_full level backtrace file line start message =
     (let depth = length backtrace;
          file = the_default [] file;
          e = EtwMofEvent_Init 5 kLogEventId LOG_MESSAGE_FULL level;
          e = SetField 0 4 (Depth depth) e;
          e = SetField 1 (8 * depth) (Backtrace backtrace) e;
          e = SetField 2 4 (Line line) e;
          e = SetField 3 (length (c_text file) + 1) (C_String (c_text file)) e
      in SetField 4 (size_t_minus (length message + 1) start) (C_String (drop start message)) e)"

definition LogEvent_LogMessage ::
    "trace_env \<Rightarrow> nat \<Rightarrow> LogSeverity \<Rightarrow> string option \<Rightarrow> int \<Rightarrow> nat \<Rightarrow> string \<Rightarrow> trace_state \<Rightarrow> bool \<times> trace_state" where
  "LogEvent_LogMessage env t severity file line start message s =
     (let level = severity_level severity;
          (live, s) = GetInstance env t s;
          p = trace_provider s
      in if \<not> live \<or> level > enable_level p then (False, s)
         else
           let event = (if and (enable_flags p) ENABLE_LOG_MESSAGE_ONLY \<noteq> 0
                 then message_only level start message
                 else let backtrace = (if and (enable_flags p) ENABLE_STACK_TRACE_CAPTURE \<noteq> 0
                            then StackBackTrace env 2 32 else [])
                      in message_full level backtrace file line start message);
               s = snd (Log_event env event s)
           in (severity < old_log_level (trace_provider s), s))"

text \<open>After the exit the object is called through a null pointer.\<close>

definition Initialize :: "trace_env \<Rightarrow> nat \<Rightarrow> guid \<Rightarrow> (trace_state, unit) method" where
  "Initialize env t name = (\<lambda>s.
     let (live, s) = GetInstance env t s
     in if \<not> live then (Raise Null_Deref, s)
        else
          let s = update_provider (\<lambda>p. p\<lparr>provider_name := name\<rparr>) s;
              s = snd (Register env s)
          in (Done (), s\<lparr>trace_handler := True\<rparr>))"

definition Uninitialize :: "trace_env \<Rightarrow> nat \<Rightarrow> (trace_state, unit) method" where
  "Uninitialize env t = (\<lambda>s.
     let (live, s) = GetInstance env t s
     in if \<not> live then (Raise Null_Deref, s) else (Done (), snd (Unregister env s)))"

section \<open>Levels\<close>

declare GetMinLogLevel_def [simp]

lemma uint_severity_level:
  assumes "- 251 \<le> severity" "severity \<le> LOG_FATAL"
  shows "uint (severity_level severity) = 4 - severity"
proof (cases "severity \<ge> 0")
  case True
  then have "severity = 0 \<or> severity = 1 \<or> severity = 2 \<or> severity = 3"
    using assms(2) by (auto simp: LOG_FATAL_def)
  then show ?thesis
    by (auto simp: severity_level_def LOG_INFO_def LOG_WARNING_def LOG_ERROR_def LOG_FATAL_def trace_levels)
next
  case False
  have "uint (word_of_int (4 - severity) :: EtwEventLevel) = (4 - severity) mod 256"
    by (simp only: uint_word_of_int_eq take_bit_eq_mod) simp
  also have "\<dots> = 4 - severity" using False assms(1) by (intro mod_pos_pos_trivial) auto
  finally have "uint (word_of_int (4 - severity) :: EtwEventLevel) = 4 - severity" .
  with False show ?thesis by (simp add: severity_level_def trace_levels del: of_int_diff)
qed

text \<open>The level is a byte: past 251 the verbosity wraps around to the level that always passes.\<close>

lemma severity_level_wraps: "severity_level (- 252) = TRACE_LEVEL_NONE"
  by (simp add: severity_level_def trace_levels)

lemma threshold_enabled:
  "log_min_level (trace_log (OnEventsEnabled s)) = min LOG_ERROR (4 - max 1 (uint (enable_level (trace_provider s))))"
proof -
  define L where "L = enable_level (trace_provider s)"
  have l: "enable_level (trace_provider (update_provider (\<lambda>p. p\<lparr>old_log_level := x\<rparr>) s)) = L" for x
    by (simp add: update_provider_def L_def)
  have "L = word_of_int (uint L)" by simp
  moreover have "uint L < 5 \<Longrightarrow> uint L = 0 \<or> uint L = 1 \<or> uint L = 2 \<or> uint L = 3 \<or> uint L = 4"
    using uint_ge_0[of L] by linarith
  ultimately have "uint L < 5 \<Longrightarrow> L = 0 \<or> L = 1 \<or> L = 2 \<or> L = 3 \<or> L = 4"
    by (metis of_int_0 of_int_1 of_int_numeral)
  moreover have "L \<ge> 5 \<longleftrightarrow> uint L \<ge> 5" by (simp add: word_le_def)
  ultimately show ?thesis
    unfolding OnEventsEnabled_def Let_def l L_def[symmetric]
    by (cases "uint L < 5")
      (auto simp: trace_levels set_threshold_def SetMinLogLevel_def LOG_INFO_def LOG_WARNING_def LOG_ERROR_def
        LOG_FATAL_def)
qed

text \<open>A live object is found as it is.\<close>

definition instance_live :: "trace_state \<Rightarrow> bool" where
  "instance_live s \<longleftrightarrow> instance_cell (trace_singleton s) \<noteq> 0 \<and>
     instance_cell (trace_singleton s) \<noteq> kBeingCreatedMarker"

lemma GetInstance_live:
  "instance_live s \<Longrightarrow> GetInstance env t s =
     (True, s\<lparr>trace_singleton := go t (Returned (instance_cell (trace_singleton s)))
        (go t At_Load (trace_singleton s))\<rparr>)"
  by (simp add: instance_live_def GetInstance_def get_alone_def get_move_def go_def atomics Let_def)

lemma LogMessage_live:
  assumes "instance_live s"
  shows "LogEvent_LogMessage env t severity file line start message s =
    (let p = trace_provider s;
         s' = snd (GetInstance env t s);
         e = (if and (enable_flags p) ENABLE_LOG_MESSAGE_ONLY \<noteq> 0
              then message_only (severity_level severity) start message
              else message_full (severity_level severity)
                (if and (enable_flags p) ENABLE_STACK_TRACE_CAPTURE \<noteq> 0 then StackBackTrace env 2 32 else [])
                file line start message)
     in if severity_level severity > enable_level p then (False, s')
        else (severity < old_log_level p, s'\<lparr>traced := traced s @ [(session_handle p, e)]\<rparr>))"
  using GetInstance_live[OF assms, of env t]
  by (simp add: LogEvent_LogMessage_def Log_event_def trace_event_def message_only_def message_full_def
      SetField_def EtwMofEvent_Init_def Let_def)

section \<open>Sessions\<close>

lemma OnEventsEnabled_log:
  "trace_log (OnEventsEnabled s) = (trace_log s)\<lparr>log_min_level := log_min_level (trace_log (OnEventsEnabled s))\<rparr>"
  by (simp add: OnEventsEnabled_def set_threshold_def SetMinLogLevel_def update_provider_def Let_def)

lemma Enable_live:
  fixes s :: trace_state
  assumes "TraceLoggerHandle env buffer \<noteq> 0"
  defines "s' \<equiv> snd (EnableEvents env buffer s)"
  shows "trace_provider s' = (trace_provider s)\<lparr>session_handle := TraceLoggerHandle env buffer,
      enable_flags := TraceEnableFlags env (TraceLoggerHandle env buffer),
      enable_level := TraceEnableLevel env (TraceLoggerHandle env buffer),
      old_log_level := log_min_level (trace_log s)\<rparr>"
    and "log_min_level (trace_log s') =
      min LOG_ERROR (4 - max 1 (uint (TraceEnableLevel env (TraceLoggerHandle env buffer))))"
    and "trace_singleton s' = trace_singleton s" and "traced s' = traced s"
    and "trace_log s' = (trace_log s)\<lparr>log_min_level := log_min_level (trace_log s')\<rparr>"
proof -
  show "trace_log s' = (trace_log s)\<lparr>log_min_level := log_min_level (trace_log s')\<rparr>"
    using assms(1) unfolding s'_def EnableEvents_def Let_def
    by (auto simp: update_provider_def intro!: trans[OF OnEventsEnabled_log])
  show "log_min_level (trace_log s') =
      min LOG_ERROR (4 - max 1 (uint (TraceEnableLevel env (TraceLoggerHandle env buffer))))"
    using assms(1) by (simp add: s'_def EnableEvents_def Let_def threshold_enabled update_provider_def)
qed (use assms(1) in \<open>simp_all add: s'_def EnableEvents_def OnEventsEnabled_def update_provider_def
    set_threshold_def Let_def\<close>)

lemma LogMessage_keeps:
  assumes "instance_live s"
  shows "trace_provider (snd (LogEvent_LogMessage env t severity file line start message s)) = trace_provider s"
    and "trace_log (snd (LogEvent_LogMessage env t severity file line start message s)) = trace_log s"
    and "instance_live (snd (LogEvent_LogMessage env t severity file line start message s))"
  using assms
  by (simp_all add: LogMessage_live Let_def GetInstance_live[OF assms] instance_live_def go_def)

lemma traced_iff:
  fixes s env t name line start message
  assumes "instance_live s" "- 251 \<le> severity" "severity \<le> LOG_FATAL"
  defines "r \<equiv> LogEvent_LogMessage env t severity name line start message s"
  shows "length (traced (snd r)) = length (traced s) + (if 4 - severity \<le> uint (enable_level (trace_provider s)) then 1 else 0)"
    and "fst r \<longleftrightarrow> 4 - severity \<le> uint (enable_level (trace_provider s)) \<and> severity < old_log_level (trace_provider s)"
    and "\<not> 4 - severity \<le> uint (enable_level (trace_provider s)) \<Longrightarrow> traced (snd r) = traced s"
  using uint_severity_level[OF assms(2,3)] GetInstance_live[OF assms(1), of env t]
  unfolding r_def LogMessage_live[OF assms(1)] Let_def
  by (auto simp: word_less_def)

text \<open>
  C30. From the moment a trace session turns the provider on at a level of errors or more, the log and the
  trace agree: a message of any severity down to verbosity 251 passes the threshold of the log exactly if
  it is handed to the trace, exactly once. The handler keeps it from the other destinations exactly if it
  would not have passed before the session, so they are left with the messages that passed before and are
  of the level of the session: never more than before, but fewer if the session asks for less than the
  log showed (\<open>session_hides_messages\<close>). When the session ends the threshold is what it was, no message
  is traced and none is kept from the other destinations.
\<close>
theorem trace_session:
  assumes "instance_live s" and "log_min_level (trace_log s) \<le> LOG_ERROR"
    and "TraceLoggerHandle env buffer \<noteq> 0" and "2 \<le> TraceEnableLevel env (TraceLoggerHandle env buffer)"
    and "- 251 \<le> severity" and "severity \<le> LOG_FATAL"
  shows "let on = snd (EnableEvents env buffer s);
             (taken, after) = LogEvent_LogMessage env t severity file line start message on;
             off = snd (DisableEvents after);
             (taken', after') = LogEvent_LogMessage env t severity file line start message off
         in length (traced after) = length (traced s) + (if LOG_IS_ON severity (trace_log on) then 1 else 0) \<and>
            (taken \<longleftrightarrow> LOG_IS_ON severity (trace_log on) \<and> \<not> LOG_IS_ON severity (trace_log s)) \<and>
            (LOG_IS_ON severity (trace_log on) \<and> \<not> taken \<longleftrightarrow>
               LOG_IS_ON severity (trace_log s) \<and>
               4 - severity \<le> uint (TraceEnableLevel env (TraceLoggerHandle env buffer))) \<and>
            trace_log off = trace_log s \<and> traced after' = traced after \<and> \<not> taken'"
proof -
  define on where "on = snd (EnableEvents env buffer s)"
  define r where "r = LogEvent_LogMessage env t severity file line start message on"
  define off where "off = snd (DisableEvents (snd r))"
  define r' where "r' = LogEvent_LogMessage env t severity file line start message off"
  note e = Enable_live[OF assms(3), of s, folded on_def]
  have k: "2 \<le> uint (TraceEnableLevel env (TraceLoggerHandle env buffer))"
    using assms(4) by (simp add: word_le_def)
  have live: "instance_live on" using assms(1) e(3) by (simp add: instance_live_def)
  have is_on: "LOG_IS_ON severity (trace_log on) \<longleftrightarrow> 4 - severity \<le> uint (enable_level (trace_provider on))"
    using k assms(6) by (auto simp: LOG_IS_ON_def e(1,2) LOG_ERROR_def LOG_FATAL_def min_def max_def)
  have r: "length (traced (snd r)) = length (traced s) + (if LOG_IS_ON severity (trace_log on) then 1 else 0)"
    "fst r \<longleftrightarrow> LOG_IS_ON severity (trace_log on) \<and> \<not> LOG_IS_ON severity (trace_log s)"
    using traced_iff[OF live assms(5,6), of env t "file" line start message, folded r_def] is_on e(1,4)
    by (auto simp: LOG_IS_ON_def)
  note keeps = LogMessage_keeps[OF live, of env t severity "file" line start message, folded r_def]
  have off: "trace_log off = trace_log s" "enable_level (trace_provider off) = 0" "instance_live off"
    "traced off = traced (snd r)"
    using keeps e assms(2) by (simp_all add: off_def DisableEvents_def OnEventsDisabled_def PostEventsDisabled_def set_threshold_def update_provider_def instance_live_def SetMinLogLevel_def Let_def)
  have r': "traced (snd r') = traced off \<and> \<not> fst r'"
    using traced_iff[OF off(3) assms(5,6), of env t "file" line start message, folded r'_def] off(2) assms(6)
    by (simp add: LOG_FATAL_def)
  show ?thesis
    unfolding Let_def on_def[symmetric] r_def[symmetric] split_beta off_def[symmetric] r'_def[symmetric]
    using r off r' is_on e(1) by auto
qed

text \<open>A session that asks for verbose messages, of a log that shows information and above.\<close>

definition demo_trace_env :: trace_env where
  "demo_trace_env =
     \<lparr>TraceLoggerHandle = (\<lambda>_. 7), TraceEnableFlags = (\<lambda>_. ENABLE_LOG_MESSAGE_ONLY),
      TraceEnableLevel = (\<lambda>_. TRACE_LEVEL_VERBOSE), LastError = 0,
      RegisterTraceGuids = (\<lambda>_. (ERROR_SUCCESS, 3)), UnregisterTraceGuids = (\<lambda>_. ERROR_SUCCESS),
      TraceEvent = (\<lambda>_ _. ERROR_SUCCESS), StackBackTrace = (\<lambda>_ _. []), buffer_slot = 5\<rparr>"

definition demo_trace :: trace_state where
  "demo_trace =
     \<lparr>trace_log = log_start Map.empty,
      trace_singleton = \<lparr>instance_cell = 40, traits_of = \<lparr>dead = 1, constructions = [40], destructions = []\<rparr>,
        pcs = (\<lambda>_. Outside)\<rparr>,
      trace_provider = LogEventProvider_Init\<lparr>provider_name := kLogEventId, registration_handle := 3\<rparr>,
      traced = [], trace_handler = True\<rparr>"

theorem trace_session_witness:
  "fst (LogEvent_LogMessage demo_trace_env 0 (- 1) None 12 3 ''[I] started'' (snd (EnableEvents demo_trace_env 0 demo_trace)))"
proof -
  have h: "TraceLoggerHandle demo_trace_env 0 \<noteq> 0"
    and l: "2 \<le> TraceEnableLevel demo_trace_env (TraceLoggerHandle demo_trace_env 0)"
    and i: "instance_live demo_trace" and m: "log_min_level (trace_log demo_trace) \<le> LOG_ERROR"
    and m0: "log_min_level (trace_log demo_trace) = 0"
    and l5: "TraceEnableLevel demo_trace_env (TraceLoggerHandle demo_trace_env 0) = 5"
    by (simp_all add: demo_trace_env_def demo_trace_def instance_live_def kBeingCreatedMarker_def log_start_def
        LOG_ERROR_def trace_levels)
  have v: "- 251 \<le> (- 1 :: int)" "- 1 \<le> LOG_FATAL" by (simp_all add: LOG_FATAL_def)
  have on: "LOG_IS_ON (- 1) (trace_log (snd (EnableEvents demo_trace_env 0 demo_trace)))"
    "\<not> LOG_IS_ON (- 1) (trace_log demo_trace)"
    using Enable_live(2)[OF h, of demo_trace] m0 l5 by (simp_all add: LOG_IS_ON_def LOG_ERROR_def)
  from trace_session[OF i m h l v, of 0 None 12 3 "''[I] started''"] on show ?thesis
    by (simp add: Let_def split_beta)
qed

text \<open>
  A session at the level of errors raises the threshold of a log that showed warnings: while it is on they
  reach no destination at all.
\<close>

theorem session_hides_messages:
  assumes "TraceLoggerHandle env buffer \<noteq> 0" "TraceEnableLevel env (TraceLoggerHandle env buffer) = TRACE_LEVEL_ERROR"
    and "log_min_level (trace_log s) \<le> LOG_WARNING"
  shows "LOG_IS_ON LOG_WARNING (trace_log s) \<and> \<not> LOG_IS_ON LOG_WARNING (trace_log (snd (EnableEvents env buffer s)))"
  using Enable_live(2)[OF assms(1), of s] assms(2,3)
  by (simp add: LOG_IS_ON_def LOG_ERROR_def LOG_WARNING_def trace_levels)

theorem session_hides_messages_witness:
  "\<not> LOG_IS_ON LOG_WARNING (trace_log (snd (EnableEvents (demo_trace_env\<lparr>TraceEnableLevel := \<lambda>_. TRACE_LEVEL_ERROR\<rparr>) 0 demo_trace)))"
  by (rule session_hides_messages[THEN conjunct2]) (simp_all add: demo_trace_env_def demo_trace_def log_start_def LOG_WARNING_def)

text \<open>
  A session that is turned on again, to change its level, has its own threshold taken for the one to
  restore.
\<close>
lemma enabled_twice:
  assumes "TraceLoggerHandle env b \<noteq> 0" "TraceLoggerHandle env b' \<noteq> 0"
  shows "log_min_level (trace_log (snd (DisableEvents (snd (EnableEvents env b' (snd (EnableEvents env b s))))))) =
    min LOG_ERROR (4 - max 1 (uint (TraceEnableLevel env (TraceLoggerHandle env b))))"
  using Enable_live(1)[OF assms(2), of "snd (EnableEvents env b s)"] Enable_live(2)[OF assms(1), of s]
  by (simp add: DisableEvents_def OnEventsDisabled_def PostEventsDisabled_def set_threshold_def update_provider_def
      SetMinLogLevel_def Let_def)

text \<open>
  \<open>ShouldLog\<close> compares the level the other way round: of the levels other than the enabled one, it holds
  exactly for those whose messages \<open>Log\<close> drops.
\<close>
lemma ShouldLog_reversed:
  assumes "session_handle (trace_provider s) \<noteq> 0" "and flags (enable_flags (trace_provider s)) \<noteq> 0"
    and "level \<noteq> enable_level (trace_provider s)"
  shows "ShouldLog level flags (trace_provider s) \<longleftrightarrow> traced (snd (Log_text env cls type level message s)) = traced s"
  using assms by (auto simp: ShouldLog_def Log_text_def trace_event_def Let_def)

text \<open>After the exit of the process messages are neither traced nor kept back.\<close>

lemma GetInstance_gone:
  assumes "instance_cell (trace_singleton s) = 0" "dead (traits_of (trace_singleton s)) \<noteq> 0"
  shows "fst (GetInstance env t s) = False" "traced (snd (GetInstance env t s)) = traced s"
  using assms by (simp_all add: GetInstance_def get_alone_def get_move_def go_def atomics StaticMemory_New_def
      kBeingCreatedMarker_def Let_def)

lemma LogMessage_gone:
  assumes "instance_cell (trace_singleton s) = 0" "dead (traits_of (trace_singleton s)) \<noteq> 0"
  shows "fst (LogEvent_LogMessage env t severity file line start message s) = False"
    and "traced (snd (LogEvent_LogMessage env t severity file line start message s)) = traced s"
  using GetInstance_gone[OF assms, of env t] by (simp_all add: LogEvent_LogMessage_def Let_def split_beta)

end
