(* ===== verification/Locks.thy ===== *)
theory Locks
  imports Prelude
begin

text \<open>
  The lock of \<open>src/src/chromium/synchronization\<close>: \<open>LockImpl\<close> over a Windows critical section,
  \<open>Lock\<close> in the builds with and without \<open>NDEBUG\<close>, and the scopes \<open>AutoLock\<close> and \<open>AutoUnlock\<close>. The
  critical section is a parameter with its documented behaviour as the hypothesis \<open>documented\<close>. Threads
  open and close scopes in any order of their steps; an operation that would block gives no next state.
\<close>

section \<open>The critical section\<close>

text \<open>
  \<open>Enter\<close> blocks where it gives None. \<open>Held\<close> observes the owner and how often it entered.
\<close>

record 'c section_api =
  Initial :: 'c
  Enter :: "nat \<Rightarrow> 'c \<Rightarrow> 'c option"
  TryEnter :: "nat \<Rightarrow> 'c \<Rightarrow> bool \<times> 'c"
  Leave :: "nat \<Rightarrow> 'c \<Rightarrow> 'c"
  Held :: "'c \<Rightarrow> (nat \<times> nat) option"

definition entered :: "nat \<Rightarrow> (nat \<times> nat) option \<Rightarrow> nat \<times> nat" where
  "entered t h = (t, case h of None \<Rightarrow> 1 | Some (_, n) \<Rightarrow> n + 1)"

definition open_to :: "nat \<Rightarrow> (nat \<times> nat) option \<Rightarrow> bool" where
  "open_to t h \<longleftrightarrow> h = None \<or> fst (the h) = t"

definition documented :: "'c section_api \<Rightarrow> bool" where
  "documented api \<longleftrightarrow> Held api (Initial api) = None \<and>
     (\<forall>t c. if open_to t (Held api c)
            then (\<exists>c'. Enter api t c = Some c' \<and> Held api c' = Some (entered t (Held api c)))
            else Enter api t c = None) \<and>
     (\<forall>t c. if open_to t (Held api c)
            then (\<exists>c'. TryEnter api t c = (True, c') \<and> Held api c' = Some (entered t (Held api c)))
            else TryEnter api t c = (False, c)) \<and>
     (\<forall>t c n. Held api c = Some (t, n + 1) \<longrightarrow>
        Held api (Leave api t c) = (if n = 0 then None else Some (t, n)))"

section \<open>LockImpl\<close>

definition LockImpl_Try :: "'c section_api \<Rightarrow> nat \<Rightarrow> 'c \<Rightarrow> bool \<times> 'c" where
  "LockImpl_Try api t os_lock =
     (let (b, os_lock) = TryEnter api t os_lock in if b then (True, os_lock) else (False, os_lock))"

definition LockImpl_Lock :: "'c section_api \<Rightarrow> nat \<Rightarrow> 'c \<Rightarrow> 'c option" where
  "LockImpl_Lock api t os_lock = Enter api t os_lock"

definition LockImpl_Unlock :: "'c section_api \<Rightarrow> nat \<Rightarrow> 'c \<Rightarrow> 'c" where
  "LockImpl_Unlock api t os_lock = Leave api t os_lock"

section \<open>Lock\<close>

text \<open>
  The debugging members and the lock. A null thread id is None. A failed \<open>DCHECK\<close> logs and goes on;
  \<open>failed\<close> lists the conditions that failed.
\<close>

record 'c lock =
  owned_by_thread :: bool
  owning_thread_id :: "nat option"
  lock_impl :: 'c
  failed :: "string list"

definition Lock_Init :: "'c section_api \<Rightarrow> 'c lock" where
  "Lock_Init api = \<lparr>owned_by_thread = False, owning_thread_id = None, lock_impl = Initial api, failed = []\<rparr>"

definition dcheck :: "string \<Rightarrow> bool \<Rightarrow> 'c lock \<Rightarrow> 'c lock" where
  "dcheck name b l = (if b then l else l\<lparr>failed := failed l @ [name]\<rparr>)"

definition AssertAcquired :: "nat \<Rightarrow> 'c lock \<Rightarrow> 'c lock" where
  "AssertAcquired t l =
     (let l = dcheck ''owned_by_thread_'' (owned_by_thread l) l
      in dcheck ''owning_thread_id_'' (owning_thread_id l = Some t) l)"

definition CheckHeldAndUnmark :: "nat \<Rightarrow> 'c lock \<Rightarrow> 'c lock" where
  "CheckHeldAndUnmark t l =
     (let l = dcheck ''owned_by_thread_'' (owned_by_thread l) l;
          l = dcheck ''owning_thread_id_'' (owning_thread_id l = Some t) l
      in l\<lparr>owned_by_thread := False, owning_thread_id := None\<rparr>)"

definition CheckUnheldAndMark :: "nat \<Rightarrow> 'c lock \<Rightarrow> 'c lock" where
  "CheckUnheldAndMark t l =
     (let l = dcheck ''!owned_by_thread_'' (\<not> owned_by_thread l) l
      in l\<lparr>owned_by_thread := True, owning_thread_id := Some t\<rparr>)"

definition Acquire :: "'c section_api \<Rightarrow> nat \<Rightarrow> 'c lock \<Rightarrow> 'c lock option" where
  "Acquire api t l =
     map_option (\<lambda>c. CheckUnheldAndMark t (l\<lparr>lock_impl := c\<rparr>)) (LockImpl_Lock api t (lock_impl l))"

definition Release :: "'c section_api \<Rightarrow> nat \<Rightarrow> 'c lock \<Rightarrow> 'c lock" where
  "Release api t l =
     (let l = CheckHeldAndUnmark t l in l\<lparr>lock_impl := LockImpl_Unlock api t (lock_impl l)\<rparr>)"

definition Try :: "'c section_api \<Rightarrow> nat \<Rightarrow> 'c lock \<Rightarrow> bool \<times> 'c lock" where
  "Try api t l =
     (let (rv, c) = LockImpl_Try api t (lock_impl l);
          l = l\<lparr>lock_impl := c\<rparr>
      in (rv, if rv then CheckUnheldAndMark t l else l))"

text \<open>With \<open>NDEBUG\<close> the operations are those of the critical section and \<open>AssertAcquired\<close> does nothing.\<close>

definition Acquire_NDEBUG :: "'c section_api \<Rightarrow> nat \<Rightarrow> 'c \<Rightarrow> 'c option" where
  "Acquire_NDEBUG api t l = LockImpl_Lock api t l"

definition Release_NDEBUG :: "'c section_api \<Rightarrow> nat \<Rightarrow> 'c \<Rightarrow> 'c" where
  "Release_NDEBUG api t l = LockImpl_Unlock api t l"

definition Try_NDEBUG :: "'c section_api \<Rightarrow> nat \<Rightarrow> 'c \<Rightarrow> bool \<times> 'c" where
  "Try_NDEBUG api t l = LockImpl_Try api t l"

section \<open>Scopes\<close>

definition AutoLock_Init :: "'c section_api \<Rightarrow> nat \<Rightarrow> 'c lock \<Rightarrow> 'c lock option" where
  "AutoLock_Init api t l = Acquire api t l"

definition AutoLock_destructor :: "'c section_api \<Rightarrow> nat \<Rightarrow> 'c lock \<Rightarrow> 'c lock" where
  "AutoLock_destructor api t l = Release api t (AssertAcquired t l)"

definition AutoUnlock_Init :: "'c section_api \<Rightarrow> nat \<Rightarrow> 'c lock \<Rightarrow> 'c lock" where
  "AutoUnlock_Init api t l = Release api t (AssertAcquired t l)"

definition AutoUnlock_destructor :: "'c section_api \<Rightarrow> nat \<Rightarrow> 'c lock \<Rightarrow> 'c lock option" where
  "AutoUnlock_destructor api t l = Acquire api t l"

text \<open>
  The scopes a thread has open, the innermost first. A thread opens a locking scope, by \<open>AutoLock\<close> or after
  a successful \<open>Try\<close>, only when it does not hold the lock.
\<close>

datatype scope = Locking | Unlocking

definition holding :: "scope list \<Rightarrow> bool" where
  "holding ss \<longleftrightarrow> ss \<noteq> [] \<and> hd ss = Locking"

text \<open>The lock and the scopes of each thread.\<close>

type_synonym 'c locking = "'c lock \<times> (nat \<Rightarrow> scope list)"

inductive lock_step :: "'c section_api \<Rightarrow> 'c locking \<Rightarrow> 'c locking \<Rightarrow> bool" for api where
  autolock: "\<not> holding (ss t) \<Longrightarrow> AutoLock_Init api t l = Some l' \<Longrightarrow>
     lock_step api (l, ss) (l', ss(t := Locking # ss t))"
| tried: "\<not> holding (ss t) \<Longrightarrow> Try api t l = (True, l') \<Longrightarrow>
     lock_step api (l, ss) (l', ss(t := Locking # ss t))"
| not_tried: "\<not> holding (ss t) \<Longrightarrow> Try api t l = (False, l') \<Longrightarrow> lock_step api (l, ss) (l', ss)"
| end_autolock: "ss t = Locking # rest \<Longrightarrow>
     lock_step api (l, ss) (AutoLock_destructor api t l, ss(t := rest))"
| end_tried: "ss t = Locking # rest \<Longrightarrow> lock_step api (l, ss) (Release api t l, ss(t := rest))"
| autounlock: "ss t = Locking # rest \<Longrightarrow>
     lock_step api (l, ss) (AutoUnlock_Init api t l, ss(t := Unlocking # ss t))"
| end_autounlock: "ss t = Unlocking # rest \<Longrightarrow> AutoUnlock_destructor api t l = Some l' \<Longrightarrow>
     lock_step api (l, ss) (l', ss(t := rest))"

section \<open>The debugging members\<close>

text \<open>The critical section goes through the same states with and without \<open>NDEBUG\<close>.\<close>

lemma dcheck_keeps [simp]:
  "lock_impl (dcheck name b l) = lock_impl l" "owned_by_thread (dcheck name b l) = owned_by_thread l"
  "owning_thread_id (dcheck name b l) = owning_thread_id l"
  by (simp_all add: dcheck_def)

lemma marks_keep [simp]:
  "lock_impl (CheckUnheldAndMark t l) = lock_impl l" "lock_impl (CheckHeldAndUnmark t l) = lock_impl l"
  "lock_impl (AssertAcquired t l) = lock_impl l"
  by (simp_all add: CheckUnheldAndMark_def CheckHeldAndUnmark_def AssertAcquired_def Let_def)

lemma debug_refines:
  "map_option lock_impl (Acquire api t l) = Acquire_NDEBUG api t (lock_impl l)"
  "lock_impl (Release api t l) = Release_NDEBUG api t (lock_impl l)"
  "map_prod id lock_impl (Try api t l) = Try_NDEBUG api t (lock_impl l)"
  by (simp_all add: Acquire_def Acquire_NDEBUG_def Release_def Release_NDEBUG_def Try_def Try_NDEBUG_def
      Let_def option.map_comp o_def option.map_ident split: prod.splits)

text \<open>The members say who holds the lock, and no check failed.\<close>

definition marked :: "'c section_api \<Rightarrow> nat option \<Rightarrow> 'c lock \<Rightarrow> bool" where
  "marked api h l \<longleftrightarrow> Held api (lock_impl l) = map_option (\<lambda>t. (t, 1)) h \<and> owned_by_thread l = (h \<noteq> None) \<and>
     owning_thread_id l = h \<and> failed l = []"

lemma documentedD:
  assumes "documented api"
  shows "Held api (Initial api) = None"
    and "Held api c = None \<Longrightarrow> \<exists>c'. Enter api t c = Some c' \<and> Held api c' = Some (t, 1)"
    and "Held api c = Some (u, n) \<Longrightarrow> u \<noteq> t \<Longrightarrow> Enter api t c = None"
    and "Held api c = Some (t, n) \<Longrightarrow> \<exists>c'. Enter api t c = Some c' \<and> Held api c' = Some (t, n + 1)"
    and "Held api c = None \<Longrightarrow> \<exists>c'. TryEnter api t c = (True, c') \<and> Held api c' = Some (t, 1)"
    and "Held api c = Some (u, n) \<Longrightarrow> u \<noteq> t \<Longrightarrow> TryEnter api t c = (False, c)"
    and "Held api c = Some (t, 1) \<Longrightarrow> Held api (Leave api t c) = None"
    and "Held api c = Some (t, 2) \<Longrightarrow> Held api (Leave api t c) = Some (t, 1)"
proof -
  have e: "if open_to t (Held api c)
      then (\<exists>c'. Enter api t c = Some c' \<and> Held api c' = Some (entered t (Held api c)))
      else Enter api t c = None" for t c
    using assms by (simp add: documented_def)
  have y: "if open_to t (Held api c)
      then (\<exists>c'. TryEnter api t c = (True, c') \<and> Held api c' = Some (entered t (Held api c)))
      else TryEnter api t c = (False, c)" for t c
    using assms by (simp add: documented_def)
  have v: "Held api c = Some (t, n + 1) \<Longrightarrow>
      Held api (Leave api t c) = (if n = 0 then None else Some (t, n))" for t c n
    using assms by (simp add: documented_def)
  show "Held api (Initial api) = None" using assms by (simp add: documented_def)
  show "Held api c = None \<Longrightarrow> \<exists>c'. Enter api t c = Some c' \<and> Held api c' = Some (t, 1)"
    and "Held api c = Some (u, n) \<Longrightarrow> u \<noteq> t \<Longrightarrow> Enter api t c = None"
    and "Held api c = Some (t, n) \<Longrightarrow> \<exists>c'. Enter api t c = Some c' \<and> Held api c' = Some (t, n + 1)"
    using e[of t c] by (auto simp: open_to_def entered_def)
  show "Held api c = None \<Longrightarrow> \<exists>c'. TryEnter api t c = (True, c') \<and> Held api c' = Some (t, 1)"
    and "Held api c = Some (u, n) \<Longrightarrow> u \<noteq> t \<Longrightarrow> TryEnter api t c = (False, c)"
    using y[of t c] by (auto simp: open_to_def entered_def)
  show "Held api c = Some (t, 1) \<Longrightarrow> Held api (Leave api t c) = None"
    and "Held api c = Some (t, 2) \<Longrightarrow> Held api (Leave api t c) = Some (t, 1)"
    using v[of c t 0] v[of c t 1] by simp_all
qed

lemma marked_Init: "documented api \<Longrightarrow> marked api None (Lock_Init api)"
  by (simp add: marked_def Lock_Init_def documentedD(1))

lemma marked_Acquire:
  "documented api \<Longrightarrow> marked api None l \<Longrightarrow> \<exists>l'. Acquire api t l = Some l' \<and> marked api (Some t) l'"
  using documentedD(2)[of api "lock_impl l" t]
  by (auto simp: marked_def Acquire_def LockImpl_Lock_def CheckUnheldAndMark_def dcheck_def)

lemma blocked_Acquire:
  "documented api \<Longrightarrow> marked api (Some u) l \<Longrightarrow> u \<noteq> t \<Longrightarrow> Acquire api t l = None"
  using documentedD(3)[of api "lock_impl l" u 1 t] by (simp add: marked_def Acquire_def LockImpl_Lock_def)

lemma marked_Try:
  "documented api \<Longrightarrow> marked api None l \<Longrightarrow> \<exists>l'. Try api t l = (True, l') \<and> marked api (Some t) l'"
  using documentedD(5)[of api "lock_impl l" t]
  by (auto simp: marked_def Try_def LockImpl_Try_def CheckUnheldAndMark_def dcheck_def)

lemma blocked_Try:
  "documented api \<Longrightarrow> marked api (Some u) l \<Longrightarrow> u \<noteq> t \<Longrightarrow> Try api t l = (False, l)"
  using documentedD(6)[of api "lock_impl l" u 1 t] by (simp add: marked_def Try_def LockImpl_Try_def)

lemma marked_Release: "documented api \<Longrightarrow> marked api (Some t) l \<Longrightarrow> marked api None (Release api t l)"
  using documentedD(7)[of api "lock_impl l" t]
  by (simp add: marked_def Release_def LockImpl_Unlock_def CheckHeldAndUnmark_def dcheck_def Let_def)

lemma marked_Assert: "marked api (Some t) l \<Longrightarrow> AssertAcquired t l = l"
  by (simp add: marked_def AssertAcquired_def dcheck_def)

section \<open>Mutual exclusion\<close>

text \<open>A scope of one kind is inside one of the other kind, the outermost is a locking one.\<close>

fun alternating :: "scope list \<Rightarrow> bool" where
  "alternating [] = True"
| "alternating [s] = (s = Locking)"
| "alternating (a # b # ss) = (a \<noteq> b \<and> alternating (b # ss))"

definition lock_inv :: "'c section_api \<Rightarrow> 'c locking \<Rightarrow> bool" where
  "lock_inv api s = (case s of (l, ss) \<Rightarrow>
     (\<exists>h. marked api h l \<and> (\<forall>t. holding (ss t) = (h = Some t))) \<and> (\<forall>t. alternating (ss t)))"

lemma push_alternating:
  "alternating ss \<Longrightarrow> \<not> holding ss \<Longrightarrow> alternating (Locking # ss)"
  "alternating (Locking # ss) \<Longrightarrow> alternating (Unlocking # Locking # ss)"
  "alternating (s # ss) \<Longrightarrow> alternating ss"
  "alternating (Locking # ss) \<Longrightarrow> \<not> holding ss"
  "alternating (Unlocking # ss) \<Longrightarrow> holding ss"
  by (cases ss; cases "hd ss"; auto simp: holding_def)+

lemma holding_simps [simp]: "holding (Locking # ss)" "\<not> holding (Unlocking # ss)"
  by (simp_all add: holding_def)

lemma lock_invI:
  "marked api h l \<Longrightarrow> (\<And>t. holding (ss t) = (h = Some t)) \<Longrightarrow> (\<And>t. alternating (ss t)) \<Longrightarrow>
   lock_inv api (l, ss)"
  by (auto simp: lock_inv_def)

lemma lock_inv_take:
  assumes "lock_inv api (l, ss)" "\<forall>u. \<not> holding (ss u)" "marked api (Some t) l'"
    and "alternating scopes" "holding scopes"
  shows "lock_inv api (l', ss(t := scopes))"
proof (rule lock_invI[of _ "Some t"])
  fix u
  show "holding ((ss(t := scopes)) u) = (Some t = Some u)" using assms(2,5) by simp
  show "alternating ((ss(t := scopes)) u)" using assms(1,4) by (simp add: lock_inv_def)
qed (rule assms(3))

lemma lock_inv_give:
  assumes "lock_inv api (l, ss)" "holding (ss t)" "marked api None l'"
    and "alternating scopes" "\<not> holding scopes"
  shows "lock_inv api (l', ss(t := scopes))"
proof (rule lock_invI[of _ None])
  fix u
  show "holding ((ss(t := scopes)) u) = (None = Some u)" using assms(1,2,5) by (auto simp: lock_inv_def)
  show "alternating ((ss(t := scopes)) u)" using assms(1,4) by (simp add: lock_inv_def)
qed (rule assms(3))

lemma lock_inv_other:
  assumes "lock_inv api (l, ss)" "\<not> holding (ss t)"
  obtains (free) "marked api None l" "\<forall>u. \<not> holding (ss u)"
  | (taken) u where "marked api (Some u) l" "u \<noteq> t"
proof -
  from assms(1) obtain h where h: "marked api h l" "\<forall>t. holding (ss t) = (h = Some t)"
    by (auto simp: lock_inv_def)
  with assms(2) that show thesis by (cases h) auto
qed

lemma lock_inv_free:
  assumes "documented api" "lock_inv api (l, ss)" "\<not> holding (ss t)"
  shows "Acquire api t l = Some l' \<Longrightarrow> (\<forall>u. \<not> holding (ss u)) \<and> marked api (Some t) l'"
    and "Try api t l = (True, l') \<Longrightarrow> (\<forall>u. \<not> holding (ss u)) \<and> marked api (Some t) l'"
    and "Try api t l = (False, l') \<Longrightarrow> l' = l"
proof -
  from assms(2,3) have "((\<forall>u. \<not> holding (ss u)) \<and> (\<exists>a. Acquire api t l = Some a \<and> marked api (Some t) a) \<and>
      (\<exists>a. Try api t l = (True, a) \<and> marked api (Some t) a)) \<or> (Acquire api t l = None \<and> Try api t l = (False, l))"
  proof (cases rule: lock_inv_other)
    case free
    then show ?thesis using marked_Acquire[OF assms(1), of l t] marked_Try[OF assms(1), of l t] by simp
  next
    case (taken u)
    then show ?thesis using blocked_Acquire[OF assms(1), of u l t] blocked_Try[OF assms(1), of u l t] by simp
  qed
  then show "Acquire api t l = Some l' \<Longrightarrow> (\<forall>u. \<not> holding (ss u)) \<and> marked api (Some t) l'"
    and "Try api t l = (True, l') \<Longrightarrow> (\<forall>u. \<not> holding (ss u)) \<and> marked api (Some t) l'"
    and "Try api t l = (False, l') \<Longrightarrow> l' = l"
    by auto
qed

lemma lock_inv_holder: "lock_inv api (l, ss) \<Longrightarrow> holding (ss t) \<Longrightarrow> marked api (Some t) l"
  by (auto simp: lock_inv_def)

lemma lock_inv_alternating: "lock_inv api (l, ss) \<Longrightarrow> alternating (ss t)"
  by (simp add: lock_inv_def)

lemma lock_inv_step:
  assumes "documented api" "lock_inv api s" "lock_step api s s'"
  shows "lock_inv api s'"
  using assms(3,2)
proof (cases rule: lock_step.cases)
  case (autolock ss t l l')
  with lock_inv_free(1)[OF assms(1), of l ss t l'] assms(2) show ?thesis
    using push_alternating(1)[of "ss t"]
    by (auto simp: AutoLock_Init_def lock_inv_alternating intro!: lock_inv_take)
next
  case (tried ss t l l')
  with lock_inv_free(2)[OF assms(1), of l ss t l'] assms(2) show ?thesis
    using push_alternating(1)[of "ss t"] by (auto simp: lock_inv_alternating intro!: lock_inv_take)
next
  case (not_tried ss t l l')
  with lock_inv_free(3)[OF assms(1), of l ss t l'] assms(2) show ?thesis by simp
next
  case (end_autolock ss t rest l)
  with assms(2) have i: "lock_inv api (l, ss)" "holding (ss t)" by simp_all
  with marked_Release[OF assms(1) lock_inv_holder[OF i]] marked_Assert[OF lock_inv_holder[OF i]] end_autolock
    push_alternating(3)[of Locking rest] push_alternating(4)[of rest] lock_inv_alternating[of api l ss t]
  show ?thesis by (auto simp: AutoLock_destructor_def intro!: lock_inv_give)
next
  case (end_tried ss t rest l)
  with assms(2) have i: "lock_inv api (l, ss)" "holding (ss t)" by simp_all
  with marked_Release[OF assms(1) lock_inv_holder[OF i]] end_tried
    push_alternating(3)[of Locking rest] push_alternating(4)[of rest] lock_inv_alternating[of api l ss t]
  show ?thesis by (auto intro!: lock_inv_give)
next
  case (autounlock ss t rest l)
  with assms(2) have i: "lock_inv api (l, ss)" "holding (ss t)" by simp_all
  with marked_Release[OF assms(1) lock_inv_holder[OF i]] marked_Assert[OF lock_inv_holder[OF i]] autounlock
    push_alternating(2)[of rest] lock_inv_alternating[of api l ss t]
  show ?thesis by (auto simp: AutoUnlock_Init_def intro!: lock_inv_give)
next
  case (end_autounlock ss t rest l l')
  with assms(2) have i: "lock_inv api (l, ss)" "\<not> holding (ss t)" by simp_all
  with lock_inv_free(1)[OF assms(1) i, of l'] end_autounlock
    push_alternating(3)[of Unlocking rest] push_alternating(5)[of rest] lock_inv_alternating[of api l ss t]
  show ?thesis by (auto simp: AutoUnlock_destructor_def intro!: lock_inv_take)
qed

lemma lock_inv_reachable:
  assumes "documented api" "(lock_step api)\<^sup>*\<^sup>* (Lock_Init api, \<lambda>_. []) s"
  shows "lock_inv api s"
  using assms(2)
proof (induction rule: rtranclp_induct)
  case base
  show ?case by (rule lock_invI[OF marked_Init[OF assms(1)]]) (simp_all add: holding_def)
qed (rule lock_inv_step[OF assms(1)])

text \<open>
  C34. Over a critical section that behaves as documented, in every order of the threads' steps, at most one
  thread is inside a locking scope of the lock, the debugging members name exactly that thread, no check of
  the debug build fails, a thread is refused the lock only while another one holds it, and the critical
  section goes through the states it has in a build without the checks.
\<close>
theorem lock_excludes:
  assumes "documented api" and "(lock_step api)\<^sup>*\<^sup>* (Lock_Init api, \<lambda>_. []) (l, ss)"
  shows "(\<forall>t u. holding (ss t) \<longrightarrow> holding (ss u) \<longrightarrow> t = u) \<and>
    owned_by_thread l = (\<exists>t. holding (ss t)) \<and> (\<forall>t. owning_thread_id l = Some t \<longleftrightarrow> holding (ss t)) \<and>
    failed l = [] \<and>
    (\<forall>t. \<not> holding (ss t) \<longrightarrow> (Acquire api t l = None \<longleftrightarrow> (\<exists>u. holding (ss u)))) \<and>
    (\<forall>t. map_option lock_impl (Acquire api t l) = Acquire_NDEBUG api t (lock_impl l) \<and>
       map_prod id lock_impl (Try api t l) = Try_NDEBUG api t (lock_impl l) \<and>
       lock_impl (Release api t l) = Release_NDEBUG api t (lock_impl l))"
proof -
  obtain h where h: "marked api h l" "\<forall>t. holding (ss t) = (h = Some t)"
    using lock_inv_reachable[OF assms] by (auto simp: lock_inv_def)
  have "Acquire api t l = None \<longleftrightarrow> (\<exists>u. holding (ss u))" if "\<not> holding (ss t)" for t
    using h that marked_Acquire[OF assms(1), of l t] blocked_Acquire[OF assms(1), of _ l t]
    by (cases h) auto
  with h debug_refines show ?thesis by (auto simp: marked_def)
qed

text \<open>
  A thread that acquires the lock it holds is let in, and the checks report it: when it acquires, and when
  it releases the second time, while the section itself is freed by the second release only.
\<close>
lemma recursion_reported:
  assumes "documented api" and "marked api (Some t) l"
  obtains l' where "Acquire api t l = Some l'" "failed l' = [''!owned_by_thread_'']"
    "Held api (lock_impl (Release api t l')) = Some (t, 1)" "\<not> owned_by_thread (Release api t l')"
    "Held api (lock_impl (Release api t (Release api t l'))) = None"
    "failed (Release api t (Release api t l')) = [''!owned_by_thread_'', ''owned_by_thread_'', ''owning_thread_id_'']"
proof -
  from assms(2) have held: "Held api (lock_impl l) = Some (t, 1)" by (simp add: marked_def)
  from documentedD(4)[OF assms(1) held] obtain c where
    c: "Enter api t (lock_impl l) = Some c" "Held api c = Some (t, 2)" by (auto simp: numeral_2_eq_2)
  note once = documentedD(8)[OF assms(1) c(2)]
  from once documentedD(7)[OF assms(1) once] c(1) assms(2) that show thesis
    by (simp add: marked_def Acquire_def LockImpl_Lock_def CheckUnheldAndMark_def dcheck_def Release_def
        CheckHeldAndUnmark_def LockImpl_Unlock_def Let_def)
qed

text \<open>A critical section as its owner and count, and a run in which two threads take turns.\<close>

definition demo_section :: "(nat \<times> nat) option section_api" where
  "demo_section = \<lparr>Initial = None,
     Enter = (\<lambda>t c. if open_to t c then Some (Some (entered t c)) else None),
     TryEnter = (\<lambda>t c. if open_to t c then (True, Some (entered t c)) else (False, c)),
     Leave = (\<lambda>t c. case c of Some (u, Suc (Suc n)) \<Rightarrow> Some (u, Suc n) | _ \<Rightarrow> None),
     Held = id\<rparr>"

lemma demo_section_documented: "documented demo_section"
  by (auto simp: documented_def demo_section_def gr0_conv_Suc)

definition demo_lock :: "(nat \<times> nat) option lock" where
  "demo_lock = \<lparr>owned_by_thread = True, owning_thread_id = Some 2, lock_impl = Some (2, 1), failed = []\<rparr>"

lemma demo_lock_run:
  "(lock_step demo_section)\<^sup>*\<^sup>* (Lock_Init demo_section, \<lambda>_. []) (demo_lock, (\<lambda>_. [])(2 := [Locking]))"
proof -
  have "lock_step demo_section (Lock_Init demo_section, \<lambda>_. []) (demo_lock, (\<lambda>_. [])(2 := Locking # (\<lambda>_. []) 2))"
    by (rule lock_step.autolock)
      (simp_all add: AutoLock_Init_def Acquire_def LockImpl_Lock_def demo_section_def Lock_Init_def open_to_def
        entered_def CheckUnheldAndMark_def dcheck_def demo_lock_def holding_def)
  then show ?thesis by simp
qed

theorem lock_excludes_witness:
  "owning_thread_id demo_lock = Some 2 \<and> failed demo_lock = [] \<and> Acquire demo_section 1 demo_lock = None"
proof -
  have "holding (((\<lambda>_. [])(2 := [Locking])) (2 :: nat))"
    "\<not> holding (((\<lambda>_. [])(2 := [Locking])) (1 :: nat))"
    by (simp_all add: holding_def)
  then show ?thesis
    using lock_excludes[OF demo_section_documented demo_lock_run] by blast
qed

end
