(* ===== verification/Stack_Traces.thy ===== *)
theory Stack_Traces
  imports Numbers
begin

text \<open>
  The stack traces of \<open>src/src/chromium/debug/stack_trace.cc\<close> and \<open>stack_trace_win.cc\<close>: up to 62
  addresses, captured from the running thread, from an exception or from an array, and their printing with
  and without symbols. The debugging library of Windows is an environment. The lock and the singleton
  around the library are those of \<open>Locks\<close> and \<open>Singleton\<close>; its calls change nothing a trace depends on.
\<close>

definition kMaxTraces :: nat where "kMaxTraces = 62"

text \<open>The addresses \<open>trace_\<close> up to \<open>count_\<close>.\<close>

record stack_trace =
  trace_frames :: "64 word list"

text \<open>
  The frames of the running thread, given how many to skip and to capture; the frames that the calls of
  \<open>StackWalk64\<close> find, until it fails; the error of \<open>SymInitialize\<close>; the symbol of an address with the
  displacement; its file and line; the text of a pointer; whether the stream still takes output.
\<close>

record symbol_env =
  capture_frames :: "nat \<Rightarrow> nat \<Rightarrow> 64 word list"
  walk_frames :: "64 word list"
  sym_initialize :: "32 word option"
  sym_from_addr :: "64 word \<Rightarrow> (string \<times> 64 word) option"
  line_from_addr :: "64 word \<Rightarrow> (string \<times> 32 word) option"
  pointer_text :: "64 word \<Rightarrow> string"
  stream_good :: "string \<Rightarrow> bool"

definition StackTrace_of :: "64 word list \<Rightarrow> nat \<Rightarrow> stack_trace" where
  "StackTrace_of trace n = \<lparr>trace_frames = take (min n kMaxTraces) trace\<rparr>"

definition StackTrace_here :: "symbol_env \<Rightarrow> stack_trace" where
  "StackTrace_here env = \<lparr>trace_frames = capture_frames env 0 kMaxTraces\<rparr>"

text \<open>The loop of the constructor for an exception walks one frame more than it keeps.\<close>

fun walk_loop :: "64 word list \<Rightarrow> 64 word list \<Rightarrow> 64 word list" where
  "walk_loop [] kept = kept"
| "walk_loop (pc # pcs) kept = (if length kept < kMaxTraces then walk_loop pcs (kept @ [pc]) else kept)"

definition StackTrace_exception :: "symbol_env \<Rightarrow> stack_trace" where
  "StackTrace_exception env = \<lparr>trace_frames = walk_loop (walk_frames env) []\<rparr>"

definition Addresses :: "stack_trace \<Rightarrow> nat \<times> 64 word list option" where
  "Addresses st = (length (trace_frames st), if trace_frames st \<noteq> [] then Some (trace_frames st) else None)"

text \<open>The constructor of the symbol context; \<open>ERROR_SUCCESS\<close> is zero.\<close>

definition SymbolContext_Init :: "symbol_env \<Rightarrow> 32 word" where
  "SymbolContext_Init env = (case sym_initialize env of None \<Rightarrow> 0 | Some e \<Rightarrow> e)"

definition frame_line :: "symbol_env \<Rightarrow> 64 word \<Rightarrow> string" where
  "frame_line env frame =
     [CHR 0x09] @
     (case sym_from_addr env frame of
        Some (name, displacement) \<Rightarrow>
          name @ '' [0x'' @ pointer_text env frame @ ''+'' @ Uint64ToString (uint displacement) @ '']''
      | None \<Rightarrow> ''(No symbol) [0x'' @ pointer_text env frame @ '']'') @
     (case line_from_addr env frame of
        Some (name, line) \<Rightarrow> '' ('' @ name @ '':'' @ UintToString (uint line) @ '')''
      | None \<Rightarrow> []) @ [CHR 0x0A]"

text \<open>The loops over the frames stop when the stream no longer is good.\<close>

fun output_lines :: "symbol_env \<Rightarrow> (64 word \<Rightarrow> string) \<Rightarrow> 64 word list \<Rightarrow> string \<Rightarrow> string" where
  "output_lines env line [] os = os"
| "output_lines env line (f # fs) os = (if stream_good env os then output_lines env line fs (os @ line f) else os)"

definition OutputTraceToStream :: "symbol_env \<Rightarrow> 64 word list \<Rightarrow> string \<Rightarrow> string" where
  "OutputTraceToStream env trace os = output_lines env (frame_line env) trace os"

definition OutputToStream :: "symbol_env \<Rightarrow> stack_trace \<Rightarrow> string \<Rightarrow> string" where
  "OutputToStream env st os =
     (let error = SymbolContext_Init env
      in if error \<noteq> 0 then
           output_lines env (\<lambda>f. [CHR 0x09] @ pointer_text env f @ [CHR 0x0A]) (trace_frames st)
             (os @ ''Error initializing symbols ('' @ UintToString (uint error) @
              '').  Dumping unresolved backtrace:'' @ [CHR 0x0A])
         else OutputTraceToStream env (trace_frames st) (os @ ''Backtrace:'' @ [CHR 0x0A]))"

definition StackTrace_ToString :: "symbol_env \<Rightarrow> stack_trace \<Rightarrow> string" where
  "StackTrace_ToString env st = OutputToStream env st []"

section \<open>Bounds\<close>

lemma walk_loop_take: "length kept \<le> kMaxTraces \<Longrightarrow> walk_loop pcs kept = kept @ take (kMaxTraces - length kept) pcs"
  by (induction pcs kept rule: walk_loop.induct) (auto simp: take_Cons' Suc_diff_Suc)

text \<open>No constructor keeps more than 62 frames, and an exception's trace has its innermost ones.\<close>

lemma traces_fit:
  "length (trace_frames (StackTrace_of trace n)) \<le> kMaxTraces"
  "trace_frames (StackTrace_exception env) = take kMaxTraces (walk_frames env)"
  by (simp_all add: StackTrace_of_def StackTrace_exception_def walk_loop_take)

lemma output_lines_good:
  "(\<And>s. stream_good env s) \<Longrightarrow> output_lines env line fs os = os @ concat (map line fs)"
  by (induction fs arbitrary: os) simp_all

text \<open>On a good stream the trace has one line per frame, in order.\<close>

lemma trace_text:
  "(\<And>s. stream_good env s) \<Longrightarrow> sym_initialize env = None \<Longrightarrow>
   StackTrace_ToString env st = ''Backtrace:'' @ [CHR 0x0A] @ concat (map (frame_line env) (trace_frames st))"
  by (simp add: StackTrace_ToString_def OutputToStream_def SymbolContext_Init_def OutputTraceToStream_def
      output_lines_good)

end
