(* ===== verification/Provider_Threads.thy ===== *)
theory Provider_Threads
  imports Provider_Safety
begin

text \<open>
  The two threads of a started provider. The timer thread publishes with \<open>provider_t::Send\<close>, which
  for each session reads the item token and only then lets \<open>session_t::Send\<close> look at the permission;
  the event thread runs \<open>processEvent\<close>, where a login hands out tokens and at its end gives the
  permission. Nothing locks one out from the other. Each thread is a program counter here, and a
  step of the system is one access of one of them to what both share: a token, a permission, a
  submission.
\<close>

section \<open>The threads\<close>

text \<open>
  The timer thread inside \<open>provider_t::Send\<close>: about to read the token of the session \<open>i\<close>, holding what
  it has read before the test of the permission, past the test. The event thread inside
  \<open>OnLoginSuccess\<close>: about to send the directory, in the loop of \<open>ResetTokens\<close> with the entries that
  are left, about to unmute. \<open>overtaken\<close> is not in the code: it counts the sends that held no token
  when a login unmuted their session.
\<close>

datatype timer_pc =
    Idle
  | Fetching nat resp_msg nat
  | Holding nat resp_msg nat "nat option"
  | Submitting nat resp_msg nat "nat option"

datatype handler_pc = Quiet | Replying nat | Resetting nat "(string \<times> nat) list" | Unmuting nat

record threads =
  prov :: provider
  timer :: timer_pc
  handler :: handler_pc
  overtaken :: nat

definition threads_init :: "provider \<Rightarrow> threads" where
  "threads_init p = \<lparr>prov = p, timer = Idle, handler = Quiet, overtaken = 0\<rparr>"

text \<open>The end of \<open>provider_t::Send\<close>, after the loop over the sessions.\<close>

definition send_end :: "rfa_env \<Rightarrow> bool operation" where
  "send_end env = seq (modify (\<lambda>p. p\<lparr>provider_pc_msgs_sent := provider_pc_msgs_sent p + 1\<rparr>))
     (seq (touch_provider env) (ret True))"

definition timer_step :: "rfa_env \<Rightarrow> threads \<Rightarrow> threads" where
  "timer_step env c =
     (case timer c of
        Idle \<Rightarrow> c
      | Fetching a msg i \<Rightarrow>
          if i < length (sessions (prov c))
          then c\<lparr>timer := Holding a msg i (stream_token (prov c) a i)\<rparr>
          else c\<lparr>prov := snd (send_end env (prov c)), timer := Idle\<rparr>
      | Holding a msg i t \<Rightarrow>
          if is_muted (sessions (prov c) ! i) then c\<lparr>timer := Fetching a msg (Suc i)\<rparr>
          else c\<lparr>timer := Submitting a msg i t\<rparr>
      | Submitting a msg i t \<Rightarrow>
          let (out, p) = Submit env i msg t (prov c)
          in c\<lparr>prov := p, timer := (case out of Done _ \<Rightarrow> Fetching a msg (Suc i) | _ \<Rightarrow> Idle)\<rparr>)"

text \<open>What \<open>processEvent\<close> does on a successful login before it sends the directory.\<close>

definition login_received :: "rfa_env \<Rightarrow> nat \<Rightarrow> unit operation" where
  "login_received env i =
     seq (bump i SESSION_PC_RFA_EVENTS_RECEIVED)
    (seq (touch_session env i)
    (seq (bump i SESSION_PC_OMM_ITEM_EVENTS_RECEIVED)
    (seq (bump i SESSION_PC_RESPONSE_MSGS_RECEIVED)
    (seq (bump i SESSION_PC_MMT_LOGIN_RESPONSE_RECEIVED)
    (seq (on_session i (\<lambda>s. s\<lparr>stream_state := Some StreamOpen, data_state := Some DataOk\<rparr>))
         (bump i SESSION_PC_MMT_LOGIN_SUCCESS_RECEIVED))))))"

definition overtakes :: "timer_pc \<Rightarrow> nat \<Rightarrow> nat" where
  "overtakes t i = (case t of Holding _ _ j None \<Rightarrow> if j = i then 1 else 0 | _ \<Rightarrow> 0)"

definition handler_step :: "rfa_env \<Rightarrow> threads \<Rightarrow> threads" where
  "handler_step env c =
     (case handler c of
        Quiet \<Rightarrow> c
      | Replying i \<Rightarrow>
          let (out, p) = SendDirectoryResponse env i (prov c)
          in c\<lparr>prov := p, handler :=
               (case out of
                  Done _ \<Rightarrow> if has_provider (sessions p ! i) then Resetting i (directory p) else Unmuting i
                | _ \<Rightarrow> Quiet)\<rparr>
      | Resetting i [] \<Rightarrow> c\<lparr>handler := Unmuting i\<rparr>
      | Resetting i ((_, a) # entries) \<Rightarrow>
          let (out, p) = reset_token env i a (prov c)
          in c\<lparr>prov := p, handler := (case out of Done _ \<Rightarrow> Resetting i entries | _ \<Rightarrow> Quiet)\<rparr>
      | Unmuting i \<Rightarrow>
          c\<lparr>prov := snd (on_session i (\<lambda>s. s\<lparr>is_muted := False\<rparr>) (prov c)), handler := Quiet,
            overtaken := overtaken c + overtakes (timer c) i\<rparr>)"

text \<open>
  A login is taken apart; any other event touches the permission at most once and is one step. A
  send is of a live stream of the directory.
\<close>

inductive thread_step :: "rfa_env \<Rightarrow> threads \<Rightarrow> threads \<Rightarrow> bool" for env :: rfa_env where
  send: "timer c = Idle \<Longrightarrow> (name, a) \<in> set (directory (prov c)) \<Longrightarrow> streams (prov c) a \<noteq> None \<Longrightarrow>
    thread_step env c (c\<lparr>timer := Fetching a msg 0\<rparr>)"
| timer: "thread_step env c (timer_step env c)"
| login: "handler c = Quiet \<Longrightarrow> i < length (sessions (prov c)) \<Longrightarrow>
    item_handle (sessions (prov c) ! i) \<or> error_item_handle (sessions (prov c) ! i) \<Longrightarrow>
    thread_step env c (c\<lparr>prov := snd (login_received env i (prov c)), handler := Replying i\<rparr>)"
| event: "handler c = Quiet \<Longrightarrow> i < length (sessions (prov c)) \<Longrightarrow>
    item_handle (sessions (prov c) ! i) \<or> error_item_handle (sessions (prov c) ! i) \<Longrightarrow>
    verdict ev \<noteq> Some False \<Longrightarrow>
    thread_step env c (c\<lparr>prov := snd (processEvent env i ev (prov c))\<rparr>)"
| handler: "thread_step env c (handler_step env c)"

inductive threads_reach :: "rfa_env \<Rightarrow> config \<Rightarrow> threads \<Rightarrow> bool" for env :: rfa_env and cfg :: config where
  start: "link_reach env cfg p \<Longrightarrow> threads_reach env cfg (threads_init p)"
| step: "threads_reach env cfg c \<Longrightarrow> thread_step env c d \<Longrightarrow> threads_reach env cfg d"

section \<open>The steps are those of the operations\<close>

text \<open>A login event is its first part, the directory, the loop over the entries and the permission.\<close>

lemma bindm_ext_assoc: "bindm (bindm m f) g = bindm m (\<lambda>x. bindm (f x) g)"
  by (rule ext) (rule bindm_assoc)

lemma ret_bindm: "bindm (ret x) f = f x"
  by (rule ext) (simp add: method_simps)

lemma login_event_parts:
  "processEvent env i (OMMItemEvent (RespMsg MMT_LOGIN StreamOpen DataOk)) =
     seq (login_received env i)
       (try_catch
         (bindm (SendDirectoryResponse env i) (\<lambda>_. bindm (ResetTokens env i) (\<lambda>_.
            on_session i (\<lambda>s. s\<lparr>is_muted := False\<rparr>))))
         (\<lambda>e. e = Rfa_Invalid_Usage) (\<lambda>_. ret ()))"
  by (simp add: processEvent_def OnOMMItemEvent_def OnRespMsg_def OnLoginSuccess_def login_received_def
      seq_bindm bindm_ext_assoc)

lemma send_parts:
  "send_one env a msg i p =
     (if is_muted (sessions p ! i) then (Done (), p)
      else bindm (Submit env i msg (stream_token p a i)) (\<lambda>_. ret ()) p)"
  by (simp add: send_one_def session_Send_def method_simps bindm_assoc)

lemma sessions_Submit: "length (sessions (snd (Submit env i msg t p))) = length (sessions p)"
  using Submit_links[of env i msg t p] links_length[of "snd (Submit env i msg t p)" p]
    links_length[of "snd (Submit env i msg t p)" "p\<lparr>wire := wire p @ [(i, t, msg)]\<rparr>"]
  by (auto split: if_splits)

lemma funpow_after: "(f ^^ k) (f x) = y \<Longrightarrow> (f ^^ Suc k) x = y"
  by (simp add: funpow_swap1)

text \<open>Without steps of the other thread in between the steps of a send are \<open>provider_t::Send\<close>.\<close>

lemma timer_steps:
  assumes "timer c = Fetching a msg i" "length (sessions (prov c)) = n"
  shows "\<exists>k. (timer_step env ^^ k) c =
    c\<lparr>prov := snd (seq (for_each [i..<n] (send_one env a msg)) (send_end env) (prov c)), timer := Idle\<rparr>"
  using assms
proof (induction "n - i" arbitrary: i c)
  case 0
  show ?case
    by (rule exI[of _ 1]) (use 0 in \<open>simp add: timer_step_def method_simps\<close>)
next
  case (Suc d)
  let ?p = "prov c" and ?t = "stream_token (prov c) a i"
  have u: "[i..<n] = i # [Suc i..<n]" using Suc.hyps(2) by (simp add: upt_conv_Cons)
  have fetch: "timer_step env c = c\<lparr>timer := Holding a msg i ?t\<rparr>"
    using Suc.prems Suc.hyps(2) by (simp add: timer_step_def)
  show ?case
  proof (cases "is_muted (sessions ?p ! i)")
    case True
    have "timer_step env (timer_step env c) = c\<lparr>timer := Fetching a msg (Suc i)\<rparr>"
      unfolding fetch using True by (simp add: timer_step_def)
    moreover have "\<exists>k. (timer_step env ^^ k) (c\<lparr>timer := Fetching a msg (Suc i)\<rparr>) =
        c\<lparr>prov := snd (seq (for_each [Suc i..<n] (send_one env a msg)) (send_end env) ?p), timer := Idle\<rparr>"
      using Suc.hyps(1)[of "Suc i" "c\<lparr>timer := Fetching a msg (Suc i)\<rparr>"] Suc.prems Suc.hyps(2) by simp
    moreover have "seq (for_each [i..<n] (send_one env a msg)) (send_end env) ?p =
        seq (for_each [Suc i..<n] (send_one env a msg)) (send_end env) ?p"
      using True by (simp add: u seq_bindm bindm_assoc) (simp add: bindm_def send_parts)
    ultimately show ?thesis by (metis funpow_after)
  next
    case False
    obtain out q where q: "Submit env i msg ?t ?p = (out, q)" by force
    have len: "length (sessions q) = n" using sessions_Submit[of env i msg ?t ?p] q Suc.prems by simp
    have one: "send_one env a msg i ?p = (case out of Done _ \<Rightarrow> (Done (), q) | Raise e \<Rightarrow> (Raise e, q) | Diverged \<Rightarrow> (Diverged, q))"
      using False q by (cases out) (simp_all add: send_parts bindm_def method_simps)
    have rest: "seq (for_each [i..<n] (send_one env a msg)) (send_end env) ?p =
        (case out of Done _ \<Rightarrow> seq (for_each [Suc i..<n] (send_one env a msg)) (send_end env) q
          | Raise e \<Rightarrow> (Raise e, q) | Diverged \<Rightarrow> (Diverged, q))"
      by (simp add: u seq_bindm bindm_assoc) (simp add: bindm_def seq_def one split: outcome.splits)
    have three: "timer_step env (timer_step env (timer_step env c)) =
        c\<lparr>prov := q, timer := (case out of Done _ \<Rightarrow> Fetching a msg (Suc i) | _ \<Rightarrow> Idle)\<rparr>"
      unfolding fetch using False q by (simp add: timer_step_def)
    show ?thesis
    proof (cases out)
      case (Done x)
      have "\<exists>k. (timer_step env ^^ k) (c\<lparr>prov := q, timer := Fetching a msg (Suc i)\<rparr>) =
          c\<lparr>prov := snd (seq (for_each [Suc i..<n] (send_one env a msg)) (send_end env) q), timer := Idle\<rparr>"
        using Suc.hyps(1)[of "Suc i" "c\<lparr>prov := q, timer := Fetching a msg (Suc i)\<rparr>"] len Suc.hyps(2) by simp
      then obtain k where "(timer_step env ^^ k) (c\<lparr>prov := q, timer := Fetching a msg (Suc i)\<rparr>) =
          c\<lparr>prov := snd (seq (for_each [Suc i..<n] (send_one env a msg)) (send_end env) q), timer := Idle\<rparr>" ..
      then have "(timer_step env ^^ k) (timer_step env (timer_step env (timer_step env c))) =
          c\<lparr>prov := snd (seq (for_each [i..<n] (send_one env a msg)) (send_end env) ?p), timer := Idle\<rparr>"
        by (simp add: three rest Done)
      then show ?thesis by (metis funpow_after)
    qed (use three rest in \<open>auto simp: numeral_3_eq_3 intro!: exI[of _ 3]\<close>)
  qed
qed

theorem send_uninterrupted:
  assumes "timer c = Idle"
  shows "\<exists>k. (timer_step env ^^ k) (c\<lparr>timer := Fetching a msg 0\<rparr>) = c\<lparr>prov := snd (provider_Send env a msg (prov c))\<rparr>"
proof -
  have "snd (provider_Send env a msg (prov c)) =
      snd (seq (for_each [0..<length (sessions (prov c))] (send_one env a msg)) (send_end env) (prov c))"
    by (simp add: provider_Send_def method_simps send_one_def[abs_def] send_end_def)
  moreover have "c\<lparr>prov := q, timer := Idle\<rparr> = c\<lparr>prov := q\<rparr>" for q using assms by (cases c) simp
  ultimately show ?thesis
    using timer_steps[of "c\<lparr>timer := Fetching a msg 0\<rparr>" a msg 0 "length (sessions (prov c))" env] by simp
qed

text \<open>And without steps of the timer thread in between the steps of a login are \<open>processEvent\<close>.\<close>

lemma reset_steps:
  assumes "handler c = Resetting i es" "timer c = Idle"
  shows "\<exists>k. (handler_step env ^^ k) c = c\<lparr>prov := snd (seq (for_each es (\<lambda>(_, a). reset_token env i a))
      (on_session i (\<lambda>s. s\<lparr>is_muted := False\<rparr>)) (prov c)), handler := Quiet\<rparr>"
  using assms
proof (induction es arbitrary: c)
  case Nil
  have "handler_step env (handler_step env c) =
      c\<lparr>prov := snd (on_session i (\<lambda>s. s\<lparr>is_muted := False\<rparr>) (prov c)), handler := Quiet\<rparr>"
    using Nil by (simp add: handler_step_def overtakes_def)
  then show ?case by (intro exI[of _ 2]) (simp add: numeral_2_eq_2 method_simps)
next
  case (Cons e es)
  obtain ric a where e: "e = (ric, a)" by force
  obtain out q where q: "reset_token env i a (prov c) = (out, q)" by force
  let ?u = "on_session i (\<lambda>s. s\<lparr>is_muted := False\<rparr>)"
  have one: "handler_step env c = c\<lparr>prov := q, handler := (case out of Done _ \<Rightarrow> Resetting i es | _ \<Rightarrow> Quiet)\<rparr>"
    using Cons.prems q e by (simp add: handler_step_def)
  have rest: "seq (for_each (e # es) (\<lambda>(_, a). reset_token env i a)) ?u (prov c) =
      (case out of Done _ \<Rightarrow> seq (for_each es (\<lambda>(_, a). reset_token env i a)) ?u q
        | Raise x \<Rightarrow> (Raise x, q) | Diverged \<Rightarrow> (Diverged, q))"
    using q by (simp add: e seq_bindm bindm_assoc) (simp add: bindm_def seq_def split: outcome.splits)
  show ?case
  proof (cases out)
    case (Done x)
    obtain k where "(handler_step env ^^ k) (c\<lparr>prov := q, handler := Resetting i es\<rparr>) =
        c\<lparr>prov := snd (seq (for_each es (\<lambda>(_, a). reset_token env i a)) ?u q), handler := Quiet\<rparr>"
      using Cons.IH[of "c\<lparr>prov := q, handler := Resetting i es\<rparr>"] Cons.prems by auto
    then have "(handler_step env ^^ k) (handler_step env c) = c\<lparr>prov := snd
        (seq (for_each (e # es) (\<lambda>(_, a). reset_token env i a)) ?u (prov c)), handler := Quiet\<rparr>"
      by (simp add: one rest Done del: for_each.simps)
    then show ?thesis by (metis funpow_after)
  qed (use one rest in \<open>auto intro!: exI[of _ 1]\<close>)
qed

theorem login_uninterrupted:
  assumes "handler c = Quiet" "timer c = Idle"
  shows "\<exists>k. (handler_step env ^^ k) (c\<lparr>prov := snd (login_received env i (prov c)), handler := Replying i\<rparr>) =
    c\<lparr>prov := snd (processEvent env i (OMMItemEvent (RespMsg MMT_LOGIN StreamOpen DataOk)) (prov c))\<rparr>"
proof -
  let ?u = "on_session i (\<lambda>s. s\<lparr>is_muted := False\<rparr>)"
  obtain p where p: "login_received env i (prov c) = (Done (), p)"
    by (simp add: login_received_def rfa_run)
  obtain out q where q: "SendDirectoryResponse env i p = (out, q)" by force
  let ?c = "c\<lparr>prov := p, handler := Replying i\<rparr>"
  have swallowed: "snd (try_catch m (\<lambda>e. e = Rfa_Invalid_Usage) (\<lambda>_. ret ()) s) = snd (m s)" for m and s :: provider
    by (simp add: try_catch_def method_simps split: prod.splits outcome.splits)
  have goal: "snd (processEvent env i (OMMItemEvent (RespMsg MMT_LOGIN StreamOpen DataOk)) (prov c)) =
      (case out of Done _ \<Rightarrow> snd (bindm (ResetTokens env i) (\<lambda>_. ?u) q) | _ \<Rightarrow> q)"
    unfolding login_event_parts using q
    by (simp add: seq_Done_run[of "login_received env i", OF p] swallowed bindm_def[of "SendDirectoryResponse env i"]
        split: outcome.splits)
  have one: "handler_step env ?c = c\<lparr>prov := q, handler :=
      (case out of Done _ \<Rightarrow> if has_provider (sessions q ! i) then Resetting i (directory q) else Unmuting i | _ \<Rightarrow> Quiet)\<rparr>"
    using q by (simp add: handler_step_def)
  have self: "c\<lparr>prov := r, handler := Quiet\<rparr> = c\<lparr>prov := r\<rparr>" for r using assms(1) by (cases c) simp
  have "\<exists>k. (handler_step env ^^ k) ?c = c\<lparr>prov := (case out of Done _ \<Rightarrow> snd (bindm (ResetTokens env i) (\<lambda>_. ?u) q) | _ \<Rightarrow> q)\<rparr>"
  proof (cases out)
    case (Done x)
    show ?thesis
    proof (cases "has_provider (sessions q ! i)")
      case True
      have "snd (bindm (ResetTokens env i) (\<lambda>_. ?u) q) =
          snd (seq (for_each (directory q) (\<lambda>(_, a). reset_token env i a)) ?u q)"
        using True by (simp add: ResetTokens_def method_simps seq_bindm bindm_assoc ret_bindm)
      moreover obtain k where "(handler_step env ^^ k) (c\<lparr>prov := q, handler := Resetting i (directory q)\<rparr>) =
          c\<lparr>prov := snd (seq (for_each (directory q) (\<lambda>(_, a). reset_token env i a)) ?u q), handler := Quiet\<rparr>"
        using reset_steps[of "c\<lparr>prov := q, handler := Resetting i (directory q)\<rparr>" i "directory q" env] assms(2) by auto
      ultimately have "(handler_step env ^^ k) (handler_step env ?c) =
          c\<lparr>prov := snd (bindm (ResetTokens env i) (\<lambda>_. ?u) q)\<rparr>"
        using True by (simp add: one Done self)
      then show ?thesis unfolding Done outcome.case by (metis funpow_after)
    next
      case False
      have "snd (bindm (ResetTokens env i) (\<lambda>_. ?u) q) = snd (?u q)"
        using False by (simp add: ResetTokens_def method_simps bindm_assoc)
      moreover have "handler_step env (handler_step env ?c) = c\<lparr>prov := snd (?u q), handler := Quiet\<rparr>"
        unfolding one using False assms(2) by (simp add: Done handler_step_def overtakes_def)
      ultimately show ?thesis
        by (intro exI[of _ 2]) (simp add: Done numeral_2_eq_2 self del: threads.update_convs)
    qed
  qed (use one self in \<open>auto intro!: exI[of _ 1]\<close>)
  then show ?thesis using p by (simp add: goal)
qed

section \<open>The wire is only written\<close>

text \<open>
  \<open>writes m\<close>: what the wire holds already makes no difference to \<open>m\<close>, which only adds to it. The
  invariant of the connection logic, which has every token of the wire present, is so used of a
  provider whose wire is not looked at.
\<close>

definition writes :: "'a operation \<Rightarrow> bool" where
  "writes m \<longleftrightarrow> (\<forall>p w. m (p\<lparr>wire := w @ wire p\<rparr>) = (fst (m p), (snd (m p))\<lparr>wire := w @ wire (snd (m p))\<rparr>))"

lemma writesD: "writes m \<Longrightarrow> m (p\<lparr>wire := w @ wire p\<rparr>) = (fst (m p), (snd (m p))\<lparr>wire := w @ wire (snd (m p))\<rparr>)"
  by (simp add: writes_def)

lemma writes_bindm: "writes m \<Longrightarrow> (\<And>x. writes (f x)) \<Longrightarrow> writes (bindm m f)"
  unfolding writes_def by (auto simp: bindm_def split: prod.splits outcome.splits)

lemma writes_seq: "writes m \<Longrightarrow> writes k \<Longrightarrow> writes (seq m k)"
  by (simp add: seq_def writes_bindm)

lemma writes_try: "writes m \<Longrightarrow> (\<And>e. writes (h e)) \<Longrightarrow> writes (try_catch m P h)"
  unfolding writes_def by (auto simp: try_catch_def split: prod.splits outcome.splits)

lemma writes_gets: "(\<And>p w. g (p\<lparr>wire := w\<rparr>) = g p) \<Longrightarrow> writes (gets g)"
  by (simp add: writes_def method_simps)

lemma writes_modify: "(\<And>p w. f (p\<lparr>wire := w @ wire p\<rparr>) = (f p)\<lparr>wire := w @ wire (f p)\<rparr>) \<Longrightarrow> writes (modify f)"
  by (simp add: writes_def method_simps)

lemma writes_basic: "writes (ret x)" "writes (throw e)" "writes (rfa_call answer)"
  by (simp_all add: writes_def method_simps rfa_call_def)

lemma writes_on_session: "writes (on_session i f)"
  unfolding on_session_def by (intro writes_modify) simp

lemma writes_touch: "writes (bump i s)" "writes (touch_session env i)" "writes (touch_provider env)"
  unfolding bump_def touch_session_def touch_provider_def clock_call_def
  by (intro writes_bindm writes_basic writes_on_session writes_modify; simp)+

lemma writes_for_each: "(\<And>x. x \<in> set xs \<Longrightarrow> writes (f x)) \<Longrightarrow> writes (for_each xs f)"
  by (induction xs) (simp_all add: writes_basic writes_seq)

lemma writes_if: "(b \<Longrightarrow> writes m) \<Longrightarrow> (\<not> b \<Longrightarrow> writes k) \<Longrightarrow> writes (if b then m else k)"
  by simp

lemmas writes_intro = writes_bindm writes_seq writes_try writes_basic writes_on_session writes_touch
  writes_for_each writes_if

lemma writes_set_token: "writes (set_token a i t)"
  unfolding set_token_def by (intro writes_modify) simp

lemma writes_generateItemToken: "writes (generateItemToken env i)"
  unfolding generateItemToken_def by (intro writes_intro writes_gets; simp)

lemma writes_Submit: "writes (Submit env i msg t)"
  unfolding Submit_def by (intro writes_intro writes_gets writes_modify; simp)

lemma writes_SendDirectoryResponse: "writes (SendDirectoryResponse env i)"
  unfolding SendDirectoryResponse_def GetServiceDirectory_def
  by (intro writes_intro writes_Submit writes_generateItemToken writes_gets)
    (simp add: GetServiceFilterList_def GetServiceInformation_def GetServiceState_def rwf_def)

lemma writes_reset_token: "writes (reset_token env i a)"
  unfolding reset_token_def
  by (intro writes_bindm writes_gets) (auto split: option.split intro!: writes_intro writes_set_token writes_generateItemToken)

lemma writes_login_received: "writes (login_received env i)"
  unfolding login_received_def by (intro writes_intro)

lemma writes_processEvent: "verdict ev \<noteq> Some False \<Longrightarrow> writes (processEvent env i ev)"
  unfolding processEvent_def OnOMMItemEvent_def OnRespMsg_def OnLoginSuspect_def OnLoginClosed_def OnOMMCmdErrorEvent_def
  by (cases ev rule: verdict.cases)
    (auto split: model_type.splits stream_enum.splits data_enum.splits item_msg.splits intro!: writes_intro)

section \<open>The invariant\<close>

definition calm :: "provider \<Rightarrow> bool" where
  "calm p \<longleftrightarrow> link_inv (p\<lparr>wire := []\<rparr>)"

definition nulls :: "provider \<Rightarrow> nat" where
  "nulls p = length (filter (\<lambda>(_, t, _). t = None) (wire p))"

text \<open>A silent or writing operation that preserves the invariant of the connection logic keeps it calm.\<close>

lemma wire_irrelevant:
  "has_token (p\<lparr>wire := w\<rparr>) = has_token p" "sized (p\<lparr>wire := w\<rparr>) = sized p"
  "session_inv (p\<lparr>wire := w\<rparr>) = session_inv p" "stream_token (p\<lparr>wire := w\<rparr>) = stream_token p"
proof -
  show h: "has_token (p\<lparr>wire := w\<rparr>) = has_token p" "sized (p\<lparr>wire := w\<rparr>) = sized p"
    "stream_token (p\<lparr>wire := w\<rparr>) = stream_token p"
    by (simp_all add: has_token_def sized_def stream_token_def fun_eq_iff)
  then show "session_inv (p\<lparr>wire := w\<rparr>) = session_inv p" by (simp add: fun_eq_iff)
qed

lemma calm_link_inv: "calm (p\<lparr>wire := w\<rparr>) = calm p" "link_inv p \<longleftrightarrow> calm p \<and> nulls p = 0"
  by (auto simp: calm_def link_inv_def wire_irrelevant nulls_def filter_empty_conv)

lemma calm_run:
  assumes "writes m" "link_inv (snd (m (p\<lparr>wire := []\<rparr>)))"
  shows "calm (snd (m p)) \<and> nulls (snd (m p)) = nulls p"
proof -
  let ?q = "snd (m (p\<lparr>wire := []\<rparr>))"
  have "snd (m p) = ?q\<lparr>wire := wire p @ wire ?q\<rparr>"
    using writesD[OF assms(1), of "wire p" "p\<lparr>wire := []\<rparr>"] by simp
  then show ?thesis using assms(2) by (simp add: calm_link_inv nulls_def)
qed

lemma calm_keeps:
  assumes "writes m" "keeps link_inv m" "calm p"
  shows "calm (snd (m p)) \<and> nulls (snd (m p)) = nulls p"
  using calm_run[OF assms(1)] keepsD[OF assms(2)] assms(3) by (simp add: calm_def)

text \<open>What no step changes: the directory, which streams are alive, who has a provider and a client.\<close>

definition frame :: "provider \<Rightarrow> (string \<times> nat) list \<times> nat set \<times> (bool \<times> bool) list" where
  "frame p = (directory p, dom (streams p), map (\<lambda>s. (has_provider s, item_handle s \<or> error_item_handle s)) (sessions p))"

lemma frame_core:
  "map core (sessions q) = map core (sessions p) \<Longrightarrow> directory q = directory p \<Longrightarrow> dom (streams q) = dom (streams p) \<Longrightarrow>
   frame q = frame p"
proof -
  assume a: "map core (sessions q) = map core (sessions p)" "directory q = directory p" "dom (streams q) = dom (streams p)"
  have "map ((\<lambda>(_, h, r, _). (h, r)) \<circ> core) (sessions q) = map ((\<lambda>(_, h, r, _). (h, r)) \<circ> core) (sessions p)"
    using a(1) by (simp flip: map_map)
  then show ?thesis using a(2,3) by (simp add: frame_def core_def comp_def)
qed

definition framed :: "'a operation \<Rightarrow> bool" where
  "framed m \<longleftrightarrow> (\<forall>v. keeps (\<lambda>p. frame p = v) m)"

lemma framedD: "framed m \<Longrightarrow> frame (snd (m p)) = frame p"
  unfolding framed_def keeps_def by blast

lemma framed_silent: "silent m \<Longrightarrow> framed m"
  unfolding framed_def
  by (intro allI silent_keeps_links) (auto simp: links_def dest: frame_core)

lemma framed_intro:
  "framed m \<Longrightarrow> (\<And>x. framed (f x)) \<Longrightarrow> framed (bindm m f)"
  "framed u \<Longrightarrow> framed k \<Longrightarrow> framed (seq u k)"
  "framed m \<Longrightarrow> (\<And>e. framed (h e)) \<Longrightarrow> framed (try_catch m P h)"
  "framed (ret x)"
  unfolding framed_def by (auto intro!: keeps_bindm keeps_seq keeps_try keeps_ret)

lemma framed_set_token: "framed (set_token a i t)"
  unfolding framed_def keeps_def by (auto simp: frame_def tokens_set dom_def split: if_splits)

lemma framed_Submit: "framed (Submit env i msg t)"
  unfolding framed_def keeps_def
proof (intro allI impI)
  fix v p
  assume v: "frame p = v"
  have "frame (snd (Submit env i msg t p)) = frame p"
    using Submit_links[of env i msg t p] by (intro frame_core) (auto simp: links_def split: if_splits)
  then show "frame (snd (Submit env i msg t p)) = v" using v by simp
qed

lemma framed_on_session:
  assumes "\<And>s. has_provider (f s) = has_provider s" "\<And>s. item_handle (f s) = item_handle s"
    "\<And>s. error_item_handle (f s) = error_item_handle s"
  shows "framed (on_session i f)"
proof -
  let ?g = "\<lambda>s. (has_provider s, item_handle s \<or> error_item_handle s)"
  have "map ?g (xs[i := f (xs ! i)]) = map ?g xs" for xs
    by (cases "i < length xs"; rule nth_equalityI) (auto simp: nth_list_update assms)
  then show ?thesis
    unfolding framed_def on_session_def by (intro allI keeps_modify) (simp add: frame_def)
qed

lemmas framed_calls = framed_silent[OF silent_bump] framed_silent[OF silent_rfa_call] framed_silent[OF silent_GetServiceDirectory]
  framed_silent[OF silent_generateItemToken] framed_silent[OF silent_touch_session] framed_silent[OF silent_touch_provider]
  framed_silent[OF silent_basic(2)] framed_silent[OF silent_basic(3)]

lemma framed_SendDirectoryResponse: "framed (SendDirectoryResponse env i)"
  unfolding SendDirectoryResponse_def
  by (intro framed_intro framed_calls) (auto intro!: framed_intro framed_calls framed_Submit)

lemma framed_reset_token: "framed (reset_token env i a)"
  unfolding reset_token_def
  by (intro framed_intro framed_calls) (auto intro!: framed_intro framed_calls framed_set_token split: option.split)

lemma silent_login_received: "silent (login_received env i)"
  unfolding login_received_def by (intro silent_intro silent_on_session) (simp add: core_def)

lemma framed_processEvent: "verdict ev \<noteq> Some False \<Longrightarrow> framed (processEvent env i ev)"
  unfolding processEvent_def OnOMMItemEvent_def OnRespMsg_def OnLoginSuspect_def OnLoginClosed_def OnOMMCmdErrorEvent_def
  by (cases ev rule: verdict.cases)
    (auto split: model_type.splits stream_enum.splits data_enum.splits item_msg.splits
      intro!: framed_intro framed_calls framed_on_session)

text \<open>
  The timer thread sends a live stream of the directory. The event thread works for a session with a
  provider; the entries of the directory that \<open>ResetTokens\<close> has passed have their token.
\<close>

fun timer_ok :: "provider \<Rightarrow> timer_pc \<Rightarrow> bool" where
  "timer_ok p Idle = True"
| "timer_ok p (Fetching a msg i) = (a \<in> snd ` set (directory p) \<and> streams p a \<noteq> None)"
| "timer_ok p (Holding a msg i t) = (a \<in> snd ` set (directory p) \<and> streams p a \<noteq> None \<and> i < length (sessions p))"
| "timer_ok p (Submitting a msg i t) = (a \<in> snd ` set (directory p) \<and> streams p a \<noteq> None \<and> i < length (sessions p))"

fun handler_ok :: "provider \<Rightarrow> handler_pc \<Rightarrow> bool" where
  "handler_ok p Quiet = True"
| "handler_ok p (Replying i) = (i < length (sessions p) \<and> has_provider (sessions p ! i))"
| "handler_ok p (Resetting i es) = (i < length (sessions p) \<and> has_provider (sessions p ! i) \<and>
     set es \<subseteq> set (directory p) \<and> (\<forall>e \<in> set (directory p) - set es. has_token p i (snd e)))"
| "handler_ok p (Unmuting i) = (i < length (sessions p) \<and> has_provider (sessions p ! i) \<and>
     (\<forall>e \<in> set (directory p). has_token p i (snd e)))"

text \<open>A null token that will be submitted unless the session is muted first.\<close>

definition pending_null :: "provider \<Rightarrow> timer_pc \<Rightarrow> nat" where
  "pending_null p t =
     (case t of
        Holding _ _ i None \<Rightarrow> if is_muted (sessions p ! i) then 0 else 1
      | Submitting _ _ _ None \<Rightarrow> 1
      | _ \<Rightarrow> 0)"

definition threads_inv :: "threads \<Rightarrow> bool" where
  "threads_inv c \<longleftrightarrow> calm (prov c) \<and> timer_ok (prov c) (timer c) \<and> handler_ok (prov c) (handler c) \<and>
     nulls (prov c) + pending_null (prov c) (timer c) \<le> overtaken c"

lemma frame_parts:
  assumes "frame q = frame p"
  shows "directory q = directory p" "length (sessions q) = length (sessions p)" "streams q a = None \<longleftrightarrow> streams p a = None"
    "i < length (sessions p) \<Longrightarrow> has_provider (sessions q ! i) = has_provider (sessions p ! i)"
proof -
  show d: "directory q = directory p" "streams q a = None \<longleftrightarrow> streams p a = None"
    using assms by (simp_all add: frame_def) (metis domIff)
  let ?g = "\<lambda>s. (has_provider s, item_handle s \<or> error_item_handle s)"
  have m: "map ?g (sessions q) = map ?g (sessions p)" using assms by (simp add: frame_def)
  show n: "length (sessions q) = length (sessions p)" using map_eq_imp_length_eq[OF m] .
  show "i < length (sessions p) \<Longrightarrow> has_provider (sessions q ! i) = has_provider (sessions p ! i)"
    using arg_cong[OF m, of "\<lambda>xs. xs ! i"] n by simp
qed

lemma timer_ok_frame: "frame q = frame p \<Longrightarrow> timer_ok p t \<Longrightarrow> timer_ok q t"
  using frame_parts[of q p] by (cases t) auto

lemma handler_ok_frame:
  assumes "frame q = frame p" "\<And>i a. has_token p i a \<Longrightarrow> has_token q i a" "handler_ok p h"
  shows "handler_ok q h"
  using assms(2,3) frame_parts[OF assms(1)] by (cases h) auto

lemma pending_null_mono:
  assumes "timer_ok p t" "\<And>i. i < length (sessions p) \<Longrightarrow> is_muted (sessions p ! i) \<Longrightarrow> is_muted (sessions q ! i)"
  shows "pending_null q t \<le> pending_null p t"
  using assms by (cases t) (auto simp: pending_null_def split: option.split)

lemma mutes_nth: "mutes_are ms p \<Longrightarrow> i < length (sessions p) \<Longrightarrow> is_muted (sessions p ! i) = ms ! i"
  by (auto simp: mutes_are_def)

text \<open>A step of the event thread that unmutes nothing.\<close>

lemma handler_inv:
  assumes "threads_inv c" "calm q \<and> nulls q = nulls (prov c)" "frame q = frame (prov c)"
    and "\<And>i. i < length (sessions (prov c)) \<Longrightarrow> is_muted (sessions (prov c) ! i) \<Longrightarrow> is_muted (sessions q ! i)"
    and "handler_ok q h"
  shows "threads_inv (c\<lparr>prov := q, handler := h\<rparr>)"
  using assms timer_ok_frame[OF assms(3)] pending_null_mono[of "prov c" "timer c" q]
  by (fastforce simp: threads_inv_def)

lemma muted_kept:
  assumes "\<And>ms. keeps (mutes_are ms) m" "i < length (sessions p)" "frame (snd (m p)) = frame p"
  shows "is_muted (sessions (snd (m p)) ! i) = is_muted (sessions p ! i)"
proof -
  have "mutes_are (map is_muted (sessions p)) p" by (simp add: mutes_are_def)
  then have "mutes_are (map is_muted (sessions p)) (snd (m p))" by (rule keepsD[OF assms(1)])
  then show ?thesis using mutes_nth[of _ "snd (m p)" i] assms(2) frame_parts(2)[OF assms(3)] by simp
qed

lemma keeps_mutes_reset_token: "keeps (mutes_are ms) (reset_token env i a)"
  unfolding reset_token_def
  by (intro keeps_intro keeps_mutes_tokens keeps_mutes_silent[OF silent_bump] keeps_mutes_silent[OF silent_generateItemToken])

lemma calm_sized: "calm p \<Longrightarrow> a \<in> snd ` set (directory p) \<Longrightarrow> sized p a"
  by (auto simp: calm_def link_inv_def wire_irrelevant)

lemma SendDirectory_step:
  assumes I: "threads_inv c" and "handler c = Replying i" "SendDirectoryResponse env i (prov c) = (out, q)"
  shows "threads_inv (handler_step env c)"
proof -
  have q: "q = snd (SendDirectoryResponse env i (prov c))" using assms(3) by simp
  have f: "frame q = frame (prov c)" unfolding q by (rule framedD[OF framed_SendDirectoryResponse])
  have ok: "i < length (sessions q)" "has_provider (sessions q ! i)"
    using I assms(2) frame_parts[OF f] by (auto simp: threads_inv_def)
  have "handler_step env c = c\<lparr>prov := q, handler := (case out of Done _ \<Rightarrow> Resetting i (directory q) | _ \<Rightarrow> Quiet)\<rparr>"
    using assms(2,3) ok by (simp add: handler_step_def)
  also have "threads_inv \<dots>"
  proof (rule handler_inv[OF I _ f])
    show "calm q \<and> nulls q = nulls (prov c)"
      unfolding q by (rule calm_keeps[OF writes_SendDirectoryResponse keeps_SendDirectoryResponse])
        (use I in \<open>simp add: threads_inv_def\<close>)
    show "is_muted (sessions q ! j)" if "j < length (sessions (prov c))" "is_muted (sessions (prov c) ! j)" for j
      unfolding q using muted_kept[of "SendDirectoryResponse env i" j "prov c"] keeps_mutes_directory that f q by metis
    show "handler_ok q (case out of Done _ \<Rightarrow> Resetting i (directory q) | _ \<Rightarrow> Quiet)"
      using ok by (simp split: outcome.split)
  qed
  finally show ?thesis .
qed

lemma reset_step:
  assumes I: "threads_inv c" and h: "handler c = Resetting i ((ric, a) # es)" and r: "reset_token env i a (prov c) = (out, q)"
  shows "threads_inv (handler_step env c)"
proof -
  have q: "q = snd (reset_token env i a (prov c))" using r by simp
  have f: "frame q = frame (prov c)" unfolding q by (rule framedD[OF framed_reset_token])
  have ok: "i < length (sessions (prov c))" "has_provider (sessions (prov c) ! i)" "set ((ric, a) # es) \<subseteq> set (directory (prov c))"
    "\<forall>e \<in> set (directory (prov c)) - set ((ric, a) # es). has_token (prov c) i (snd e)" "calm (prov c)"
    using I h by (auto simp: threads_inv_def)
  have s: "sized (prov c) a" using calm_sized[OF ok(5), of a] ok(3) by force
  have "handler_step env c = c\<lparr>prov := q, handler := (case out of Done _ \<Rightarrow> Resetting i es | _ \<Rightarrow> Quiet)\<rparr>"
    using h r by (simp add: handler_step_def)
  also have "threads_inv \<dots>"
  proof (rule handler_inv[OF I _ f])
    show "calm q \<and> nulls q = nulls (prov c)"
      unfolding q by (rule calm_keeps[OF writes_reset_token keeps_reset_token ok(5)])
    show "is_muted (sessions q ! j)" if "j < length (sessions (prov c))" "is_muted (sessions (prov c) ! j)" for j
      unfolding q using muted_kept[of "reset_token env i a" j "prov c"] keeps_mutes_reset_token that f q by metis
    show "handler_ok q (case out of Done _ \<Rightarrow> Resetting i es | _ \<Rightarrow> Quiet)"
    proof (cases out)
      case (Done u)
      have D: "has_token q i a" "\<forall>j b. has_token (prov c) j b \<longrightarrow> has_token q j b"
        using reset_token_Done[of env i a "prov c" q] r Done ok(1) s by simp_all
      have "has_token q i (snd e)" if "e \<in> set (directory (prov c)) - set es" for e
        using that D ok(4) by (cases "e = (ric, a)") auto
      then show ?thesis using ok(1-3) frame_parts[OF f] Done by simp
    qed simp_all
  qed
  finally show ?thesis .
qed

lemma unmute_step:
  assumes I: "threads_inv c" and h: "handler c = Unmuting i"
  shows "threads_inv (handler_step env c)"
proof -
  let ?p = "prov c" and ?q = "snd (on_session i (\<lambda>s. s\<lparr>is_muted := False\<rparr>) (prov c))"
  have ok: "i < length (sessions ?p)" "has_provider (sessions ?p ! i)" "\<forall>e \<in> set (directory ?p). has_token ?p i (snd e)"
    "calm ?p" "timer_ok ?p (timer c)" "nulls ?p + pending_null ?p (timer c) \<le> overtaken c"
    using I h by (auto simp: threads_inv_def)
  have w: "writes (on_session i (\<lambda>s. s\<lparr>is_muted := False\<rparr>))" by (rule writes_on_session)
  have "link_inv (snd (on_session i (\<lambda>s. s\<lparr>is_muted := False\<rparr>) (?p\<lparr>wire := []\<rparr>)))"
    by (rule unmute) (use ok in \<open>simp_all add: calm_def wire_irrelevant\<close>)
  then have c: "calm ?q" "nulls ?q = nulls ?p" using calm_run[OF w, of ?p] by simp_all
  have f: "frame ?q = frame ?p" by (rule framedD, rule framed_on_session) simp_all
  have "pending_null ?q (timer c) \<le> pending_null ?p (timer c) + overtakes (timer c) i"
    using ok(5) by (cases "timer c")
      (auto simp: pending_null_def overtakes_def on_session_def method_simps nth_list_update split: option.split)
  then show ?thesis
    using c ok(6) timer_ok_frame[OF f ok(5)] h by (simp add: threads_inv_def handler_step_def)
qed

lemma handler_step_inv:
  assumes "threads_inv c"
  shows "threads_inv (handler_step env c)"
proof (cases "handler c")
  case Quiet
  then show ?thesis using assms by (simp add: handler_step_def)
next
  case (Replying i)
  then show ?thesis
    by (cases "SendDirectoryResponse env i (prov c)") (rule SendDirectory_step[OF assms])
next
  case (Resetting i es)
  show ?thesis
  proof (cases es)
    case Nil
    then show ?thesis using Resetting assms by (simp add: handler_step_def threads_inv_def)
  next
    case (Cons e es')
    then obtain ric a where "handler c = Resetting i ((ric, a) # es')" using Resetting by (cases e) auto
    then show ?thesis by (cases "reset_token env i a (prov c)") (rule reset_step[OF assms])
  qed
next
  case (Unmuting i)
  then show ?thesis by (rule unmute_step[OF assms])
qed

text \<open>The timer thread: an unmuted session has its token when it is read.\<close>

lemma calm_token:
  assumes "calm p" "a \<in> snd ` set (directory p)" "streams p a \<noteq> None" "i < length (sessions p)" "\<not> is_muted (sessions p ! i)"
  shows "stream_token p a i \<noteq> None"
  using published_token[of "length (sessions p)" a "p\<lparr>wire := []\<rparr>" i] assms
  by (simp add: published_def calm_def wire_irrelevant)

lemma Submit_step:
  assumes I: "threads_inv c" and t: "timer c = Submitting a msg i tok" and s: "Submit env i msg tok (prov c) = (out, q)"
  shows "threads_inv (timer_step env c)"
proof -
  let ?p = "prov c"
  have q: "q = snd (Submit env i msg tok ?p)" using s by simp
  have f: "frame q = frame ?p" unfolding q by (rule framedD[OF framed_Submit])
  have L: "links q = (if has_provider (sessions ?p ! i) then links (?p\<lparr>wire := wire ?p @ [(i, tok, msg)]\<rparr>) else links ?p)"
    unfolding q by (rule Submit_links)
  have "links (q\<lparr>wire := []\<rparr>) = links (?p\<lparr>wire := []\<rparr>)" using L by (simp add: links_def split: if_splits)
  then have c: "calm q" using I link_inv_links[of "?p\<lparr>wire := []\<rparr>" "q\<lparr>wire := []\<rparr>"]
    by (simp add: threads_inv_def calm_def)
  have w: "wire q = wire ?p \<or> wire q = wire ?p @ [(i, tok, msg)]" using L by (simp add: links_def split: if_splits)
  have n: "nulls q \<le> nulls ?p + pending_null ?p (timer c)"
    using w t by (auto simp: nulls_def pending_null_def split: option.split)
  have h: "handler_ok q (handler c)"
  proof (rule handler_ok_frame[OF f])
    have "has_token q = has_token ?p"
      using L frame_parts(2)[OF f] by (simp add: has_token_def links_def fun_eq_iff split: if_splits)
    then show "has_token ?p j b \<Longrightarrow> has_token q j b" for j b by simp
  qed (use I in \<open>simp add: threads_inv_def\<close>)
  have "timer_step env c = c\<lparr>prov := q, timer := (case out of Done _ \<Rightarrow> Fetching a msg (Suc i) | _ \<Rightarrow> Idle)\<rparr>"
    using t s by (simp add: timer_step_def)
  moreover have "timer_ok q (case out of Done _ \<Rightarrow> Fetching a msg (Suc i) | _ \<Rightarrow> Idle)"
    using I t frame_parts[OF f] by (auto simp: threads_inv_def split: outcome.split)
  moreover have "pending_null q (case out of Done _ \<Rightarrow> Fetching a msg (Suc i) | _ \<Rightarrow> Idle) = 0"
    by (simp add: pending_null_def split: outcome.split)
  ultimately show ?thesis using I c n h by (simp add: threads_inv_def)
qed

lemma send_end_links: "links (snd (send_end env p)) = links p"
proof -
  have "silent (send_end env)"
    unfolding send_end_def
    by (intro silent_intro) (simp add: silent_def keeps_def method_simps links_def)
  then show ?thesis by (rule silentD)
qed

lemma links_inv:
  assumes "threads_inv c" "links q = links (prov c)"
  shows "calm q" "frame q = frame (prov c)" "nulls q = nulls (prov c)" "handler_ok q (handler c)"
proof -
  have "links (q\<lparr>wire := []\<rparr>) = links (prov c\<lparr>wire := []\<rparr>)" using assms(2) by (simp add: links_def)
  then show "calm q" using assms(1) link_inv_links[of "prov c\<lparr>wire := []\<rparr>" "q\<lparr>wire := []\<rparr>"]
    by (simp add: threads_inv_def calm_def)
  show f: "frame q = frame (prov c)" by (rule frame_core) (use assms(2) in \<open>simp_all add: links_def\<close>)
  show "nulls q = nulls (prov c)" using assms(2) by (simp add: links_def nulls_def)
  have "has_token q = has_token (prov c)"
    using assms(2) frame_parts(2)[OF f] by (simp add: has_token_def links_def fun_eq_iff)
  then show "handler_ok q (handler c)"
    using assms(1) by (intro handler_ok_frame[OF f]) (simp_all add: threads_inv_def)
qed

lemma timer_step_inv:
  assumes I: "threads_inv c"
  shows "threads_inv (timer_step env c)"
proof (cases "timer c")
  case Idle
  then show ?thesis using I by (simp add: timer_step_def)
next
  case (Fetching a msg i)
  show ?thesis
  proof (cases "i < length (sessions (prov c))")
    case True
    then have "\<not> is_muted (sessions (prov c) ! i) \<Longrightarrow> stream_token (prov c) a i \<noteq> None"
      using I Fetching by (intro calm_token) (auto simp: threads_inv_def)
    then show ?thesis
      using I Fetching True by (auto simp: timer_step_def threads_inv_def pending_null_def split: option.split)
  next
    case False
    note L = links_inv[OF I send_end_links]
    show ?thesis
      using I Fetching False L by (simp add: timer_step_def threads_inv_def pending_null_def)
  qed
next
  case (Holding a msg i t)
  then show ?thesis
    using I by (auto simp: timer_step_def threads_inv_def pending_null_def split: option.splits)
next
  case (Submitting a msg i t)
  then show ?thesis by (cases "Submit env i msg t (prov c)") (rule Submit_step[OF I])
qed

lemma event_step_inv:
  assumes I: "threads_inv c" and h: "handler c = Quiet" and i: "i < length (sessions (prov c))"
    "item_handle (sessions (prov c) ! i) \<or> error_item_handle (sessions (prov c) ! i)" and v: "verdict ev \<noteq> Some False"
  shows "threads_inv (c\<lparr>prov := snd (processEvent env i ev (prov c))\<rparr>)"
proof -
  let ?p = "prov c" and ?q = "snd (processEvent env i ev (prov c))"
  have f: "frame ?q = frame ?p" by (rule framedD[OF framed_processEvent[OF v]])
  have cp: "calm ?p" using I by (simp add: threads_inv_def)
  then have "session_inv ?p i (core (sessions ?p ! i))" using i(1) by (simp add: calm_def link_inv_def wire_irrelevant)
  then have "live i (?p\<lparr>wire := []\<rparr>)" using i cp by (auto simp: live_def calm_def core_def)
  then have c: "calm ?q \<and> nulls ?q = nulls ?p"
    by (intro calm_run[OF writes_processEvent[OF v]] live_processEvent)
  have "mutes_are (map is_muted (sessions ?p)) ?p" by (simp add: mutes_are_def)
  from processEvent_mutes(1)[OF this, of env i ev "fst (processEvent env i ev ?p)" ?q] v
  have "is_muted (sessions ?q ! j)" if "j < length (sessions ?p)" "is_muted (sessions ?p ! j)" for j
    using that i(1) frame_parts(2)[OF f] mutes_nth[of _ ?q j] by (auto simp: nth_list_update)
  then have "threads_inv (c\<lparr>prov := ?q, handler := Quiet\<rparr>)"
    by (intro handler_inv[OF I c f]) simp_all
  then show ?thesis using h by (simp add: threads_inv_def)
qed

lemma thread_step_inv: "thread_step env c d \<Longrightarrow> threads_inv c \<Longrightarrow> threads_inv d"
proof (induction rule: thread_step.induct)
  case (send c name a msg)
  then show ?case by (force simp: threads_inv_def pending_null_def)
next
  case (login c i)
  note L = links_inv[OF login.prems silentD[OF silent_login_received]]
  have "session_inv (prov c) i (core (sessions (prov c) ! i))"
    using login by (simp add: threads_inv_def calm_def link_inv_def wire_irrelevant)
  then have "has_provider (sessions (prov c) ! i)" using login.hyps(3) by (auto simp: core_def)
  then have h: "handler_ok (snd (login_received env i (prov c))) (Replying i)"
    using login.hyps(2) frame_parts[OF L(2)] by simp
  have m: "keeps (mutes_are ms) (login_received env i)" for ms by (rule keeps_mutes_silent[OF silent_login_received])
  show ?case
    by (rule handler_inv[OF login.prems _ L(2) _ h]) (use L muted_kept[OF m _ L(2)] in simp_all)
next
  case (event c i ev)
  then show ?case by (intro event_step_inv)
qed (simp_all add: timer_step_inv handler_step_inv)

lemma threads_reach_inv: "threads_reach env cfg c \<Longrightarrow> threads_inv c"
proof (induction rule: threads_reach.induct)
  case (start p)
  then show ?case using link_reach_inv[OF start] calm_link_inv(2)[of p]
    by (simp add: threads_inv_def threads_init_def pending_null_def)
next
  case (step c d)
  then show ?case using thread_step_inv by blast
qed

section \<open>Null tokens\<close>

text \<open>
  C2. A message goes to RFA with a null item token only where a login has overtaken a send: with the
  steps of the two threads interleaved in any way, no more null tokens have been submitted than logins
  have unmuted a session between the read of its token in \<open>provider_t::Send\<close> and the test of its
  permission in \<open>session_t::Send\<close>. So as long as no login falls into such a gap, none is.
\<close>

theorem null_tokens_overtaken:
  assumes "threads_reach env cfg c"
  shows "length (filter (\<lambda>(i, t, msg). t = None) (wire (prov c))) \<le> overtaken c"
  using threads_reach_inv[OF assms] by (simp add: threads_inv_def nulls_def)

text \<open>
  The gap is there. The session of the run is muted and has the stream \<open>MI\<close>: the timer thread reads the
  token, which is null, the login hands out tokens and unmutes, and the timer thread submits what it
  holds.
\<close>

definition overtaking_run :: "nat \<Rightarrow> threads" where
  "overtaking_run n =
     (let c = timer_step demo_env ((threads_init demo_open)\<lparr>timer := Fetching 0 (directory_message OmmBlank) 0\<rparr>);
          d = c\<lparr>prov := snd (login_received demo_env 0 (prov c)), handler := Replying 0\<rparr>
      in (timer_step demo_env ^^ n) ((handler_step demo_env ^^ 4) d))"

lemma overtaking_run_reach: "threads_reach demo_env demo_config (overtaking_run n)"
proof -
  have steps: "threads_reach demo_env demo_config c \<Longrightarrow> threads_reach demo_env demo_config ((f ^^ k) c)"
    if "\<And>c. thread_step demo_env c (f c)" for f k c
    using that by (induction k) (auto intro: threads_reach.step)
  let ?c = "threads_init demo_open"
  have d: "directory demo_open = [(''MI'', 0)]" "streams demo_open 0 \<noteq> None" "length (sessions demo_open) = 1"
    "item_handle (sessions demo_open ! 0)"
    using demo_open_run by (auto simp: observe_def)
  have "threads_reach demo_env demo_config (?c\<lparr>timer := Fetching 0 (directory_message OmmBlank) 0\<rparr>)"
    by (rule threads_reach.step[OF threads_reach.start[OF demo_reach(2)]], rule thread_step.send[of _ "''MI''"])
      (use d in \<open>simp_all add: threads_init_def\<close>)
  then have one: "threads_reach demo_env demo_config
      (timer_step demo_env (?c\<lparr>timer := Fetching 0 (directory_message OmmBlank) 0\<rparr>))" (is "threads_reach _ _ ?d")
    by (rule threads_reach.step) (rule thread_step.timer)
  have "prov ?d = demo_open" "handler ?d = Quiet"
    using d(3) by (simp_all add: timer_step_def threads_init_def)
  then have "threads_reach demo_env demo_config
      (?d\<lparr>prov := snd (login_received demo_env 0 (prov ?d)), handler := Replying 0\<rparr>)"
    by (intro threads_reach.step[OF one] thread_step.login) (use d in simp_all)
  then show ?thesis
    unfolding overtaking_run_def Let_def by (intro steps thread_step.timer thread_step.handler)
qed

definition demo_received :: provider where
  "demo_received = snd (login_received demo_env 0 demo_open)"

definition demo_replied :: provider where
  "demo_replied = snd (SendDirectoryResponse demo_env 0 demo_received)"

lemma demo_replied_run:
  "fst (login_received demo_env 0 demo_open) = Done ()"
  "fst (SendDirectoryResponse demo_env 0 demo_received) = Done True"
  "observe demo_replied = ([(True, True, True)], [(''MI'', 0)], Some \<lparr>stream_name = ''MI'', stream_tokens = [None]\<rparr>, [(0, Some 14)])"
  "fst (reset_token demo_env 0 0 demo_replied) = Done ()"
  by (simp_all add: demo_replied_def demo_received_def login_received_def demo_open_def demo_start_def rfa_run demo_defs
      cong: bindm_weak)

theorem login_overtakes_send:
  "map (\<lambda>(i, t, msg). (i, t)) (wire (prov (overtaking_run 2))) = [(0, Some 14), (0, None)] \<and>
   overtaken (overtaking_run 2) = 1"
proof -
  let ?u = "on_session 0 (\<lambda>s. s\<lparr>is_muted := False\<rparr>)" and ?m = "directory_message OmmBlank"
  define q where "q = snd (reset_token demo_env 0 0 demo_replied)"
  have runs: "login_received demo_env 0 demo_open = (Done (), demo_received)"
    "SendDirectoryResponse demo_env 0 demo_received = (Done True, demo_replied)"
    "reset_token demo_env 0 0 demo_replied = (Done (), q)"
    using demo_replied_run by (simp_all add: demo_received_def demo_replied_def q_def prod_eq_iff)
  have o: "has_provider (sessions demo_replied ! 0)" "directory demo_replied = [(''MI'', 0)]"
    using demo_replied_run(3) by (auto simp: observe_def)
  have logged: "demo_login = snd (?u q)"
    unfolding demo_login_def login_event_parts
    using runs o by (simp add: seq_Done_run[of "login_received demo_env 0", OF runs(1)] try_catch_def bindm_def seq_def
        ResetTokens_def method_simps on_session_def)
  have opened: "length (sessions demo_open) = 1" "stream_token demo_open 0 0 = None"
    using demo_open_run by (auto simp: observe_def stream_token_def)
  have four: "(handler_step demo_env ^^ 4) \<lparr>prov = demo_received, timer = Holding 0 ?m 0 None, handler = Replying 0, overtaken = 0\<rparr> =
      \<lparr>prov = demo_login, timer = Holding 0 ?m 0 None, handler = Quiet, overtaken = 1\<rparr>"
    using runs o by (simp add: numeral_eq_Suc handler_step_def overtakes_def logged)
  have l: "\<not> is_muted (sessions demo_login ! 0)" "has_provider (sessions demo_login ! 0)"
    "map (\<lambda>(i, t, msg). (i, t)) (wire demo_login) = [(0, Some 14)]"
    using demo_login_run by (auto simp: observe_def)
  have "wire (snd (Submit demo_env 0 ?m None demo_login)) = wire demo_login @ [(0, None, ?m)]"
    using Submit_links[of demo_env 0 ?m None demo_login] l(2) by (simp add: links_def)
  then have "map (\<lambda>(i, t, msg). (i, t)) (wire (prov (overtaking_run 2))) = [(0, Some 14)] @ [(0, None)] \<and> overtaken (overtaking_run 2) = 1"
    using opened l runs(1) four
    by (simp add: overtaking_run_def timer_step_def threads_init_def numeral_2_eq_2 split_beta)
  then show ?thesis by simp
qed

theorem null_tokens_overtaken_witness:
  "length (filter (\<lambda>(i, t, msg). t = None) (wire (prov (overtaking_run 2)))) \<le> 1"
  using null_tokens_overtaken[OF overtaking_run_reach] login_overtakes_send by metis

end
