(* ===== verification/Spec2Isabelle.thy ===== *)
theory Spec2Isabelle
  imports Plugin Printing Json_Text Config_Xml Snmp_Agent Value_Trees Event_Trace Locks Stack_Traces Provider_Threads
begin

text \<open>
  A model of psych, the adapter that queries the MarketPsych analytics over HTTP and publishes them as
  non-interactive RFA/RSSL item streams, and the theorems that make it correct. All paths below are
  under \<open>src/src/\<close>.

  \<^bold>\<open>The program.\<close> \<open>psych_t\<close> (\<open>psych.cc\<close>) reads its configuration (\<open>config.cc\<close>, from JSON through
  \<open>chromium/json/json_reader.cc\<close> and \<open>chromium/values.cc\<close>, or from XML in the plugin build), sets up
  RFA (\<open>rfa.cc\<close>), a provider (\<open>provider.cc\<close>) with one session per configured connection (\<open>session.cc\<close>),
  creates one item stream per instrument, and then runs a timer. On every tick it requests each feed
  (\<open>httpPsychQuery\<close>: libcurl transfers, rounds, retries), checks the response and reads its
  tab-separated text (\<open>OnHttpResponse\<close>, with the header and data callbacks), and publishes a refresh
  per stream (\<open>SendRefresh\<close>). The provider hands each message to every
  session; a session sends when it is logged in and not muted. RFA events (login states, command
  errors, connection events) drive the state of a session. \<open>psychMIB.cc\<close> answers SNMP queries about the
  instances and their sessions, \<open>snmp_agent.cc\<close> starts and stops the agent. \<open>main.cc\<close> parses the command
  line (\<open>chromium/command_line.cc\<close>), sets up the log (\<open>chromium/logging.cc\<close>, \<open>chromium/vlog.cc\<close>) and the Windows
  services, and runs the adapter.

  \<^bold>\<open>Theories.\<close>
  \<^item> \<open>Prelude\<close>: errors and results, generic lemmas on lists and options, ordered maps (\<open>std::map\<close>).
  \<^item> \<open>Effects\<close>: methods, that is functions from a state to an outcome and the state left (\<open>bindm\<close>, \<open>seq\<close>,
    \<open>try_catch\<close>, \<open>for_each\<close>), the preservation calculus \<open>keeps\<close>, the calculus of weakest preconditions
    \<open>wp\<close> and \<open>returns\<close> (a method that comes back).
  \<^item> \<open>Strings\<close>, \<open>Tokenizer\<close>, \<open>Numbers\<close>: \<open>string_util.cc\<close> (trimming), \<open>string_split.cc\<close>,
    \<open>string_tokenizer.hh\<close>, \<open>string_number_conversions.cc\<close>; the splitters against their specification,
    the tokens of both strategies, number/text round trips at the widths of the C++ types.
  \<^item> \<open>String_Pieces\<close>, \<open>Vlog\<close>, \<open>Command_Line\<close>: \<open>string_piece.cc\<close> (each search against its specification),
    \<open>vlog.cc\<close> (the pattern matcher against a reference definition), \<open>command_line.cc\<close> (what parsing an
    argument vector yields, and that the divider stays within the vector).
  \<^item> \<open>Logging\<close>: \<open>logging.cc\<close> and \<open>logging.hh\<close>. Set-up, lock, file, one message from header to destinations,
    the macros; the invariant of all reachable states of the log. \<open>Files_Text\<close>: \<open>file_util.cc\<close> and
    \<open>stringprintf.cc\<close>. \<open>Process\<close>: \<open>main.cc\<close>, down to the exit code. \<open>Plugin\<close>: \<open>plugin.cc\<close> and, of \<open>tcl.cc\<close>,
    the registration and dispatch of the commands.
  \<^item> \<open>Singleton\<close>: the atomic operations of \<open>chromium/atomicops_internals_x86_msvc.hh\<close> and
    \<open>chromium/memory/singleton.hh\<close>. The threads inside \<open>get\<close> are positions in one shared record, each
    atomic operation is a step, and the locale of what the traits promise carries the phases of the
    instance; the traits on the heap and those in a static buffer are its instances. \<open>Locks\<close>:
    \<open>chromium/synchronization\<close>, mutual exclusion and the debugging members over every order of steps.
  \<^item> \<open>Event_Trace\<close>: \<open>chromium/win/event_trace_provider.cc\<close> and \<open>chromium/logging_win.cc\<close> on top of
    \<open>Logging\<close> and \<open>Singleton\<close>: a trace session sees the messages the log lets through, and what it hides
    from the other destinations. \<open>Stack_Traces\<close>:
    \<open>chromium/debug\<close>. \<open>Printing\<close>: the texts of \<open>config.hh\<close>, \<open>rfaostream.hh\<close>, \<open>error.cc\<close> and
    \<open>rfa_logging.cc\<close>.
  \<^item> \<open>Values\<close>: the tree of \<open>values.cc\<close>, its dictionaries (paths included) and lists. \<open>Value_Trees\<close>: the
    refinement of the path operations to nested maps; \<open>Equals\<close> decides equality.
  \<^item> \<open>Json\<close>, \<open>Json_Docs\<close>, \<open>Json_Text\<close>: \<open>json_reader.cc\<close>. The tokens, the recursive descent, error code,
    line and column; that reading returns, the shape of a document. The concrete syntax of the
    documents, as trees with a text and a value, and that every text is read to its value; the plain
    text of a value as one of them.
  \<^item> \<open>Config\<close>, \<open>Config_Xml\<close>: \<open>config.hh\<close> and \<open>config.cc\<close>. The configuration, its validation, the
    JSON reader, the XML reader over a document interface, what each accepts.
  \<^item> \<open>Rfa_Model\<close>: the state of \<open>provider.hh\<close> and \<open>session.hh\<close>, RFA messages, the environment of RFA
    answers. \<open>Session\<close> and \<open>Provider\<close>: the operations of \<open>session.cc\<close> and \<open>provider.cc\<close>.
    \<open>Provider_Safety\<close>: the locale of what a sink of messages promises, the invariant of sessions and
    provider through every operation and event, and which messages reach the wire, with an event or a
    send as one step. \<open>Provider_Threads\<close>: the send of the timer thread and the login of the event thread
    taken apart into their accesses to what they share and interleaved; the steps run without
    interruption are the operations.
  \<^item> \<open>Http\<close>, \<open>Publish\<close>, \<open>Query\<close>, \<open>Psych\<close>: the parts of \<open>psych.cc\<close>: the libcurl callbacks and the
    response reader; building and sending a refresh; the query with its rounds and retries; start-up,
    shutdown, timer and the tick. \<open>Rfa\<close>: the database of settings \<open>rfa.cc\<close> builds, path by path.
  \<^item> \<open>Adapter\<close>: the reachable states of the whole adapter (start-up, then RFA events and timer calls as
    an inductive relation) and what holds in all of them. \<open>Application\<close>: \<open>psych_t::Run\<close>, its event loop
    and the console handler, down to the text of the configuration file.
  \<^item> \<open>Snmp_Tables\<close>, \<open>Snmp_Walks\<close>, \<open>Snmp_Agent\<close>: \<open>psychMIB.hh\<close>, \<open>psychMIB.cc\<close> and \<open>snmp_agent.cc\<close>. The list of
    instances, the iterator hooks of the four tables, their handlers and registration; the locale of
    what a walk over a table promises, with the four tables as its instances; the life of the agent.
    A walk is given the number of calls; one per data point is enough.

  \<^bold>\<open>Conventions.\<close> Classes are records, a method is an \<open>operation\<close> that reads and changes the record of
  its object, a thrown exception, the use of a null pointer and undefined behaviour are values of
  \<open>failure\<close>; what was changed before stays changed. A \<open>std::map\<close> is an association list ordered by its
  keys; pointers that are shared (item streams) are addresses into a store. Integers are words of
  their width where the code can wrap and otherwise integers whose reduction is written out; a double
  is its 64 bits. A loop that may not end is a \<open>partial_function\<close> or has the outcome \<open>Diverged\<close>; every
  other loop is structural or has a measure. The JSON reader runs on fuel, twice the length of the text
  and two, and \<open>wp_JsonToValue\<close> shows that it never runs out.

  \<^bold>\<open>Environment.\<close> Code outside the repository is a parameter: the answers of RFA (\<open>rfa_env\<close>), the
  configuration database (\<open>rfa_db_env\<close>), libcurl, with the headers and blocks it delivers and its
  return codes, Boost.Date_Time and the clock, DACS, the arithmetic of doubles, \<open>std::stod\<close>, the
  Xerces document (\<open>dom_env\<close>), net-snmp, the files, mutexes, sockets and timers of Windows (\<open>log_env\<close>,
  \<open>win_env\<close>), its critical sections (\<open>section_api\<close>), event tracing (\<open>trace_env\<close>) and debugging library
  (\<open>symbol_env\<close>), the numbers of RFA's enumerators and the formatting of the C library. A hypothesis on one of them states its documented behaviour and each
  theorem that has one comes with a concrete instance. The model is of the release build. A failed
  \<open>CHECK\<close> or \<open>DCHECK\<close> only logs (theorem \<open>Logging.checks_continue\<close>), so the code behind it is what counts; \<open>long\<close>, \<open>__time32_t\<close> and \<open>DWORD\<close> have
  32 bits (Windows), \<open>size_t\<close> is that of the 64-bit target.
  \<open>std::string::reserve\<close> gives exactly the capacity asked for;
  libcurl calls the callbacks of one transfer in order; texts are shorter than \<open>2\<^sup>31\<close> bytes. Threads
  take atomic steps on a memory they all see at once.

  \<^bold>\<open>What the theorems show.\<close> On the wire: a session that may publish has a token for every live stream,
  only a login response changes who may publish, \<open>provider_t::Send\<close> submits once on every session that
  may, and a null token is submitted only where a login of the event thread falls between two accesses
  of a send, as can happen. Publication: what an accepted response
  guarantees, which rows are published with which fields, and that an accepted response leaves the
  queue; a query comes back, if its delay is not the one that never ends, and waits a bounded number of
  times. Start-up: from the text of the file to
  the streams, and what each shape of configuration leads to. Readers and writers: the JSON, XML,
  number and string code against specifications and round trips. Flaws of the code are theorems too
  (for instance the reference count of libcurl that underflows, the start-up loop that never ends, the
  header callback that writes past its buffer, the close times from 2038 on that have no date, the failed checks that do not stop the process) and are
  listed with the manifest. Threads: a singleton is created once and found by all, also in a static
  buffer after the exit of the process, and a lock admits one thread. The process: what its arguments mean for the log, where a message goes, and
  that a process that comes back has released what it acquired. SNMP: what a walk of each table visits.

  \<^bold>\<open>Not modelled.\<close> What each call of the adapter logs; the entry point of the plugin and the two Tcl
  commands, whose build does not compile at this commit (\<open>psych.cc:311\<close>, \<open>psych.cc:463\<close>) and which query with
  references that dangle (\<open>tcl.cc:140\<close>); the order in which other processors see writes to different
  cells; the order of the provider's hash map of streams, which is that of insertion here; the
  registration of the Windows event provider in \<open>main.cc\<close>; \<open>Resurrect\<close> as a step of a singleton's life; preprocessor macros, the vendored samples, and the program that prints the version of RFA.
\<close>

end
